(* ===== verification/Prelude.thy ===== *)
theory Prelude
  imports Complex_Main "HOL-Library.AList" "HOL-Library.Sublist" "HOL-Library.Log_Nat"
begin

text \<open>
  The vocabulary every component of the Dex connector SDK model shares: Python strings as
  lists of code points, UTF-8, the predicates of the regular expressions the SDK compiles,
  results with an exception on the left, dictionaries as ordered association lists, and
  binary floating point.  The generic lemmas are declared to the simplifier or collected in
  \<open>res_simps\<close> (the result combinators) and \<open>wire_simps\<close> (dictionary look-ups),
  so that component proofs name a collection and not its members.
\<close>

named_theorems res_simps \<open>unfolding rules of the result combinators\<close>
named_theorems wire_simps \<open>look-ups in literal dictionaries\<close>

section \<open>Strings\<close>

text \<open>
  A Python \<open>str\<close> is a sequence of code points, which may be any natural number up to
  \<open>0x10FFFF\<close>, lone surrogates included; \<open>bytes\<close> are numbers below 256.  Literals of the
  source are ASCII and are written \<open>str ''\<dots>''\<close>.
\<close>

type_synonym pystr = "nat list"
type_synonym bytes = "nat list"

definition str :: "string \<Rightarrow> pystr" where
  "str s = map of_char s"

lemma str_eq_iff [simp]: "str s = str t \<longleftrightarrow> s = t"
  by (simp add: str_def inj_map_eq_map inj_of_char)

lemma str_Nil [simp]: "str [] = []"
  by (simp add: str_def)

lemma str_eq_Nil_iff [simp]: "str s = [] \<longleftrightarrow> s = []"
  by (simp add: str_def)

lemma Nil_eq_str_iff [simp]: "[] = str s \<longleftrightarrow> s = []"
  by (auto simp: str_def)

lemma length_str [simp]: "length (str s) = length s"
  by (simp add: str_def)

subsection \<open>Character classes and stripping\<close>

text \<open>The classes of the SDK's regular expressions, on code points.\<close>

definition is_lower :: "nat \<Rightarrow> bool" where
  "is_lower c \<longleftrightarrow> 97 \<le> c \<and> c \<le> 122"

definition is_upper :: "nat \<Rightarrow> bool" where
  "is_upper c \<longleftrightarrow> 65 \<le> c \<and> c \<le> 90"

definition is_digit :: "nat \<Rightarrow> bool" where
  "is_digit c \<longleftrightarrow> 48 \<le> c \<and> c \<le> 57"

definition is_alpha :: "nat \<Rightarrow> bool" where
  "is_alpha c \<longleftrightarrow> is_lower c \<or> is_upper c"

definition is_alnum :: "nat \<Rightarrow> bool" where
  "is_alnum c \<longleftrightarrow> is_alpha c \<or> is_digit c"

definition is_hex_lower :: "nat \<Rightarrow> bool" where
  "is_hex_lower c \<longleftrightarrow> is_digit c \<or> (97 \<le> c \<and> c \<le> 102)"

lemmas char_class_defs = is_lower_def is_upper_def is_digit_def is_alpha_def is_alnum_def
  is_hex_lower_def

text \<open>
  \<open>str.isspace\<close> holds exactly of these code points; \<open>str.strip()\<close> removes them from
  both ends, and a string is blank when stripping leaves nothing.
\<close>

definition is_space :: "nat \<Rightarrow> bool" where
  "is_space c \<longleftrightarrow> (9 \<le> c \<and> c \<le> 13) \<or> (28 \<le> c \<and> c \<le> 32) \<or> c = 133 \<or> c = 160 \<or> c = 5760
     \<or> (8192 \<le> c \<and> c \<le> 8202) \<or> c = 8232 \<or> c = 8233 \<or> c = 8239 \<or> c = 8287 \<or> c = 12288"

definition strip_by :: "(nat \<Rightarrow> bool) \<Rightarrow> pystr \<Rightarrow> pystr" where
  "strip_by p s = rev (dropWhile p (rev (dropWhile p s)))"

definition strip :: "pystr \<Rightarrow> pystr" where
  "strip = strip_by is_space"

definition rstrip_by :: "(nat \<Rightarrow> bool) \<Rightarrow> pystr \<Rightarrow> pystr" where
  "rstrip_by p s = rev (dropWhile p (rev s))"

lemma strip_by_eq_Nil_iff: "strip_by p s = [] \<longleftrightarrow> list_all p s"
proof -
  have "list_all p s \<longleftrightarrow> dropWhile p s = []"
    by (simp add: list_all_iff)
  also have "\<dots> \<longleftrightarrow> strip_by p s = []"
  proof
    assume "strip_by p s = []"
    then have "\<forall>x \<in> set (dropWhile p s). p x"
      by (simp add: strip_by_def)
    then show "dropWhile p s = []"
      using hd_dropWhile [of p s] hd_in_set [of "dropWhile p s"] by auto
  next
    assume "dropWhile p s = []"
    then show "strip_by p s = []"
      by (simp only: strip_by_def rev.simps dropWhile.simps)
  qed
  finally show ?thesis by blast
qed

lemma strip_eq_Nil_iff: "strip s = [] \<longleftrightarrow> list_all is_space s"
  by (simp add: strip_def strip_by_eq_Nil_iff)

lemma strip_nonempty: "strip s \<noteq> [] \<Longrightarrow> s \<noteq> []"
  by (auto simp: strip_eq_Nil_iff)

lemma rstrip_by_append: "\<exists>t. list_all p t \<and> s = rstrip_by p s @ t"
proof -
  have "rev s = takeWhile p (rev s) @ dropWhile p (rev s)"
    by simp
  then have "s = rev (dropWhile p (rev s)) @ rev (takeWhile p (rev s))"
    by (metis rev_append rev_rev_ident)
  moreover have "list_all p (rev (takeWhile p (rev s)))"
    by (auto simp: list_all_iff dest: set_takeWhileD)
  ultimately show ?thesis
    by (metis rstrip_by_def)
qed

lemma rstrip_by_Nil [simp]: "rstrip_by p [] = []"
  by (simp add: rstrip_by_def)

lemma rstrip_by_idem [simp]: "rstrip_by p (rstrip_by p s) = rstrip_by p s"
  by (simp add: rstrip_by_def)

lemma list_all_rstrip_by: "list_all q s \<Longrightarrow> list_all q (rstrip_by p s)"
  by (auto simp: rstrip_by_def list_all_iff dest: set_dropWhileD)

lemma rstrip_by_last: "rstrip_by p s \<noteq> [] \<Longrightarrow> \<not> p (last (rstrip_by p s))"
  using hd_dropWhile [of p "rev s"] by (simp add: rstrip_by_def last_rev del: dropWhile_eq_Nil_conv)

subsection \<open>Sub-strings\<close>

text \<open>\<open>needle in haystack\<close>, \<open>startswith\<close> and \<open>endswith\<close>; \<open>split\<close> on one character.\<close>

fun contains :: "'a list \<Rightarrow> 'a list \<Rightarrow> bool" where
  "contains needle [] \<longleftrightarrow> needle = []"
| "contains needle (c # cs) \<longleftrightarrow> prefix needle (c # cs) \<or> contains needle cs"

lemma contains_iff_sublist: "contains needle s \<longleftrightarrow> sublist needle s"
  by (induction s) (auto simp: sublist_Cons_right)

fun split_on :: "nat \<Rightarrow> pystr \<Rightarrow> pystr list" where
  "split_on d [] = [[]]"
| "split_on d (c # cs) =
     (if c = d then [] # split_on d cs
      else (case split_on d cs of [] \<Rightarrow> [[c]] | w # ws \<Rightarrow> (c # w) # ws))"

lemma split_on_nonempty [simp]: "split_on d s \<noteq> []"
  by (induction s) (auto split: list.splits)

lemma split_on_no_delim: "d \<notin> set s \<Longrightarrow> split_on d s = [s]"
  by (induction s) auto

lemma split_on_append_delim:
  "d \<notin> set s \<Longrightarrow> split_on d (s @ d # t) = s # split_on d t"
  by (induction s) auto

lemma split_on_segment_no_delim: "w \<in> set (split_on d s) \<Longrightarrow> d \<notin> set w"
  by (induction s arbitrary: w) (auto split: list.splits if_splits)

text \<open>\<open>str.replace\<close> of one character by a string.\<close>

definition replace_char :: "nat \<Rightarrow> pystr \<Rightarrow> pystr \<Rightarrow> pystr" where
  "replace_char c r s = concat (map (\<lambda>x. if x = c then r else [x]) s)"

lemma replace_char_absent [simp]: "c \<notin> set s \<Longrightarrow> replace_char c r s = s"
  by (induction s) (auto simp: replace_char_def)

lemma replace_char_append: "replace_char c r (s @ t) = replace_char c r s @ replace_char c r t"
  by (simp add: replace_char_def)

section \<open>Results\<close>

text \<open>
  A call that may raise is a sum: \<open>raise e\<close> is the exception, \<open>ret x\<close> the value.
  \<open>ebind\<close> runs the continuation on a value and lets an exception through; \<open>ethen\<close>
  ignores a unit value; \<open>emap\<close> and \<open>eall\<close> are the Python loops that stop at the first
  exception.
\<close>

abbreviation raise :: "'e \<Rightarrow> 'e + 'a" where
  "raise \<equiv> Inl"

abbreviation ret :: "'a \<Rightarrow> 'e + 'a" where
  "ret \<equiv> Inr"

definition ebind :: "'e + 'a \<Rightarrow> ('a \<Rightarrow> 'e + 'b) \<Rightarrow> 'e + 'b" where
  "ebind m f = (case m of Inl e \<Rightarrow> Inl e | Inr x \<Rightarrow> f x)"

definition ethen :: "'e + unit \<Rightarrow> 'e + 'b \<Rightarrow> 'e + 'b" where
  "ethen m k = ebind m (\<lambda>_. k)"

definition ensure :: "bool \<Rightarrow> 'e \<Rightarrow> 'e + unit" where
  "ensure b e = (if b then Inr () else Inl e)"

fun emap :: "('a \<Rightarrow> 'e + 'b) \<Rightarrow> 'a list \<Rightarrow> 'e + 'b list" where
  "emap f [] = Inr []"
| "emap f (x # xs) = ebind (f x) (\<lambda>y. ebind (emap f xs) (\<lambda>ys. Inr (y # ys)))"

fun eall :: "('a \<Rightarrow> 'e + unit) \<Rightarrow> 'a list \<Rightarrow> 'e + unit" where
  "eall f [] = Inr ()"
| "eall f (x # xs) = ethen (f x) (eall f xs)"

definition is_ok :: "'e + 'a \<Rightarrow> bool" where
  "is_ok m = (case m of Inl _ \<Rightarrow> False | Inr _ \<Rightarrow> True)"

lemma ebind_simps [simp]: "ebind (Inl e) f = Inl e" "ebind (Inr x) f = f x"
  by (simp_all add: ebind_def)

lemma ethen_simps [simp]: "ethen (Inl e) k = Inl e" "ethen (Inr u) k = k"
  by (simp_all add: ethen_def)

lemma is_ok_simps [simp]: "\<not> is_ok (Inl e)" "is_ok (Inr x)"
  by (simp_all add: is_ok_def)

lemma ensure_True [simp]: "ensure True e = Inr ()"
  and ensure_False [simp]: "ensure False e = Inl e"
  by (simp_all add: ensure_def)

lemma ebind_eq_Inr_iff: "ebind m f = Inr y \<longleftrightarrow> (\<exists>x. m = Inr x \<and> f x = Inr y)"
  by (cases m) auto

lemma ebind_eq_Inl_iff:
  "ebind m f = Inl e \<longleftrightarrow> m = Inl e \<or> (\<exists>x. m = Inr x \<and> f x = Inl e)"
  by (cases m) auto

lemma ethen_eq_Inr_iff: "ethen m k = Inr y \<longleftrightarrow> m = Inr () \<and> k = Inr y"
  by (cases m) auto

lemma ethen_eq_Inl_iff: "ethen m k = Inl e \<longleftrightarrow> m = Inl e \<or> (m = Inr () \<and> k = Inl e)"
  by (cases m) auto

lemma ensure_eq_Inr_iff [simp]: "ensure b e = Inr u \<longleftrightarrow> b"
  by (simp add: ensure_def)

lemma ensure_eq_Inl_iff [simp]: "ensure b e = Inl e' \<longleftrightarrow> \<not> b \<and> e' = e"
  by (auto simp: ensure_def)

lemma is_ok_ebind: "is_ok (ebind m f) \<longleftrightarrow> (\<exists>x. m = Inr x \<and> is_ok (f x))"
  by (cases m) auto

lemma is_ok_ethen: "is_ok (ethen m k) \<longleftrightarrow> is_ok m \<and> is_ok k"
  by (cases m) auto

lemma is_ok_ensure [simp]: "is_ok (ensure b e) \<longleftrightarrow> b"
  by (simp add: ensure_def)

lemma is_ok_iff: "is_ok m \<longleftrightarrow> (\<exists>x. m = Inr x)"
  by (cases m) auto

lemma is_ok_unit_iff: "is_ok m \<longleftrightarrow> m = Inr ()"
  by (cases m) auto

lemma eall_eq_Inr_iff: "eall f xs = Inr u \<longleftrightarrow> (\<forall>x \<in> set xs. f x = Inr ())"
  by (induction xs) (auto simp: ethen_eq_Inr_iff)

lemma is_ok_eall: "is_ok (eall f xs) \<longleftrightarrow> (\<forall>x \<in> set xs. is_ok (f x))"
  by (induction xs) (auto simp: is_ok_ethen)

lemma emap_eq_Inr_iff: "emap f xs = Inr ys \<longleftrightarrow> list_all2 (\<lambda>x y. f x = Inr y) xs ys"
  by (induction xs arbitrary: ys) (auto simp: ebind_eq_Inr_iff list_all2_Cons1)

lemma emap_map_ok: "(\<And>x. x \<in> set xs \<Longrightarrow> f (g x) = Inr x) \<Longrightarrow> emap f (map g xs) = Inr xs"
  by (induction xs) auto

lemmas res_iffs = ebind_eq_Inr_iff ebind_eq_Inl_iff ethen_eq_Inr_iff ethen_eq_Inl_iff
  is_ok_ebind is_ok_ethen eall_eq_Inr_iff is_ok_eall

declare ebind_def [res_simps] ethen_def [res_simps] ensure_def [res_simps] is_ok_def [res_simps]

section \<open>Dictionaries\<close>

text \<open>
  A Python dictionary is an association list in insertion order with distinct keys.
  Reading takes the only entry of a key, assignment overwrites in place or appends
  (\<open>AList.update\<close>), \<open>pop\<close> deletes.
\<close>

type_synonym ('k, 'v) dict = "('k \<times> 'v) list"

definition dict_keys :: "('k, 'v) dict \<Rightarrow> 'k list" where
  "dict_keys d = map fst d"

definition dict_ok :: "('k, 'v) dict \<Rightarrow> bool" where
  "dict_ok d \<longleftrightarrow> distinct (map fst d)"

abbreviation dict_get :: "('k, 'v) dict \<Rightarrow> 'k \<Rightarrow> 'v option" where
  "dict_get \<equiv> map_of"

abbreviation dict_set :: "'k \<Rightarrow> 'v \<Rightarrow> ('k, 'v) dict \<Rightarrow> ('k, 'v) dict" where
  "dict_set \<equiv> AList.update"

lemma dict_get_set: "dict_get (dict_set k v d) = (dict_get d)(k \<mapsto> v)"
  by (rule update_conv')

lemma dict_ok_set: "dict_ok d \<Longrightarrow> dict_ok (dict_set k v d)"
  by (simp add: dict_ok_def distinct_update)

lemma dict_ok_filter: "dict_ok d \<Longrightarrow> dict_ok (filter p d)"
  unfolding dict_ok_def by (rule distinct_map_filter)

lemma length_dict_set:
  "length (dict_set k v d) = (if k \<in> fst ` set d then length d else Suc (length d))"
  by (induction d) auto

lemma map_of_eq_None_keys: "dict_get d k = None \<longleftrightarrow> k \<notin> set (dict_keys d)"
  by (simp add: map_of_eq_None_iff dict_keys_def)

end
