(* ===== verification/PyNum.thy ===== *)
theory PyNum
  imports Prelude
begin

text \<open>
  Python numbers.  \<open>int\<close> is HOL's \<open>int\<close>.  A \<open>float\<close> is a finite rational, an infinity or
  NaN; the two zeros are one value, which no operation of the SDK tells apart.  \<open>fl\<close> is the
  rounding of IEEE binary64 to nearest, ties to even, that every Python float operation ends
  with.  A \<open>timedelta\<close> is its number of microseconds and an aware \<open>datetime\<close> at UTC the
  microseconds since year 1.
\<close>

datatype pyfloat = Fin rat | PosInf | NegInf | NaN

section \<open>Rounding\<close>

definition round_half_even :: "rat \<Rightarrow> int" where
  "round_half_even x =
     (let f = \<lfloor>x\<rfloor>; r = x - of_int f
      in if r < 1 / 2 then f else if 1 / 2 < r then f + 1 else if even f then f else f + 1)"

definition pow2 :: "int \<Rightarrow> rat" where
  "pow2 e = (if 0 \<le> e then 2 ^ nat e else 1 / 2 ^ nat (- e))"

text \<open>The exponent of the last mantissa bit of a positive number, at least that of the
  smallest subnormal.\<close>

definition ulp_exp :: "rat \<Rightarrow> int" where
  "ulp_exp a =
     (let (n, d) = quotient_of a; k = bitlen n - bitlen d
      in max (-1074) ((if pow2 k \<le> a then k else k - 1) - 52))"

definition fl_rat :: "rat \<Rightarrow> rat" where
  "fl_rat x =
     (if x = 0 then 0
      else let e = ulp_exp \<bar>x\<bar>
           in (if x < 0 then - 1 else 1) * of_int (round_half_even (\<bar>x\<bar> / pow2 e)) * pow2 e)"

definition fl :: "rat \<Rightarrow> pyfloat" where
  "fl x = (let y = fl_rat x
           in if y < 2 ^ 1024 \<and> - (2 ^ 1024) < y then Fin y else if 0 < y then PosInf else NegInf)"

section \<open>Operations\<close>

fun float_lt :: "pyfloat \<Rightarrow> pyfloat \<Rightarrow> bool" where
  "float_lt (Fin x) (Fin y) \<longleftrightarrow> x < y"
| "float_lt (Fin _) PosInf \<longleftrightarrow> True"
| "float_lt NegInf (Fin _) \<longleftrightarrow> True"
| "float_lt NegInf PosInf \<longleftrightarrow> True"
| "float_lt _ _ \<longleftrightarrow> False"

fun is_finite :: "pyfloat \<Rightarrow> bool" where
  "is_finite (Fin _) \<longleftrightarrow> True"
| "is_finite _ \<longleftrightarrow> False"

text \<open>\<open>x != 0\<close>, which holds of NaN and the infinities.\<close>

fun float_nonzero :: "pyfloat \<Rightarrow> bool" where
  "float_nonzero (Fin x) \<longleftrightarrow> x \<noteq> 0"
| "float_nonzero _ \<longleftrightarrow> True"

text \<open>\<open>int(x)\<close> truncates towards zero; it raises on NaN and the infinities.\<close>

definition trunc_rat :: "rat \<Rightarrow> int" where
  "trunc_rat x = (if 0 \<le> x then \<lfloor>x\<rfloor> else - \<lfloor>- x\<rfloor>)"

fun float_to_int :: "pyfloat \<Rightarrow> int option" where
  "float_to_int (Fin x) = Some (trunc_rat x)"
| "float_to_int _ = None"

text \<open>Multiplication by an \<open>int\<close> that binary64 represents exactly.\<close>

fun float_scale :: "pyfloat \<Rightarrow> int \<Rightarrow> pyfloat" where
  "float_scale (Fin x) n = fl (x * of_int n)"
| "float_scale x n = x"

section \<open>Time spans and instants\<close>

type_synonym timedelta = int
type_synonym instant = int

definition seconds :: "int \<Rightarrow> timedelta" where
  "seconds n = n * 1000000"

definition minutes :: "int \<Rightarrow> timedelta" where
  "minutes n = n * 60000000"

text \<open>\<open>datetime.min.replace(tzinfo=UTC)\<close>, Go's zero time.\<close>

definition datetime_min :: instant where
  "datetime_min = 0"

text \<open>\<open>timedelta.total_seconds()\<close>: the correctly rounded quotient of two ints.\<close>

definition total_seconds :: "timedelta \<Rightarrow> pyfloat" where
  "total_seconds td = fl (of_int td / 1000000)"

text \<open>
  \<open>timedelta(microseconds=raw / 1000)\<close> for an \<open>int\<close> number of nanoseconds: the quotient is
  a float, and the constructor rounds it to the nearest microsecond, ties to even.
\<close>

definition timedelta_of_ns :: "int \<Rightarrow> timedelta" where
  "timedelta_of_ns n = round_half_even (fl_rat (of_int n / 1000))"

text \<open>\<open>int(td.total_seconds() * 1_000_000_000)\<close>.\<close>

definition ns_of_timedelta :: "timedelta \<Rightarrow> int" where
  "ns_of_timedelta td = (case float_scale (total_seconds td) 1000000000 of
     Fin x \<Rightarrow> trunc_rat x | _ \<Rightarrow> 0)"

section \<open>Decimal text\<close>

text \<open>\<open>str(n)\<close> of an \<open>int\<close>.\<close>

function digits :: "int \<Rightarrow> pystr" where
  "digits n = (if n < 10 then [48 + nat n] else digits (n div 10) @ [48 + nat (n mod 10)])"
  by pat_completeness auto
termination
  by (relation "measure nat") (auto simp: zdiv_int)

declare digits.simps [simp del]

definition int_text :: "int \<Rightarrow> pystr" where
  "int_text n = (if n < 0 then 45 # digits (- n) else digits n)"

text \<open>The value of a digit string, most significant digit first.\<close>

definition digits_value :: "pystr \<Rightarrow> int" where
  "digits_value ds = foldl (\<lambda>n c. 10 * n + int (c - 48)) 0 ds"

text \<open>
  \<open>repr(x)\<close> of a float: the shortest decimal that rounds to the float, in positional form for
  exponents from -4 to 15 and in scientific form otherwise.
\<close>

definition pow10 :: "int \<Rightarrow> rat" where
  "pow10 e = (if 0 \<le> e then 10 ^ nat e else 1 / 10 ^ nat (- e))"

definition exp10 :: "rat \<Rightarrow> int" where
  "exp10 a =
     (let (n, d) = quotient_of a;
          k = int (length (digits n)) - int (length (digits d))
      in if pow10 k \<le> a then k else k - 1)"

fun shortest_digits :: "rat \<Rightarrow> int \<Rightarrow> nat \<Rightarrow> nat \<Rightarrow> pystr" where
  "shortest_digits a e 0 k = digits (round_half_even (a / pow10 (e - int k + 1)))"
| "shortest_digits a e (Suc more) k =
     (let m = round_half_even (a / pow10 (e - int k + 1))
      in if fl_rat (of_int m * pow10 (e - int k + 1)) = a then digits m
         else shortest_digits a e more (Suc k))"

definition float_repr :: "pyfloat \<Rightarrow> pystr" where
  "float_repr x =
     (case x of
        PosInf \<Rightarrow> str ''inf'' | NegInf \<Rightarrow> str ''-inf'' | NaN \<Rightarrow> str ''nan''
      | Fin r \<Rightarrow>
        if r = 0 then str ''0.0''
        else
          let a = \<bar>r\<bar>; e = exp10 a;
              ds = rstrip_by (\<lambda>c. c = 48) (shortest_digits a e 16 1);
              sign = (if r < 0 then str ''-'' else []);
              n = int (length ds)
          in sign @
             (if e < -4 \<or> 16 \<le> e
              then take 1 ds @ (if 1 < n then 46 # drop 1 ds else []) @ str ''e''
                   @ (if e < 0 then str ''-'' else str ''+'')
                   @ (if \<bar>e\<bar> < 10 then str ''0'' else []) @ digits \<bar>e\<bar>
              else if e < 0
              then str ''0.'' @ replicate (nat (- e - 1)) 48 @ ds
              else if n \<le> e + 1
              then ds @ replicate (nat (e + 1 - n)) 48 @ str ''.0''
              else take (nat (e + 1)) ds @ 46 # drop (nat (e + 1)) ds))"

lemma digits_nonempty [simp]: "digits n \<noteq> []"
  by (subst digits.simps) simp

lemma digits_is_digit: "0 \<le> n \<Longrightarrow> list_all is_digit (digits n)"
proof (induction n rule: digits.induct)
  case (1 n)
  show ?case
  proof (cases "n < 10")
    case True
    with "1.prems" show ?thesis by (subst digits.simps) (auto simp: is_digit_def)
  next
    case False
    with 1 have "list_all is_digit (digits (n div 10))" by simp
    moreover have "nat (n mod 10) \<le> 9" by simp
    ultimately show ?thesis
      using False by (subst digits.simps) (simp add: is_digit_def [of "48 + nat (n mod 10)"])
  qed
qed

lemma digits_value_append_digit: "digits_value (ds @ [c]) = 10 * digits_value ds + int (c - 48)"
  by (simp add: digits_value_def)

lemma digits_value_digits: "0 \<le> n \<Longrightarrow> digits_value (digits n) = n"
proof (induction n rule: digits.induct)
  case (1 n)
  show ?case
  proof (cases "n < 10")
    case True
    with "1.prems" show ?thesis by (subst digits.simps) (simp add: digits_value_def)
  next
    case False
    with 1 show ?thesis
      by (subst digits.simps) (simp add: digits_value_append_digit)
  qed
qed

section \<open>Exactness\<close>

lemma round_half_even_of_int [simp]: "round_half_even (of_int n) = n"
  by (simp add: round_half_even_def)

lemma pow2_pos [simp]: "0 < pow2 e"
  by (simp add: pow2_def)

lemma pow2_nonneg_int: "0 \<le> e \<Longrightarrow> pow2 e = of_int (2 ^ nat e)"
  by (simp add: pow2_def)

lemma trunc_rat_of_int [simp]: "trunc_rat (of_int n) = n"
  by (simp add: trunc_rat_def)

lemma fl_rat_0 [simp]: "fl_rat 0 = 0"
  by (simp add: fl_rat_def)

text \<open>A multiple of the unit in the last place is not rounded.\<close>

lemma fl_rat_exact:
  assumes "x = of_int m * pow2 (ulp_exp \<bar>x\<bar>)"
  shows "fl_rat x = x"
proof (cases "x = 0")
  case False
  let ?p = "pow2 (ulp_exp \<bar>x\<bar>)"
  have "\<bar>x\<bar> = of_int \<bar>m\<bar> * ?p"
    using assms by (metis abs_mult abs_of_pos of_int_abs pow2_pos)
  then have "\<bar>x\<bar> / ?p = of_int \<bar>m\<bar>"
    by (simp add: field_simps less_imp_neq [OF pow2_pos, symmetric])
  then have r: "round_half_even (\<bar>x\<bar> / ?p) = \<bar>m\<bar>"
    by (simp only: round_half_even_of_int)
  have "fl_rat x = (if x < 0 then - 1 else 1) * of_int \<bar>m\<bar> * ?p"
    using False by (simp only: fl_rat_def Let_def r if_False)
  also have "\<dots> = (if x < 0 then - 1 else 1) * \<bar>x\<bar>"
    using \<open>\<bar>x\<bar> = of_int \<bar>m\<bar> * ?p\<close> by (simp only: mult.assoc)
  finally show ?thesis by simp
qed simp

lemma ulp_exp_int:
  assumes "0 < n" "n < 2 ^ 53"
  shows "ulp_exp (of_int n) \<le> 0"
proof -
  have q: "quotient_of (of_int n) = (n, 1)"
    by (simp add: quotient_of_int)
  have "bitlen n \<le> 53"
    using assms by (simp add: bitlen_le_iff_power)
  moreover have "bitlen (1 :: int) = 1"
    by code_simp
  ultimately show ?thesis
    by (simp add: ulp_exp_def q Let_def)
qed

text \<open>Integers below \<open>2^53\<close> are floats.\<close>

lemma fl_rat_int:
  assumes "\<bar>n\<bar> < 2 ^ 53"
  shows "fl_rat (of_int n) = of_int n"
proof (cases "n = 0")
  case False
  let ?e = "ulp_exp \<bar>of_int n\<bar>"
  have "?e \<le> 0"
    using ulp_exp_int [of "\<bar>n\<bar>"] assms False by simp
  then have "(of_int n :: rat) = of_int (n * 2 ^ nat (- ?e)) * pow2 ?e"
    by (cases "?e = 0") (simp_all add: pow2_def)
  then show ?thesis
    by (rule fl_rat_exact)
qed simp

lemma fl_moderate:
  assumes "\<bar>fl_rat x\<bar> < 2 ^ 53"
  shows "fl x = Fin (fl_rat x)"
proof -
  have "(2 :: rat) ^ 53 \<le> 2 ^ 1024"
    by (rule power_increasing) simp_all
  with assms have "\<bar>fl_rat x\<bar> < 2 ^ 1024" by (rule less_le_trans)
  then show ?thesis
    by (simp add: fl_def Let_def abs_less_iff)
qed

lemma fl_int:
  assumes "\<bar>n\<bar> < 2 ^ 53"
  shows "fl (of_int n) = Fin (of_int n)"
proof -
  have "\<bar>n\<bar> < (2 :: int) ^ 1024"
    using assms by (rule less_le_trans) (rule power_increasing; simp)
  then have "(of_int \<bar>n\<bar> :: rat) < of_int (2 ^ 1024)"
    by (simp only: of_int_less_iff)
  then have "\<bar>of_int n :: rat\<bar> < 2 ^ 1024"
    by simp
  then show ?thesis
    by (simp add: fl_def fl_rat_int [OF assms] Let_def abs_less_iff)
qed

text \<open>Whole seconds survive the conversion to nanoseconds up to \<open>2^53\<close> nanoseconds.\<close>

lemma ns_of_timedelta_seconds:
  assumes "\<bar>s\<bar> * 1000000000 < 2 ^ 53"
  shows "ns_of_timedelta (seconds s) = s * 1000000000"
proof -
  have "(of_int (s * 1000000) / 1000000 :: rat) = of_int s"
    by simp
  moreover have "fl (of_int s) = Fin (of_int s)"
    using assms by (intro fl_int) auto
  moreover have "fl (of_int (s * 1000000000)) = Fin (of_int (s * 1000000000))"
    using assms by (intro fl_int) (simp add: abs_mult)
  ultimately have "float_scale (total_seconds (seconds s)) 1000000000 = Fin (of_int (s * 1000000000))"
    unfolding total_seconds_def seconds_def by (simp only: float_scale.simps of_int_mult)
  then show ?thesis
    unfolding ns_of_timedelta_def by (simp only: pyfloat.case trunc_rat_of_int)
qed

lemma length_digits: "0 \<le> k \<Longrightarrow> k < 10 ^ Suc n \<Longrightarrow> length (digits k) \<le> Suc n"
proof (induction k arbitrary: n rule: digits.induct)
  case (1 k)
  show ?case
  proof (cases "k < 10")
    case True
    then show ?thesis by (subst digits.simps) simp
  next
    case False
    with "1.prems" obtain m where m: "n = Suc m"
      by (cases n) auto
    with "1.prems" have "k div 10 < 10 ^ Suc m" by simp
    with "1.IH" [OF False, of m] "1.prems"(1) m False show ?thesis
      by (subst digits.simps) simp
  qed
qed

lemma hd_digits_zero: "0 \<le> n \<Longrightarrow> hd (digits n) = 48 \<Longrightarrow> n = 0"
proof (induction n rule: digits.induct)
  case (1 n)
  show ?case
  proof (cases "n < 10")
    case True
    with "1.prems" show ?thesis by (simp add: digits.simps [of n])
  next
    case False
    then have "digits n = digits (n div 10) @ [48 + nat (n mod 10)]"
      by (simp add: digits.simps [of n])
    with "1.prems" False have "n div 10 = 0"
      by (intro "1.IH") auto
    with False "1.prems" show ?thesis by simp
  qed
qed

end
