(* ===== verification/PyJson.thy ===== *)
theory PyJson
  imports PyNum
begin

text \<open>
  JSON values as \<open>json.loads\<close> returns them: an object is a dictionary in member order, a
  number without fraction or exponent an \<open>int\<close>.  \<open>json_eq\<close> is Python's \<open>==\<close> on such values,
  which ignores member order and identifies \<open>True\<close>, \<open>1\<close> and \<open>1.0\<close>; \<open>py_str\<close> is \<open>str()\<close>
  and \<open>truthy\<close> is \<open>bool()\<close>.  In \<open>py_repr\<close> of a nested string only quotes, backslashes and
  the line and tab controls are escaped; CPython also escapes unprintable code points.
\<close>

datatype json =
    JNull
  | JBool bool
  | JInt int
  | JFloat pyfloat
  | JStr pystr
  | JArr "json list"
  | JObj "(pystr \<times> json) list"

type_synonym jobj = "(pystr, json) dict"

section \<open>Type tests\<close>

text \<open>\<open>isinstance\<close> tests; a \<open>bool\<close> is an \<open>int\<close> in Python.\<close>

fun is_str :: "json \<Rightarrow> bool" where
  "is_str (JStr _) \<longleftrightarrow> True"
| "is_str _ \<longleftrightarrow> False"

fun is_dict :: "json \<Rightarrow> bool" where
  "is_dict (JObj _) \<longleftrightarrow> True"
| "is_dict _ \<longleftrightarrow> False"

fun is_bool :: "json \<Rightarrow> bool" where
  "is_bool (JBool _) \<longleftrightarrow> True"
| "is_bool _ \<longleftrightarrow> False"

fun is_int :: "json \<Rightarrow> bool" where
  "is_int (JInt _) \<longleftrightarrow> True"
| "is_int (JBool _) \<longleftrightarrow> True"
| "is_int _ \<longleftrightarrow> False"

text \<open>The integer an \<open>isinstance(x, int)\<close> value counts as.\<close>

fun int_value :: "json \<Rightarrow> int" where
  "int_value (JInt n) = n"
| "int_value (JBool b) = (if b then 1 else 0)"
| "int_value _ = 0"

fun str_value :: "json \<Rightarrow> pystr" where
  "str_value (JStr s) = s"
| "str_value _ = []"

fun truthy :: "json \<Rightarrow> bool" where
  "truthy JNull \<longleftrightarrow> False"
| "truthy (JBool b) \<longleftrightarrow> b"
| "truthy (JInt n) \<longleftrightarrow> n \<noteq> 0"
| "truthy (JFloat x) \<longleftrightarrow> float_nonzero x"
| "truthy (JStr s) \<longleftrightarrow> s \<noteq> []"
| "truthy (JArr xs) \<longleftrightarrow> xs \<noteq> []"
| "truthy (JObj d) \<longleftrightarrow> d \<noteq> []"

text \<open>\<open>d.get(key, default)\<close>.\<close>

definition get_or :: "jobj \<Rightarrow> pystr \<Rightarrow> json \<Rightarrow> json" where
  "get_or d k j = (case dict_get d k of None \<Rightarrow> j | Some v \<Rightarrow> v)"

lemma get_or_set: "get_or (dict_set k v d) k' j = (if k' = k then v else get_or d k' j)"
  by (simp add: get_or_def dict_get_set)

section \<open>Text of a value\<close>

definition str_repr :: "pystr \<Rightarrow> pystr" where
  "str_repr s =
     (let q = (if 39 \<in> set s \<and> 34 \<notin> set s then 34 else 39)
      in [q] @ concat (map (\<lambda>c. if c = 92 then [92, 92] else if c = q then [92, q]
           else if c = 10 then [92, 110] else if c = 9 then [92, 116]
           else if c = 13 then [92, 114] else [c]) s) @ [q])"

fun join_with :: "pystr \<Rightarrow> pystr list \<Rightarrow> pystr" where
  "join_with sep [] = []"
| "join_with sep [w] = w"
| "join_with sep (w # v # ws) = w @ sep @ join_with sep (v # ws)"

lemma join_with_Cons: "ws \<noteq> [] \<Longrightarrow> join_with sep (w # ws) = w @ sep @ join_with sep ws"
  by (cases ws) simp_all

fun py_repr :: "json \<Rightarrow> pystr" where
  "py_repr JNull = str ''None''"
| "py_repr (JBool b) = (if b then str ''True'' else str ''False'')"
| "py_repr (JInt n) = int_text n"
| "py_repr (JFloat x) = float_repr x"
| "py_repr (JStr s) = str_repr s"
| "py_repr (JArr xs) = str ''['' @ join_with (str '', '') (map py_repr xs) @ str '']''"
| "py_repr (JObj d) =
     [123] @ join_with (str '', '') (map (\<lambda>(k, v). str_repr k @ str '': '' @ py_repr v) d) @ [125]"

fun py_str :: "json \<Rightarrow> pystr" where
  "py_str (JStr s) = s"
| "py_str j = py_repr j"

section \<open>Equality\<close>

text \<open>The number a scalar compares as, if it is one.\<close>

fun number_of_json :: "json \<Rightarrow> pyfloat option" where
  "number_of_json (JBool b) = Some (Fin (if b then 1 else 0))"
| "number_of_json (JInt n) = Some (Fin (of_int n))"
| "number_of_json (JFloat x) = Some x"
| "number_of_json _ = None"

function json_eq :: "json \<Rightarrow> json \<Rightarrow> bool" where
  "json_eq JNull k \<longleftrightarrow> k = JNull"
| "json_eq (JBool b) k \<longleftrightarrow> number_of_json k = number_of_json (JBool b)"
| "json_eq (JInt n) k \<longleftrightarrow> number_of_json k = number_of_json (JInt n)"
| "json_eq (JFloat x) k \<longleftrightarrow> x \<noteq> NaN \<and> number_of_json k = Some x"
| "json_eq (JStr s) k \<longleftrightarrow> k = JStr s"
| "json_eq (JArr xs) k \<longleftrightarrow>
     (case k of JArr ys \<Rightarrow> length xs = length ys \<and> list_all (\<lambda>(x, y). json_eq x y) (zip xs ys)
      | _ \<Rightarrow> False)"
| "json_eq (JObj d) k \<longleftrightarrow>
     (case k of
        JObj d' \<Rightarrow> length d = length d' \<and>
          list_all (\<lambda>(m, x). case dict_get d' m of None \<Rightarrow> False | Some y \<Rightarrow> json_eq x y) d
      | _ \<Rightarrow> False)"
  by pat_completeness auto
termination
proof (relation "measure (\<lambda>(j, k). size j)", goal_cases)
  case (2 xs k ys z x y)
  then have "x \<in> set xs" by (metis set_zip_leftD)
  then have "size x \<le> size_list size xs" by (simp add: size_list_estimation')
  with 2(3) show ?case by (auto simp: case_prod_beta)
next
  case (3 d k d' z m x y)
  then have "size x \<le> size_list (size_prod (\<lambda>x. 0) size) d"
    by (intro size_list_estimation' [of z]) auto
  then show ?case by simp
qed simp

text \<open>Values whose objects have distinct members and whose numbers are not NaN.\<close>

fun json_ok :: "json \<Rightarrow> bool" where
  "json_ok (JFloat x) \<longleftrightarrow> x \<noteq> NaN"
| "json_ok (JArr xs) \<longleftrightarrow> list_all json_ok xs"
| "json_ok (JObj d) \<longleftrightarrow> dict_ok d \<and> list_all (\<lambda>(m, x). json_ok x) d"
| "json_ok _ \<longleftrightarrow> True"

lemma json_eq_refl: "json_ok j \<Longrightarrow> json_eq j j"
proof (induction j)
  case (JArr xs)
  then show ?case
    by (auto simp: list_all_iff zip_same)
next
  case (JObj d)
  then have "dict_ok d" and vs: "\<And>m x. (m, x) \<in> set d \<Longrightarrow> json_eq x x"
    by (auto simp: list_all_iff)
  then have "\<And>m x. (m, x) \<in> set d \<Longrightarrow> dict_get d m = Some x"
    by (auto simp: dict_ok_def)
  with vs show ?case
    by (auto simp: list_all_iff)
qed auto

lemma json_eq_str_iff [simp]: "json_eq (JStr s) (JStr t) \<longleftrightarrow> t = s"
  by simp

lemma json_eq_of_str_iff: "json_eq j (JStr t) \<longleftrightarrow> j = JStr t"
  by (cases j) auto

end
