(* ===== verification/Failures.thy ===== *)
theory Failures
  imports PyJson
begin

text \<open>
  \<^verbatim>\<open>sdkpython/src/dex_connectors/sdk/errors.py\<close>: the failure kinds, the secret-safe
  \<open>Failure\<close> value with its wire form, and \<open>RetryError\<close>.  The datatype \<open>exc\<close> names every
  exception the modelled modules raise or let through, with \<open>is_ValueError\<close> and its kin for
  the subclass relation that \<open>except\<close> clauses use.

  Dataclass fields hold values of their annotated types throughout the development, so an
  \<open>isinstance\<close> test of a field against its own annotation is not repeated; data that arrives
  untyped (wire objects) is \<open>json\<close> and every test on it is modelled.
\<close>

section \<open>Failure kinds\<close>

datatype failure_kind =
    VALIDATION | AUTHENTICATION | AUTHORIZATION | NOT_FOUND | CONFLICT | RATE_LIMIT
  | QUOTA_EXHAUSTED | AVAILABILITY | PROVIDER_REJECTION | TRANSPORT | RESPONSE_TOO_LARGE
  | PROTOCOL | LOCAL_DEFECT

fun kind_value :: "failure_kind \<Rightarrow> pystr" where
  "kind_value VALIDATION = str ''VALIDATION''"
| "kind_value AUTHENTICATION = str ''AUTHENTICATION''"
| "kind_value AUTHORIZATION = str ''AUTHORIZATION''"
| "kind_value NOT_FOUND = str ''NOT_FOUND''"
| "kind_value CONFLICT = str ''CONFLICT''"
| "kind_value RATE_LIMIT = str ''RATE_LIMIT''"
| "kind_value QUOTA_EXHAUSTED = str ''QUOTA_EXHAUSTED''"
| "kind_value AVAILABILITY = str ''AVAILABILITY''"
| "kind_value PROVIDER_REJECTION = str ''PROVIDER_REJECTION''"
| "kind_value TRANSPORT = str ''TRANSPORT''"
| "kind_value RESPONSE_TOO_LARGE = str ''RESPONSE_TOO_LARGE''"
| "kind_value PROTOCOL = str ''PROTOCOL''"
| "kind_value LOCAL_DEFECT = str ''LOCAL_DEFECT''"

definition all_kinds :: "failure_kind list" where
  "all_kinds = [VALIDATION, AUTHENTICATION, AUTHORIZATION, NOT_FOUND, CONFLICT, RATE_LIMIT,
     QUOTA_EXHAUSTED, AVAILABILITY, PROVIDER_REJECTION, TRANSPORT, RESPONSE_TOO_LARGE,
     PROTOCOL, LOCAL_DEFECT]"

text \<open>\<open>FailureKind(value)\<close>: look the member up by its value.\<close>

definition kind_of :: "pystr \<Rightarrow> failure_kind option" where
  "kind_of s = find (\<lambda>k. kind_value k = s) all_kinds"

lemma kind_of_value [simp]: "kind_of (kind_value k) = Some k"
  by (cases k) (simp_all add: kind_of_def all_kinds_def)

lemma kind_of_eq_Some_iff: "kind_of s = Some k \<longleftrightarrow> s = kind_value k"
proof
  assume "kind_of s = Some k"
  then show "s = kind_value k"
    by (auto simp: kind_of_def find_Some_iff)
qed simp

section \<open>Failures and exceptions\<close>

record failure =
  fkind :: failure_kind
  fprovider :: pystr
  foperation :: pystr
  fmessage :: pystr

datatype exc =
    ValueError pystr
  | TypeError pystr
  | KeyError
  | AttributeError
  | OverflowError
  | AssertionError pystr
  | RuntimeError pystr
  | UnicodeError
  | JSONDecodeError
  | IndexError
  | LookupError pystr
  | OSError pystr
  | TimeoutError
  | RetryError failure pyfloat
  | DexRetryAfter int exc
  | ReauthorizationRequiredError
  | ObjectNotFoundError
  | ObjectConflictError pystr
  | OutcomeUnknownError pystr
  | CredentialBrokerUnavailableError pystr
  | CredentialBrokerRejectedError pystr
  | ConnectionNotSelectedError pystr
  | RejectedCredentialNotRefreshedError pystr
  | RefreshFailedError pystr
  | ExchangePendingError pystr
  | DispatchNotAllowedError
  | InsufficientAttemptTimeError
  | CheckpointError
  | AddressRefusal pystr
  | BodyTooLargeError int "(pystr \<times> pystr) list"
  | ProviderTransportError bool "int option" "(pystr \<times> pystr) list option"
  | ConnectError pystr
  | ConnectTimeout pystr
  | CancelledError
  | ForeignError pystr

fun is_ValueError :: "exc \<Rightarrow> bool" where
  "is_ValueError (ValueError _) \<longleftrightarrow> True"
| "is_ValueError UnicodeError \<longleftrightarrow> True"
| "is_ValueError JSONDecodeError \<longleftrightarrow> True"
| "is_ValueError (ObjectConflictError _) \<longleftrightarrow> True"
| "is_ValueError (CredentialBrokerRejectedError _) \<longleftrightarrow> True"
| "is_ValueError (ConnectionNotSelectedError _) \<longleftrightarrow> True"
| "is_ValueError (RejectedCredentialNotRefreshedError _) \<longleftrightarrow> True"
| "is_ValueError (AddressRefusal _) \<longleftrightarrow> True"
| "is_ValueError (BodyTooLargeError _ _) \<longleftrightarrow> True"
| "is_ValueError _ \<longleftrightarrow> False"

fun is_OSError :: "exc \<Rightarrow> bool" where
  "is_OSError (OSError _) \<longleftrightarrow> True"
| "is_OSError TimeoutError \<longleftrightarrow> True"
| "is_OSError (OutcomeUnknownError _) \<longleftrightarrow> True"
| "is_OSError (CredentialBrokerUnavailableError _) \<longleftrightarrow> True"
| "is_OSError (RefreshFailedError _) \<longleftrightarrow> True"
| "is_OSError (ExchangePendingError _) \<longleftrightarrow> True"
| "is_OSError (ProviderTransportError _ _ _) \<longleftrightarrow> True"
| "is_OSError _ \<longleftrightarrow> False"

text \<open>\<open>str(error)\<close> of the exceptions whose text the SDK copies into a failure message.\<close>

fun exc_text :: "exc \<Rightarrow> pystr" where
  "exc_text (ValueError m) = m"
| "exc_text (TypeError m) = m"
| "exc_text (OSError m) = m"
| "exc_text (ObjectConflictError m) = m"
| "exc_text (OutcomeUnknownError m) = m"
| "exc_text (CredentialBrokerRejectedError m) = m"
| "exc_text (ConnectionNotSelectedError m) = m"
| "exc_text (RejectedCredentialNotRefreshedError m) = m"
| "exc_text (AddressRefusal m) = str ''address not allowed: '' @ m"
| "exc_text (BodyTooLargeError _ _) = str ''provider response body exceeds its size limit''"
| "exc_text (ProviderTransportError _ _ _) = str ''provider request failed''"
| "exc_text _ = []"

section \<open>Failure operations\<close>

definition failure_validate :: "failure \<Rightarrow> exc + unit" where
  "failure_validate f =
     ensure (fprovider f \<noteq> [] \<and> foperation f \<noteq> [] \<and> fmessage f \<noteq> [])
       (ValueError (str ''failure provider, operation, and message are required''))"

definition failure_wire :: "failure \<Rightarrow> jobj" where
  "failure_wire f =
     [(str ''kind'', JStr (kind_value (fkind f))), (str ''provider'', JStr (fprovider f)),
      (str ''operation'', JStr (foperation f)), (str ''message'', JStr (fmessage f))]"

definition failure_to_wire :: "failure \<Rightarrow> exc + jobj" where
  "failure_to_wire f = ethen (failure_validate f) (ret (failure_wire f))"

definition failure_fields :: "pystr set" where
  "failure_fields = {str ''kind'', str ''provider'', str ''operation'', str ''message''}"

definition failure_from_wire :: "json \<Rightarrow> exc + failure" where
  "failure_from_wire value =
     (case value of
        JObj d \<Rightarrow>
          if set (dict_keys d) \<noteq> failure_fields
          then raise (ValueError (str ''invalid failure object''))
          else if \<not> list_all (\<lambda>(k, v). is_str v) d
          then raise (ValueError (str ''invalid failure fields''))
          else
            (case kind_of (str_value (get_or d (str ''kind'') JNull)) of
               None \<Rightarrow> raise (ValueError (str ''not a valid FailureKind''))
             | Some k \<Rightarrow>
               let f = \<lparr>fkind = k,
                        fprovider = str_value (get_or d (str ''provider'') JNull),
                        foperation = str_value (get_or d (str ''operation'') JNull),
                        fmessage = str_value (get_or d (str ''message'') JNull)\<rparr>
               in ethen (failure_validate f) (ret f))
      | _ \<Rightarrow> raise (ValueError (str ''invalid failure object'')))"

text \<open>\<open>RetryError(failure, delay)\<close> validates before the exception exists.\<close>

definition new_retry_error :: "failure \<Rightarrow> pyfloat \<Rightarrow> exc" where
  "new_retry_error f delay =
     (case failure_validate f of
        Inl e \<Rightarrow> e
      | Inr _ \<Rightarrow>
        if float_lt delay (Fin 0) \<or> \<not> is_finite delay
        then ValueError (str ''retry delay must be finite and nonnegative'')
        else RetryError f delay)"

text \<open>\<open>RetryError.retry_after_whole_seconds\<close>; the constructor has excluded the other floats.\<close>

definition retry_after_whole_seconds :: "pyfloat \<Rightarrow> int" where
  "retry_after_whole_seconds delay = (case float_to_int delay of Some n \<Rightarrow> n | None \<Rightarrow> 0)"

section \<open>Properties\<close>

lemma failure_validate_ok_iff:
  "failure_validate f = Inr u \<longleftrightarrow> fprovider f \<noteq> [] \<and> foperation f \<noteq> [] \<and> fmessage f \<noteq> []"
  by (simp add: failure_validate_def)

lemma failure_roundtrip:
  assumes "failure_to_wire f = Inr d"
  shows "failure_from_wire (JObj d) = Inr f"
proof -
  from assms have v: "failure_validate f = Inr ()" and d: "d = failure_wire f"
    by (auto simp: failure_to_wire_def ethen_eq_Inr_iff)
  have "set (dict_keys d) = failure_fields"
    by (simp add: d failure_wire_def failure_fields_def dict_keys_def)
  with v show ?thesis
    by (cases f) (simp add: failure_from_wire_def d failure_wire_def get_or_def Let_def)
qed

lemma failure_from_wire_strict:
  assumes "failure_from_wire j = Inr f"
  shows "\<exists>d. j = JObj d \<and> set (dict_keys d) = failure_fields \<and> failure_to_wire f = Inr (failure_wire f)"
  using assms
  by (auto simp: failure_from_wire_def failure_to_wire_def Let_def ethen_eq_Inr_iff
      split: json.splits if_splits option.splits)

lemma new_retry_error_cases:
  "new_retry_error f delay = RetryError f delay \<longleftrightarrow>
     failure_validate f = Inr () \<and> \<not> float_lt delay (Fin 0) \<and> is_finite delay"
  by (cases "failure_validate f")
    (auto simp: new_retry_error_def failure_validate_def ensure_def split: if_splits)

lemma retry_delay_truncates:
  assumes "new_retry_error f delay = RetryError f delay"
  shows "\<exists>x. delay = Fin x \<and> 0 \<le> x \<and> retry_after_whole_seconds delay = \<lfloor>x\<rfloor>"
  using assms
  by (cases delay) (auto simp: new_retry_error_cases retry_after_whole_seconds_def trunc_rat_def)

end
