(* ===== verification/IpAddress.thy ===== *)
theory IpAddress
  imports PyJson
begin

text \<open>
  The part of Python's \<open>ipaddress\<close> module that the SDK relies on: parsing an address, its text,
  membership in a network and the address classes.  An address is its number; an IPv6 address
  also has its zone.  The lemmas bound the numbers and show that the text of an IPv4 address
  parses to it.
\<close>

datatype ip = V4 int | V6 int "pystr option"

section \<open>Parsing\<close>

definition parse_octet :: "pystr \<Rightarrow> int option" where
  "parse_octet s =
     (if s = [] \<or> \<not> list_all is_digit s \<or> length s > 3 \<or> (s \<noteq> [48] \<and> hd s = 48) \<or> digits_value s > 255
      then None else Some (digits_value s))"

definition parse_ipv4 :: "pystr \<Rightarrow> int option" where
  "parse_ipv4 s =
     (case map parse_octet (split_on 46 s) of
        [Some a, Some b, Some c, Some d] \<Rightarrow> Some (((a * 256 + b) * 256 + c) * 256 + d)
      | _ \<Rightarrow> None)"

definition hex_digit_value :: "nat \<Rightarrow> int option" where
  "hex_digit_value c =
     (if is_digit c then Some (int c - 48)
      else if 97 \<le> c \<and> c \<le> 102 then Some (int c - 87)
      else if 65 \<le> c \<and> c \<le> 70 then Some (int c - 55) else None)"

text \<open>An empty group fails in \<open>int("", 16)\<close>.\<close>

definition parse_hextet :: "pystr \<Rightarrow> int option" where
  "parse_hextet s =
     (if s = [] \<or> length s > 4 \<or> list_ex (\<lambda>c. hex_digit_value c = None) s then None
      else Some (foldl (\<lambda>n c. 16 * n + the (hex_digit_value c)) 0 s))"

fun parse_hextets :: "pystr list \<Rightarrow> int \<Rightarrow> int option" where
  "parse_hextets [] n = Some n"
| "parse_hextets (g # gs) n =
     (case parse_hextet g of None \<Rightarrow> None | Some h \<Rightarrow> parse_hextets gs (n * 65536 + h))"

text \<open>\<open>'%x'\<close> of a number.\<close>

function hex_text :: "int \<Rightarrow> pystr" where
  "hex_text n =
     (if n < 16 then [if n < 10 then 48 + nat n else 87 + nat n]
      else hex_text (n div 16) @ [if n mod 16 < 10 then 48 + nat (n mod 16) else 87 + nat (n mod 16)])"
  by pat_completeness auto
termination
  by (relation "measure nat") (auto simp: zdiv_int)

declare hex_text.simps [simp del]

definition expand_dotted :: "pystr list \<Rightarrow> pystr list option" where
  "expand_dotted parts =
     (if 46 \<in> set (last parts)
      then (case parse_ipv4 (last parts) of
              None \<Rightarrow> None
            | Some n \<Rightarrow> Some (butlast parts @ [hex_text (n div 65536 mod 65536), hex_text (n mod 65536)]))
      else Some parts)"

text \<open>The inner positions with an empty group, that is, a double colon.\<close>

definition skip_positions :: "pystr list \<Rightarrow> nat list" where
  "skip_positions parts = filter (\<lambda>i. parts ! i = []) [1..<length parts - 1]"

definition parse_skipped :: "pystr list \<Rightarrow> nat \<Rightarrow> int option" where
  "parse_skipped parts skip =
     (let hi = skip - (if hd parts = [] then 1 else 0);
          lo = length parts - skip - 1 - (if last parts = [] then 1 else 0)
      in if (hd parts = [] \<and> hi \<noteq> 0) \<or> (last parts = [] \<and> lo \<noteq> 0) \<or> 8 < hi + lo + 1
         then None
         else
           (case parse_hextets (take hi parts) 0 of
              None \<Rightarrow> None
            | Some n \<Rightarrow> parse_hextets (drop (length parts - lo) parts) (n * 65536 ^ (8 - (hi + lo)))))"

definition parse_groups :: "pystr list \<Rightarrow> int option" where
  "parse_groups parts =
     (case skip_positions parts of
        [] \<Rightarrow> if length parts \<noteq> 8 \<or> hd parts = [] \<or> last parts = [] then None else parse_hextets parts 0
      | [skip] \<Rightarrow> parse_skipped parts skip
      | _ \<Rightarrow> None)"

definition parse_ipv6 :: "pystr \<Rightarrow> int option" where
  "parse_ipv6 s =
     (let parts = split_on 58 s in
      if length parts < 3 then None
      else
        (case expand_dotted parts of
           None \<Rightarrow> None
         | Some gs \<Rightarrow> if length gs > 9 then None else parse_groups gs))"

text \<open>The zone follows the first percent sign and has none itself.\<close>

definition split_zone :: "pystr \<Rightarrow> (pystr \<times> pystr option) option" where
  "split_zone s =
     (let addr = takeWhile (\<lambda>c. c \<noteq> 37) s; rest = dropWhile (\<lambda>c. c \<noteq> 37) s in
      case rest of
        [] \<Rightarrow> Some (addr, None)
      | _ # zone \<Rightarrow> if zone = [] \<or> 37 \<in> set zone then None else Some (addr, Some zone))"

text \<open>\<open>ip_address(text)\<close>; \<open>None\<close> is its \<open>ValueError\<close>.\<close>

definition ip_address :: "pystr \<Rightarrow> ip option" where
  "ip_address s =
     (if 47 \<in> set s then None
      else
        (case parse_ipv4 s of
           Some n \<Rightarrow> Some (V4 n)
         | None \<Rightarrow>
           (case split_zone s of
              None \<Rightarrow> None
            | Some (addr, zone) \<Rightarrow> map_option (\<lambda>n. V6 n zone) (parse_ipv6 addr))))"

section \<open>Text\<close>

definition ipv4_octets :: "int \<Rightarrow> int list" where
  "ipv4_octets n = [n div 16777216, n div 65536 mod 256, n div 256 mod 256, n mod 256]"

definition ipv4_text :: "int \<Rightarrow> pystr" where
  "ipv4_text n = join_with [46] (map digits (ipv4_octets n))"

definition hextets :: "int \<Rightarrow> int list" where
  "hextets n = map (\<lambda>k. n div 65536 ^ k mod 65536) (rev [0..<8])"

text \<open>The loop of \<open>_compress_hextets\<close>: the first longest run of zero groups so far and the
  current run, each as start and length.\<close>

fun longest_zeros :: "int list \<Rightarrow> nat \<Rightarrow> nat \<times> nat \<Rightarrow> nat \<times> nat \<Rightarrow> nat \<times> nat" where
  "longest_zeros [] i best cur = best"
| "longest_zeros (h # hs) i best cur =
     (if h = 0
      then let cur' = (if snd cur = 0 then (i, 1) else (fst cur, snd cur + 1))
           in longest_zeros hs (i + 1) (if snd cur' > snd best then cur' else best) cur'
      else longest_zeros hs (i + 1) best (0, 0))"

definition compress_hextets :: "int list \<Rightarrow> pystr list" where
  "compress_hextets hs =
     (let ws = map hex_text hs; (start, len) = longest_zeros hs 0 (0, 0) (0, 0); stop = start + len in
      if len > 1
      then (if start = 0 then [[]] else []) @ take start ws @ [[]]
           @ drop stop (ws @ (if stop = length hs then [[]] else []))
      else ws)"

fun ip_text :: "ip \<Rightarrow> pystr" where
  "ip_text (V4 n) = ipv4_text n"
| "ip_text (V6 n zone) =
     join_with [58] (compress_hextets (hextets n)) @ (case zone of None \<Rightarrow> [] | Some z \<Rightarrow> 37 # z)"

section \<open>Networks and classes\<close>

text \<open>An address is in a network of the same family when their leading bits agree.\<close>

definition in_v4 :: "int \<Rightarrow> nat \<Rightarrow> ip \<Rightarrow> bool" where
  "in_v4 net len a = (case a of V4 n \<Rightarrow> n div 2 ^ (32 - len) = net div 2 ^ (32 - len) | V6 _ _ \<Rightarrow> False)"

definition in_v6 :: "int \<Rightarrow> nat \<Rightarrow> ip \<Rightarrow> bool" where
  "in_v6 net len a = (case a of V4 _ \<Rightarrow> False | V6 n _ \<Rightarrow> n div 2 ^ (128 - len) = net div 2 ^ (128 - len))"

definition quad :: "int \<Rightarrow> int \<Rightarrow> int \<Rightarrow> int \<Rightarrow> int" where
  "quad a b c d = ((a * 256 + b) * 256 + c) * 256 + d"

text \<open>An IPv6 address from its leading group, the rest zero.\<close>

definition lead :: "int \<Rightarrow> int" where
  "lead h = h * 65536 ^ 7"

definition is_loopback :: "ip \<Rightarrow> bool" where
  "is_loopback a = (case a of V4 _ \<Rightarrow> in_v4 (quad 127 0 0 0) 8 a | V6 n _ \<Rightarrow> n = 1)"

definition is_link_local :: "ip \<Rightarrow> bool" where
  "is_link_local a \<longleftrightarrow> in_v4 (quad 169 254 0 0) 16 a \<or> in_v6 (lead 0xfe80) 10 a"

definition is_multicast :: "ip \<Rightarrow> bool" where
  "is_multicast a \<longleftrightarrow> in_v4 (quad 224 0 0 0) 4 a \<or> in_v6 (lead 0xff00) 8 a"

definition is_unspecified :: "ip \<Rightarrow> bool" where
  "is_unspecified a = (case a of V4 n \<Rightarrow> n = 0 | V6 n _ \<Rightarrow> n = 0)"

definition ipv4_mapped :: "ip \<Rightarrow> ip option" where
  "ipv4_mapped a =
     (case a of V4 _ \<Rightarrow> None
      | V6 n _ \<Rightarrow> if n div 2 ^ 32 = 0xffff then Some (V4 (n mod 2 ^ 32)) else None)"

text \<open>An IPv6 address from its first three groups, and from its first two and last.\<close>

definition lead3 :: "int \<Rightarrow> int \<Rightarrow> int \<Rightarrow> int" where
  "lead3 a b c = ((a * 65536 + b) * 65536 + c) * 65536 ^ 5"

text \<open>\<open>is_private\<close>: the special-purpose registries less their globally reachable exceptions.\<close>

definition is_private_v4 :: "ip \<Rightarrow> bool" where
  "is_private_v4 a \<longleftrightarrow>
     list_ex (\<lambda>(net, len). in_v4 net len a)
       [(quad 0 0 0 0, 8), (quad 10 0 0 0, 8), (quad 127 0 0 0, 8), (quad 169 254 0 0, 16),
        (quad 172 16 0 0, 12), (quad 192 0 0 0, 24), (quad 192 0 0 170, 31), (quad 192 0 2 0, 24),
        (quad 192 168 0 0, 16), (quad 198 18 0 0, 15), (quad 198 51 100 0, 24), (quad 203 0 113 0, 24),
        (quad 240 0 0 0, 4), (quad 255 255 255 255, 32)]
     \<and> \<not> list_ex (\<lambda>(net, len). in_v4 net len a) [(quad 192 0 0 9, 32), (quad 192 0 0 10, 32)]"

definition is_private_v6 :: "ip \<Rightarrow> bool" where
  "is_private_v6 a \<longleftrightarrow>
     list_ex (\<lambda>(net, len). in_v6 net len a)
       [(1, 128), (0, 128), (0xffff * 65536 ^ 2, 96), (lead3 0x64 0xff9b 1, 48), (lead 0x100, 64),
        (lead 0x2001, 23), (lead3 0x2001 0xdb8 0, 32), (lead 0x2002, 16), (lead 0xfc00, 7),
        (lead 0xfe80, 10)]
     \<and> \<not> list_ex (\<lambda>(net, len). in_v6 net len a)
       [(lead3 0x2001 1 0 + 1, 128), (lead3 0x2001 1 0 + 2, 128), (lead3 0x2001 3 0, 32),
        (lead3 0x2001 4 0x112, 48), (lead3 0x2001 0x20 0, 28), (lead3 0x2001 0x30 0, 28)]"

definition is_private :: "ip \<Rightarrow> bool" where
  "is_private a \<longleftrightarrow>
     (case ipv4_mapped a of Some m \<Rightarrow> is_private_v4 m | None \<Rightarrow> is_private_v4 a \<or> is_private_v6 a)"

section \<open>Properties\<close>

lemma digits_value_nonneg: "list_all is_digit ds \<Longrightarrow> 0 \<le> digits_value ds"
proof (induction ds rule: rev_induct)
  case (snoc c ds)
  then show ?case by (simp add: digits_value_append_digit)
qed (simp add: digits_value_def)

lemma parse_octet_range: "parse_octet s = Some n \<Longrightarrow> 0 \<le> n \<and> n \<le> 255"
  by (auto simp: parse_octet_def digits_value_nonneg split: if_splits)

lemma parse_ipv4_range: "parse_ipv4 s = Some n \<Longrightarrow> 0 \<le> n \<and> n < 2 ^ 32"
  by (auto simp: parse_ipv4_def dest!: parse_octet_range split: list.splits option.splits)

lemma split_on_join:
  assumes "list_all (\<lambda>w. d \<notin> set w) ws" "ws \<noteq> []"
  shows "split_on d (join_with [d] ws) = ws"
  using assms
proof (induction ws)
  case (Cons w ws)
  show ?case
  proof (cases "ws = []")
    case True
    with Cons.prems show ?thesis by (simp add: split_on_no_delim)
  next
    case False
    with Cons show ?thesis by (simp add: join_with_Cons split_on_append_delim)
  qed
qed simp

lemma digits_no_dot: "0 \<le> n \<Longrightarrow> 46 \<notin> set (digits n)"
  using digits_is_digit [of n] by (auto simp: list_all_iff is_digit_def)

lemma length_digits_octet: "0 \<le> n \<Longrightarrow> n \<le> 255 \<Longrightarrow> length (digits n) \<le> 3"
  using length_digits [of n 2] by simp

lemma parse_octet_digits:
  assumes "0 \<le> n" "n \<le> 255"
  shows "parse_octet (digits n) = Some n"
proof -
  have z: "digits 0 = [48]" by (subst digits.simps) simp
  have "\<not> (digits n \<noteq> [48] \<and> hd (digits n) = 48)"
    using hd_digits_zero [of n] assms(1) z by auto
  moreover have "list_all is_digit (digits n)" "\<not> 3 < length (digits n)" "digits_value (digits n) = n"
    using assms length_digits_octet [of n] by (simp_all add: digits_is_digit digits_value_digits)
  ultimately show ?thesis
    unfolding parse_octet_def using assms(2) by (simp only: digits_nonempty) simp
qed

lemma parse_ipv4_text:
  assumes "0 \<le> n" "n < 2 ^ 32"
  shows "parse_ipv4 (ipv4_text n) = Some n"
proof -
  let ?o = "ipv4_octets n"
  have r: "0 \<le> x \<and> x \<le> 255" if "x \<in> set ?o" for x
    using that assms by (auto simp: ipv4_octets_def)
  have "split_on 46 (ipv4_text n) = map digits ?o"
    unfolding ipv4_text_def
  proof (rule split_on_join)
    show "list_all (\<lambda>w. 46 \<notin> set w) (map digits ?o)"
      using r digits_no_dot by (auto simp: list_all_iff)
    show "map digits ?o \<noteq> []"
      unfolding ipv4_octets_def by (simp only: list.map list.distinct not_False_eq_True)
  qed
  moreover have "parse_octet (digits x) = Some x" if "x \<in> set ?o" for x
    using r [OF that] by (simp add: parse_octet_digits)
  ultimately have m: "map parse_octet (split_on 46 (ipv4_text n)) = map Some ?o"
    by simp
  have "n div 16777216 = n div 256 div 256 div 256" "n div 65536 = n div 256 div 256"
    by (simp_all add: zdiv_zmult2_eq [symmetric])
  then have v: "((n div 16777216 * 256 + n div 65536 mod 256) * 256 + n div 256 mod 256) * 256 + n mod 256 = n"
    by (simp only: div_mult_mod_eq)
  show ?thesis
    unfolding parse_ipv4_def m ipv4_octets_def list.map list.case option.case v ..
qed

lemma ip_address_ipv4_text:
  assumes "0 \<le> n" "n < 2 ^ 32"
  shows "ip_address (ip_text (V4 n)) = Some (V4 n)"
proof -
  have "47 \<notin> set (join_with [46] ws)" if "list_all (\<lambda>w. 47 \<notin> set w) ws" for ws :: "pystr list"
    using that by (induction "[46] :: pystr" ws rule: join_with.induct) auto
  moreover have "47 \<notin> set (digits x)" if "0 \<le> x" for x
    using digits_is_digit [OF that] by (auto simp: list_all_iff is_digit_def)
  moreover have "list_all (\<lambda>x. 0 \<le> x) (ipv4_octets n)"
    using assms by (simp add: ipv4_octets_def)
  ultimately have "47 \<notin> set (ipv4_text n)"
    by (auto simp: ipv4_text_def list_all_iff)
  with parse_ipv4_text [OF assms] show ?thesis
    by (simp add: ip_address_def)
qed

end
