(* ===== verification/AddressPolicy.thy ===== *)
theory AddressPolicy
  imports Failures IpAddress
begin

text \<open>
  \<^verbatim>\<open>sdkpython/src/dex_connectors/sdk/providerhttp/address_policy.py\<close>: which provider
  addresses may be dialled.  DNS and the TCP connector are the arguments \<open>getaddrinfo\<close> and
  \<open>dial\<close> on a world \<open>'w\<close>; \<open>CancelledError\<close> from either is the deadline of
  \<open>anyio.fail_after\<close>.  The lemmas show that the backend dials only addresses that passed the
  policy, that one refused DNS answer stops every dial, and what the policy excludes.
\<close>

datatype address_policy = PublicHTTPS | PrivateNetworkHTTP | Unrestricted

definition SHARED_NETWORK :: "ip \<Rightarrow> bool" where
  "SHARED_NETWORK = in_v4 (quad 100 64 0 0) 10"

definition in_private_networks :: "ip \<Rightarrow> bool" where
  "in_private_networks a \<longleftrightarrow> in_v4 (quad 10 0 0 0) 8 a \<or> in_v4 (quad 172 16 0 0) 12 a
     \<or> in_v4 (quad 192 168 0 0) 16 a \<or> in_v6 (lead 0xfc00) 7 a"

definition METADATA_IPV6 :: ip where
  "METADATA_IPV6 = V6 (lead3 0xfd00 0xec2 0 + 0x254) None"

definition BROADCAST_IPV4 :: ip where
  "BROADCAST_IPV4 = V4 (quad 255 255 255 255)"

definition checked_ip :: "pystr \<Rightarrow> ip option" where
  "checked_ip address =
     (case ip_address address of
        None \<Rightarrow> None
      | Some a \<Rightarrow> (case ipv4_mapped a of Some m \<Rightarrow> Some m | None \<Rightarrow> Some a))"

definition refusal_reason_ip :: "ip \<Rightarrow> pystr \<Rightarrow> address_policy \<Rightarrow> pystr" where
  "refusal_reason_ip a scheme policy =
     (let private = is_loopback a \<or> in_private_networks a in
      if is_link_local a \<or> a = METADATA_IPV6
      then str ''link-local addresses, which include the cloud metadata address, are never allowed''
      else if is_unspecified a \<or> is_multicast a \<or> a = BROADCAST_IPV4
      then str ''only unicast addresses are allowed''
      else if policy = PublicHTTPS \<and> scheme \<noteq> str ''https''
      then str ''plain http is not allowed; use https''
      else if policy = PublicHTTPS \<and> (private \<or> SHARED_NETWORK a)
      then str ''only public addresses are allowed''
      else if policy = PrivateNetworkHTTP \<and> scheme = str ''http'' \<and> \<not> private
      then str ''plain http is allowed only when every resolved address is loopback or private; use https''
      else [])"

definition refusal_reason :: "pystr \<Rightarrow> pystr \<Rightarrow> address_policy \<Rightarrow> pystr" where
  "refusal_reason address scheme policy =
     (case checked_ip address of
        None \<Rightarrow> str ''resolved address is invalid''
      | Some a \<Rightarrow> refusal_reason_ip a scheme policy)"

section \<open>Resolution and dialling\<close>

type_synonym 'w resolver = "pystr \<Rightarrow> int \<Rightarrow> 'w \<Rightarrow> (exc + pystr list) \<times> 'w"
type_synonym ('s, 'w) dialler = "pystr \<Rightarrow> int \<Rightarrow> 'w \<Rightarrow> (exc + 's) \<times> 'w"

definition resolve_addresses :: "'w resolver \<Rightarrow> pystr \<Rightarrow> int \<Rightarrow> 'w \<Rightarrow> (exc + pystr list) \<times> 'w" where
  "resolve_addresses getaddrinfo host port w =
     (case checked_ip host of
        Some a \<Rightarrow> (ret [ip_text a], w)
      | None \<Rightarrow>
        (case getaddrinfo host port w of
           (Inl e, w') \<Rightarrow>
             (if is_OSError e then raise (ConnectError (str ''provider address resolution failed''))
              else raise e, w')
         | (Inr addresses, w') \<Rightarrow>
             (if addresses = []
              then raise (ConnectError (str ''provider address resolution returned no addresses''))
              else ret addresses, w')))"

definition check_address :: "pystr \<Rightarrow> address_policy \<Rightarrow> pystr \<Rightarrow> exc + pystr" where
  "check_address scheme policy address =
     (let reason = refusal_reason address scheme policy in
      if reason \<noteq> [] then raise (AddressRefusal reason)
      else
        (case checked_ip address of
           None \<Rightarrow> raise (ValueError (str ''does not appear to be an IPv4 or IPv6 address''))
         | Some a \<Rightarrow> ret (ip_text a)))"

text \<open>The loop over the checked addresses keeps the last connection error.\<close>

fun dial_first :: "('s, 'w) dialler \<Rightarrow> int \<Rightarrow> exc option \<Rightarrow> pystr list \<Rightarrow> 'w \<Rightarrow> (exc + 's) \<times> 'w" where
  "dial_first dial port last_error [] w =
     (raise (case last_error of None \<Rightarrow> AssertionError [] | Some e \<Rightarrow> e), w)"
| "dial_first dial port last_error (a # as) w =
     (case dial a port w of
        (Inr stream, w') \<Rightarrow> (ret stream, w')
      | (Inl e, w') \<Rightarrow>
          (case e of
             ConnectError _ \<Rightarrow> dial_first dial port (Some e) as w'
           | ConnectTimeout _ \<Rightarrow> dial_first dial port (Some e) as w'
           | _ \<Rightarrow> (raise e, w')))"

definition with_deadline :: "(exc + 'a) \<times> 'w \<Rightarrow> (exc + 'a) \<times> 'w" where
  "with_deadline m =
     (case m of
        (Inl CancelledError, w) \<Rightarrow>
          (raise (ConnectTimeout (str ''provider address connection timed out'')), w)
      | _ \<Rightarrow> m)"

text \<open>\<open>scheme\<close> is the context variable that the transport sets for the request.\<close>

definition connect_tcp ::
  "'w resolver \<Rightarrow> ('s, 'w) dialler \<Rightarrow> address_policy \<Rightarrow> pystr option \<Rightarrow> pystr \<Rightarrow> int \<Rightarrow> 'w
     \<Rightarrow> (exc + 's) \<times> 'w" where
  "connect_tcp getaddrinfo dial policy scheme host port w =
     (case scheme of
        None \<Rightarrow> (raise (AddressRefusal (str ''URL scheme is not allowed'')), w)
      | Some s \<Rightarrow>
        if s \<noteq> str ''http'' \<and> s \<noteq> str ''https''
        then (raise (AddressRefusal (str ''URL scheme is not allowed'')), w)
        else
          with_deadline
            (case resolve_addresses getaddrinfo host port w of
               (Inl e, w') \<Rightarrow> (raise e, w')
             | (Inr addresses, w') \<Rightarrow>
               (case emap (check_address s policy) addresses of
                  Inl e \<Rightarrow> (raise e, w')
                | Inr checked \<Rightarrow> dial_first dial port None checked w')))"

definition connect_unix_socket :: "pystr \<Rightarrow> 'w \<Rightarrow> (exc + 's) \<times> 'w" where
  "connect_unix_socket path w = (raise (AddressRefusal (str ''Unix sockets are not allowed'')), w)"

text \<open>The backend exists for the two restricted policies only.\<close>

definition new_backend :: "address_policy \<Rightarrow> exc + address_policy" where
  "new_backend policy =
     (if policy = Unrestricted then raise (ValueError (str ''address policy is invalid'')) else ret policy)"

text \<open>The transport sets the scheme around the request and resets it afterwards.\<close>

definition handle_async_request ::
  "(pystr option \<Rightarrow> 'w \<Rightarrow> (exc + 'r) \<times> 'w) \<Rightarrow> pystr \<Rightarrow> 'w \<Rightarrow> (exc + 'r) \<times> 'w" where
  "handle_async_request transport scheme w =
     (if scheme \<noteq> str ''http'' \<and> scheme \<noteq> str ''https''
      then (raise (AddressRefusal (str ''URL scheme is not allowed'')), w)
      else transport (Some scheme) w)"

section \<open>What the policy excludes\<close>

definition never_allowed :: "ip \<Rightarrow> bool" where
  "never_allowed a \<longleftrightarrow> is_link_local a \<or> a = METADATA_IPV6 \<or> is_unspecified a \<or> is_multicast a
     \<or> a = BROADCAST_IPV4"

text \<open>The policy table: which unicast addresses each policy admits on which scheme.\<close>

definition policy_admits :: "address_policy \<Rightarrow> pystr \<Rightarrow> ip \<Rightarrow> bool" where
  "policy_admits policy scheme a =
     (let private = is_loopback a \<or> in_private_networks a in
      case policy of
        PublicHTTPS \<Rightarrow> scheme = str ''https'' \<and> \<not> private \<and> \<not> SHARED_NETWORK a
      | PrivateNetworkHTTP \<Rightarrow> if scheme = str ''http'' then private else True
      | Unrestricted \<Rightarrow> True)"

lemma refusal_reason_ip_allowed_iff:
  "refusal_reason_ip a scheme policy = [] \<longleftrightarrow> \<not> never_allowed a \<and> policy_admits policy scheme a"
  by (cases policy) (auto simp: policy_admits_def refusal_reason_ip_def Let_def never_allowed_def)

lemma check_address_eq_Inr_iff:
  "check_address scheme policy address = Inr t \<longleftrightarrow>
     (\<exists>a. checked_ip address = Some a \<and> refusal_reason_ip a scheme policy = [] \<and> t = ip_text a)"
  by (auto simp: check_address_def refusal_reason_def Let_def split: option.splits)

text \<open>A mapped IPv4 address never passes as an IPv6 address.\<close>

lemma checked_ip_not_mapped: "checked_ip address = Some a \<Longrightarrow> ipv4_mapped a = None"
  by (auto simp: checked_ip_def ipv4_mapped_def split: option.splits ip.splits if_splits)

section \<open>Dials are checked\<close>

text \<open>A dialler that records what it is asked to dial.\<close>

definition recording_dial :: "(pystr \<Rightarrow> int \<Rightarrow> pystr list \<Rightarrow> exc + 's) \<Rightarrow> ('s, pystr list) dialler" where
  "recording_dial outcome a port w = (outcome a port w, w @ [a])"

text \<open>Addresses are dialled in order, each at most once.\<close>

lemma dial_first_log:
  "\<exists>k \<le> length as. snd (dial_first (recording_dial outcome) port l as w) = w @ take k as"
proof (induction as arbitrary: l w)
  case (Cons a as)
  let ?d = "\<lambda>l as w. snd (dial_first (recording_dial outcome) port l as w)"
  have "?d l (a # as) w = w @ take 1 (a # as) \<or> (\<exists>e. ?d l (a # as) w = ?d (Some e) as (w @ [a]))"
    by (cases "outcome a port w") (auto simp: recording_dial_def split: exc.splits)
  then show ?case
  proof
    assume "?d l (a # as) w = w @ take 1 (a # as)"
    then show ?thesis by (intro exI [of _ 1]) simp
  next
    assume "\<exists>e. ?d l (a # as) w = ?d (Some e) as (w @ [a])"
    then obtain e k where "k \<le> length as" "?d l (a # as) w = (w @ [a]) @ take k as"
      using Cons.IH by metis
    then show ?thesis by (intro exI [of _ "Suc k"]) simp
  qed
qed simp

lemma snd_with_deadline [simp]: "snd (with_deadline m) = snd m"
  by (auto simp: with_deadline_def split: prod.splits sum.splits exc.splits)

text \<open>
  Whatever DNS answers, every dialled address is the text of an address that the policy allows
  for the request's scheme.
\<close>

lemma connect_tcp_dials_allowed:
  assumes "t \<in> set (snd (connect_tcp (\<lambda>h p w. (answers, w)) (recording_dial outcome) policy scheme host port []))"
  shows "\<exists>a s. scheme = Some s \<and> t = ip_text a \<and> refusal_reason_ip a s policy = []"
proof -
  obtain s where s: "scheme = Some s" "s = str ''http'' \<or> s = str ''https''"
    using assms by (auto simp: connect_tcp_def split: option.splits if_splits)
  obtain r w' where r: "resolve_addresses (\<lambda>h p w. (answers, w)) host port ([] :: pystr list) = (r, w')"
    by fastforce
  have w': "w' = []"
    using r by (auto simp: resolve_addresses_def split: option.splits sum.splits)
  have n: "\<not> (s \<noteq> str ''http'' \<and> s \<noteq> str ''https'')"
    using s(2) by blast
  have u: "snd (connect_tcp (\<lambda>h p w. (answers, w)) (recording_dial outcome) policy scheme host port []) =
      (case r of Inl e \<Rightarrow> []
       | Inr addresses \<Rightarrow> (case emap (check_address s policy) addresses of
           Inl e \<Rightarrow> [] | Inr checked \<Rightarrow> snd (dial_first (recording_dial outcome) port None checked [])))"
    unfolding connect_tcp_def s(1) option.case if_not_P [OF n] snd_with_deadline r w' prod.case
    by (simp split: sum.splits)
  from assms obtain addresses where a: "r = Inr addresses"
    unfolding u by (cases r) auto
  obtain checked where c: "emap (check_address s policy) addresses = Inr checked"
    and t: "t \<in> set (snd (dial_first (recording_dial outcome) port None checked []))"
    using assms unfolding u a by (cases "emap (check_address s policy) addresses") auto
  obtain k where "snd (dial_first (recording_dial outcome) port None checked []) = take k checked"
    using dial_first_log [of checked outcome port None "[]"] unfolding append_Nil by blast
  with t have "t \<in> set checked" by (metis in_set_takeD)
  with c obtain address where "check_address s policy address = Inr t"
    by (auto simp: emap_eq_Inr_iff list_all2_conv_all_nth in_set_conv_nth)
  with s(1) show ?thesis
    by (auto simp: check_address_eq_Inr_iff)
qed

text \<open>One refused answer stops the connection before any dial.\<close>

lemma connect_tcp_refused_no_dial:
  assumes "checked_ip host = None" "answers = Inr addresses" "address \<in> set addresses"
    and "refusal_reason address s policy \<noteq> []"
  shows "snd (connect_tcp (\<lambda>h p w. (answers, w)) (recording_dial outcome) policy (Some s) host port []) = []"
proof -
  have "emap (check_address s policy) addresses \<noteq> Inr checked" for checked
  proof
    assume "emap (check_address s policy) addresses = Inr checked"
    with assms(3) obtain t where "check_address s policy address = Inr t"
      by (auto simp: emap_eq_Inr_iff list_all2_conv_all_nth in_set_conv_nth)
    with assms(4) show False by (simp add: check_address_def Let_def)
  qed
  then obtain e where "emap (check_address s policy) addresses = Inl e"
    by (cases "emap (check_address s policy) addresses") auto
  then show ?thesis
    using assms(1,2) by (simp add: connect_tcp_def resolve_addresses_def)
qed

text \<open>
  The metadata address is compared together with its zone: with a zone it is an ordinary
  private address and plain HTTP to it is allowed on a private network.
\<close>

lemma metadata_with_zone_allowed:
  "refusal_reason (str ''fd00:ec2::254%1'') (str ''http'') PrivateNetworkHTTP = []"
  by code_simp

lemma metadata_refused:
  "refusal_reason (str ''fd00:ec2::254'') (str ''http'') PrivateNetworkHTTP \<noteq> []"
  by code_simp

end
