(* ===== verification/Utf8.thy ===== *)
theory Utf8
  imports Prelude
begin

text \<open>
  UTF-8 as \<open>str.encode("utf-8")\<close> and \<open>bytes.decode("utf-8", errors="ignore")\<close> compute it.
  A code point is encodable when it is not a surrogate; encoding anything else raises
  \<open>UnicodeEncodeError\<close>, which is \<open>None\<close> here.  The decoder with \<open>errors="ignore"\<close> drops a
  byte that starts no well-formed sequence.  The main facts: decoding inverts encoding, and
  decoding a cut encoding gives the longest prefix whose encoding fits the cut.
\<close>

definition is_scalar :: "nat \<Rightarrow> bool" where
  "is_scalar c \<longleftrightarrow> c < 0xD800 \<or> (0xE000 \<le> c \<and> c \<le> 0x10FFFF)"

definition utf8_char :: "nat \<Rightarrow> bytes" where
  "utf8_char c =
     (if c < 0x80 then [c]
      else if c < 0x800 then [0xC0 + c div 64, 0x80 + c mod 64]
      else if c < 0x10000 then [0xE0 + c div 4096, 0x80 + c div 64 mod 64, 0x80 + c mod 64]
      else [0xF0 + c div 262144, 0x80 + c div 4096 mod 64, 0x80 + c div 64 mod 64, 0x80 + c mod 64])"

definition utf8_encode :: "pystr \<Rightarrow> bytes option" where
  "utf8_encode s = (if list_all is_scalar s then Some (concat (map utf8_char s)) else None)"

definition is_cont :: "nat \<Rightarrow> bool" where
  "is_cont b \<longleftrightarrow> 0x80 \<le> b \<and> b < 0xC0"

text \<open>One well-formed sequence off the front, if there is one.\<close>

definition utf8_next :: "bytes \<Rightarrow> (nat \<times> bytes) option" where
  "utf8_next bs =
     (case bs of
        [] \<Rightarrow> None
      | b0 # r0 \<Rightarrow>
        if b0 < 0x80 then Some (b0, r0)
        else if 0xC2 \<le> b0 \<and> b0 < 0xE0 then
          (case r0 of
             b1 # r1 \<Rightarrow> if is_cont b1 then Some ((b0 - 0xC0) * 64 + (b1 - 0x80), r1) else None
           | [] \<Rightarrow> None)
        else if 0xE0 \<le> b0 \<and> b0 < 0xF0 then
          (case r0 of
             b1 # b2 # r2 \<Rightarrow>
               (let c = (b0 - 0xE0) * 4096 + (b1 - 0x80) * 64 + (b2 - 0x80)
                in if is_cont b1 \<and> is_cont b2 \<and> 0x800 \<le> c \<and> is_scalar c then Some (c, r2) else None)
           | _ \<Rightarrow> None)
        else if 0xF0 \<le> b0 \<and> b0 < 0xF5 then
          (case r0 of
             b1 # b2 # b3 # r3 \<Rightarrow>
               (let c = (b0 - 0xF0) * 262144 + (b1 - 0x80) * 4096 + (b2 - 0x80) * 64 + (b3 - 0x80)
                in if is_cont b1 \<and> is_cont b2 \<and> is_cont b3 \<and> 0x10000 \<le> c \<and> is_scalar c
                   then Some (c, r3) else None)
           | _ \<Rightarrow> None)
        else None)"

lemma utf8_next_shorter: "utf8_next bs = Some (c, r) \<Longrightarrow> length r < length bs"
  by (auto simp: utf8_next_def Let_def split: list.splits if_splits)

function utf8_decode_ignore :: "bytes \<Rightarrow> pystr" where
  "utf8_decode_ignore [] = []"
| "utf8_decode_ignore (b # bs) =
     (case utf8_next (b # bs) of
        Some (c, r) \<Rightarrow> c # utf8_decode_ignore r
      | None \<Rightarrow> utf8_decode_ignore bs)"
  by pat_completeness auto
termination
  by (relation "measure length") (auto dest: utf8_next_shorter)

text \<open>\<open>bytes.decode("utf-8")\<close>: strict, \<open>None\<close> is \<open>UnicodeDecodeError\<close>.\<close>

function utf8_decode :: "bytes \<Rightarrow> pystr option" where
  "utf8_decode [] = Some []"
| "utf8_decode (b # bs) =
     (case utf8_next (b # bs) of
        Some (c, r) \<Rightarrow> map_option (\<lambda>s. c # s) (utf8_decode r)
      | None \<Rightarrow> None)"
  by pat_completeness auto
termination
  by (relation "measure length") (auto dest: utf8_next_shorter)

section \<open>One code point\<close>

lemma utf8_char_nonempty [simp]: "utf8_char c \<noteq> []"
  by (simp add: utf8_char_def)

lemma utf8_char_bytes: "is_scalar c \<Longrightarrow> b \<in> set (utf8_char c) \<Longrightarrow> b < 256"
  by (auto simp: utf8_char_def is_scalar_def split: if_splits)

lemma digits64_3:
  fixes c :: nat
  shows "c div 4096 * 4096 + c div 64 mod 64 * 64 + c mod 64 = c"
proof -
  have "c div 4096 = c div 64 div 64" by (simp add: div_mult2_eq [symmetric])
  then have "c div 4096 * 64 + c div 64 mod 64 = c div 64" by simp
  then have "(c div 4096 * 64 + c div 64 mod 64) * 64 + c mod 64 = c" by simp
  then show ?thesis by (simp add: algebra_simps)
qed

lemma digits64_4:
  fixes c :: nat
  shows "c div 262144 * 262144 + c div 4096 mod 64 * 4096 + c div 64 mod 64 * 64 + c mod 64 = c"
proof -
  have "c div 262144 = c div 4096 div 64" by (simp add: div_mult2_eq [symmetric])
  then have "c div 262144 * 64 + c div 4096 mod 64 = c div 4096" by simp
  then have "(c div 262144 * 64 + c div 4096 mod 64) * 4096 + c div 64 mod 64 * 64 + c mod 64 = c"
    by (simp add: digits64_3)
  then show ?thesis by (simp add: algebra_simps)
qed

lemma utf8_next_char:
  assumes "is_scalar c"
  shows "utf8_next (utf8_char c @ r) = Some (c, r)"
proof -
  consider "c < 0x80" | "0x80 \<le> c" "c < 0x800" | "0x800 \<le> c" "c < 0x10000" | "0x10000 \<le> c"
    by linarith
  then show ?thesis
  proof cases
    case 2
    then have "2 \<le> c div 64" "c div 64 < 32" by auto
    with 2 show ?thesis by (simp add: utf8_next_def utf8_char_def is_cont_def)
  next
    case 3
    then have "c div 4096 < 16" by auto
    with 3 assms show ?thesis
      using digits64_3 [of c] by (simp add: utf8_next_def utf8_char_def is_cont_def Let_def)
  next
    case 4
    with assms have "c \<le> 0x10FFFF" by (simp add: is_scalar_def)
    then have "c div 262144 < 5" by auto
    with 4 assms show ?thesis
      using digits64_4 [of c] by (simp add: utf8_next_def utf8_char_def is_cont_def Let_def)
  qed (simp add: utf8_next_def utf8_char_def)
qed

text \<open>A proper non-empty prefix of one encoding decodes to nothing.\<close>

lemma decode_cont_only: "list_all is_cont bs \<Longrightarrow> utf8_decode_ignore bs = []"
  by (induction bs) (auto simp: utf8_next_def is_cont_def)

lemma utf8_char_cases:
  assumes "is_scalar c"
  obtains (single) "utf8_char c = [c]" "c < 0x80"
  | (multi) b0 cs where "utf8_char c = b0 # cs" "list_all is_cont cs" "cs \<noteq> []" "0xC2 \<le> b0"
      "length cs = (if b0 < 0xE0 then 1 else if b0 < 0xF0 then 2 else 3)"
proof -
  consider "c < 0x80" | "0x80 \<le> c" "c < 0x800" | "0x800 \<le> c" "c < 0x10000" | "0x10000 \<le> c"
    by linarith
  then show thesis
  proof cases
    case 2
    then have "2 \<le> c div 64" "c div 64 < 32" by auto
    with 2 show thesis by (intro multi) (auto simp: utf8_char_def is_cont_def)
  next
    case 3
    then have "c div 4096 < 16" by auto
    with 3 show thesis by (intro multi) (auto simp: utf8_char_def is_cont_def)
  next
    case 4
    then show thesis by (intro multi) (auto simp: utf8_char_def is_cont_def)
  qed (auto simp: utf8_char_def intro: single)
qed

lemma utf8_next_short:
  assumes "0xC2 \<le> b0" "length ds < (if b0 < 0xE0 then 1 else if b0 < 0xF0 then 2 else 3)"
  shows "utf8_next (b0 # ds) = None"
  using assms by (auto simp: utf8_next_def Let_def split: list.splits if_splits)

lemma decode_cut_char:
  assumes "is_scalar c" "n < length (utf8_char c)"
  shows "utf8_decode_ignore (take n (utf8_char c)) = []"
  using assms(1)
proof (cases rule: utf8_char_cases)
  case single
  with assms(2) show ?thesis by simp
next
  case (multi b0 cs)
  show ?thesis
  proof (cases n)
    case (Suc m)
    with multi assms(2) have "utf8_next (b0 # take m cs) = None"
      by (intro utf8_next_short) auto
    moreover have "list_all is_cont (take m cs)"
      using multi(2) by (auto simp: list_all_iff dest: in_set_takeD)
    ultimately show ?thesis
      using Suc multi(1) by (simp add: decode_cont_only)
  qed simp
qed

section \<open>Strings\<close>

abbreviation utf8_len :: "pystr \<Rightarrow> nat" where
  "utf8_len s \<equiv> length (concat (map utf8_char s))"

lemma decode_ignore_char_append:
  assumes "is_scalar c"
  shows "utf8_decode_ignore (utf8_char c @ r) = c # utf8_decode_ignore r"
proof -
  obtain b bs where "utf8_char c = b # bs"
    by (cases "utf8_char c") auto
  then show ?thesis
    using utf8_next_char [OF assms, of r] by simp
qed

lemma decode_char_append:
  assumes "is_scalar c"
  shows "utf8_decode (utf8_char c @ r) = map_option (\<lambda>s. c # s) (utf8_decode r)"
proof -
  obtain b bs where "utf8_char c = b # bs"
    by (cases "utf8_char c") auto
  then show ?thesis
    using utf8_next_char [OF assms, of r] by simp
qed

lemma utf8_decode_encode: "utf8_encode s = Some bs \<Longrightarrow> utf8_decode bs = Some s"
proof (induction s arbitrary: bs)
  case (Cons c s)
  then show ?case
    by (auto simp: utf8_encode_def decode_char_append split: if_splits)
qed (simp add: utf8_encode_def split: if_splits)

lemma utf8_encode_inj: "utf8_encode s = Some bs \<Longrightarrow> utf8_encode t = Some bs \<Longrightarrow> s = t"
  by (metis option.inject utf8_decode_encode)

lemma utf8_encode_bytes: "utf8_encode s = Some bs \<Longrightarrow> b \<in> set bs \<Longrightarrow> b < 256"
  using utf8_char_bytes by (fastforce simp: utf8_encode_def list_all_iff split: if_splits)

lemma utf8_encode_ascii: "list_all (\<lambda>c. c < 128) s \<Longrightarrow> utf8_encode s = Some s"
  by (induction s) (auto simp: utf8_encode_def is_scalar_def utf8_char_def split: if_splits)

text \<open>
  The string that survives a cut at \<open>n\<close> bytes is the longest prefix whose encoding has at
  most \<open>n\<close> bytes: no character is split and none is dropped that would have fitted.
\<close>

lemma utf8_cut_longest_prefix:
  assumes "list_all is_scalar s"
  shows "\<exists>k \<le> length s. utf8_decode_ignore (take n (concat (map utf8_char s))) = take k s
           \<and> utf8_len (take k s) \<le> n \<and> (k < length s \<longrightarrow> n < utf8_len (take (Suc k) s))"
  using assms
proof (induction s arbitrary: n)
  case (Cons c s)
  then have c: "is_scalar c" and s: "list_all is_scalar s" by auto
  show ?case
  proof (cases "length (utf8_char c) \<le> n")
    case True
    obtain k where k: "k \<le> length s"
      "utf8_decode_ignore (take (n - length (utf8_char c)) (concat (map utf8_char s))) = take k s"
      "utf8_len (take k s) \<le> n - length (utf8_char c)"
      "k < length s \<longrightarrow> n - length (utf8_char c) < utf8_len (take (Suc k) s)"
      using Cons.IH [OF s, of "n - length (utf8_char c)"] by blast
    with True show ?thesis
      by (intro exI [of _ "Suc k"]) (auto simp: decode_ignore_char_append [OF c])
  next
    case False
    then show ?thesis
      by (intro exI [of _ 0]) (simp add: decode_cut_char [OF c])
  qed
qed simp

end
