(* ===== verification/Identities.thy ===== *)
theory Identities
  imports Utf8 Failures
begin

text \<open>
  \<^verbatim>\<open>sdkpython/src/dex_connectors/sdk/types.py\<close>, first part: call identities and their
  derivation, connection and operation references, progress reporting, calls and branch
  definitions.  SHA-1 (\<open>hashlib\<close>) is the parameter \<open>sha1\<close>.  The lemmas show that the hashed
  payload determines the four identity fields, that a derived identity always validates, and
  the wire round trips.
\<close>

section \<open>Reading untyped objects\<close>

text \<open>\<open>value[key]\<close> on a value that should be a dictionary.\<close>

definition item :: "json \<Rightarrow> pystr \<Rightarrow> exc + json" where
  "item j k =
     (case j of
        JObj d \<Rightarrow> (case dict_get d k of None \<Rightarrow> raise KeyError | Some v \<Rightarrow> ret v)
      | _ \<Rightarrow> raise (TypeError (str ''indices must be integers'')))"

lemma item_JObj: "item (JObj d) k = (case dict_get d k of None \<Rightarrow> Inl KeyError | Some v \<Rightarrow> Inr v)"
  by (simp add: item_def)

section \<open>UUID text\<close>

text \<open>\<open>str.replace\<close> of a non-empty substring by nothing.\<close>

fun remove_all :: "pystr \<Rightarrow> pystr \<Rightarrow> pystr" where
  "remove_all w [] = []"
| "remove_all w (c # cs) =
     (if w \<noteq> [] \<and> prefix w (c # cs) then remove_all w (drop (length w) (c # cs))
      else c # remove_all w cs)"

definition uuid_hex :: "pystr \<Rightarrow> pystr" where
  "uuid_hex s =
     filter (\<lambda>c. c \<noteq> 45)
       (strip_by (\<lambda>c. c = 123 \<or> c = 125) (remove_all (str ''uuid:'') (remove_all (str ''urn:'') s)))"

text \<open>
  \<open>int(text, 16)\<close>: decimal digits of any script count, the code points of their zeros are
  those of Unicode 14; white space around the number is dropped (the ASCII separators 28 to
  31 are not white space here); a sign, a \<open>0x\<close> prefix and single underscores between digits
  are accepted.
\<close>

definition decimal_zeros :: "nat list" where
  "decimal_zeros =
     [48, 1632, 1776, 1984, 2406, 2534, 2662, 2790, 2918, 3046, 3174, 3302, 3430, 3558, 3664,
      3792, 3872, 4160, 4240, 6112, 6160, 6470, 6608, 6784, 6800, 6992, 7088, 7232, 7248, 42528,
      43216, 43264, 43472, 43504, 43600, 44016, 65296, 66720, 68912, 69734, 69872, 69942, 70096,
      70384, 70736, 70864, 71248, 71360, 71472, 71904, 72016, 72784, 73040, 73120, 92768, 92864,
      93008, 120782, 120792, 120802, 120812, 120822, 123200, 123632, 125264, 130032]"

definition is_hex_digit :: "nat \<Rightarrow> bool" where
  "is_hex_digit c \<longleftrightarrow> (97 \<le> c \<and> c \<le> 102) \<or> (65 \<le> c \<and> c \<le> 70)
     \<or> list_ex (\<lambda>z. z \<le> c \<and> c \<le> z + 9) decimal_zeros"

definition is_int_space :: "nat \<Rightarrow> bool" where
  "is_int_space c \<longleftrightarrow> is_space c \<and> \<not> (28 \<le> c \<and> c \<le> 31)"

fun grouped_digits :: "pystr \<Rightarrow> bool" where
  "grouped_digits [] \<longleftrightarrow> False"
| "grouped_digits [c] \<longleftrightarrow> is_hex_digit c"
| "grouped_digits (c # d # cs) \<longleftrightarrow>
     is_hex_digit c \<and> (if d = 95 then grouped_digits cs else grouped_digits (d # cs))"

definition drop_sign :: "pystr \<Rightarrow> pystr" where
  "drop_sign s = (case s of c # r \<Rightarrow> if c = 43 \<or> c = 45 then r else s | [] \<Rightarrow> s)"

definition drop_hex_prefix :: "pystr \<Rightarrow> pystr" where
  "drop_hex_prefix s =
     (case s of
        c # x # r \<Rightarrow>
          if c = 48 \<and> (x = 120 \<or> x = 88)
          then (case r of u # r' \<Rightarrow> if u = 95 then r' else r | [] \<Rightarrow> r) else s
      | _ \<Rightarrow> s)"

definition parses_base16 :: "pystr \<Rightarrow> bool" where
  "parses_base16 s \<longleftrightarrow> grouped_digits (drop_hex_prefix (drop_sign (strip_by is_int_space s)))"

text \<open>
  \<open>CallID.validate\<close>.  The hyphens are gone when the number is read, so it is not negative,
  and 32 digits are below \<open>2^128\<close>: the range check of \<open>UUID\<close> cannot fail.
\<close>

definition call_id_validate :: "pystr \<Rightarrow> exc + unit" where
  "call_id_validate s =
     ensure (length (uuid_hex s) = 32 \<and> parses_base16 (uuid_hex s))
       (ValueError (str ''call ID must be a UUID''))"

section \<open>References\<close>

record connection_ref =
  cr_provider :: pystr
  cr_name :: pystr

definition connection_ref_validate :: "connection_ref \<Rightarrow> exc + unit" where
  "connection_ref_validate r =
     ensure (strip (cr_provider r) \<noteq> [] \<and> strip (cr_name r) \<noteq> [])
       (ValueError (str ''connection provider and name are required''))"

definition connection_ref_to_wire :: "connection_ref \<Rightarrow> exc + jobj" where
  "connection_ref_to_wire r =
     ethen (connection_ref_validate r)
       (ret [(str ''provider'', JStr (cr_provider r)), (str ''name'', JStr (cr_name r))])"

text \<open>\<open>strip\<close> of a member that is not a string is an \<open>AttributeError\<close>.\<close>

definition connection_ref_from_wire :: "json \<Rightarrow> exc + connection_ref" where
  "connection_ref_from_wire value =
     ebind (item value (str ''provider'')) (\<lambda>p.
     ebind (item value (str ''name'')) (\<lambda>n.
     if \<not> is_str p then raise AttributeError
     else if strip (str_value p) = []
     then raise (ValueError (str ''connection provider and name are required''))
     else if \<not> is_str n then raise AttributeError
     else let r = \<lparr>cr_provider = str_value p, cr_name = str_value n\<rparr>
          in ethen (connection_ref_validate r) (ret r)))"

text \<open>\<open>CONNECTOR_ID_PATTERN\<close> and \<open>OPERATION_ID_PATTERN\<close>.\<close>

definition is_connector_id :: "pystr \<Rightarrow> bool" where
  "is_connector_id s \<longleftrightarrow> 2 \<le> length s \<and> length s \<le> 63 \<and> is_lower (hd s)
     \<and> list_all (\<lambda>c. is_lower c \<or> is_digit c \<or> c = 45) (tl s)"

definition is_operation_id :: "pystr \<Rightarrow> bool" where
  "is_operation_id s \<longleftrightarrow> 2 \<le> length s \<and> is_lower (hd s) \<and> list_all is_alnum (tl s)"

record operation_ref =
  connector_id :: pystr
  operation_id :: pystr

definition operation_ref_validate :: "operation_ref \<Rightarrow> exc + unit" where
  "operation_ref_validate r =
     (if \<not> is_connector_id (connector_id r)
      then raise (ValueError (str ''connector ID must be DNS-like and 2-63 characters''))
      else if \<not> is_operation_id (operation_id r)
      then raise (ValueError (str ''operation ID must be lower camel case''))
      else ret ())"

definition operation_ref_to_wire :: "operation_ref \<Rightarrow> exc + jobj" where
  "operation_ref_to_wire r =
     ethen (operation_ref_validate r)
       (ret [(str ''connectorId'', JStr (connector_id r)), (str ''operationId'', JStr (operation_id r))])"

text \<open>A reference whose members are untyped: \<open>fullmatch\<close> refuses what is not a string.\<close>

definition operation_ref_of :: "json \<Rightarrow> json \<Rightarrow> exc + operation_ref" where
  "operation_ref_of c p =
     (if \<not> is_str c then raise (TypeError (str ''expected string or bytes-like object''))
      else if \<not> is_connector_id (str_value c)
      then raise (ValueError (str ''connector ID must be DNS-like and 2-63 characters''))
      else if \<not> is_str p then raise (TypeError (str ''expected string or bytes-like object''))
      else let r = \<lparr>connector_id = str_value c, operation_id = str_value p\<rparr>
           in ethen (operation_ref_validate r) (ret r))"

definition operation_ref_from_wire :: "json \<Rightarrow> exc + operation_ref" where
  "operation_ref_from_wire value =
     ebind (item value (str ''connectorId'')) (\<lambda>c.
     ebind (item value (str ''operationId'')) (\<lambda>p. operation_ref_of c p))"

section \<open>Derived call identities\<close>

text \<open>\<open>len(field.encode()).to_bytes(4, "big") + field.encode()\<close>.\<close>

definition to_bytes4 :: "nat \<Rightarrow> exc + bytes" where
  "to_bytes4 n =
     (if n < 4294967296
      then ret [n div 16777216, n div 65536 mod 256, n div 256 mod 256, n mod 256]
      else raise OverflowError)"

definition encode_str :: "pystr \<Rightarrow> exc + bytes" where
  "encode_str s = (case utf8_encode s of None \<Rightarrow> raise UnicodeError | Some b \<Rightarrow> ret b)"

definition length_prefixed :: "pystr \<Rightarrow> exc + bytes" where
  "length_prefixed s =
     ebind (encode_str s) (\<lambda>b. ebind (to_bytes4 (length b)) (\<lambda>n. ret (n @ b)))"

definition call_id_payload :: "pystr \<Rightarrow> pystr \<Rightarrow> operation_ref \<Rightarrow> exc + bytes" where
  "call_id_payload flow_id step_execution_id operation =
     ebind (emap length_prefixed
              [flow_id, step_execution_id, connector_id operation, operation_id operation])
       (\<lambda>fs. ret (concat fs))"

text \<open>\<open>UUID(bytes=digest, version=5)\<close>: the variant and version bits are overwritten.\<close>

definition uuid_set_version5 :: "bytes \<Rightarrow> bytes" where
  "uuid_set_version5 b = b[6 := 80 + b ! 6 mod 16, 8 := 128 + b ! 8 mod 64]"

definition hex_char :: "nat \<Rightarrow> nat" where
  "hex_char n = (if n < 10 then 48 + n else 87 + n)"

definition hex_bytes :: "bytes \<Rightarrow> pystr" where
  "hex_bytes b = concat (map (\<lambda>x. [hex_char (x div 16), hex_char (x mod 16)]) b)"

definition uuid_text :: "bytes \<Rightarrow> pystr" where
  "uuid_text b =
     hex_bytes (take 4 b) @ [45] @ hex_bytes (take 2 (drop 4 b)) @ [45]
     @ hex_bytes (take 2 (drop 6 b)) @ [45] @ hex_bytes (take 2 (drop 8 b)) @ [45]
     @ hex_bytes (drop 10 b)"

definition namespace_url :: bytes where
  "namespace_url = [107, 167, 184, 17, 157, 173, 17, 209, 128, 180, 0, 192, 79, 212, 48, 200]"

text \<open>\<open>uuid5(namespace, name).bytes\<close> and the namespace of call identities.\<close>

definition uuid5_bytes :: "(bytes \<Rightarrow> bytes) \<Rightarrow> bytes \<Rightarrow> bytes \<Rightarrow> bytes" where
  "uuid5_bytes sha1 namespace name = uuid_set_version5 (take 16 (sha1 (namespace @ name)))"

definition call_id_namespace :: "(bytes \<Rightarrow> bytes) \<Rightarrow> bytes" where
  "call_id_namespace sha1 =
     uuid5_bytes sha1 namespace_url (str ''https://superdurable.dev/dex-connectors/call-id/v1'')"

definition derive_call_id ::
  "(bytes \<Rightarrow> bytes) \<Rightarrow> pystr \<Rightarrow> pystr \<Rightarrow> operation_ref \<Rightarrow> exc + pystr" where
  "derive_call_id sha1 flow_id step_execution_id operation =
     (if flow_id = [] \<or> step_execution_id = []
      then raise (ValueError (str ''Dex Flow and Step execution IDs are required''))
      else
        ethen (operation_ref_validate operation)
          (ebind (call_id_payload flow_id step_execution_id operation) (\<lambda>payload.
             ret (uuid_text (uuid5_bytes sha1 (call_id_namespace sha1) payload)))))"

section \<open>Progress\<close>

record progress =
  pr_phase :: pystr
  pr_message :: pystr
  pr_percent :: "pyfloat option"
  pr_provider_sequence :: "int option"

record progress_update =
  pu_call_id :: pystr
  pu_attempt :: int
  pu_sequence :: int
  pu_progress :: progress

text \<open>
  \<open>_ProgressReporter\<close>: the counter is its only mutable state.  \<open>write\<close> is \<open>Stream.write\<close> of
  the Dex SDK on a world \<open>'w\<close>; the lock makes each report one step.
\<close>

record reporter =
  rp_call_id :: pystr
  rp_attempt :: int
  rp_sequence :: int

definition new_reporter :: "pystr \<Rightarrow> int \<Rightarrow> reporter" where
  "new_reporter c a = \<lparr>rp_call_id = c, rp_attempt = a, rp_sequence = 0\<rparr>"

definition progress_in_range :: "progress \<Rightarrow> bool" where
  "progress_in_range p \<longleftrightarrow>
     (case pr_percent p of None \<Rightarrow> True
      | Some x \<Rightarrow> \<not> (float_lt x (Fin 0) \<or> float_lt (Fin 1) x))"

definition reporter_report ::
  "(progress_update \<Rightarrow> 'w \<Rightarrow> (exc + unit) \<times> 'w) \<Rightarrow> progress \<Rightarrow> reporter \<Rightarrow> 'w
     \<Rightarrow> (exc + unit) \<times> reporter \<times> 'w" where
  "reporter_report write p r w =
     (if \<not> progress_in_range p
      then (raise (ValueError (str ''connector progress percent must be between 0 and 1'')), r, w)
      else
        let r' = r\<lparr>rp_sequence := rp_sequence r + 1\<rparr>;
            (res, w') = write \<lparr>pu_call_id = rp_call_id r', pu_attempt = rp_attempt r',
                              pu_sequence = rp_sequence r', pu_progress = p\<rparr> w
        in (res, r', w'))"

section \<open>Calls\<close>

text \<open>The persisted part of a call; the streams are the arguments of the next operations.\<close>

record call =
  call_id :: pystr
  call_connection :: connection_ref
  call_operation :: operation_ref
  call_idempotency_key :: pystr

definition report_progress ::
  "(progress_update \<Rightarrow> 'w \<Rightarrow> (exc + unit) \<times> 'w) \<Rightarrow> progress \<Rightarrow> reporter option \<Rightarrow> 'w
     \<Rightarrow> (exc + unit) \<times> reporter option \<times> 'w" where
  "report_progress write p ro w =
     (case ro of
        None \<Rightarrow> (ret (), None, w)
      | Some r \<Rightarrow> (case reporter_report write p r w of (res, r', w') \<Rightarrow> (res, Some r', w')))"

definition write_text ::
  "(pystr \<Rightarrow> 'w \<Rightarrow> (exc + unit) \<times> 'w) option \<Rightarrow> pystr \<Rightarrow> 'w \<Rightarrow> (exc + unit) \<times> 'w" where
  "write_text writer value w = (case writer of None \<Rightarrow> (ret (), w) | Some write \<Rightarrow> write value w)"

definition call_to_wire :: "call \<Rightarrow> exc + jobj" where
  "call_to_wire c =
     ethen (call_id_validate (call_id c))
       (ebind (connection_ref_to_wire (call_connection c)) (\<lambda>conn.
        ebind (operation_ref_to_wire (call_operation c)) (\<lambda>op.
        ret ([(str ''id'', JStr (call_id c)), (str ''connection'', JObj conn),
              (str ''operation'', JObj op)]
             @ (if call_idempotency_key c \<noteq> []
                then [(str ''idempotencyKey'', JStr (call_idempotency_key c))] else [])))))"

definition call_from_wire :: "jobj \<Rightarrow> exc + call" where
  "call_from_wire value =
     ebind (item (JObj value) (str ''id'')) (\<lambda>i.
     ebind (item (JObj value) (str ''connection'')) (\<lambda>cj.
     ebind (connection_ref_from_wire cj) (\<lambda>conn.
     ebind (item (JObj value) (str ''operation'')) (\<lambda>oj.
     ebind (operation_ref_from_wire oj) (\<lambda>op.
     let c = \<lparr>call_id = py_str i, call_connection = conn, call_operation = op,
              call_idempotency_key = py_str (get_or value (str ''idempotencyKey'') (JStr []))\<rparr>
     in ethen (call_id_validate (call_id c)) (ret c))))))"

section \<open>Branches\<close>

definition DEFECT_BRANCH_ID :: pystr where
  "DEFECT_BRANCH_ID = str ''defect''"

definition UNCERTAIN_BRANCH_ID :: pystr where
  "UNCERTAIN_BRANCH_ID = str ''uncertain''"

record branch_definition =
  br_id :: pystr
  br_description :: pystr
  br_optional :: bool

definition branch_validate :: "branch_definition \<Rightarrow> exc + unit" where
  "branch_validate b =
     ensure (is_operation_id (br_id b) \<and> strip (br_description b) \<noteq> [])
       (ValueError (str ''invalid branch identity or description''))"

definition branch_to_wire :: "branch_definition \<Rightarrow> exc + jobj" where
  "branch_to_wire b =
     ethen (branch_validate b)
       (ret ([(str ''id'', JStr (br_id b)), (str ''description'', JStr (br_description b))]
             @ (if br_optional b then [(str ''optional'', JBool True)] else [])))"

definition branch_from_wire :: "json \<Rightarrow> exc + branch_definition" where
  "branch_from_wire value =
     ebind (item value (str ''id'')) (\<lambda>i.
     ebind (item value (str ''description'')) (\<lambda>d.
     let opt = (case value of JObj m \<Rightarrow> truthy (get_or m (str ''optional'') (JBool False)) | _ \<Rightarrow> False);
         b = \<lparr>br_id = py_str i, br_description = py_str d, br_optional = opt\<rparr>
     in ethen (branch_validate b) (ret b)))"

section \<open>The payload determines the identity fields\<close>

lemma to_bytes4_eq_Inr:
  assumes "to_bytes4 n = Inr b"
  shows "b = [n div 16777216, n div 65536 mod 256, n div 256 mod 256, n mod 256]"
proof (cases "n < 4294967296")
  case True
  then have "to_bytes4 n = Inr [n div 16777216, n div 65536 mod 256, n div 256 mod 256, n mod 256]"
    unfolding to_bytes4_def by (rule if_P)
  with assms show ?thesis by (simp only: sum.inject)
next
  case False
  then have "to_bytes4 n = Inl OverflowError"
    unfolding to_bytes4_def by (rule if_not_P)
  with assms show ?thesis by (simp only: sum.distinct)
qed

lemma to_bytes4_length: "to_bytes4 n = Inr b \<Longrightarrow> length b = 4"
  using arg_cong [OF to_bytes4_eq_Inr, of n b length] by simp

lemma to_bytes4_value:
  assumes "to_bytes4 n = Inr b"
  shows "foldl (\<lambda>a x. a * 256 + x) 0 b = n"
proof -
  have "n div 16777216 = n div 256 div 256 div 256" "n div 65536 = n div 256 div 256"
    by (simp_all add: div_mult2_eq [symmetric])
  then have "((n div 16777216 * 256 + n div 65536 mod 256) * 256 + n div 256 mod 256) * 256 + n mod 256 = n"
    by (simp only: div_mult_mod_eq)
  then show ?thesis
    unfolding to_bytes4_eq_Inr [OF assms] by (simp only: foldl.simps mult_0 add_0)
qed

lemma to_bytes4_inj: "to_bytes4 m = Inr b \<Longrightarrow> to_bytes4 n = Inr b \<Longrightarrow> m = n"
  by (metis to_bytes4_value)

text \<open>A length-prefixed field can be read back from the front of a payload.\<close>

lemma length_prefixed_cancel:
  assumes "length_prefixed s = Inr a" "length_prefixed t = Inr b" "a @ x = b @ y"
  shows "s = t \<and> x = y"
proof -
  from assms obtain u m where s: "utf8_encode s = Some u" "to_bytes4 (length u) = Inr m" "a = m @ u"
    by (auto simp: length_prefixed_def encode_str_def ebind_eq_Inr_iff split: option.splits)
  from assms obtain v n where t: "utf8_encode t = Some v" "to_bytes4 (length v) = Inr n" "b = n @ v"
    by (auto simp: length_prefixed_def encode_str_def ebind_eq_Inr_iff split: option.splits)
  have "length m = length n"
    using s(2) t(2) by (simp add: to_bytes4_length)
  with assms(3) s(3) t(3) have "m = n" and rest: "u @ x = v @ y"
    by simp_all
  with s(2) t(2) have "length u = length v"
    by (simp add: to_bytes4_inj)
  with rest have "u = v" "x = y" by simp_all
  with s(1) t(1) show ?thesis
    by (auto dest: utf8_encode_inj)
qed

lemma length_prefixed_concat_inj:
  assumes "emap length_prefixed ss = Inr as" "emap length_prefixed ts = Inr bs"
    and "length ss = length ts" "concat as = concat bs"
  shows "ss = ts"
  using assms
proof (induction ss ts arbitrary: as bs rule: list_induct2')
  case (4 s ss t ts)
  then obtain a as' b bs' where
    "length_prefixed s = Inr a" "emap length_prefixed ss = Inr as'" "as = a # as'"
    "length_prefixed t = Inr b" "emap length_prefixed ts = Inr bs'" "bs = b # bs'"
    by (auto simp: ebind_eq_Inr_iff)
  with 4 length_prefixed_cancel [of s a t b "concat as'" "concat bs'"] show ?case
    by simp
qed auto

lemma call_id_payload_inj:
  assumes "call_id_payload f s p = Inr b" "call_id_payload f' s' p' = Inr b"
  shows "f = f' \<and> s = s' \<and> p = p'"
proof -
  from assms obtain fs gs where
    "emap length_prefixed [f, s, connector_id p, operation_id p] = Inr fs" "b = concat fs"
    "emap length_prefixed [f', s', connector_id p', operation_id p'] = Inr gs" "b = concat gs"
    unfolding call_id_payload_def ebind_eq_Inr_iff by (auto simp del: emap.simps)
  then have "[f, s, connector_id p, operation_id p] = [f', s', connector_id p', operation_id p']"
    by (intro length_prefixed_concat_inj [of _ fs _ gs]) auto
  then show ?thesis
    by (cases p; cases p') simp
qed

section \<open>Derived identities validate\<close>

definition plain_char :: "nat \<Rightarrow> bool" where
  "plain_char c \<longleftrightarrow> (48 \<le> c \<and> c \<le> 57) \<or> (97 \<le> c \<and> c \<le> 102)"

abbreviation plain_hex :: "pystr \<Rightarrow> bool" where
  "plain_hex \<equiv> list_all plain_char"

lemma plain_char_hex: "plain_char c \<Longrightarrow> is_hex_digit c"
  by (auto simp: plain_char_def is_hex_digit_def decimal_zeros_def)

lemma plain_char_distinct:
  assumes "plain_char c"
  shows "c \<noteq> 45" "c \<noteq> 43" "c \<noteq> 95" "c \<noteq> 120" "c \<noteq> 88" "c \<noteq> 117" "c \<noteq> 123" "c \<noteq> 125"
    "\<not> is_int_space c"
  using assms by (auto simp: plain_char_def is_int_space_def is_space_def)

lemma plain_hex_char: "n < 16 \<Longrightarrow> plain_char (hex_char n)"
  by (auto simp: plain_char_def hex_char_def)

lemma plain_hex_bytes: "list_all (\<lambda>x. x < 256) b \<Longrightarrow> plain_hex (hex_bytes b)"
  by (auto simp: hex_bytes_def list_all_iff intro!: plain_hex_char)

lemma length_hex_bytes [simp]: "length (hex_bytes b) = 2 * length b"
  by (induction b) (auto simp: hex_bytes_def)

lemma hex_bytes_append: "hex_bytes (a @ b) = hex_bytes a @ hex_bytes b"
  by (simp add: hex_bytes_def)

lemma remove_all_absent:
  assumes "w \<noteq> []" "hd w \<notin> set s"
  shows "remove_all w s = s"
  using assms by (induction w s rule: remove_all.induct) (auto simp: prefix_Cons)

lemma strip_by_keeps:
  assumes "list_all (\<lambda>c. \<not> p c) s"
  shows "strip_by p s = s"
proof -
  have d: "dropWhile p t = t" if "list_all (\<lambda>c. \<not> p c) t" for t
    using that by (cases t) auto
  show ?thesis
    using assms by (simp add: strip_by_def d list_all_iff)
qed

lemma grouped_digits_plain: "plain_hex s \<Longrightarrow> s \<noteq> [] \<Longrightarrow> grouped_digits s"
  by (induction s rule: grouped_digits.induct) (auto simp: plain_char_hex plain_char_distinct)

lemma plain_hex_prefixes:
  assumes "plain_hex s" "s \<noteq> []"
  shows "drop_sign s = s" "drop_hex_prefix s = s" "strip_by is_int_space s = s"
proof -
  show "drop_sign s = s" "drop_hex_prefix s = s"
    using assms
    by (auto simp: drop_sign_def drop_hex_prefix_def plain_char_def split: list.splits)
  show "strip_by is_int_space s = s"
    using assms(1) by (intro strip_by_keeps) (auto simp: list_all_iff plain_char_distinct)
qed

lemma parses_plain_hex: "plain_hex s \<Longrightarrow> s \<noteq> [] \<Longrightarrow> parses_base16 s"
  by (simp add: parses_base16_def plain_hex_prefixes grouped_digits_plain)

text \<open>The five groups of bytes between the hyphens.\<close>

definition uuid_groups :: "bytes \<Rightarrow> bytes list" where
  "uuid_groups b = [take 4 b, take 2 (drop 4 b), take 2 (drop 6 b), take 2 (drop 8 b), drop 10 b]"

lemma uuid_text_groups: "uuid_text b = join_with [45] (map hex_bytes (uuid_groups b))"
  by (simp add: uuid_text_def uuid_groups_def)

lemma concat_uuid_groups: "concat (uuid_groups b) = b"
proof -
  have "take n b @ take m (drop n b) @ drop (m + n) b = b" for n m
    by (metis append_take_drop_id drop_drop)
  then have "take 2 (drop n b) @ drop (n + 2) b = drop n b" for n
    by (metis add.commute append_take_drop_id drop_drop)
  from this [of 8] this [of 6] this [of 4] show ?thesis
    by (simp add: uuid_groups_def)
qed

lemma uuid_groups_bytes: "list_all P b \<Longrightarrow> g \<in> set (uuid_groups b) \<Longrightarrow> list_all P g"
  by (metis UN_I concat_uuid_groups list_all_iff set_concat)

lemma join_hyphen:
  assumes "list_all plain_hex gs"
  shows "filter (\<lambda>c. c \<noteq> 45) (join_with [45] gs) = concat gs"
    and "list_all (\<lambda>c. c = 45 \<or> plain_char c) (join_with [45] gs)"
proof -
  have "filter (\<lambda>c. c \<noteq> 45) g = g" if "plain_hex g" for g
    using that by (intro filter_True) (auto simp: list_all_iff plain_char_distinct)
  with assms show "filter (\<lambda>c. c \<noteq> 45) (join_with [45] gs) = concat gs"
    by (induction "[45] :: pystr" gs rule: join_with.induct) auto
  show "list_all (\<lambda>c. c = 45 \<or> plain_char c) (join_with [45] gs)"
    using assms by (induction "[45] :: pystr" gs rule: join_with.induct) (auto simp: list_all_iff)
qed

lemma concat_hex_groups: "concat (map hex_bytes gs) = hex_bytes (concat gs)"
  by (induction gs) (simp_all add: hex_bytes_def)

lemma uuid_hex_of_text:
  assumes "list_all (\<lambda>x. x < 256) b"
  shows "uuid_hex (uuid_text b) = hex_bytes b"
proof -
  let ?t = "uuid_text b"
  have g: "list_all plain_hex (map hex_bytes (uuid_groups b))"
    using uuid_groups_bytes [OF assms] by (auto simp: list_all_iff [of plain_hex] intro!: plain_hex_bytes)
  note ch = join_hyphen(2) [OF g, folded uuid_text_groups]
  have "remove_all (str ''urn:'') ?t = ?t" "remove_all (str ''uuid:'') ?t = ?t"
    using ch by (auto intro!: remove_all_absent simp: str_def list_all_iff plain_char_def)
  moreover have "strip_by (\<lambda>c. c = 123 \<or> c = 125) ?t = ?t"
    using ch by (intro strip_by_keeps) (auto simp: list_all_iff plain_char_def)
  ultimately show ?thesis
    by (simp add: uuid_hex_def uuid_text_groups join_hyphen(1) [OF g] concat_hex_groups concat_uuid_groups)
qed

lemma uuid_text_valid:
  assumes "list_all (\<lambda>x. x < 256) b" "length b = 16"
  shows "call_id_validate (uuid_text b) = Inr ()"
proof -
  have "hex_bytes b \<noteq> []"
    using assms(2) length_hex_bytes [of b] by fastforce
  with assms show ?thesis
    by (simp add: call_id_validate_def uuid_hex_of_text parses_plain_hex plain_hex_bytes)
qed

lemma uuid5_bytes_props:
  assumes "length (sha1 (ns @ name)) = 20" "list_all (\<lambda>x. x < 256) (sha1 (ns @ name))"
  shows "length (uuid5_bytes sha1 ns name) = 16" "list_all (\<lambda>x. x < 256) (uuid5_bytes sha1 ns name)"
proof -
  show "length (uuid5_bytes sha1 ns name) = 16"
    using assms(1) by (simp add: uuid5_bytes_def uuid_set_version5_def)
  have t: "set (take 16 (sha1 (ns @ name))) \<subseteq> {x. x < 256}"
    using assms(2) by (auto simp: list_all_iff dest: in_set_takeD)
  have u: "set (xs[i := x]) \<subseteq> {x. x < 256}" if "set xs \<subseteq> {x. x < 256}" "x < 256" for xs i and x :: nat
    using that set_update_subset_insert [of xs i x] by blast
  have "80 + y mod 16 < (256 :: nat)" "128 + y mod 64 < (256 :: nat)" for y
    using mod_less_divisor [of 16 y] mod_less_divisor [of 64 y] by linarith+
  then have "set (uuid5_bytes sha1 ns name) \<subseteq> {x. x < 256}"
    unfolding uuid5_bytes_def uuid_set_version5_def by (intro u t)
  then show "list_all (\<lambda>x. x < 256) (uuid5_bytes sha1 ns name)"
    by (auto simp: list_all_iff)
qed

text \<open>Every derived identity is accepted by \<open>CallID.validate\<close>.\<close>

lemma derive_call_id_valid:
  assumes "\<And>m. length (sha1 m) = 20" "\<And>m. list_all (\<lambda>x. x < 256) (sha1 m)"
    and "derive_call_id sha1 f s p = Inr c"
  shows "call_id_validate c = Inr ()"
  using assms(3)
  by (auto simp: derive_call_id_def ethen_eq_Inr_iff ebind_eq_Inr_iff split: if_splits
      intro!: uuid_text_valid uuid5_bytes_props assms(1,2))

section \<open>Wire round trips\<close>

lemma connection_ref_roundtrip:
  "connection_ref_to_wire r = Inr d \<Longrightarrow> connection_ref_from_wire (JObj d) = Inr r"
  by (cases r)
    (auto simp: connection_ref_to_wire_def connection_ref_from_wire_def connection_ref_validate_def
      ethen_eq_Inr_iff item_JObj)

lemma operation_ref_roundtrip:
  "operation_ref_to_wire r = Inr d \<Longrightarrow> operation_ref_from_wire (JObj d) = Inr r"
  by (cases r)
    (auto simp: operation_ref_to_wire_def operation_ref_from_wire_def operation_ref_of_def
      operation_ref_validate_def ethen_eq_Inr_iff item_JObj split: if_splits)

lemma call_roundtrip:
  assumes "call_to_wire c = Inr d"
  shows "call_from_wire d = Inr c"
proof -
  from assms obtain conn op where
    v: "call_id_validate (call_id c) = Inr ()"
    and c: "connection_ref_to_wire (call_connection c) = Inr conn"
    and p: "operation_ref_to_wire (call_operation c) = Inr op"
    and d: "d = [(str ''id'', JStr (call_id c)), (str ''connection'', JObj conn),
                 (str ''operation'', JObj op)]
                @ (if call_idempotency_key c \<noteq> []
                   then [(str ''idempotencyKey'', JStr (call_idempotency_key c))] else [])"
    by (auto simp: call_to_wire_def ethen_eq_Inr_iff ebind_eq_Inr_iff)
  note connection_ref_roundtrip [OF c] operation_ref_roundtrip [OF p]
  with v show ?thesis
    by (cases c) (auto simp: call_from_wire_def item_JObj d get_or_def Let_def)
qed

lemma branch_roundtrip: "branch_to_wire b = Inr d \<Longrightarrow> branch_from_wire (JObj d) = Inr b"
  by (cases b)
    (auto simp: branch_to_wire_def branch_from_wire_def ethen_eq_Inr_iff item_JObj get_or_def Let_def
      split: if_splits)

lemma call_from_wire_valid:
  assumes "call_from_wire d = Inr c"
  shows "is_ok (call_to_wire c)"
  using assms
  by (auto simp: call_from_wire_def call_to_wire_def connection_ref_from_wire_def connection_ref_to_wire_def
      operation_ref_from_wire_def operation_ref_of_def operation_ref_to_wire_def Let_def is_ok_iff
      ebind_eq_Inr_iff ethen_eq_Inr_iff split: if_splits)

section \<open>Progress sequence numbers\<close>

text \<open>A sequence of reports against a stream that records what it is given.\<close>

fun report_run ::
  "(progress_update \<Rightarrow> 'w \<Rightarrow> (exc + unit) \<times> 'w) \<Rightarrow> progress list \<Rightarrow> reporter \<Rightarrow> 'w \<Rightarrow> reporter \<times> 'w" where
  "report_run write [] r w = (r, w)"
| "report_run write (p # ps) r w =
     (case reporter_report write p r w of (res, r', w') \<Rightarrow> report_run write ps r' w')"

definition recording :: "(progress_update \<Rightarrow> exc + unit)
    \<Rightarrow> progress_update \<Rightarrow> progress_update list \<Rightarrow> (exc + unit) \<times> progress_update list" where
  "recording outcome u w = (outcome u, w @ [u])"

lemma report_run_sequence:
  assumes "report_run (recording outcome) ps r w = (r', w')"
  shows "map pu_sequence w' = map pu_sequence w
           @ [rp_sequence r + 1 .. rp_sequence r + int (length (filter progress_in_range ps))]
         \<and> rp_sequence r' = rp_sequence r + int (length (filter progress_in_range ps))"
  using assms
proof (induction ps arbitrary: r w)
  case (Cons p ps)
  show ?case
  proof (cases "progress_in_range p")
    case False
    with Cons.prems Cons.IH [of r w] show ?thesis
      by (simp add: reporter_report_def)
  next
    case True
    let ?r = "r\<lparr>rp_sequence := rp_sequence r + 1\<rparr>"
    define u where "u = \<lparr>pu_call_id = rp_call_id r, pu_attempt = rp_attempt r,
      pu_sequence = rp_sequence r + 1, pu_progress = p\<rparr>"
    have "reporter_report (recording outcome) p r w = (outcome u, ?r, w @ [u])"
      using True by (simp add: reporter_report_def recording_def u_def)
    with Cons.prems have "report_run (recording outcome) ps ?r (w @ [u]) = (r', w')"
      by simp
    moreover have "pu_sequence u = rp_sequence r + 1"
      by (simp add: u_def)
    ultimately show ?thesis
      using Cons.IH [of ?r "w @ [u]"] True
      by (simp add: upto_rec1 [of "rp_sequence r + 1"] add.assoc)
  qed
qed simp

end
