(* ===== verification/ConfigurationUI.thy ===== *)
theory ConfigurationUI
  imports Identities
begin

text \<open>
  \<^verbatim>\<open>sdkpython/src/dex_connectors/sdk/configuration_ui.py\<close>: the configuration units a Step
  shows.  The scan of a JSON Pointer is the source's index loop; the lemmas show that a binding
  validates exactly when its path is the RFC 6901 encoding of some reference tokens.
\<close>

section \<open>Bindings\<close>

definition is_identifier :: "pystr \<Rightarrow> bool" where
  "is_identifier s \<longleftrightarrow> s \<noteq> [] \<and> is_lower (hd s) \<and> list_all is_alnum (tl s)"

record ui_binding =
  bind_port :: pystr
  bind_json_pointer :: pystr

definition bad_escape :: exc where
  "bad_escape = ValueError (str ''invalid Connector UI JSON Pointer escape'')"

function pointer_scan :: "pystr \<Rightarrow> nat \<Rightarrow> exc + unit" where
  "pointer_scan s index =
     (if index < length s
      then if s ! index = 126
        then if index + 1 \<ge> length s \<or> \<not> (s ! (index + 1) = 48 \<or> s ! (index + 1) = 49)
          then raise bad_escape
          else pointer_scan s (index + 2)
        else pointer_scan s (index + 1)
      else ret ())"
  by pat_completeness auto
termination
  by (relation "measure (\<lambda>(s, i). length s - i)") auto

declare pointer_scan.simps [simp del]

definition ui_binding_validate :: "ui_binding \<Rightarrow> exc + unit" where
  "ui_binding_validate b =
     (if \<not> is_identifier (bind_port b) \<or> \<not> prefix [47] (bind_json_pointer b)
      then raise (ValueError (str ''invalid Connector UI binding''))
      else pointer_scan (bind_json_pointer b) 0)"

definition ui_binding_to_wire :: "ui_binding \<Rightarrow> exc + jobj" where
  "ui_binding_to_wire b =
     ethen (ui_binding_validate b)
       (ret [(str ''port'', JStr (bind_port b)), (str ''jsonPointer'', JStr (bind_json_pointer b))])"

section \<open>Units\<close>

record ui_unit =
  unit_use_id :: pystr
  unit_unit_id :: pystr
  unit_label :: pystr
  unit_description :: pystr
  unit_required :: bool
  unit_bindings :: "ui_binding list"

definition ui_unit_validate :: "ui_unit \<Rightarrow> exc + unit" where
  "ui_unit_validate u =
     (if \<not> is_identifier (unit_use_id u) \<or> \<not> is_identifier (unit_unit_id u)
      then raise (ValueError (str ''Connector UI unit IDs must be lower camel case''))
      else if strip (unit_label u) = [] \<or> strip (unit_description u) = [] \<or> unit_bindings u = []
      then raise (ValueError (str ''Connector UI unit needs a label, description, and bindings''))
      else if \<not> distinct (map bind_port (unit_bindings u))
      then raise (ValueError (str ''Connector UI unit ports must be unique''))
      else eall ui_binding_validate (unit_bindings u))"

definition ui_unit_to_wire :: "ui_unit \<Rightarrow> exc + jobj" where
  "ui_unit_to_wire u =
     ethen (ui_unit_validate u)
       (ebind (emap ui_binding_to_wire (unit_bindings u)) (\<lambda>bs.
        ret [(str ''id'', JStr (unit_use_id u)), (str ''unitId'', JStr (unit_unit_id u)),
             (str ''label'', JStr (unit_label u)), (str ''description'', JStr (unit_description u)),
             (str ''required'', JBool (unit_required u)), (str ''bindings'', JArr (map JObj bs))]))"

type_synonym configuration_ui = "ui_unit list"

definition configuration_ui_validate :: "configuration_ui \<Rightarrow> exc + unit" where
  "configuration_ui_validate units =
     (if \<not> distinct (map unit_use_id units)
      then raise (ValueError (str ''Connector UI unit IDs must be unique''))
      else eall ui_unit_validate units)"

definition configuration_ui_to_wire :: "configuration_ui \<Rightarrow> exc + jobj" where
  "configuration_ui_to_wire units =
     ethen (configuration_ui_validate units)
       (ebind (emap ui_unit_to_wire units) (\<lambda>us. ret [(str ''units'', JArr (map JObj us))]))"

section \<open>Configuration references\<close>

record configuration_ref =
  cf_connector_id :: pystr
  cf_connection_name :: pystr
  cf_operation_id :: pystr
  cf_flow_type :: pystr
  cf_step_type :: pystr

definition configuration_ref_validate :: "configuration_ref \<Rightarrow> exc + unit" where
  "configuration_ref_validate r =
     (if \<not> is_connector_id (cf_connector_id r) \<or> \<not> is_operation_id (cf_operation_id r)
      then raise (ValueError (str ''invalid Connector configuration identity''))
      else if strip (cf_connection_name r) = [] \<or> strip (cf_flow_type r) = [] \<or> strip (cf_step_type r) = []
      then raise (ValueError (str ''Connector configuration connection, Flow, and Step are required''))
      else ret ())"

section \<open>JSON Pointers\<close>

text \<open>RFC 6901: a tilde is written \<open>~0\<close> and a slash \<open>~1\<close>; every token follows a slash.\<close>

definition escape_token :: "pystr \<Rightarrow> pystr" where
  "escape_token t = concat (map (\<lambda>c. if c = 126 then [126, 48] else if c = 47 then [126, 49] else [c]) t)"

definition pointer_text :: "pystr list \<Rightarrow> pystr" where
  "pointer_text ts = concat (map (\<lambda>t. 47 # escape_token t) ts)"

text \<open>The escapes of a string, read from the left.\<close>

fun escapes_ok :: "pystr \<Rightarrow> bool" where
  "escapes_ok [] \<longleftrightarrow> True"
| "escapes_ok (c # cs) \<longleftrightarrow>
     (if c = 126 then (case cs of [] \<Rightarrow> False | d # ds \<Rightarrow> (d = 48 \<or> d = 49) \<and> escapes_ok ds)
      else escapes_ok cs)"

lemma pointer_scan_escapes:
  "pointer_scan s i = (if escapes_ok (drop i s) then Inr () else Inl bad_escape)"
proof (induction s i rule: pointer_scan.induct)
  case (1 s i)
  consider (ended) "length s \<le> i" | (one) "i < length s" "length s \<le> Suc i" | (more) "Suc i < length s"
    by linarith
  then show ?case
  proof cases
    case ended
    then show ?thesis by (subst pointer_scan.simps) simp
  next
    case one
    then have d: "drop i s = [s ! i]"
      using Cons_nth_drop_Suc [of i s] by simp
    have "pointer_scan s (Suc i) = Inr ()"
      using one by (subst pointer_scan.simps) simp
    with one show ?thesis
      unfolding d by (subst pointer_scan.simps) simp
  next
    case more
    have d1: "drop (i + 1) s = s ! (i + 1) # drop (i + 2) s"
      using more Cons_nth_drop_Suc [of "i + 1" s] by simp
    have d: "drop i s = s ! i # s ! (i + 1) # drop (i + 2) s"
      using more Cons_nth_drop_Suc [of i s] d1 by simp
    have step: "pointer_scan s i = (if s ! i = 126
        then if s ! (i + 1) = 48 \<or> s ! (i + 1) = 49 then pointer_scan s (i + 2) else Inl bad_escape
        else pointer_scan s (i + 1))"
      using more by (subst pointer_scan.simps) auto
    have two: "pointer_scan s (i + 2) = (if escapes_ok (drop (i + 2) s) then Inr () else Inl bad_escape)"
      if "s ! i = 126" "s ! (i + 1) = 48 \<or> s ! (i + 1) = 49"
      using more that by (intro "1.IH"(1)) auto
    have "pointer_scan s (i + 1) = (if escapes_ok (drop (i + 1) s) then Inr () else Inl bad_escape)"
      if "s ! i \<noteq> 126"
      using more that by (intro "1.IH"(2)) auto
    note single = this [unfolded d1]
    show ?thesis
    proof (cases "s ! i = 126")
      case True
      then show ?thesis
        unfolding step d using two by simp
    next
      case False
      then have "escapes_ok (s ! i # s ! (i + 1) # drop (i + 2) s) = escapes_ok (s ! (i + 1) # drop (i + 2) s)"
        by (subst escapes_ok.simps) simp
      then show ?thesis
        unfolding step d single [OF False] using False by (simp only: if_False)
    qed
  qed
qed

lemma escapes_ok_append: "escapes_ok s \<Longrightarrow> escapes_ok (s @ t) = escapes_ok t"
proof (induction s rule: escapes_ok.induct)
  case (2 c cs)
  show ?case
  proof (cases "c = 126")
    case True
    with "2.prems" obtain d ds where "cs = d # ds" "d = 48 \<or> d = 49" "escapes_ok ds"
      by (auto split: list.splits)
    with True "2.IH"(1) [OF True] show ?thesis by simp
  next
    case False
    with 2 show ?thesis by simp
  qed
qed simp

lemma escapes_ok_escape_token: "escapes_ok (escape_token t)"
proof (induction t)
  case (Cons c t)
  then show ?case by (auto simp: escape_token_def)
qed (simp add: escape_token_def)

lemma escapes_ok_pointer_text: "escapes_ok (pointer_text ts)"
  by (induction ts) (auto simp: pointer_text_def escapes_ok_append escapes_ok_escape_token)

text \<open>A well escaped string is an escaped token followed by a pointer.\<close>

lemma escapes_ok_decompose: "escapes_ok s \<Longrightarrow> \<exists>t ts. s = escape_token t @ pointer_text ts"
proof (induction s rule: escapes_ok.induct)
  case 1
  have "[] = escape_token [] @ pointer_text []"
    by (simp add: escape_token_def pointer_text_def)
  then show ?case by blast
next
  case (2 c cs)
  show ?case
  proof (cases "c = 126")
    case True
    with "2.prems" obtain d ds where ds: "cs = d # ds" "d = 48 \<or> d = 49" "escapes_ok ds"
      by (auto split: list.splits)
    with "2.IH"(1) [OF True ds(1)] obtain t ts where "ds = escape_token t @ pointer_text ts"
      by blast
    with True ds have "c # cs = escape_token ((if d = 48 then 126 else 47) # t) @ pointer_text ts"
      by (auto simp: escape_token_def)
    then show ?thesis by blast
  next
    case False
    with "2.prems" "2.IH"(2) obtain t ts where cs: "cs = escape_token t @ pointer_text ts"
      by auto
    have "c # cs = (if c = 47 then escape_token [] @ pointer_text (t # ts)
                    else escape_token (c # t) @ pointer_text ts)"
      using False by (simp add: cs escape_token_def pointer_text_def)
    then show ?thesis by metis
  qed
qed

lemma ui_binding_validate_iff:
  "ui_binding_validate b = Inr () \<longleftrightarrow>
     is_identifier (bind_port b) \<and> (\<exists>t ts. bind_json_pointer b = pointer_text (t # ts))"
proof -
  have "prefix [47] p \<and> escapes_ok p \<longleftrightarrow> (\<exists>t ts. p = pointer_text (t # ts))" for p
  proof
    assume "prefix [47] p \<and> escapes_ok p"
    then obtain q where q: "p = 47 # q" "escapes_ok q"
      by (auto simp: prefix_def)
    then obtain t ts where "q = escape_token t @ pointer_text ts"
      using escapes_ok_decompose by blast
    with q show "\<exists>t ts. p = pointer_text (t # ts)"
      by (auto simp: pointer_text_def)
  next
    assume "\<exists>t ts. p = pointer_text (t # ts)"
    then obtain t ts where p: "p = pointer_text (t # ts)" by blast
    then have "p = 47 # (escape_token t @ pointer_text ts)"
      by (simp add: pointer_text_def)
    moreover have "escapes_ok p"
      unfolding p by (rule escapes_ok_pointer_text)
    ultimately show "prefix [47] p \<and> escapes_ok p"
      by simp
  qed
  then show ?thesis
    by (auto simp: ui_binding_validate_def pointer_scan_escapes)
qed

lemma configuration_ui_to_wire_total:
  "is_ok (configuration_ui_to_wire units) \<longleftrightarrow> configuration_ui_validate units = Inr ()"
proof -
  have b: "\<exists>ws. emap ui_binding_to_wire bs = Inr ws" if "eall ui_binding_validate bs = Inr ()" for bs
    using that
    by (induction bs) (auto simp: ui_binding_to_wire_def ethen_eq_Inr_iff)
  have u: "\<exists>ws. ui_unit_to_wire x = Inr ws" if "ui_unit_validate x = Inr ()" for x
    using that b [of "unit_bindings x"]
    by (auto simp: ui_unit_to_wire_def ui_unit_validate_def split: if_splits)
  have us: "\<exists>ws. emap ui_unit_to_wire us = Inr ws" if "eall ui_unit_validate us = Inr ()" for us
    using that by (induction us) (auto simp: ethen_eq_Inr_iff dest: u)
  show ?thesis
    using us [of units]
    by (auto simp: configuration_ui_to_wire_def configuration_ui_validate_def is_ok_iff
        ethen_eq_Inr_iff split: if_splits)
qed

end
