(* ===== verification/JsonText.thy ===== *)
theory JsonText
  imports Utf8 Failures "HOL-Library.Monad_Syntax"
begin

text \<open>
  JSON text: \<open>json.dumps(value, separators=(",", ":"), ensure_ascii=False)\<close> and
  \<open>json.loads\<close> with the scanner of CPython (NaN and the infinities are accepted, a repeated
  member keeps its last value, surrogate pairs of escapes are joined), and the decoding of
  bytes that \<open>loads\<close> does first.  The nesting limit of the interpreter and its limit of 4300
  digits for an integer are not modelled.  The parser runs on fuel; \<open>loads\<close> gives it twice
  the length of the text, and \<open>parse_value_fuel\<close> shows that no larger amount parses more.  The
  main lemma is the round trip of a value without floats.
\<close>

section \<open>Printing\<close>

definition hex4_text :: "nat \<Rightarrow> pystr" where
  "hex4_text c = map (\<lambda>d. if d < 10 then 48 + d else 87 + d)
     [c div 4096 mod 16, c div 256 mod 16, c div 16 mod 16, c mod 16]"

definition escape_char :: "nat \<Rightarrow> pystr" where
  "escape_char c =
     (if c = 34 then [92, 34] else if c = 92 then [92, 92]
      else if c = 10 then [92, 110] else if c = 13 then [92, 114] else if c = 9 then [92, 116]
      else if c = 12 then [92, 102] else if c = 8 then [92, 98]
      else if c < 32 then [92, 117] @ hex4_text c else [c])"

definition float_text :: "pyfloat \<Rightarrow> pystr" where
  "float_text x = (case x of NaN \<Rightarrow> str ''NaN'' | PosInf \<Rightarrow> str ''Infinity'' | NegInf \<Rightarrow> str ''-Infinity''
     | Fin _ \<Rightarrow> float_repr x)"

text \<open>The printer with a given escape of string characters.\<close>

definition quote_with :: "(nat \<Rightarrow> pystr) \<Rightarrow> pystr \<Rightarrow> pystr" where
  "quote_with esc s = [34] @ concat (map esc s) @ [34]"

fun print_with :: "(nat \<Rightarrow> pystr) \<Rightarrow> json \<Rightarrow> pystr" where
  "print_with esc JNull = str ''null''"
| "print_with esc (JBool b) = (if b then str ''true'' else str ''false'')"
| "print_with esc (JInt n) = int_text n"
| "print_with esc (JFloat x) = float_text x"
| "print_with esc (JStr s) = quote_with esc s"
| "print_with esc (JArr xs) = [91] @ join_with [44] (map (print_with esc) xs) @ [93]"
| "print_with esc (JObj d) =
     [123] @ join_with [44] (map (\<lambda>(k, v). quote_with esc k @ [58] @ print_with esc v) d) @ [125]"

definition dumps :: "json \<Rightarrow> pystr" where
  "dumps = print_with escape_char"

section \<open>Parsing\<close>

definition is_ws :: "nat \<Rightarrow> bool" where
  "is_ws c \<longleftrightarrow> c = 32 \<or> c = 9 \<or> c = 10 \<or> c = 13"

definition skip_ws :: "pystr \<Rightarrow> pystr" where
  "skip_ws s = dropWhile is_ws s"

definition hex_value :: "nat \<Rightarrow> nat option" where
  "hex_value c =
     (if 48 \<le> c \<and> c \<le> 57 then Some (c - 48)
      else if 97 \<le> c \<and> c \<le> 102 then Some (c - 87)
      else if 65 \<le> c \<and> c \<le> 70 then Some (c - 55) else None)"

definition hex4 :: "pystr \<Rightarrow> (nat \<times> pystr) option" where
  "hex4 s =
     (case s of
        a # b # c # d # r \<Rightarrow>
          (case (hex_value a, hex_value b, hex_value c, hex_value d) of
             (Some w, Some x, Some y, Some z) \<Rightarrow> Some (((w * 16 + x) * 16 + y) * 16 + z, r)
           | _ \<Rightarrow> None)
      | _ \<Rightarrow> None)"

definition is_high :: "nat \<Rightarrow> bool" where
  "is_high n \<longleftrightarrow> 0xD800 \<le> n \<and> n \<le> 0xDBFF"

definition is_low :: "nat \<Rightarrow> bool" where
  "is_low n \<longleftrightarrow> 0xDC00 \<le> n \<and> n \<le> 0xDFFF"

text \<open>A code point written after \<open>\u\<close>, joined with the low half that may follow.\<close>

definition unicode_escape :: "pystr \<Rightarrow> (nat \<times> pystr) option" where
  "unicode_escape s =
     (case hex4 s of
        None \<Rightarrow> None
      | Some (n, r) \<Rightarrow>
        (case r of
           b # u # r' \<Rightarrow>
             if is_high n \<and> b = 92 \<and> u = 117
             then (case hex4 r' of
                     None \<Rightarrow> None
                   | Some (m, r'') \<Rightarrow>
                     if is_low m then Some (0x10000 + (n - 0xD800) * 1024 + (m - 0xDC00), r'') else Some (n, r))
             else Some (n, r)
         | _ \<Rightarrow> Some (n, r)))"

definition simple_escape :: "nat \<Rightarrow> nat option" where
  "simple_escape e =
     (if e = 34 \<or> e = 92 \<or> e = 47 then Some e else if e = 98 then Some 8 else if e = 102 then Some 12
      else if e = 110 then Some 10 else if e = 114 then Some 13 else if e = 116 then Some 9 else None)"

lemma hex4_shorter: "hex4 s = Some (n, r) \<Longrightarrow> length r < length s"
  by (auto simp: hex4_def split: list.splits option.splits)

lemma unicode_escape_shorter: "unicode_escape s = Some (n, r) \<Longrightarrow> length r < length s"
  by (auto simp: unicode_escape_def dest!: hex4_shorter split: list.splits option.splits if_splits)

text \<open>The characters of a string up to its closing quote.\<close>

function parse_string :: "pystr \<Rightarrow> (pystr \<times> pystr) option" where
  "parse_string [] = None"
| "parse_string (c # cs) =
     (if c = 34 then Some ([], cs)
      else if c = 92 then
        (case cs of
           [] \<Rightarrow> None
         | e # r \<Rightarrow>
           if e = 117 then
             (case unicode_escape r of
                None \<Rightarrow> None
              | Some (n, r') \<Rightarrow> map_option (\<lambda>(s, t). (n # s, t)) (parse_string r'))
           else
             (case simple_escape e of
                None \<Rightarrow> None
              | Some n \<Rightarrow> map_option (\<lambda>(s, t). (n # s, t)) (parse_string r)))
      else if c < 32 then None
      else map_option (\<lambda>(s, t). (c # s, t)) (parse_string cs))"
  by pat_completeness auto
termination
  by (relation "measure length") (auto dest: unicode_escape_shorter)

text \<open>
  A number: optional minus, an integer part without leading zeros, then a fraction and an
  exponent when they are complete.  The result is the text and whether it is a float's.
\<close>

definition scan_fraction :: "pystr \<Rightarrow> pystr \<times> pystr" where
  "scan_fraction s =
     (case s of
        c # r \<Rightarrow>
          let ds = takeWhile is_digit r in
          if c = 46 \<and> ds \<noteq> [] then (46 # ds, dropWhile is_digit r) else ([], s)
      | [] \<Rightarrow> ([], s))"

definition scan_exponent :: "pystr \<Rightarrow> pystr \<times> pystr" where
  "scan_exponent s =
     (case s of
        c # r \<Rightarrow>
          if c = 101 \<or> c = 69 then
            let (sign, r') = (case r of d # q \<Rightarrow> if d = 43 \<or> d = 45 then ([d], q) else ([], r) | [] \<Rightarrow> ([], r));
                ds = takeWhile is_digit r'
            in if ds \<noteq> [] then (c # sign @ ds, dropWhile is_digit r') else ([], s)
          else ([], s)
      | [] \<Rightarrow> ([], s))"

definition split_sign :: "pystr \<Rightarrow> pystr \<times> pystr" where
  "split_sign s = (case s of c # r \<Rightarrow> if c = 45 then ([45], r) else ([], s) | [] \<Rightarrow> ([], s))"

definition whole_part :: "pystr \<Rightarrow> pystr" where
  "whole_part s = (let ds = takeWhile is_digit s in if take 1 ds = [48] then [48] else ds)"

definition scan_number :: "pystr \<Rightarrow> (pystr \<times> bool \<times> pystr) option" where
  "scan_number s =
     (case split_sign s of (sign, r0) \<Rightarrow>
      case scan_fraction (drop (length (whole_part r0)) r0) of (fr, r2) \<Rightarrow>
      case scan_exponent r2 of (ex, r3) \<Rightarrow>
        if whole_part r0 = [] then None
        else Some (sign @ whole_part r0 @ fr @ ex, fr \<noteq> [] \<or> ex \<noteq> [], r3))"

text \<open>The values of number texts.\<close>

definition int_of_text :: "pystr \<Rightarrow> int" where
  "int_of_text s = (case s of c # r \<Rightarrow> if c = 45 then - digits_value r else digits_value s | [] \<Rightarrow> 0)"

definition float_of_text :: "pystr \<Rightarrow> pyfloat" where
  "float_of_text s =
     (let neg = (take 1 s = [45]); u = (if neg then drop 1 s else s);
          mant = takeWhile (\<lambda>c. c \<noteq> 101 \<and> c \<noteq> 69) u;
          expo = drop 1 (dropWhile (\<lambda>c. c \<noteq> 101 \<and> c \<noteq> 69) u);
          whole = takeWhile is_digit mant; fr = drop 1 (dropWhile is_digit mant);
          e = (if take 1 expo = [43] then int_of_text (drop 1 expo) else int_of_text expo);
          x = of_int (digits_value (whole @ fr)) * pow10 (e - int (length fr))
      in fl (if neg then - x else x))"

definition plain_number :: "pystr \<Rightarrow> bool \<Rightarrow> json" where
  "plain_number text is_float = (if is_float then JFloat (float_of_text text) else JInt (int_of_text text))"

text \<open>The constants, each with the text after it.\<close>

definition scan_constant :: "pystr \<Rightarrow> (json \<times> pystr) option" where
  "scan_constant s =
     (if prefix (str ''null'') s then Some (JNull, drop 4 s)
      else if prefix (str ''true'') s then Some (JBool True, drop 4 s)
      else if prefix (str ''false'') s then Some (JBool False, drop 5 s)
      else if prefix (str ''NaN'') s then Some (JFloat NaN, drop 3 s)
      else if prefix (str ''Infinity'') s then Some (JFloat PosInf, drop 8 s)
      else if prefix (str ''-Infinity'') s then Some (JFloat NegInf, drop 9 s)
      else None)"

definition scan_scalar :: "(pystr \<Rightarrow> bool \<Rightarrow> json) \<Rightarrow> pystr \<Rightarrow> (json \<times> pystr) option" where
  "scan_scalar num s =
     (case scan_constant s of
        Some x \<Rightarrow> Some x
      | None \<Rightarrow> map_option (\<lambda>(text, is_float, r). (num text is_float, r)) (scan_number s))"

text \<open>The next character, white space skipped or not.\<close>

definition next_char :: "pystr \<Rightarrow> (nat \<times> pystr) option" where
  "next_char s = (case s of [] \<Rightarrow> None | c # r \<Rightarrow> Some (c, r))"

definition next_token :: "pystr \<Rightarrow> (nat \<times> pystr) option" where
  "next_token s = next_char (skip_ws s)"

definition expect :: "nat \<Rightarrow> (nat \<times> pystr) option \<Rightarrow> pystr option" where
  "expect c m = (case m of None \<Rightarrow> None | Some (d, r) \<Rightarrow> if d = c then Some r else None)"

text \<open>A member list as \<open>dict(pairs)\<close>.\<close>

definition dict_of_pairs :: "jobj \<Rightarrow> jobj" where
  "dict_of_pairs ms = fold (\<lambda>(k, v). dict_set k v) ms []"

text \<open>\<open>num\<close> converts number texts: \<open>plain_number\<close>, or the \<open>parse_int\<close> and \<open>parse_float\<close> hooks.\<close>

fun parse_value :: "(pystr \<Rightarrow> bool \<Rightarrow> json) \<Rightarrow> nat \<Rightarrow> pystr \<Rightarrow> (json \<times> pystr) option"
  and parse_items :: "(pystr \<Rightarrow> bool \<Rightarrow> json) \<Rightarrow> nat \<Rightarrow> pystr \<Rightarrow> (json list \<times> pystr) option"
  and parse_members :: "(pystr \<Rightarrow> bool \<Rightarrow> json) \<Rightarrow> nat \<Rightarrow> pystr \<Rightarrow> (jobj \<times> pystr) option" where
  "parse_value num 0 s = None"
| "parse_value num (Suc n) s = do {
     (c, r) \<leftarrow> next_char s;
     if c = 34 then do { (t, r') \<leftarrow> parse_string r; Some (JStr t, r') }
     else if c = 91 then do {
       (d, q) \<leftarrow> next_token r;
       if d = 93 then Some (JArr [], q)
       else do { (xs, r') \<leftarrow> parse_items num n (d # q); Some (JArr xs, r') } }
     else if c = 123 then do {
       (d, q) \<leftarrow> next_token r;
       if d = 125 then Some (JObj [], q)
       else do { (ms, r') \<leftarrow> parse_members num n (d # q); Some (JObj (dict_of_pairs ms), r') } }
     else scan_scalar num s }"
| "parse_items num 0 s = None"
| "parse_items num (Suc n) s = do {
     (x, r) \<leftarrow> parse_value num n s;
     (d, q) \<leftarrow> next_token r;
     if d = 93 then Some ([x], q)
     else if d = 44 then do { (xs, r') \<leftarrow> parse_items num n (skip_ws q); Some (x # xs, r') }
     else None }"
| "parse_members num 0 s = None"
| "parse_members num (Suc n) s = do {
     r \<leftarrow> expect 34 (next_char s);
     (k, r1) \<leftarrow> parse_string r;
     q \<leftarrow> expect 58 (next_token r1);
     (v, r2) \<leftarrow> parse_value num n (skip_ws q);
     (d, q') \<leftarrow> next_token r2;
     if d = 125 then Some ([(k, v)], q')
     else if d = 44 then do { (ms, r') \<leftarrow> parse_members num n (skip_ws q'); Some ((k, v) # ms, r') }
     else None }"

definition loads_text_with :: "(pystr \<Rightarrow> bool \<Rightarrow> json) \<Rightarrow> pystr \<Rightarrow> exc + json" where
  "loads_text_with num s =
     (case parse_value num (2 * length s) (skip_ws s) of
        None \<Rightarrow> raise JSONDecodeError
      | Some (j, r) \<Rightarrow> if skip_ws r = [] then ret j else raise JSONDecodeError)"

definition loads_text :: "pystr \<Rightarrow> exc + json" where
  "loads_text = loads_text_with plain_number"

section \<open>Fuel\<close>

lemma skip_ws_le: "length (skip_ws s) \<le> length s"
  by (simp add: skip_ws_def length_dropWhile_le)

lemma next_char_Cons [simp]: "next_char (c # r) = Some (c, r)"
  by (simp add: next_char_def)

lemma next_char_shorter: "next_char s = Some (c, r) \<Longrightarrow> s = c # r"
  by (auto simp: next_char_def split: list.splits)

lemma next_token_shorter: "next_token s = Some (c, r) \<Longrightarrow> length r < length s"
  using skip_ws_le [of s] by (auto simp: next_token_def dest!: next_char_shorter)

lemma expect_eq_Some: "expect c m = Some r \<longleftrightarrow> m = Some (c, r)"
  by (auto simp: expect_def split: option.splits)

lemma parse_string_shorter: "parse_string s = Some (t, r) \<Longrightarrow> length r < length s"
proof (induction s arbitrary: t r rule: parse_string.induct)
  case (2 c cs)
  consider (quote) "c = 34" | (escape) e q where "c \<noteq> 34" "c = 92" "cs = e # q" | (plain) "c \<noteq> 34" "c \<noteq> 92"
    using "2.prems" by (cases "c = 92"; cases cs) auto
  then show ?case
  proof cases
    case quote
    with "2.prems" show ?thesis by simp
  next
    case escape
    show ?thesis
    proof (cases "e = 117")
      case True
      with "2.prems" escape obtain n r' s' where u: "unicode_escape q = Some (n, r')" "parse_string r' = Some (s', r)"
        by (auto split: option.splits)
      with "2.IH"(1) [OF escape(1,2,3) True u(1) refl u(2)] unicode_escape_shorter [OF u(1)] escape(3)
      show ?thesis by simp
    next
      case False
      with "2.prems" escape obtain n s' where u: "simple_escape e = Some n" "parse_string q = Some (s', r)"
        by (auto split: option.splits)
      with "2.IH"(2) [OF escape(1,2,3) False u(1) u(2)] escape(3) show ?thesis by simp
    qed
  next
    case plain
    with "2.prems" obtain s' where "\<not> c < 32" "parse_string cs = Some (s', r)"
      by (auto split: if_splits)
    with "2.IH"(3) [OF plain] show ?thesis by fastforce
  qed
qed simp

lemma scan_fraction_le: "scan_fraction s = (f, r) \<Longrightarrow> length r \<le> length s"
  by (auto simp: scan_fraction_def Let_def length_dropWhile_le le_SucI split: list.splits if_splits)

lemma scan_exponent_le: "scan_exponent s = (f, r) \<Longrightarrow> length r \<le> length s"
  by (auto simp: scan_exponent_def Let_def length_dropWhile_le le_SucI split: list.splits if_splits)

lemma whole_part_le: "length (whole_part s) \<le> length s"
proof (cases "take 1 (takeWhile is_digit s) = [48]")
  case True
  then have "s \<noteq> []" by auto
  then show ?thesis unfolding whole_part_def Let_def if_P [OF True] by (simp add: Suc_leI)
next
  case False
  then show ?thesis unfolding whole_part_def Let_def if_not_P [OF False] by (simp add: length_takeWhile_le)
qed

lemma scan_number_shorter:
  assumes "scan_number s = Some (t, b, r)"
  shows "length r < length s"
proof -
  obtain sign r0 where sg: "split_sign s = (sign, r0)" by fastforce
  obtain fr r2 where f: "scan_fraction (drop (length (whole_part r0)) r0) = (fr, r2)" by fastforce
  obtain ex r3 where e: "scan_exponent r2 = (ex, r3)" by fastforce
  have w: "whole_part r0 \<noteq> []" "r = r3"
    using assms by (simp_all add: scan_number_def sg f e split: if_splits)
  have "length r0 \<le> length s"
    using sg by (auto simp: split_sign_def split: list.splits if_splits)
  moreover have "length r3 \<le> length r2" "length r2 \<le> length r0 - length (whole_part r0)"
    using scan_exponent_le [OF e] scan_fraction_le [OF f] by simp_all
  moreover have "0 < length (whole_part r0)" "length (whole_part r0) \<le> length r0"
    using w(1) whole_part_le [of r0] by simp_all
  ultimately show ?thesis unfolding w(2) by linarith
qed

lemma scan_constant_shorter: "scan_constant s = Some (j, r) \<Longrightarrow> length r < length s"
  by (auto simp: scan_constant_def str_def dest!: prefix_length_le split: if_splits)

lemma scan_scalar_shorter: "scan_scalar num s = Some (j, r) \<Longrightarrow> length r < length s"
  by (auto simp: scan_scalar_def dest: scan_constant_shorter scan_number_shorter split: option.splits)

text \<open>One level of each parser.\<close>

lemma parse_value_Suc_iff:
  "parse_value num (Suc n) s = Some (j, r) \<longleftrightarrow>
     (\<exists>c q. s = c # q \<and>
       ((c = 34 \<and> (\<exists>t. parse_string q = Some (t, r) \<and> j = JStr t))
        \<or> (c = 91 \<and> j = JArr [] \<and> next_token q = Some (93, r))
        \<or> (c = 91 \<and> (\<exists>d p xs. next_token q = Some (d, p) \<and> d \<noteq> 93
              \<and> parse_items num n (d # p) = Some (xs, r) \<and> j = JArr xs))
        \<or> (c = 123 \<and> j = JObj [] \<and> next_token q = Some (125, r))
        \<or> (c = 123 \<and> (\<exists>d p ms. next_token q = Some (d, p) \<and> d \<noteq> 125
              \<and> parse_members num n (d # p) = Some (ms, r) \<and> j = JObj (dict_of_pairs ms)))
        \<or> (c \<noteq> 34 \<and> c \<noteq> 91 \<and> c \<noteq> 123 \<and> scan_scalar num s = Some (j, r))))"
proof (cases s)
  case (Cons c q)
  consider "c = 34" | "c = 91" | "c = 123" | "c \<noteq> 34" "c \<noteq> 91" "c \<noteq> 123" by blast
  then show ?thesis
  proof cases
    case 1
    then show ?thesis by (auto simp: Cons bind_eq_Some_conv)
  next
    case 2
    then show ?thesis by (auto simp: Cons bind_eq_Some_conv split: if_splits)
  next
    case 3
    then show ?thesis by (auto simp: Cons bind_eq_Some_conv split: if_splits)
  next
    case 4
    then show ?thesis by (simp add: Cons)
  qed
qed (simp add: next_char_def)

lemma parse_items_Suc_iff:
  "parse_items num (Suc n) s = Some (xs, r) \<longleftrightarrow>
     (\<exists>x q d p. parse_value num n s = Some (x, q) \<and> next_token q = Some (d, p) \<and>
       ((d = 93 \<and> xs = [x] \<and> r = p)
        \<or> (d = 44 \<and> (\<exists>ys. parse_items num n (skip_ws p) = Some (ys, r) \<and> xs = x # ys))))"
  by (fastforce simp: bind_eq_Some_conv split: if_splits)

lemma parse_members_Suc_iff:
  "parse_members num (Suc n) s = Some (ms, r) \<longleftrightarrow>
     (\<exists>q k r1 q1 v r2 d p. s = 34 # q \<and> parse_string q = Some (k, r1) \<and> next_token r1 = Some (58, q1)
       \<and> parse_value num n (skip_ws q1) = Some (v, r2) \<and> next_token r2 = Some (d, p) \<and>
       ((d = 125 \<and> ms = [(k, v)] \<and> r = p)
        \<or> (d = 44 \<and> (\<exists>ns. parse_members num n (skip_ws p) = Some (ns, r) \<and> ms = (k, v) # ns))))"
proof (cases s)
  case (Cons c q)
  have "expect 34 (next_char s) = (if c = 34 then Some q else None)"
    by (simp add: Cons next_char_def expect_def)
  then show ?thesis
    by (fastforce simp: Cons bind_eq_Some_conv expect_eq_Some split: if_splits)
qed (simp add: next_char_def expect_def)

declare parse_value.simps(2) [simp del] parse_items.simps(2) [simp del] parse_members.simps(2) [simp del]

lemma parse_shorter:
  "parse_value num f s = Some (j, r) \<Longrightarrow> length r < length s"
  "parse_items num f s = Some (xs, r) \<Longrightarrow> length r < length s"
  "parse_members num f s = Some (ms, r) \<Longrightarrow> length r < length s"
proof (induction f arbitrary: s j r xs ms)
  case (Suc n)
  note sw = skip_ws_le
  {
    case 1
    then obtain c q where s: "s = c # q" by (auto simp: parse_value_Suc_iff)
    have "length r < length (d # p) \<Longrightarrow> next_token q = Some (d, p) \<Longrightarrow> length r < length s" for d p
      using next_token_shorter [of q d p] by (simp add: s)
    with 1 Suc.IH(2,3) show ?case
      unfolding s parse_value_Suc_iff
      by (auto dest!: parse_string_shorter next_token_shorter dest: scan_scalar_shorter) fastforce+
  next
    case 2
    then obtain x q d p where v: "parse_value num n s = Some (x, q)" "next_token q = Some (d, p)"
      and r: "r = p \<or> (\<exists>ys. parse_items num n (skip_ws p) = Some (ys, r))"
      by (auto simp: parse_items_Suc_iff)
    have "length q < length s" "length p < length q"
      using Suc.IH(1) [OF v(1)] next_token_shorter [OF v(2)] by simp_all
    with r Suc.IH(2) [of "skip_ws p"] sw [of p] show ?case by fastforce
  next
    case 3
    then obtain q k r1 q1 v r2 d p where m: "s = 34 # q" "parse_string q = Some (k, r1)"
      "next_token r1 = Some (58, q1)" "parse_value num n (skip_ws q1) = Some (v, r2)"
      "next_token r2 = Some (d, p)"
      and r: "r = p \<or> (\<exists>ns. parse_members num n (skip_ws p) = Some (ns, r))"
      unfolding parse_members_Suc_iff by blast
    have "length r1 < length q" "length q1 < length r1" "length r2 < length (skip_ws q1)" "length p < length r2"
      using parse_string_shorter [OF m(2)] next_token_shorter [OF m(3)] Suc.IH(1) [OF m(4)]
        next_token_shorter [OF m(5)] by simp_all
    with r Suc.IH(3) [of "skip_ws p"] sw [of p] sw [of q1] m(1) show ?case by fastforce
  }
qed simp_all

text \<open>More fuel than twice the length parses nothing more.\<close>

lemma parse_value_fuel_aux:
  "parse_value num f s = Some (j, r) \<Longrightarrow> 2 * length s \<le> g \<Longrightarrow> parse_value num g s = Some (j, r)"
  "parse_items num f s = Some (xs, r) \<Longrightarrow> 2 * length s + 1 \<le> g \<Longrightarrow> parse_items num g s = Some (xs, r)"
  "parse_members num f s = Some (ms, r) \<Longrightarrow> 2 * length s + 1 \<le> g \<Longrightarrow> parse_members num g s = Some (ms, r)"
proof (induction f arbitrary: s j r xs ms g)
  case (Suc n)
  {
    case 1
    then obtain c q where s: "s = c # q" by (auto simp: parse_value_Suc_iff)
    with 1(2) obtain h where g: "g = Suc h" "2 * length q + 1 \<le> h" by (cases g) auto
    have b: "2 * length (d # p) + 1 \<le> h" if "next_token q = Some (d, p)" for d p
      using next_token_shorter [OF that] g(2) by simp
    have i: "parse_items num h (d # p) = Some (ys, r)"
      if "next_token q = Some (d, p)" "parse_items num n (d # p) = Some (ys, r)" for d p ys
      by (rule Suc.IH(2) [OF that(2) b [OF that(1)]])
    have m: "parse_members num h (d # p) = Some (ys, r)"
      if "next_token q = Some (d, p)" "parse_members num n (d # p) = Some (ys, r)" for d p ys
      by (rule Suc.IH(3) [OF that(2) b [OF that(1)]])
    show ?case
      using 1(1) unfolding g(1) parse_value_Suc_iff s
      by (elim exE conjE disjE) (simp_all, (metis i m)+)
  next
    case 2
    then obtain h where g: "g = Suc h" "2 * length s \<le> h" by (cases g) auto
    from 2(1) obtain x q d p where v: "parse_value num n s = Some (x, q)" "next_token q = Some (d, p)"
      and r: "(d = 93 \<and> xs = [x] \<and> r = p)
        \<or> (d = 44 \<and> (\<exists>ys. parse_items num n (skip_ws p) = Some (ys, r) \<and> xs = x # ys))"
      by (auto simp: parse_items_Suc_iff)
    have "length q < length s" "length p < length q"
      using parse_shorter(1) [OF v(1)] next_token_shorter [OF v(2)] by simp_all
    then have "2 * length (skip_ws p) + 1 \<le> h"
      using g(2) skip_ws_le [of p] by linarith
    with r Suc.IH(2) have "(d = 93 \<and> xs = [x] \<and> r = p)
        \<or> (d = 44 \<and> (\<exists>ys. parse_items num h (skip_ws p) = Some (ys, r) \<and> xs = x # ys))"
      by blast
    with v(2) Suc.IH(1) [OF v(1) g(2)] show ?case
      unfolding g(1) parse_items_Suc_iff by blast
  next
    case 3
    then obtain h where g: "g = Suc h" "2 * length s \<le> h" by (cases g) auto
    from 3(1) obtain q k r1 q1 v r2 d p where m: "s = 34 # q" "parse_string q = Some (k, r1)"
      "next_token r1 = Some (58, q1)" "parse_value num n (skip_ws q1) = Some (v, r2)"
      "next_token r2 = Some (d, p)"
      and r: "(d = 125 \<and> ms = [(k, v)] \<and> r = p)
        \<or> (d = 44 \<and> (\<exists>ns. parse_members num n (skip_ws p) = Some (ns, r) \<and> ms = (k, v) # ns))"
      unfolding parse_members_Suc_iff by blast
    have l: "length r1 < length q" "length q1 < length r1" "length r2 < length (skip_ws q1)" "length p < length r2"
      using parse_string_shorter [OF m(2)] next_token_shorter [OF m(3)] parse_shorter(1) [OF m(4)]
        next_token_shorter [OF m(5)] by simp_all
    then have b: "2 * length (skip_ws q1) \<le> h" "2 * length (skip_ws p) + 1 \<le> h"
      using g(2) m(1) skip_ws_le [of p] skip_ws_le [of q1] by simp_all
    from r Suc.IH(3) b(2) have "(d = 125 \<and> ms = [(k, v)] \<and> r = p)
        \<or> (d = 44 \<and> (\<exists>ns. parse_members num h (skip_ws p) = Some (ns, r) \<and> ms = (k, v) # ns))"
      by blast
    with m(1,2,3,5) Suc.IH(1) [OF m(4) b(1)] show ?case
      unfolding g(1) parse_members_Suc_iff by blast
  }
qed simp_all

lemma parse_value_fuel:
  assumes "parse_value num f (skip_ws s) = Some x"
  shows "parse_value num (2 * length s) (skip_ws s) = Some x"
  using parse_value_fuel_aux(1) [of num f "skip_ws s" "fst x" "snd x" "2 * length s"] assms
    skip_ws_le [of s] by simp

section \<open>Round trip\<close>

text \<open>An escape of one character that the string parser undoes.\<close>

definition escape_ok :: "(nat \<Rightarrow> pystr) \<Rightarrow> bool" where
  "escape_ok esc \<longleftrightarrow> (\<forall>c r. parse_string (esc c @ r) = map_option (\<lambda>(s, t). (c # s, t)) (parse_string r))"

text \<open>Values that print without a float and have no repeated members.\<close>

fun json_plain :: "json \<Rightarrow> bool" where
  "json_plain (JFloat x) \<longleftrightarrow> False"
| "json_plain (JArr xs) \<longleftrightarrow> list_all json_plain xs"
| "json_plain (JObj d) \<longleftrightarrow> dict_ok d \<and> list_all (\<lambda>(k, v). json_plain v) d"
| "json_plain _ \<longleftrightarrow> True"

lemma parse_string_concat:
  "escape_ok esc \<Longrightarrow> parse_string (concat (map esc s) @ 34 # r) = Some (s, r)"
  by (induction s) (auto simp: escape_ok_def)

definition ends_value :: "pystr \<Rightarrow> bool" where
  "ends_value r \<longleftrightarrow> (case r of [] \<Rightarrow> True | c # _ \<Rightarrow> c = 44 \<or> c = 93 \<or> c = 125)"

lemma span_digits_end:
  assumes "list_all is_digit ds" "ends_value r"
  shows "takeWhile is_digit (ds @ r) = ds" "dropWhile is_digit (ds @ r) = r"
  using assms by (induction ds) (auto simp: ends_value_def is_digit_def split: list.splits)

lemma whole_part_digits:
  assumes "0 \<le> n" "ends_value r"
  shows "whole_part (digits n @ r) = digits n"
proof -
  have "digits n = [48]" if "take 1 (digits n) = [48]"
  proof -
    have "hd (digits n) = 48" using that by (cases "digits n") auto
    with assms(1) have "n = 0" by (simp add: hd_digits_zero)
    then show ?thesis by (subst digits.simps) simp
  qed
  then show ?thesis
    using span_digits_end(1) [OF digits_is_digit [OF assms(1)] assms(2)]
    by (auto simp: whole_part_def Let_def)
qed

lemma scan_tail_end:
  assumes "ends_value r"
  shows "scan_fraction r = ([], r)" "scan_exponent r = ([], r)"
  using assms by (auto simp: ends_value_def scan_fraction_def scan_exponent_def split: list.splits)

lemma hd_digits_not_minus: "0 \<le> n \<Longrightarrow> digits n \<noteq> 45 # q"
  using digits_is_digit [of n] by (auto simp: list_all_iff is_digit_def)

lemma scan_number_int:
  assumes "ends_value r"
  shows "scan_number (int_text n @ r) = Some (int_text n, False, r)"
proof (cases "n < 0")
  case True
  then have "split_sign (int_text n @ r) = ([45], digits (- n) @ r)"
    by (simp add: int_text_def split_sign_def)
  with True whole_part_digits [of "- n" r] assms scan_tail_end [OF assms] show ?thesis
    by (simp add: scan_number_def int_text_def)
next
  case False
  then obtain c q where c: "digits n = c # q" "c \<noteq> 45"
    using hd_digits_not_minus [of n] by (cases "digits n") auto
  with False have "split_sign (int_text n @ r) = ([], digits n @ r)"
    by (simp add: int_text_def split_sign_def)
  with False whole_part_digits [of n r] assms scan_tail_end [OF assms] show ?thesis
    by (simp add: scan_number_def int_text_def)
qed

lemma int_of_int_text: "int_of_text (int_text n) = n"
proof (cases "n < 0")
  case True
  then show ?thesis by (simp add: int_text_def int_of_text_def digits_value_digits)
next
  case False
  then obtain c q where "digits n = c # q" "c \<noteq> 45"
    using hd_digits_not_minus [of n] by (cases "digits n") auto
  with False digits_value_digits [of n] show ?thesis
    by (simp add: int_text_def int_of_text_def)
qed

lemma scan_constant_digit: "is_digit c \<Longrightarrow> scan_constant (c # s) = None"
  by (auto simp: scan_constant_def str_def is_digit_def)

lemma scan_constant_int: "scan_constant (int_text n @ r) = None"
proof (cases "n < 0")
  case True
  then obtain c q where c: "digits (- n) = c # q" "is_digit c"
    using digits_is_digit [of "- n"] by (cases "digits (- n)") auto
  with True show ?thesis
    by (auto simp: int_text_def scan_constant_def str_def is_digit_def)
next
  case False
  then obtain c q where "digits n = c # q" "is_digit c"
    using digits_is_digit [of n] by (cases "digits n") auto
  with False show ?thesis
    by (simp add: int_text_def scan_constant_digit)
qed

lemma print_head:
  assumes "json_plain j"
  obtains c q where "print_with esc j = c # q" "\<not> is_ws c" "c \<noteq> 93" "c \<noteq> 125"
proof -
  have d: "\<exists>c q. digits n = c # q \<and> is_digit c" if "0 \<le> n" for n
    using digits_is_digit [OF that] by (cases "digits n") auto
  have "\<exists>c q. print_with esc j = c # q \<and> \<not> is_ws c \<and> c \<noteq> 93 \<and> c \<noteq> 125"
    using assms
  proof (cases j)
    case (JInt n)
    then show ?thesis
      using d [of n] by (auto simp: int_text_def is_ws_def is_digit_def)
  qed (auto simp: str_def quote_with_def is_ws_def)
  then show ?thesis using that by blast
qed

lemma skip_ws_head: "\<not> is_ws c \<Longrightarrow> skip_ws (c # q) = c # q"
  by (simp add: skip_ws_def)

lemma next_token_head: "\<not> is_ws c \<Longrightarrow> next_token (c # q) = Some (c, q)"
  by (simp add: next_token_def skip_ws_head)

lemma skip_ws_print: "json_plain j \<Longrightarrow> skip_ws (print_with esc j @ r) = print_with esc j @ r"
  by (rule print_head [of j esc]) (simp_all add: skip_ws_head)

text \<open>The text of a value parses to it with any sufficient fuel.\<close>

definition parses :: "(nat \<Rightarrow> pystr) \<Rightarrow> json \<Rightarrow> bool" where
  "parses esc j \<longleftrightarrow> (\<forall>r g. ends_value r \<longrightarrow> 2 * length (print_with esc j @ r) \<le> g \<longrightarrow>
     parse_value plain_number g (print_with esc j @ r) = Some (j, r))"

lemma parsesI:
  assumes "\<And>r. ends_value r \<Longrightarrow> \<exists>f. parse_value plain_number f (print_with esc j @ r) = Some (j, r)"
  shows "parses esc j"
  using assms parse_value_fuel_aux(1) unfolding parses_def by blast

lemma ends_value_Cons: "c = 44 \<or> c = 93 \<or> c = 125 \<Longrightarrow> ends_value (c # r)"
  by (auto simp: ends_value_def)

lemma not_ws_structural: "\<not> is_ws 44" "\<not> is_ws 93" "\<not> is_ws 125" "\<not> is_ws 58" "\<not> is_ws 34"
  by (simp_all add: is_ws_def)

lemma parse_items_print:
  assumes "xs \<noteq> []" "\<And>x. x \<in> set xs \<Longrightarrow> parses esc x \<and> json_plain x"
  shows "\<exists>f. parse_items plain_number f (join_with [44] (map (print_with esc) xs) @ 93 # r) = Some (xs, r)"
  using assms
proof (induction xs)
  case (Cons x xs)
  show ?case
  proof (cases "xs = []")
    case True
    have "parse_value plain_number (2 * length (print_with esc x @ 93 # r)) (print_with esc x @ 93 # r)
        = Some (x, 93 # r)"
      using Cons.prems(2) [of x] by (simp add: parses_def ends_value_Cons)
    then have "parse_items plain_number (Suc (2 * length (print_with esc x @ 93 # r)))
        (print_with esc x @ 93 # r) = Some ([x], r)"
      unfolding parse_items_Suc_iff using next_token_head [OF not_ws_structural(2), of r] by blast
    with True show ?thesis by auto
  next
    case False
    let ?rest = "join_with [44] (map (print_with esc) xs) @ 93 # r"
    let ?s = "print_with esc x @ 44 # ?rest"
    obtain f where f: "parse_items plain_number f ?rest = Some (xs, r)"
      using Cons False by auto
    define g where "g = 2 * length ?s"
    have v: "parse_value plain_number g ?s = Some (x, 44 # ?rest)"
      using Cons.prems(2) [of x] by (simp add: parses_def ends_value_Cons g_def)
    have "2 * length ?rest + 1 \<le> g" by (simp add: g_def)
    with f have i: "parse_items plain_number g ?rest = Some (xs, r)"
      by (rule parse_value_fuel_aux(2))
    obtain y ys where xs: "xs = y # ys" using False by (cases xs) auto
    then have "json_plain y" using Cons.prems(2) [of y] by simp
    then have "skip_ws ?rest = ?rest"
      using skip_ws_print [of y esc "93 # r"]
        skip_ws_print [of y esc "44 # join_with [44] (map (print_with esc) ys) @ 93 # r"]
      by (cases ys) (simp_all add: xs)
    with v i have "parse_items plain_number (Suc g) ?s = Some (x # xs, r)"
      unfolding parse_items_Suc_iff by (metis next_token_head not_ws_structural(1))
    moreover have "join_with [44] (map (print_with esc) (x # xs)) @ 93 # r = ?s"
      using False by (simp add: join_with_Cons)
    ultimately show ?thesis by metis
  qed
qed simp

abbreviation print_member :: "(nat \<Rightarrow> pystr) \<Rightarrow> pystr \<times> json \<Rightarrow> pystr" where
  "print_member esc \<equiv> \<lambda>(k, v). quote_with esc k @ [58] @ print_with esc v"

lemma parse_members_print:
  assumes "escape_ok esc" "d \<noteq> []" "\<And>k v. (k, v) \<in> set d \<Longrightarrow> parses esc v \<and> json_plain v"
  shows "\<exists>f. parse_members plain_number f (join_with [44] (map (print_member esc) d) @ 125 # r) = Some (d, r)"
  using assms(2,3)
proof (induction d)
  case (Cons m d)
  obtain k v where m: "m = (k, v)" by fastforce
  have pv: "parses esc v" "json_plain v" using Cons.prems(2) [of k v] m by simp_all
  let ?t = "if d = [] then 125 # r else 44 # (join_with [44] (map (print_member esc) d) @ 125 # r)"
  let ?q = "concat (map esc k) @ 34 # 58 # print_with esc v @ ?t"
  have e: "join_with [44] (map (print_member esc) (m # d)) @ 125 # r = 34 # ?q"
    by (simp add: m quote_with_def join_with_Cons)
  have q: "parse_string ?q = Some (k, 58 # print_with esc v @ ?t)"
    by (rule parse_string_concat [OF assms(1)])
  define g where "g = 2 * length (34 # ?q) + 1"
  have "ends_value ?t" by (simp add: ends_value_Cons)
  then have v: "parse_value plain_number g (skip_ws (print_with esc v @ ?t)) = Some (v, ?t)"
    unfolding skip_ws_print [OF pv(2)] using pv(1) by (auto simp: parses_def g_def)
  have c: "next_token (58 # print_with esc v @ ?t) = Some (58, print_with esc v @ ?t)"
    by (rule next_token_head) (rule not_ws_structural)
  show ?case
  proof (cases "d = []")
    case True
    then have "next_token ?t = Some (125, r)"
      by (simp add: next_token_head not_ws_structural)
    with q c v have "parse_members plain_number (Suc g) (34 # ?q) = Some ([(k, v)], r)"
      unfolding parse_members_Suc_iff by blast
    with True m e show ?thesis by auto
  next
    case False
    let ?rest = "join_with [44] (map (print_member esc) d) @ 125 # r"
    obtain f where f: "parse_members plain_number f ?rest = Some (d, r)"
      using Cons False by auto
    have "2 * length ?rest + 1 \<le> g" by (simp add: g_def False)
    with f have i: "parse_members plain_number g ?rest = Some (d, r)"
      by (rule parse_value_fuel_aux(3))
    obtain k2 v2 d2 where "d = (k2, v2) # d2" using False by (cases d) auto
    then have "\<exists>p. ?rest = 34 # p" by (cases d2) (simp_all add: quote_with_def)
    then have "skip_ws ?rest = ?rest"
      by (metis skip_ws_head not_ws_structural(5))
    moreover have "next_token ?t = Some (44, ?rest)"
      using False by (simp add: next_token_head not_ws_structural)
    ultimately have "parse_members plain_number (Suc g) (34 # ?q) = Some ((k, v) # d, r)"
      unfolding parse_members_Suc_iff using q c v i by metis
    with m e show ?thesis by metis
  qed
qed simp

lemma fold_dict_set_append:
  "distinct (map fst (acc @ ms)) \<Longrightarrow> fold (\<lambda>(k, v). dict_set k v) ms acc = acc @ ms"
proof (induction ms arbitrary: acc)
  case (Cons m ms)
  obtain k v where m: "m = (k, v)" by fastforce
  have "k \<notin> fst ` set acc" using Cons.prems by (auto simp: m)
  then have "dict_set k v acc = acc @ [(k, v)]"
    by (induction acc) auto
  with Cons m show ?case by simp
qed simp

lemma dict_of_pairs_ok: "dict_ok ms \<Longrightarrow> dict_of_pairs ms = ms"
  using fold_dict_set_append [of "[]" ms] by (simp add: dict_of_pairs_def dict_ok_def)

lemma scan_scalar_plain:
  assumes "ends_value r"
  shows "scan_scalar plain_number (str ''null'' @ r) = Some (JNull, r)"
    and "scan_scalar plain_number (str ''true'' @ r) = Some (JBool True, r)"
    and "scan_scalar plain_number (str ''false'' @ r) = Some (JBool False, r)"
    and "scan_scalar plain_number (int_text n @ r) = Some (JInt n, r)"
  using assms
  by (simp_all add: scan_scalar_def scan_constant_int scan_number_int plain_number_def int_of_int_text)
    (simp_all add: scan_constant_def str_def)

lemma int_text_head:
  obtains c q where "int_text n = c # q" "c \<noteq> 34" "c \<noteq> 91" "c \<noteq> 123"
proof (cases "n < 0")
  case False
  then obtain c q where "digits n = c # q" "is_digit c"
    using digits_is_digit [of n] by (cases "digits n") auto
  with False show ?thesis by (intro that [of c q]) (auto simp: int_text_def is_digit_def)
qed (use that in \<open>simp add: int_text_def\<close>)

lemma parse_scalar_value:
  assumes "scan_scalar plain_number s = Some (j, r)" "s = c # q" "c \<noteq> 34" "c \<noteq> 91" "c \<noteq> 123"
  shows "parse_value plain_number (Suc 0) s = Some (j, r)"
  using assms by (simp add: parse_value_Suc_iff)

lemma json_parses:
  assumes esc: "escape_ok esc" and "json_plain j"
  shows "parses esc j"
  using assms(2)
proof (induction j)
  case JNull
  show ?case
  proof (rule parsesI)
    fix r assume "ends_value r"
    from parse_scalar_value [OF scan_scalar_plain(1) [OF this]]
    show "\<exists>f. parse_value plain_number f (print_with esc JNull @ r) = Some (JNull, r)"
      by (auto simp: str_def)
  qed
next
  case (JBool b)
  show ?case
  proof (rule parsesI)
    fix r assume r: "ends_value r"
    from parse_scalar_value [OF scan_scalar_plain(2) [OF r]] parse_scalar_value [OF scan_scalar_plain(3) [OF r]]
    show "\<exists>f. parse_value plain_number f (print_with esc (JBool b) @ r) = Some (JBool b, r)"
      by (cases b) (auto simp: str_def)
  qed
next
  case (JInt n)
  show ?case
  proof (rule parsesI)
    fix r assume r: "ends_value r"
    obtain c q where c: "int_text n = c # q" "c \<noteq> 34" "c \<noteq> 91" "c \<noteq> 123" by (rule int_text_head)
    have "parse_value plain_number (Suc 0) (int_text n @ r) = Some (JInt n, r)"
      by (rule parse_scalar_value [OF scan_scalar_plain(4) [OF r] _ c(2,3,4)]) (simp add: c(1))
    then show "\<exists>f. parse_value plain_number f (print_with esc (JInt n) @ r) = Some (JInt n, r)"
      by auto
  qed
next
  case (JStr s)
  show ?case
  proof (rule parsesI)
    fix r
    have "parse_value plain_number (Suc 0) (print_with esc (JStr s) @ r) = Some (JStr s, r)"
      by (simp add: parse_value_Suc_iff quote_with_def parse_string_concat [OF esc])
    then show "\<exists>f. parse_value plain_number f (print_with esc (JStr s) @ r) = Some (JStr s, r)" by blast
  qed
next
  case (JArr xs)
  then have el: "parses esc x \<and> json_plain x" if "x \<in> set xs" for x
    using that by (simp add: list_all_iff)
  show ?case
  proof (rule parsesI)
    fix r
    let ?q = "join_with [44] (map (print_with esc) xs) @ 93 # r"
    show "\<exists>f. parse_value plain_number f (print_with esc (JArr xs) @ r) = Some (JArr xs, r)"
    proof (cases xs)
      case Nil
      then have "parse_value plain_number (Suc 0) (print_with esc (JArr xs) @ r) = Some (JArr xs, r)"
        by (simp add: parse_value_Suc_iff next_token_head not_ws_structural)
      then show ?thesis by blast
    next
      case (Cons y ys)
      obtain f where f: "parse_items plain_number f ?q = Some (xs, r)"
        using parse_items_print [of xs esc r] el Cons by auto
      obtain c q0 where c: "print_with esc y = c # q0" "\<not> is_ws c" "c \<noteq> 93"
        using print_head [of y esc] el [of y] Cons by (metis list.set_intros(1))
      then obtain q where q: "?q = c # q" by (cases ys) (simp_all add: Cons)
      have "next_token (c # q) = Some (c, q)" by (rule next_token_head [OF c(2)])
      with f q c(3) have "parse_value plain_number (Suc f) (91 # ?q) = Some (JArr xs, r)"
        unfolding parse_value_Suc_iff by auto
      then show ?thesis by auto
    qed
  qed
next
  case (JObj d)
  then have el: "parses esc v \<and> json_plain v" if "(k, v) \<in> set d" for k v
    using that by (fastforce simp: list_all_iff)
  show ?case
  proof (rule parsesI)
    fix r
    let ?q = "join_with [44] (map (print_member esc) d) @ 125 # r"
    show "\<exists>f. parse_value plain_number f (print_with esc (JObj d) @ r) = Some (JObj d, r)"
    proof (cases d)
      case Nil
      then have "parse_value plain_number (Suc 0) (print_with esc (JObj d) @ r) = Some (JObj d, r)"
        by (simp add: parse_value_Suc_iff next_token_head not_ws_structural)
      then show ?thesis by blast
    next
      case (Cons m ms)
      obtain f where f: "parse_members plain_number f ?q = Some (d, r)"
        using parse_members_print [OF esc, of d r] el Cons by auto
      obtain q where q: "?q = 34 # q" by (cases m; cases ms) (simp_all add: Cons quote_with_def)
      have "next_token (34 # q) = Some (34, q)" by (rule next_token_head [OF not_ws_structural(5)])
      with f q dict_of_pairs_ok [of d] JObj.prems
      have "parse_value plain_number (Suc f) (123 # ?q) = Some (JObj d, r)"
        unfolding parse_value_Suc_iff by auto
      then show ?thesis by auto
    qed
  qed
qed simp

lemma loads_print:
  assumes "escape_ok esc" "json_plain j"
  shows "loads_text (print_with esc j) = Inr j"
proof -
  have e: "ends_value []" by (simp add: ends_value_def)
  have "skip_ws (print_with esc j) = print_with esc j"
    using skip_ws_print [OF assms(2), of esc "[]"] by simp
  moreover have "parse_value plain_number (2 * length (print_with esc j)) (print_with esc j) = Some (j, [])"
    using json_parses [OF assms, unfolded parses_def, rule_format, OF e order_refl] by simp
  ultimately have "parse_value plain_number (2 * length (print_with esc j)) (skip_ws (print_with esc j))
      = Some (j, [])" by simp
  then show ?thesis
    by (simp add: loads_text_def loads_text_with_def skip_ws_def)
qed

text \<open>The escape of \<open>json.dumps\<close> is undone by the parser.\<close>

lemma hex_value_digit: "d < 16 \<Longrightarrow> hex_value (if d < 10 then 48 + d else 87 + d) = Some d"
  by (auto simp: hex_value_def)

lemma hex4_of_text:
  assumes "c < 65536"
  shows "hex4 (hex4_text c @ r) = Some (c, r)"
proof -
  let ?d = "\<lambda>d :: nat. if d < 10 then 48 + d else 87 + d"
  have v: "((c div 4096 mod 16 * 16 + c div 256 mod 16) * 16 + c div 16 mod 16) * 16 + c mod 16 = c"
  proof -
    have "c div 256 = c div 16 div 16" "c div 4096 = c div 16 div 16 div 16" "c div 16 div 16 div 16 < 16"
      using assms by (simp_all add: div_mult2_eq [symmetric])
    then show ?thesis by (simp only: mod_less div_mult_mod_eq)
  qed
  have h: "hex_value (?d (x mod 16)) = Some (x mod 16)" for x
    by (rule hex_value_digit) simp
  show ?thesis
    unfolding hex4_def hex4_text_def list.map append_Cons append_Nil list.case h prod.case option.case v ..
qed

lemma parse_unicode_escape:
  assumes "c < 65536" "\<not> is_high c"
  shows "parse_string ([92, 117] @ hex4_text c @ r) = map_option (\<lambda>(s, t). (c # s, t)) (parse_string r)"
proof -
  have "unicode_escape (hex4_text c @ r) = Some (c, r)"
    using assms by (auto simp: unicode_escape_def hex4_of_text split: list.splits)
  then show ?thesis by simp
qed

lemma escape_ok_escape_char: "escape_ok escape_char"
proof -
  have "parse_string (escape_char c @ r) = map_option (\<lambda>(s, t). (c # s, t)) (parse_string r)" for c r
  proof (cases "c \<in> {34, 92, 10, 13, 9, 12, 8}")
    case True
    then show ?thesis by (auto simp: escape_char_def simple_escape_def)
  next
    case False
    then show ?thesis
      using parse_unicode_escape [of c r] by (auto simp: escape_char_def is_high_def)
  qed
  then show ?thesis by (simp add: escape_ok_def)
qed

lemma loads_dumps: "json_plain j \<Longrightarrow> loads_text (dumps j) = Inr j"
  unfolding dumps_def by (rule loads_print [OF escape_ok_escape_char])

section \<open>Bytes\<close>

text \<open>\<open>json.detect_encoding\<close>.\<close>

datatype encoding = UTF8 | UTF8_SIG | UTF16 | UTF16_BE | UTF16_LE | UTF32 | UTF32_BE | UTF32_LE

definition detect_encoding :: "bytes \<Rightarrow> encoding" where
  "detect_encoding b =
     (if prefix [0, 0, 0xFE, 0xFF] b \<or> prefix [0xFF, 0xFE, 0, 0] b then UTF32
      else if prefix [0xFE, 0xFF] b \<or> prefix [0xFF, 0xFE] b then UTF16
      else if prefix [0xEF, 0xBB, 0xBF] b then UTF8_SIG
      else if 4 \<le> length b then
        (if b ! 0 = 0 then (if b ! 1 \<noteq> 0 then UTF16_BE else UTF32_BE)
         else if b ! 1 = 0 then (if b ! 2 \<noteq> 0 \<or> b ! 3 \<noteq> 0 then UTF16_LE else UTF32_LE)
         else UTF8)
      else if length b = 2 then
        (if b ! 0 = 0 then UTF16_BE else if b ! 1 = 0 then UTF16_LE else UTF8)
      else UTF8)"

text \<open>Decoding with \<open>errors="surrogatepass"\<close>: an encoded surrogate is a code point.\<close>

definition surrogate_next :: "bytes \<Rightarrow> (nat \<times> bytes) option" where
  "surrogate_next bs =
     (case bs of
        a # b # c # r \<Rightarrow>
          if a = 0xED \<and> 0xA0 \<le> b \<and> b < 0xC0 \<and> is_cont c
          then Some (0xD000 + (b - 0x80) * 64 + (c - 0x80), r) else None
      | _ \<Rightarrow> None)"

function utf8_decode_pass :: "bytes \<Rightarrow> pystr option" where
  "utf8_decode_pass [] = Some []"
| "utf8_decode_pass (b # bs) =
     (case utf8_next (b # bs) of
        Some (c, r) \<Rightarrow> map_option (\<lambda>s. c # s) (utf8_decode_pass r)
      | None \<Rightarrow>
        (case surrogate_next (b # bs) of
           Some (c, r) \<Rightarrow> map_option (\<lambda>s. c # s) (utf8_decode_pass r)
         | None \<Rightarrow> None))"
  by pat_completeness auto
termination
  by (relation "measure length")
    (auto simp: surrogate_next_def dest: utf8_next_shorter split: list.splits if_splits)

text \<open>Code units of two bytes, then pairs of surrogates joined.\<close>

fun units16 :: "bool \<Rightarrow> bytes \<Rightarrow> nat list option" where
  "units16 be [] = Some []"
| "units16 be [a] = None"
| "units16 be (a # b # r) = map_option (\<lambda>us. (if be then a * 256 + b else b * 256 + a) # us) (units16 be r)"

fun join_surrogates :: "nat list \<Rightarrow> pystr" where
  "join_surrogates [] = []"
| "join_surrogates [u] = [u]"
| "join_surrogates (u # v # r) =
     (if is_high u \<and> is_low v then (0x10000 + (u - 0xD800) * 1024 + (v - 0xDC00)) # join_surrogates r
      else u # join_surrogates (v # r))"

fun units32 :: "bool \<Rightarrow> bytes \<Rightarrow> nat list option" where
  "units32 be [] = Some []"
| "units32 be (a # b # c # d # r) =
     (let u = (if be then ((a * 256 + b) * 256 + c) * 256 + d else ((d * 256 + c) * 256 + b) * 256 + a)
      in if u \<le> 0x10FFFF then map_option (\<lambda>us. u # us) (units32 be r) else None)"
| "units32 be _ = None"

definition decode16 :: "bool \<Rightarrow> bytes \<Rightarrow> pystr option" where
  "decode16 be b = map_option join_surrogates (units16 be b)"

definition decode_json_bytes :: "bytes \<Rightarrow> pystr option" where
  "decode_json_bytes b =
     (case detect_encoding b of
        UTF8 \<Rightarrow> utf8_decode_pass b
      | UTF8_SIG \<Rightarrow> utf8_decode_pass (drop 3 b)
      | UTF16 \<Rightarrow> decode16 (take 1 b = [0xFE]) (drop 2 b)
      | UTF16_BE \<Rightarrow> decode16 True b
      | UTF16_LE \<Rightarrow> decode16 False b
      | UTF32 \<Rightarrow> units32 (take 1 b = [0]) (drop 4 b)
      | UTF32_BE \<Rightarrow> units32 True b
      | UTF32_LE \<Rightarrow> units32 False b)"

definition loads_bytes_with :: "(pystr \<Rightarrow> bool \<Rightarrow> json) \<Rightarrow> bytes \<Rightarrow> exc + json" where
  "loads_bytes_with num b =
     (case decode_json_bytes b of None \<Rightarrow> raise UnicodeError | Some s \<Rightarrow> loads_text_with num s)"

definition loads_bytes :: "bytes \<Rightarrow> exc + json" where
  "loads_bytes = loads_bytes_with plain_number"

lemma utf8_decode_pass_strict: "utf8_decode b = Some s \<Longrightarrow> utf8_decode_pass b = Some s"
  by (induction b arbitrary: s rule: utf8_decode.induct) (auto split: option.splits)

lemma utf8_no_zero:
  assumes "utf8_encode s = Some b" "0 \<notin> set s"
  shows "0 \<notin> set b"
proof -
  have nz: "0 \<notin> set (utf8_char c)" if "c \<noteq> 0" for c
    using that by (auto simp: utf8_char_def)
  have "b = concat (map utf8_char s)"
    using assms(1) by (simp add: utf8_encode_def split: if_splits)
  moreover have "0 \<notin> set (utf8_char c)" if "c \<in> set s" for c
    using that assms(2) nz [of c] by (cases c) auto
  ultimately show ?thesis by auto
qed

lemma detect_utf8:
  assumes "0 \<notin> set b" "b = c # r" "c < 128"
  shows "detect_encoding b = UTF8"
proof -
  have c: "c \<noteq> 0" using assms(1,2) by auto
  have p: "\<not> prefix (x # q) b" if "x = 0 \<or> 128 \<le> x" for x q
    using that assms(2,3) c by auto
  have n: "b ! 0 \<noteq> 0" using assms(2) c by simp
  have m: "b ! 1 \<noteq> 0" if "2 \<le> length b"
  proof -
    have "b ! 1 \<in> set b" using that by (intro nth_mem) simp
    then show ?thesis using assms(1) by metis
  qed
  show ?thesis
  proof (cases "2 \<le> length b")
    case True
    then show ?thesis unfolding detect_encoding_def using p n m by simp
  next
    case False
    then show ?thesis unfolding detect_encoding_def using p by simp
  qed
qed

lemma join_with_notin: "x \<notin> set sep \<Longrightarrow> \<forall>w \<in> set ws. x \<notin> set w \<Longrightarrow> x \<notin> set (join_with sep ws)"
  by (induction sep ws rule: join_with.induct) auto

lemma digits_notin: "\<not> is_digit x \<Longrightarrow> 0 \<le> n \<Longrightarrow> x \<notin> set (digits n)"
  using digits_is_digit [of n] by (auto simp: list_all_iff)

text \<open>A character that no escape produces and that is no structural one does not occur.\<close>

lemma print_notin:
  assumes "json_plain j" "\<And>c. x \<notin> set (esc c)" "\<not> is_digit x" "\<not> is_lower x"
    "x \<notin> {34, 44, 45, 58, 91, 93, 123, 125}"
  shows "x \<notin> set (print_with esc j)"
  using assms(1)
proof (induction j)
  case (JInt n)
  then show ?case
    using assms(3,5) digits_notin [of x n] digits_notin [of x "- n"] by (auto simp: int_text_def)
next
  case (JStr s)
  then show ?case using assms(2,5) by (auto simp: quote_with_def)
next
  case (JArr xs)
  then show ?case
    using assms(5) join_with_notin [of x "[44]" "map (print_with esc) xs"] by (auto simp: list_all_iff)
next
  case (JObj d)
  have "x \<notin> set (print_member esc (k, v))" if "(k, v) \<in> set d" for k v
    using JObj that assms(2,5) by (fastforce simp: list_all_iff quote_with_def)
  then show ?case
    using assms(5) join_with_notin [of x "[44]" "map (print_member esc) d"] by fastforce
next
  case JNull
  then show ?case using assms(4) by (auto simp: str_def is_lower_def)
next
  case (JBool b)
  then show ?case using assms(4) by (auto simp: str_def is_lower_def)
qed simp

lemma loads_bytes_print:
  assumes "escape_ok esc" "json_plain j" "\<And>c. 0 \<notin> set (esc c)"
    and "utf8_encode (print_with esc j) = Some b"
  shows "loads_bytes b = Inr j"
proof -
  have z: "0 \<notin> set b"
    using print_notin [OF assms(2), of 0 esc] assms(3) utf8_no_zero [OF assms(4)]
    by (simp add: is_digit_def is_lower_def)
  have "\<exists>c q. print_with esc j = c # q \<and> c < 128"
  proof (cases j)
    case (JInt n)
    then show ?thesis
      using digits_is_digit [of n] by (cases "digits n") (auto simp: int_text_def is_digit_def)
  qed (use assms(2) in \<open>auto simp: str_def quote_with_def\<close>)
  then obtain c q where c: "print_with esc j = c # q" "c < 128" by blast
  with assms(4) have "\<exists>r. b = c # r"
    by (auto simp: utf8_encode_def utf8_char_def split: if_splits)
  with z c(2) have "detect_encoding b = UTF8" by (auto intro: detect_utf8)
  moreover have "utf8_decode_pass b = Some (print_with esc j)"
    using utf8_decode_encode [OF assms(4)] by (rule utf8_decode_pass_strict)
  ultimately show ?thesis
    using loads_print [OF assms(1,2)]
    by (simp add: loads_bytes_def loads_bytes_with_def decode_json_bytes_def loads_text_def)
qed

end
