(* ===== verification/UrlSplit.thy ===== *)
theory UrlSplit
  imports IpAddress Failures
begin

text \<open>
  \<open>urllib.parse.urlsplit\<close>, its \<open>hostname\<close>, \<open>port\<close>, \<open>username\<close> and \<open>password\<close> properties and
  \<open>urlunsplit\<close>, as Python 3.11 (the oldest interpreter the SDK supports) has them.  Two
  functions of the Unicode database, \<open>str.lower\<close> and \<open>unicodedata.normalize("NFKC", \<dots>)\<close>, are
  the fields of the record \<open>unicode_data\<close>, because the model carries no Unicode tables; on ASCII
  text \<open>ascii_unicode\<close> is exact, since \<open>urlsplit\<close> does not normalize an ASCII network location.
\<close>

record unicode_data =
  lower :: "pystr \<Rightarrow> pystr"
  nfkc :: "pystr \<Rightarrow> pystr"

definition ascii_lower :: "pystr \<Rightarrow> pystr" where
  "ascii_lower = map (\<lambda>c. if is_upper c then c + 32 else c)"

definition ascii_unicode :: unicode_data where
  "ascii_unicode = \<lparr>lower = ascii_lower, nfkc = (\<lambda>s. s)\<rparr>"

record split_url =
  url_scheme :: pystr
  url_netloc :: pystr
  url_path :: pystr
  url_query :: pystr
  url_fragment :: pystr

text \<open>\<open>str.partition\<close> and \<open>str.rpartition\<close> at one character.\<close>

definition partition_at :: "nat \<Rightarrow> pystr \<Rightarrow> pystr \<times> bool \<times> pystr" where
  "partition_at d s = (takeWhile (\<lambda>c. c \<noteq> d) s, d \<in> set s, drop 1 (dropWhile (\<lambda>c. c \<noteq> d) s))"

definition rpartition_at :: "nat \<Rightarrow> pystr \<Rightarrow> pystr \<times> bool \<times> pystr" where
  "rpartition_at d s =
     (if d \<in> set s
      then (rev (drop 1 (dropWhile (\<lambda>c. c \<noteq> d) (rev s))), True, rev (takeWhile (\<lambda>c. c \<noteq> d) (rev s)))
      else ([], False, s))"

definition is_scheme_char :: "nat \<Rightarrow> bool" where
  "is_scheme_char c \<longleftrightarrow> is_alnum c \<or> c = 43 \<or> c = 45 \<or> c = 46"

text \<open>The scheme, when the text before the first colon is one, and what follows.\<close>

definition split_scheme :: "pystr \<Rightarrow> pystr \<times> pystr" where
  "split_scheme s =
     (case partition_at 58 s of (before, found, after) \<Rightarrow>
        if found \<and> before \<noteq> [] \<and> is_alpha (hd before) \<and> list_all is_scheme_char before
        then (ascii_lower before, after) else ([], s))"

definition not_netloc_end :: "nat \<Rightarrow> bool" where
  "not_netloc_end c \<longleftrightarrow> c \<noteq> 47 \<and> c \<noteq> 63 \<and> c \<noteq> 35"

definition split_netloc :: "pystr \<Rightarrow> pystr \<times> pystr" where
  "split_netloc s =
     (if take 2 s = [47, 47]
      then (takeWhile not_netloc_end (drop 2 s), dropWhile not_netloc_end (drop 2 s))
      else ([], s))"

definition is_hex :: "nat \<Rightarrow> bool" where
  "is_hex c \<longleftrightarrow> is_digit c \<or> (65 \<le> c \<and> c \<le> 70) \<or> (97 \<le> c \<and> c \<le> 102)"

text \<open>\<open>v[a-fA-F0-9]+\..+\<close>\<close>

definition is_ip_future :: "pystr \<Rightarrow> bool" where
  "is_ip_future h =
     (case dropWhile is_hex (drop 1 h) of
        c # t \<Rightarrow> takeWhile is_hex (drop 1 h) \<noteq> [] \<and> c = 46 \<and> t \<noteq> [] \<and> 10 \<notin> set t
      | [] \<Rightarrow> False)"

definition url_error :: exc where
  "url_error = ValueError (str ''Invalid IPv6 URL'')"

definition check_bracketed_host :: "pystr \<Rightarrow> exc + unit" where
  "check_bracketed_host h =
     (if take 1 h = [118] then ensure (is_ip_future h) (ValueError (str ''IPvFuture address is invalid''))
      else (case ip_address h of
              None \<Rightarrow> raise (ValueError (str ''address does not appear to be an IPv4 or IPv6 address''))
            | Some (V4 _) \<Rightarrow> raise (ValueError (str ''An IPv4 address cannot be in brackets''))
            | Some (V6 _ _) \<Rightarrow> ret ()))"

definition check_brackets :: "pystr \<Rightarrow> exc + unit" where
  "check_brackets n =
     (if (91 \<in> set n) \<noteq> (93 \<in> set n) then raise url_error
      else if 91 \<in> set n then check_bracketed_host (fst (partition_at 93 (snd (snd (partition_at 91 n)))))
      else ret ())"

definition is_ascii :: "pystr \<Rightarrow> bool" where
  "is_ascii = list_all (\<lambda>c. c < 128)"

definition check_netloc :: "unicode_data \<Rightarrow> pystr \<Rightarrow> exc + unit" where
  "check_netloc u n =
     (if is_ascii n then ret ()
      else let plain = filter (\<lambda>c. c \<notin> {64, 58, 35, 63}) n;
               normal = nfkc u plain
           in if plain = normal then ret ()
              else ensure (list_all (\<lambda>c. c \<notin> {47, 63, 35, 64, 58}) normal)
                (ValueError (str ''netloc contains invalid characters under NFKC normalization'')))"

definition urlsplit :: "unicode_data \<Rightarrow> pystr \<Rightarrow> exc + split_url" where
  "urlsplit u value =
     (let clean = filter (\<lambda>c. c \<notin> {9, 10, 13}) (dropWhile (\<lambda>c. c \<le> 32) value);
          (sch, r1) = split_scheme clean;
          (net, r2) = split_netloc r1;
          (r3, _, fragment) = partition_at 35 r2;
          (path, _, query) = partition_at 63 r3
      in ethen (check_brackets net) (ethen (check_netloc u net)
           (ret \<lparr>url_scheme = sch, url_netloc = net, url_path = path, url_query = query,
              url_fragment = fragment\<rparr>)))"

definition host_info :: "pystr \<Rightarrow> pystr \<times> pystr" where
  "host_info n =
     (let (_, _, info) = rpartition_at 64 n;
          (_, open_bracket, bracketed) = partition_at 91 info
      in if open_bracket
         then (let (host, _, after) = partition_at 93 bracketed;
                   (_, _, port) = partition_at 58 after in (host, port))
         else (let (host, _, port) = partition_at 58 info in (host, port)))"

definition url_hostname :: "unicode_data \<Rightarrow> split_url \<Rightarrow> pystr option" where
  "url_hostname u r =
     (let host = fst (host_info (url_netloc r))
      in if host = [] then None
         else (let (name, percent, zone) = partition_at 37 host
               in Some (lower u name @ (if percent then [37] else []) @ zone)))"

definition url_port :: "split_url \<Rightarrow> exc + int option" where
  "url_port r =
     (let port = snd (host_info (url_netloc r))
      in if port = [] then ret None
         else if \<not> list_all is_digit port
              then raise (ValueError (str ''Port could not be cast to integer value''))
         else ebind (ret (digits_value port)) (\<lambda>n.
           if n \<le> 65535 then ret (Some n) else raise (ValueError (str ''Port out of range 0-65535''))))"

definition url_username :: "split_url \<Rightarrow> pystr option" where
  "url_username r =
     (let (info, found, _) = rpartition_at 64 (url_netloc r)
      in if found then Some (fst (partition_at 58 info)) else None)"

definition url_password :: "split_url \<Rightarrow> pystr option" where
  "url_password r =
     (let (info, found, _) = rpartition_at 64 (url_netloc r);
          (_, colon, password) = partition_at 58 info
      in if found \<and> colon then Some password else None)"

definition uses_netloc :: "pystr list" where
  "uses_netloc = map str ['''', ''ftp'', ''http'', ''gopher'', ''nntp'', ''telnet'', ''imap'', ''wais'',
     ''file'', ''mms'', ''https'', ''shttp'', ''snews'', ''prospero'', ''rtsp'', ''rtsps'', ''rtspu'',
     ''rsync'', ''svn'', ''svn+ssh'', ''sftp'', ''nfs'', ''git'', ''git+ssh'', ''ws'', ''wss'']"

definition urlunsplit :: "split_url \<Rightarrow> pystr" where
  "urlunsplit r =
     (let path = url_path r; net = url_netloc r; sch = url_scheme r;
          located = (if net \<noteq> [] \<or> (sch \<noteq> [] \<and> sch \<in> set uses_netloc) \<or> take 2 path = [47, 47]
            then [47, 47] @ net @ (if path \<noteq> [] \<and> take 1 path \<noteq> [47] then 47 # path else path)
            else path);
          schemed = (if sch \<noteq> [] then sch @ [58] @ located else located);
          queried = (if url_query r \<noteq> [] then schemed @ [63] @ url_query r else schemed)
      in if url_fragment r \<noteq> [] then queried @ [35] @ url_fragment r else queried)"

lemma partition_at_absent:
  assumes "d \<notin> set s"
  shows "partition_at d s = (s, False, [])"
proof -
  have "dropWhile (\<lambda>c. c \<noteq> d) s = []" "takeWhile (\<lambda>c. c \<noteq> d) s = s"
    using assms by (auto simp: dropWhile_eq_Nil_conv takeWhile_eq_all_conv)
  then show ?thesis
    using assms by (simp add: partition_at_def del: dropWhile_eq_Nil_conv)
qed

lemma partition_at_found: "d \<notin> set s \<Longrightarrow> partition_at d (s @ d # t) = (s, True, t)"
  by (auto simp: partition_at_def takeWhile_append dropWhile_append)

lemma ascii_lower_idem [simp]: "ascii_lower (ascii_lower s) = ascii_lower s"
  by (auto simp: ascii_lower_def is_upper_def)

text \<open>What a split URL looks like when put together is split the same way again.\<close>

lemma urlsplit_put_together:
  assumes sch: "sch \<noteq> []" "is_alpha (hd sch)" "list_all is_scheme_char sch"
    and net: "list_all not_netloc_end net" "check_brackets net = Inr ()" "is_ascii net"
    and path: "path = [] \<or> hd path = 47" "35 \<notin> set path" "63 \<notin> set path"
    and printable: "list_all (\<lambda>c. 32 < c) (sch @ net @ path)"
  shows "urlsplit u (sch @ [58, 47, 47] @ net @ path) =
    Inr \<lparr>url_scheme = ascii_lower sch, url_netloc = net, url_path = path, url_query = [],
      url_fragment = []\<rparr>"
proof -
  let ?v = "sch @ [58, 47, 47] @ net @ path"
  have all: "c > 32" if "c \<in> set ?v" for c
    using that printable by (auto simp: list_all_iff)
  have "dropWhile (\<lambda>c. c \<le> 32) ?v = ?v"
    using all [of "hd ?v"] sch(1) by (cases sch) auto
  moreover have "filter (\<lambda>c. c \<notin> {9, 10, 13}) ?v = ?v"
    using all by (intro filter_True) fastforce
  ultimately have clean: "filter (\<lambda>c. c \<notin> {9, 10, 13}) (dropWhile (\<lambda>c. c \<le> 32) ?v) = ?v"
    by simp
  have "58 \<notin> set sch"
    using sch(3) by (auto simp: list_all_iff is_scheme_char_def char_class_defs)
  then have s: "split_scheme ?v = (ascii_lower sch, [47, 47] @ net @ path)"
    using sch by (simp add: split_scheme_def partition_at_found)
  have "takeWhile not_netloc_end (net @ path) = net" "dropWhile not_netloc_end (net @ path) = path"
    using net(1) path(1) by (cases path; auto simp: list_all_iff takeWhile_append dropWhile_append not_netloc_end_def)+
  then have n: "split_netloc ([47, 47] @ net @ path) = (net, path)"
    by (simp add: split_netloc_def)
  show ?thesis
    unfolding urlsplit_def Let_def clean s prod.case n
    using path(2,3) net(2,3) by (simp add: partition_at_absent check_netloc_def)
qed

end
