(* ===== verification/ProviderHttp.thy ===== *)
theory ProviderHttp
  imports AddressPolicy ConfigurationUI JsonText UrlSplit "HOL-Library.List_Lexorder"
begin

text \<open>
  \<^verbatim>\<open>sdkpython/src/dex_connectors/sdk/providerhttp/__init__.py\<close>: query encoding, the
  request trace that decides whether a failed request was provably not sent, the redirect-safe
  client constructor, the bounded body reader, the error-token reader, \<open>Retry-After\<close> parsing and
  base-URL validation.  \<open>httpx\<close> is outside the repository: a send is given by the trace events
  it emits and its outcome, a response stream by the list of its chunks and errors.
\<close>

section \<open>Query encoding\<close>

text \<open>\<open>quote_plus\<close> of \<open>urllib.parse\<close>: unreserved bytes stay, a space becomes \<open>+\<close>.\<close>

definition is_unreserved :: "nat \<Rightarrow> bool" where
  "is_unreserved c \<longleftrightarrow> is_alnum c \<or> c = 95 \<or> c = 46 \<or> c = 45 \<or> c = 126"

definition hex_upper :: "nat \<Rightarrow> nat" where
  "hex_upper d = (if d < 10 then 48 + d else 55 + d)"

definition quote_byte :: "nat \<Rightarrow> pystr" where
  "quote_byte b =
     (if is_unreserved b then [b] else if b = 32 then [43] else [37, hex_upper (b div 16), hex_upper (b mod 16)])"

definition quote_plus :: "pystr \<Rightarrow> exc + pystr" where
  "quote_plus s =
     (case utf8_encode s of None \<Rightarrow> raise UnicodeError | Some b \<Rightarrow> ret (concat (map quote_byte b)))"

datatype query_item = Text pystr | NotText

datatype query_entries = Entries "query_item list" | BareText

definition query_type_error :: exc where
  "query_type_error = TypeError (str ''query values must be a sequence of strings'')"

fun encode_entry :: "pystr \<Rightarrow> query_item \<Rightarrow> exc + pystr" where
  "encode_entry key NotText = raise query_type_error"
| "encode_entry key (Text v) =
     ebind (quote_plus key) (\<lambda>k. ebind (quote_plus v) (\<lambda>w. ret (k @ [61] @ w)))"

fun encode_key :: "pystr \<Rightarrow> query_entries \<Rightarrow> exc + pystr list" where
  "encode_key key BareText = raise query_type_error"
| "encode_key key (Entries es) = emap (encode_entry key) es"

definition byte_key :: "pystr \<Rightarrow> bytes" where
  "byte_key k = concat (map utf8_char k)"

definition encode_query_values :: "(pystr, query_entries) dict \<Rightarrow> exc + pystr" where
  "encode_query_values values =
     (if list_all (\<lambda>(k, _). list_all is_scalar k) values
      then ebind (emap (\<lambda>(k, es). encode_key k es) (sort_key (\<lambda>(k, _). byte_key k) values))
        (\<lambda>encoded. ret (join_with [38] (concat encoded)))
      else raise UnicodeError)"

section \<open>Request trace\<close>

record request_trace =
  connection_failed_before_send :: bool
  request_headers_started :: bool

definition new_trace :: request_trace where
  "new_trace = \<lparr>connection_failed_before_send = False, request_headers_started = False\<rparr>"

definition starts_headers :: "pystr \<Rightarrow> bool" where
  "starts_headers event \<longleftrightarrow> suffix (str ''send_request_headers.started'') event"

definition fails_connect :: "pystr \<Rightarrow> bool" where
  "fails_connect event \<longleftrightarrow> suffix (str ''connect_tcp.failed'') event
     \<or> suffix (str ''connect_unix_socket.failed'') event \<or> suffix (str ''start_tls.failed'') event"

definition observe :: "pystr \<Rightarrow> request_trace \<Rightarrow> request_trace" where
  "observe event t =
     (let t1 = (if starts_headers event then t\<lparr>request_headers_started := True\<rparr> else t)
      in if fails_connect event \<and> \<not> request_headers_started t1
         then t1\<lparr>connection_failed_before_send := True\<rparr> else t1)"

definition provably_not_sent :: "request_trace \<Rightarrow> bool" where
  "provably_not_sent t \<longleftrightarrow> connection_failed_before_send t \<and> \<not> request_headers_started t"

type_synonym headers = "(pystr \<times> pystr) list"

datatype 'r send_outcome = Responded 'r | TransportFailed | SendRaised exc

definition send_traced :: "pystr list \<Rightarrow> 'r send_outcome \<Rightarrow> exc + ('r \<times> request_trace)" where
  "send_traced events outcome =
     (let t = fold observe events new_trace
      in case outcome of
           Responded r \<Rightarrow> ret (r, t)
         | TransportFailed \<Rightarrow> raise (ProviderTransportError (provably_not_sent t) None None)
         | SendRaised e \<Rightarrow> raise e)"

section \<open>Client construction\<close>

datatype py_object = PyTrue | PyFalse | PyNone | PyObject nat

type_synonym client_options = "(pystr, py_object) dict"

definition restricted_client_options :: "pystr list" where
  "restricted_client_options = map str [''headers'', ''auth'', ''params'', ''cookies'', ''base_url'',
     ''event_hooks'', ''max_redirects'', ''default_encoding'', ''verify'', ''cert'', ''limits'',
     ''http1'', ''http2'', ''trust_env'']"

record address_policy_transport =
  at_policy :: address_policy
  at_verify :: py_object
  at_cert :: py_object
  at_limits :: py_object
  at_http1 :: py_object
  at_http2 :: py_object

record async_client =
  follow_redirects :: bool
  client_timeout :: pyfloat
  client_transport :: "address_policy_transport option"
  client_trust_env :: "py_object option"
  client_options :: client_options

definition pop_option :: "string \<Rightarrow> py_object \<Rightarrow> client_options \<Rightarrow> py_object" where
  "pop_option k dflt opts = (case dict_get opts (str k) of Some v \<Rightarrow> v | None \<Rightarrow> dflt)"

definition transport_options :: "pystr list" where
  "transport_options = map str [''trust_env'', ''verify'', ''cert'', ''limits'', ''http1'', ''http2'']"

definition policy_of :: "pystr \<Rightarrow> address_policy option" where
  "policy_of s =
     (if s = str ''publicHTTPS'' then Some PublicHTTPS
      else if s = str ''privateNetworkHTTP'' then Some PrivateNetworkHTTP
      else if s = str ''unrestricted'' then Some Unrestricted else None)"

fun not_positive :: "pyfloat \<Rightarrow> bool" where
  "not_positive (Fin r) \<longleftrightarrow> r \<le> 0"
| "not_positive NegInf \<longleftrightarrow> True"
| "not_positive PosInf \<longleftrightarrow> False"
| "not_positive NaN \<longleftrightarrow> False"

definition restricted_client ::
  "address_policy \<Rightarrow> pyfloat \<Rightarrow> client_options \<Rightarrow> exc + async_client" where
  "restricted_client policy timeout opts =
     (if \<not> set (dict_keys opts) \<subseteq> set restricted_client_options
      then raise (ValueError (str ''restricted address policy received an unsupported client option''))
      else if dict_get opts (str ''trust_env'') = Some PyTrue
      then raise (ValueError (str ''restricted address policy cannot use environment proxies''))
      else ebind (new_backend policy) (\<lambda>backend. ret
        \<lparr>follow_redirects = False, client_timeout = timeout,
         client_transport = Some
           \<lparr>at_policy = backend, at_verify = pop_option ''verify'' PyTrue opts,
            at_cert = pop_option ''cert'' PyNone opts, at_limits = pop_option ''limits'' PyNone opts,
            at_http1 = pop_option ''http1'' PyTrue opts, at_http2 = pop_option ''http2'' PyFalse opts\<rparr>,
         client_trust_env = Some PyFalse,
         client_options = filter (\<lambda>(k, _). k \<notin> set transport_options) opts\<rparr>))"

definition new_provider_http_client ::
  "pyfloat \<Rightarrow> pystr \<Rightarrow> client_options \<Rightarrow> exc + async_client" where
  "new_provider_http_client timeout policy opts =
     (if not_positive timeout then raise (ValueError (str ''provider request timeout must be positive''))
      else if str ''follow_redirects'' \<in> set (dict_keys opts) \<or> str ''timeout'' \<in> set (dict_keys opts)
      then raise (ValueError (str ''redirect and timeout policy are owned by providerhttp''))
      else case policy_of policy of
          None \<Rightarrow> raise (ValueError (str ''address policy is invalid''))
        | Some Unrestricted \<Rightarrow> ret
            \<lparr>follow_redirects = False, client_timeout = timeout, client_transport = None,
             client_trust_env = dict_get opts (str ''trust_env''), client_options = opts\<rparr>
        | Some p \<Rightarrow> restricted_client p timeout opts)"

section \<open>Bounded body\<close>

text \<open>The stream's items: a chunk, an \<open>httpx.HTTPError\<close>, or another exception.\<close>

datatype body_item = Chunk bytes | HttpError | StreamRaised exc

record 'i response =
  status_code :: int
  response_headers :: headers
  body_items :: "'i list"
  is_closed :: bool

fun read_chunks :: "int \<Rightarrow> headers \<Rightarrow> int \<Rightarrow> int \<Rightarrow> bytes list \<Rightarrow> body_item list \<Rightarrow> exc + bytes" where
  "read_chunks status hdrs limit count chunks [] = ret (concat (rev chunks))"
| "read_chunks status hdrs limit count chunks (Chunk c # r) =
     (let count1 = count + int (length c)
      in if limit < count1 then raise (BodyTooLargeError status hdrs)
         else read_chunks status hdrs limit count1 (c # chunks) r)"
| "read_chunks status hdrs limit count chunks (HttpError # r) =
     raise (ProviderTransportError False (Some status) (Some hdrs))"
| "read_chunks status hdrs limit count chunks (StreamRaised e # r) = raise e"

definition read_bounded_body ::
  "int \<Rightarrow> body_item response \<Rightarrow> (exc + bytes) \<times> body_item response" where
  "read_bounded_body maximum_bytes resp =
     (read_chunks (status_code resp) (response_headers resp) (max 0 maximum_bytes) 0 [] (body_items resp),
      resp\<lparr>is_closed := True\<rparr>)"

section \<open>Error tokens\<close>

text \<open>\<open>replace("~1", "/").replace("~0", "~")\<close>\<close>

fun replace_tilde :: "nat \<Rightarrow> nat \<Rightarrow> pystr \<Rightarrow> pystr" where
  "replace_tilde d r [] = []"
| "replace_tilde d r [c] = [c]"
| "replace_tilde d r (a # c # s) =
     (if a = 126 \<and> c = d then r # replace_tilde d r s else a # replace_tilde d r (c # s))"

definition unescape_segment :: "pystr \<Rightarrow> pystr" where
  "unescape_segment s = replace_tilde 48 126 (replace_tilde 49 47 s)"

text \<open>
  An array index is a canonical decimal: \<open>str(int(segment)) == segment\<close> rules out leading
  zeros and digits of other scripts.
\<close>

definition is_index :: "pystr \<Rightarrow> bool" where
  "is_index s \<longleftrightarrow> s \<noteq> [] \<and> list_all is_digit s \<and> digits (digits_value s) = s"

definition walk_segment :: "json \<Rightarrow> pystr \<Rightarrow> json" where
  "walk_segment current seg =
     (case current of
        JObj d \<Rightarrow> (case dict_get d seg of Some v \<Rightarrow> v | None \<Rightarrow> JNull)
      | JArr xs \<Rightarrow> if is_index seg \<and> digits_value seg < int (length xs) then xs ! nat (digits_value seg)
                  else JNull
      | _ \<Rightarrow> JNull)"

fun walk_pointer :: "json \<Rightarrow> pystr list \<Rightarrow> json" where
  "walk_pointer current [] = current"
| "walk_pointer current (escaped # r) =
     walk_pointer (walk_segment current (unescape_segment escaped)) r"

definition read_pointer :: "json \<Rightarrow> pystr \<Rightarrow> json option" where
  "read_pointer document pointer =
     (case pointer of
        [] \<Rightarrow> Some document
      | c # rest \<Rightarrow> if c = 47 then Some (walk_pointer document (split_on 47 rest)) else None)"

definition is_error_token :: "pystr \<Rightarrow> bool" where
  "is_error_token t \<longleftrightarrow> t \<noteq> [] \<and> length t \<le> 64
     \<and> list_all (\<lambda>c. is_alnum c \<or> c = 95 \<or> c = 46 \<or> c = 58 \<or> c = 45) t"

definition token_at :: "json \<Rightarrow> pystr \<Rightarrow> pystr list" where
  "token_at document pointer =
     (case read_pointer document pointer of
        Some (JStr t) \<Rightarrow> if is_error_token t then [t] else []
      | _ \<Rightarrow> [])"

definition text_number :: "pystr \<Rightarrow> bool \<Rightarrow> json" where
  "text_number t _ = JStr t"

definition read_error_tokens :: "bytes \<Rightarrow> pystr list \<Rightarrow> pystr list" where
  "read_error_tokens body pointers =
     (case loads_bytes_with text_number body of
        Inl _ \<Rightarrow> []
      | Inr document \<Rightarrow> concat (map (token_at document) pointers))"

section \<open>Retry-After\<close>

text \<open>
  Date-times here are instants in microseconds with the information whether a time zone is
  attached.  \<open>email.utils.parsedate_to_datetime\<close> is the argument \<open>parsedate\<close>.
\<close>

datatype moment = Naive int | Aware int

definition MAX_RETRY_AFTER_DELAY_SECONDS :: int where
  "MAX_RETRY_AFTER_DELAY_SECONDS = 3600"

text \<open>\<open>int(text)\<close> refuses more than 4300 digits.\<close>

definition int_of_decimal :: "pystr \<Rightarrow> exc + int" where
  "int_of_decimal s =
     (if length s \<le> 4300 then ret (digits_value s)
      else raise (ValueError (str ''Exceeds the limit (4300 digits) for integer string conversion'')))"

definition aware_instant :: "moment \<Rightarrow> int" where
  "aware_instant m = (case m of Naive t \<Rightarrow> t | Aware t \<Rightarrow> t)"

definition clamp_delay :: "pyfloat \<Rightarrow> pyfloat" where
  "clamp_delay x =
     (let capped = (if float_lt (Fin (of_int MAX_RETRY_AFTER_DELAY_SECONDS)) x
                    then Fin (of_int MAX_RETRY_AFTER_DELAY_SECONDS) else x)
      in if float_lt (Fin 0) capped then capped else Fin 0)"

definition parse_retry_after :: "(pystr \<Rightarrow> exc + moment) \<Rightarrow> pystr \<Rightarrow> moment \<Rightarrow> exc + pyfloat" where
  "parse_retry_after parsedate value now =
     (let text = strip value
      in if text \<noteq> [] \<and> list_all is_digit text
         then ebind (int_of_decimal text)
           (\<lambda>n. ret (fl (of_int (min n MAX_RETRY_AFTER_DELAY_SECONDS))))
         else case parsedate text of
             Inl (ValueError _) \<Rightarrow> ret (Fin 0)
           | Inl (TypeError _) \<Rightarrow> ret (Fin 0)
           | Inl IndexError \<Rightarrow> ret (Fin 0)
           | Inl e \<Rightarrow> raise e
           | Inr (Naive _) \<Rightarrow>
               raise (TypeError (str ''can't subtract offset-naive and offset-aware datetimes''))
           | Inr (Aware t) \<Rightarrow> ret (clamp_delay (total_seconds (t - aware_instant now))))"

section \<open>Base URLs and credentials\<close>

definition is_printable :: "nat \<Rightarrow> bool" where
  "is_printable c \<longleftrightarrow> 33 \<le> c \<and> c \<le> 126"

definition host_is_loopback :: "pystr \<Rightarrow> bool" where
  "host_is_loopback host \<longleftrightarrow> ascii_lower host = str ''localhost''
     \<or> (case ip_address host of Some a \<Rightarrow> is_loopback a | None \<Rightarrow> False)"

text \<open>The value is ASCII once the first test has passed, so the ASCII tables are exact.\<close>

definition validate_base_url :: "pystr \<Rightarrow> exc + pystr" where
  "validate_base_url value =
     (if value = [] \<or> \<not> list_all is_printable value
      then raise (ValueError (str ''base URL must be printable ASCII without spaces''))
      else ebind (urlsplit ascii_unicode value) (\<lambda>parsed.
        case url_hostname ascii_unicode parsed of
          None \<Rightarrow> raise (ValueError (str ''base URL must be absolute without user information, query, or fragment''))
        | Some host \<Rightarrow>
          if host = [] \<or> 64 \<in> set (url_netloc parsed) \<or> 63 \<in> set value \<or> 35 \<in> set value
             \<or> url_query parsed \<noteq> [] \<or> url_fragment parsed \<noteq> []
          then raise (ValueError (str ''base URL must be absolute without user information, query, or fragment''))
          else if (case url_port parsed of Inl _ \<Rightarrow> True | Inr p \<Rightarrow> p = Some 0)
          then raise (ValueError (str ''base URL port is invalid''))
          else if url_scheme parsed \<noteq> str ''https''
             \<and> \<not> (url_scheme parsed = str ''http'' \<and> host_is_loopback host)
          then raise (ValueError (str ''base URL must use HTTPS unless its host is loopback''))
          else ret (urlunsplit \<lparr>url_scheme = url_scheme parsed, url_netloc = url_netloc parsed,
            url_path = rstrip_by (\<lambda>c. c = 47) (url_path parsed), url_query = [], url_fragment = []\<rparr>)))"

definition is_header_safe_credential :: "pystr \<Rightarrow> bool" where
  "is_header_safe_credential value \<longleftrightarrow> value \<noteq> [] \<and> list_all is_printable value"

section \<open>Trace and body\<close>

lemma observe_fields [simp]:
  "request_headers_started (observe e t) \<longleftrightarrow> request_headers_started t \<or> starts_headers e"
  "connection_failed_before_send (observe e t) \<longleftrightarrow>
     connection_failed_before_send t \<or> (fails_connect e \<and> \<not> request_headers_started t \<and> \<not> starts_headers e)"
  by (auto simp: observe_def Let_def)

text \<open>A failure is provably unsent exactly when some connect failed and no header was written.\<close>

lemma observe_provably:
  "provably_not_sent (fold observe es t) \<longleftrightarrow>
     (connection_failed_before_send t \<or> (\<exists>e \<in> set es. fails_connect e))
     \<and> \<not> request_headers_started t \<and> (\<forall>e \<in> set es. \<not> starts_headers e)"
proof (induction es arbitrary: t)
  case (Cons e es)
  show ?case
    by (simp add: Cons.IH) blast
qed (auto simp: provably_not_sent_def)

lemma read_chunks_Inr:
  "count \<le> limit \<Longrightarrow> read_chunks st h limit count chunks items = Inr b \<longleftrightarrow>
     (\<exists>cs. items = map Chunk cs \<and> b = concat (rev chunks) @ concat cs
        \<and> count + int (length (concat cs)) \<le> limit)"
proof (induction st h limit count chunks items rule: read_chunks.induct)
  case (2 st h limit count chunks c r)
  show ?case
  proof (cases "limit < count + int (length c)")
    case True
    then show ?thesis by (auto simp: Let_def Cons_eq_map_conv)
  next
    case False
    then have "read_chunks st h limit count chunks (Chunk c # r) = Inr b \<longleftrightarrow>
      (\<exists>cs. r = map Chunk cs \<and> b = concat (rev (c # chunks)) @ concat cs
        \<and> (count + int (length c)) + int (length (concat cs)) \<le> limit)"
      using 2(1) [OF refl] by (simp add: Let_def)
    also have "\<dots> \<longleftrightarrow> (\<exists>cs. Chunk c # r = map Chunk cs \<and> b = concat (rev chunks) @ concat cs
        \<and> count + int (length (concat cs)) \<le> limit)"
      by (auto simp: Cons_eq_map_conv algebra_simps)
    finally show ?thesis .
  qed
qed (auto simp: Cons_eq_map_conv)

lemma read_chunks_errors:
  assumes "read_chunks st h limit count chunks items = Inl e"
  shows "e = BodyTooLargeError st h \<or> e = ProviderTransportError False (Some st) (Some h)
    \<or> StreamRaised e \<in> set items"
  using assms
  by (induction st h limit count chunks items rule: read_chunks.induct)
    (auto simp: Let_def split: if_splits)

section \<open>Error tokens and delays\<close>

lemma token_at_safe: "t \<in> set (token_at doc p) \<Longrightarrow> is_error_token t"
  by (auto simp: token_at_def split: option.splits json.splits if_splits)

lemma length_token_at: "length (token_at doc p) \<le> 1"
  by (auto simp: token_at_def split: option.splits json.splits)

lemma replace_tilde_other: "a \<noteq> 126 \<Longrightarrow> replace_tilde d r (a # s) = a # replace_tilde d r s"
  by (cases s) auto

lemma replace_tilde_miss:
  "c \<noteq> d \<Longrightarrow> c \<noteq> 126 \<Longrightarrow> replace_tilde d r (126 # c # s) = 126 # c # replace_tilde d r s"
  by (simp add: replace_tilde_other)

lemma unescape_escape: "unescape_segment (escape_token s) = s"
proof -
  have "replace_tilde 49 47 (escape_token s) =
      concat (map (\<lambda>c. if c = 126 then [126, 48] else [c]) s)"
    by (induction s) (auto simp: escape_token_def replace_tilde_other replace_tilde_miss)
  moreover have "replace_tilde 48 126 (concat (map (\<lambda>c. if c = 126 then [126, 48] else [c]) s)) = s"
    by (induction s) (auto simp: replace_tilde_other)
  ultimately show ?thesis by (simp add: unescape_segment_def)
qed

lemma escape_no_slash: "47 \<notin> set (escape_token s)"
  by (auto simp: escape_token_def split: if_splits)

lemma split_pointer: "split_on 47 (escape_token k @ pointer_text ks) = escape_token k # map escape_token ks"
  by (induction ks arbitrary: k)
    (simp_all add: pointer_text_def split_on_no_delim split_on_append_delim escape_no_slash)

lemma walk_pointer_escaped: "walk_pointer doc (map escape_token ks) = foldl walk_segment doc ks"
  by (induction ks arbitrary: doc) (auto simp: unescape_escape)

lemma read_pointer_path: "read_pointer doc (pointer_text ks) = Some (foldl walk_segment doc ks)"
proof (cases ks)
  case (Cons k r)
  then show ?thesis
    using split_pointer [of k r] walk_pointer_escaped [of doc "k # r"]
    by (simp add: read_pointer_def pointer_text_def)
qed (simp add: read_pointer_def pointer_text_def)

lemma clamp_delay_bounds: "\<exists>r. clamp_delay x = Fin r \<and> 0 \<le> r \<and> r \<le> 3600"
  by (cases x) (auto simp: clamp_delay_def Let_def MAX_RETRY_AFTER_DELAY_SECONDS_def)

lemma fl_delay: "0 \<le> n \<Longrightarrow> n \<le> 3600 \<Longrightarrow> fl (of_int n) = Fin (of_int n)"
  by (rule fl_int) auto

lemma parse_retry_after_bounds:
  assumes "parse_retry_after parsedate value now = Inr d"
  shows "\<exists>r. d = Fin r \<and> 0 \<le> r \<and> r \<le> 3600"
proof (cases "strip value \<noteq> [] \<and> list_all is_digit (strip value)")
  case True
  then have n: "0 \<le> digits_value (strip value)"
    by (simp add: digits_value_nonneg)
  define m where "m = min (digits_value (strip value)) 3600"
  have "fl (of_int m) = Fin (of_int m)" using n by (intro fl_delay) (auto simp: m_def)
  moreover have "d = fl (of_int m)"
    using assms True by (auto simp: parse_retry_after_def Let_def int_of_decimal_def m_def
      MAX_RETRY_AFTER_DELAY_SECONDS_def split: if_splits)
  moreover have "0 \<le> m" "m \<le> 3600" using n by (auto simp: m_def)
  ultimately show ?thesis by (intro exI [of _ "of_int m"]) auto
next
  case False
  with assms show ?thesis
    using clamp_delay_bounds
    by (auto simp: parse_retry_after_def Let_def split: sum.splits exc.splits moment.splits)
qed

section \<open>Clients and base URLs\<close>

lemma new_client_safe:
  assumes "new_provider_http_client timeout policy opts = Inr client"
  shows "\<not> follow_redirects client" "\<not> not_positive (client_timeout client)"
    "policy \<noteq> str ''unrestricted'' \<Longrightarrow>
       \<exists>tr. client_transport client = Some tr \<and> policy_of policy = Some (at_policy tr)
         \<and> at_policy tr \<noteq> Unrestricted \<and> client_trust_env client = Some PyFalse
         \<and> set (dict_keys (client_options client)) \<subseteq> set restricted_client_options - set transport_options"
  using assms
  by (auto simp: new_provider_http_client_def restricted_client_def policy_of_def new_backend_def
      dict_keys_def split: if_splits) force+

text \<open>An accepted base URL, spelled out.\<close>

lemma validate_base_url_Inr:
  assumes "validate_base_url value = Inr w"
  obtains p host where "list_all is_printable value" "63 \<notin> set value" "35 \<notin> set value"
    "urlsplit ascii_unicode value = Inr p" "url_hostname ascii_unicode p = Some host" "host \<noteq> []"
    "64 \<notin> set (url_netloc p)" "url_query p = []" "url_fragment p = []"
    "\<exists>port. url_port p = Inr port \<and> port \<noteq> Some 0"
    "url_scheme p = str ''https'' \<or> (url_scheme p = str ''http'' \<and> host_is_loopback host)"
    "w = urlunsplit \<lparr>url_scheme = url_scheme p, url_netloc = url_netloc p,
            url_path = rstrip_by (\<lambda>c. c = 47) (url_path p), url_query = [], url_fragment = []\<rparr>"
proof -
  obtain p where p: "urlsplit ascii_unicode value = Inr p"
    using assms by (auto simp: validate_base_url_def ebind_eq_Inr_iff split: if_splits)
  obtain host where h: "url_hostname ascii_unicode p = Some host"
    using assms p by (auto simp: validate_base_url_def split: if_splits option.splits)
  show thesis
    by (rule that [of p host]; insert assms p h;
        auto simp: validate_base_url_def split: if_splits sum.splits)
qed

lemma split_scheme_shape:
  assumes "split_scheme s = (sch, r)" "sch \<noteq> []"
  shows "\<exists>sch0. s = sch0 @ 58 # r \<and> sch = ascii_lower sch0 \<and> sch0 \<noteq> [] \<and> is_alpha (hd sch0)
    \<and> list_all is_scheme_char sch0"
proof -
  let ?b = "takeWhile (\<lambda>c. c \<noteq> 58) s" and ?a = "dropWhile (\<lambda>c. c \<noteq> 58) s"
  have found: "58 \<in> set s" and ok: "?b \<noteq> []" "is_alpha (hd ?b)" "list_all is_scheme_char ?b"
    and eqs: "sch = ascii_lower ?b" "r = drop 1 ?a"
    using assms by (auto simp: split_scheme_def partition_at_def split: if_splits)
  have "?a \<noteq> []" using found by auto
  then have "?a = 58 # drop 1 ?a"
    using hd_dropWhile [of "\<lambda>c. c \<noteq> 58" s] by (cases ?a) auto
  then have "s = ?b @ 58 # r" using eqs(2) by (metis takeWhile_dropWhile_id)
  with ok eqs(1) show ?thesis by blast
qed

lemma split_netloc_shape:
  assumes "split_netloc s = (net, r)" "net \<noteq> []"
  shows "s = [47, 47] @ net @ r" "list_all not_netloc_end net" "r = [] \<or> \<not> not_netloc_end (hd r)"
proof -
  have t: "take 2 s = [47, 47]" and n: "net = takeWhile not_netloc_end (drop 2 s)"
    and r: "r = dropWhile not_netloc_end (drop 2 s)"
    using assms by (auto simp: split_netloc_def split: if_splits)
  have "s = take 2 s @ drop 2 s" by simp
  with t n r show "s = [47, 47] @ net @ r" by (metis takeWhile_dropWhile_id)
  show "list_all not_netloc_end net" using n by (auto simp: list_all_iff dest: set_takeWhileD)
  show "r = [] \<or> \<not> not_netloc_end (hd r)" using r hd_dropWhile by blast
qed

lemma clean_printable:
  assumes "list_all is_printable v"
  shows "filter (\<lambda>c. c \<notin> {9, 10, 13}) (dropWhile (\<lambda>c. c \<le> 32) v) = v"
proof -
  have "dropWhile (\<lambda>c. c \<le> 32) v = v"
    using assms by (cases v) (auto simp: is_printable_def)
  moreover have "filter (\<lambda>c. c \<notin> {9, 10, 13}) v = v"
    using assms by (intro filter_True) (fastforce simp: list_all_iff is_printable_def)
  ultimately show ?thesis by simp
qed

lemma urlsplit_shape:
  assumes v: "list_all is_printable v" "63 \<notin> set v" "35 \<notin> set v"
    and p: "urlsplit u v = Inr p" "url_scheme p \<noteq> []" "url_netloc p \<noteq> []"
  shows "\<exists>sch. v = sch @ [58, 47, 47] @ url_netloc p @ url_path p \<and> url_scheme p = ascii_lower sch
    \<and> list_all not_netloc_end (url_netloc p) \<and> check_brackets (url_netloc p) = Inr ()
    \<and> (url_path p = [] \<or> hd (url_path p) = 47)"
proof -
  obtain sc r1 where s: "split_scheme v = (sc, r1)" by fastforce
  obtain net r2 where n: "split_netloc r1 = (net, r2)" by fastforce
  have eqs: "url_scheme p = sc" "url_netloc p = net" "check_brackets net = Inr ()"
    and path: "url_path p = fst (partition_at 63 (fst (partition_at 35 r2)))"
    using p(1) unfolding urlsplit_def Let_def clean_printable [OF v(1)] s prod.case n
    by (auto simp: ethen_eq_Inr_iff split: prod.splits)
  obtain sch where sch: "v = sch @ 58 # r1" "sc = ascii_lower sch"
    using split_scheme_shape [OF s] p(2) eqs(1) by auto
  have r1: "r1 = [47, 47] @ net @ r2" "list_all not_netloc_end net" "r2 = [] \<or> \<not> not_netloc_end (hd r2)"
    using split_netloc_shape [OF n] p(3) eqs(2) by auto
  have "set r2 \<subseteq> set v" using sch(1) r1(1) by auto
  then have no: "35 \<notin> set r2" "63 \<notin> set r2" using v by auto
  then have "url_path p = r2" using path by (simp add: partition_at_absent)
  moreover have "r2 = [] \<or> hd r2 = 47"
    using r1(3) no by (cases r2) (auto simp: not_netloc_end_def)
  ultimately show ?thesis
    using sch r1 eqs by (intro exI [of _ sch]) simp
qed

text \<open>
  Validation is a normal form: what it returns is \<open>scheme://netloc/path\<close> with no trailing slash,
  and validating it again changes nothing.
\<close>

lemma rstrip_slash_hd: "s = [] \<or> hd s = 47 \<Longrightarrow> rstrip_by p s = [] \<or> hd (rstrip_by p s) = 47"
  using rstrip_by_append [of p s] by (metis Nil_is_append_conv hd_append2)

lemma set_rstrip_by: "set (rstrip_by p s) \<subseteq> set s"
  by (auto simp: rstrip_by_def dest: set_dropWhileD)

lemma urlunsplit_based:
  assumes "sch = str ''https'' \<or> sch = str ''http''" "net \<noteq> []" "path = [] \<or> hd path = 47"
  shows "urlunsplit \<lparr>url_scheme = sch, url_netloc = net, url_path = path, url_query = [], url_fragment = []\<rparr>
    = sch @ [58, 47, 47] @ net @ path"
  using assms by (cases path) (auto simp: urlunsplit_def)

lemma hostname_netloc: "url_hostname u p = Some host \<Longrightarrow> url_netloc p \<noteq> []"
  by (auto simp: url_hostname_def host_info_def rpartition_at_def partition_at_def Let_def)

lemma base_scheme:
  assumes "sch = str ''https'' \<or> sch = str ''http''"
  shows "sch \<noteq> []" "is_alpha (hd sch)" "list_all is_scheme_char sch" "ascii_lower sch = sch"
    "list_all is_printable sch" "63 \<notin> set sch" "35 \<notin> set sch"
  using assms
  by (auto simp: str_def is_scheme_char_def ascii_lower_def is_printable_def char_class_defs)

lemma validate_base_url_shape:
  assumes "validate_base_url value = Inr w"
  shows "\<exists>sch net path. w = sch @ [58, 47, 47] @ net @ path \<and> sch \<in> {str ''https'', str ''http''}
    \<and> 64 \<notin> set net \<and> rstrip_by (\<lambda>c. c = 47) path = path \<and> validate_base_url w = Inr w"
proof -
  obtain p host where v: "list_all is_printable value" "63 \<notin> set value" "35 \<notin> set value"
    and p: "urlsplit ascii_unicode value = Inr p" "url_hostname ascii_unicode p = Some host" "host \<noteq> []"
    "64 \<notin> set (url_netloc p)" "\<exists>port. url_port p = Inr port \<and> port \<noteq> Some 0"
    and sch: "url_scheme p = str ''https'' \<or> (url_scheme p = str ''http'' \<and> host_is_loopback host)"
    and w: "w = urlunsplit \<lparr>url_scheme = url_scheme p, url_netloc = url_netloc p,
            url_path = rstrip_by (\<lambda>c. c = 47) (url_path p), url_query = [], url_fragment = []\<rparr>"
    by (rule validate_base_url_Inr [OF assms])
  let ?net = "url_netloc p" and ?path = "rstrip_by (\<lambda>c. c = 47) (url_path p)"
  have s: "url_scheme p = str ''https'' \<or> url_scheme p = str ''http''" using sch by blast
  note bs = base_scheme [OF s]
  obtain sch0 where v0: "value = sch0 @ [58, 47, 47] @ ?net @ url_path p"
    and n: "list_all not_netloc_end ?net" "check_brackets ?net = Inr ()"
      "url_path p = [] \<or> hd (url_path p) = 47"
    using urlsplit_shape [OF v p(1) bs(1) hostname_netloc [OF p(2)]] by blast
  have path: "?path = [] \<or> hd ?path = 47" using n(3) by (rule rstrip_slash_hd)
  have w': "w = url_scheme p @ [58, 47, 47] @ ?net @ ?path"
    unfolding w by (rule urlunsplit_based [OF s hostname_netloc [OF p(2)] path])
  have tail: "set (?net @ ?path) \<subseteq> set value" using v0 set_rstrip_by by fastforce
  then have pr: "list_all is_printable (?net @ ?path)" "63 \<notin> set (?net @ ?path)" "35 \<notin> set (?net @ ?path)"
    using v by (auto simp: list_all_iff)
  have wp: "list_all is_printable w" "63 \<notin> set w" "35 \<notin> set w"
    using pr bs by (auto simp: w' is_printable_def)
  have le: "33 \<le> c \<and> c \<le> 126" if "c \<in> set (url_scheme p @ ?net @ ?path)" for c
    using that pr(1) bs(5) by (auto simp: list_all_iff is_printable_def)
  have ascii: "is_ascii ?net"
    using le by (fastforce simp: is_ascii_def list_all_iff)
  have gt: "list_all (\<lambda>c. 32 < c) (url_scheme p @ ?net @ ?path)"
    using le by (fastforce simp: list_all_iff)
  have no: "63 \<notin> set ?path" "35 \<notin> set ?path" using pr(2,3) by auto
  have again: "urlsplit ascii_unicode w = Inr \<lparr>url_scheme = url_scheme p, url_netloc = ?net,
      url_path = ?path, url_query = [], url_fragment = []\<rparr>"
    using urlsplit_put_together [OF bs(1-3) n(1,2) ascii path no(2,1) gt] bs(4) unfolding w' by simp
  have same: "url_hostname ascii_unicode \<lparr>url_scheme = url_scheme p, url_netloc = ?net,
      url_path = ?path, url_query = [], url_fragment = []\<rparr> = Some host"
    "url_port \<lparr>url_scheme = url_scheme p, url_netloc = ?net,
      url_path = ?path, url_query = [], url_fragment = []\<rparr> = url_port p"
    using p(2) by (simp_all add: url_hostname_def url_port_def)
  have "validate_base_url w = Inr w"
    using wp p(3-5) sch unfolding validate_base_url_def again
    by (auto simp: same w [symmetric] w')
  then show ?thesis using w' s p(4) by (intro exI [of _ "url_scheme p"] exI [of _ ?net] exI [of _ ?path]) auto
qed

section \<open>Query round trip\<close>

text \<open>A reference decoder of \<open>application/x-www-form-urlencoded\<close> text.\<close>

definition hex_digit :: "nat \<Rightarrow> nat" where
  "hex_digit c = (if c < 58 then c - 48 else c - 55)"

fun unquote :: "pystr \<Rightarrow> bytes" where
  "unquote [] = []"
| "unquote [c] = [if c = 43 then 32 else c]"
| "unquote [c, d] = (if c = 43 then 32 else c) # unquote [d]"
| "unquote (c # d # e # r) =
     (if c = 37 then (hex_digit d * 16 + hex_digit e) # unquote r
      else (if c = 43 then 32 else c) # unquote (d # e # r))"

definition decode_pair :: "pystr \<Rightarrow> bytes \<times> bytes" where
  "decode_pair s = (case partition_at 61 s of (k, _, v) \<Rightarrow> (unquote k, unquote v))"

definition decode_query :: "pystr \<Rightarrow> (bytes \<times> bytes) list" where
  "decode_query q = (if q = [] then [] else map decode_pair (split_on 38 q))"

fun item_bytes :: "query_item \<Rightarrow> bytes" where
  "item_bytes (Text v) = byte_key v"
| "item_bytes NotText = []"

fun key_pairs :: "pystr \<times> query_entries \<Rightarrow> (bytes \<times> bytes) list" where
  "key_pairs (k, Entries es) = map (\<lambda>e. (byte_key k, item_bytes e)) es"
| "key_pairs (k, BareText) = []"

definition query_pairs :: "(pystr, query_entries) dict \<Rightarrow> (bytes \<times> bytes) list" where
  "query_pairs values = concat (map key_pairs (sort_key (\<lambda>(k, _). byte_key k) values))"

lemma unquote_plain: "c \<noteq> 37 \<Longrightarrow> unquote (c # r) = (if c = 43 then 32 else c) # unquote r"
  by (cases r rule: unquote.cases) auto

lemma unquote_quote_byte:
  assumes "b < 256"
  shows "unquote (quote_byte b @ r) = b # unquote r"
proof -
  have "hex_digit (hex_upper (b div 16)) = b div 16" "hex_digit (hex_upper (b mod 16)) = b mod 16"
    using assms by (auto simp: hex_digit_def hex_upper_def)
  moreover have "b \<noteq> 37 \<and> b \<noteq> 43" if "is_unreserved b"
    using that by (auto simp: is_unreserved_def char_class_defs)
  ultimately show ?thesis by (auto simp: quote_byte_def unquote_plain)
qed

lemma unquote_quoted: "(\<And>b. b \<in> set bs \<Longrightarrow> b < 256) \<Longrightarrow> unquote (concat (map quote_byte bs)) = bs"
  by (induction bs) (auto simp: unquote_quote_byte)

lemma quote_byte_clean: "38 \<notin> set (quote_byte b)" "61 \<notin> set (quote_byte b)"
  by (auto simp: quote_byte_def is_unreserved_def hex_upper_def char_class_defs split: if_splits)

lemma quote_plus_props:
  assumes "quote_plus s = Inr q"
  shows "unquote q = byte_key s" "38 \<notin> set q" "61 \<notin> set q"
proof -
  obtain b where b: "utf8_encode s = Some b" "q = concat (map quote_byte b)"
    using assms by (auto simp: quote_plus_def split: option.splits)
  then have "b = byte_key s" by (simp add: utf8_encode_def byte_key_def split: if_splits)
  moreover have "unquote q = b" using b utf8_encode_bytes [OF b(1)] by (simp add: unquote_quoted)
  ultimately show "unquote q = byte_key s" by simp
  show "38 \<notin> set q" "61 \<notin> set q" using b(2) quote_byte_clean by auto
qed

lemma encode_entry_props:
  assumes "encode_entry key e = Inr t"
  shows "decode_pair t = (byte_key key, item_bytes e)" "38 \<notin> set t" "t \<noteq> []"
proof -
  obtain v k w where e: "e = Text v" "quote_plus key = Inr k" "quote_plus v = Inr w" "t = k @ [61] @ w"
    using assms by (cases e) (auto simp: ebind_eq_Inr_iff)
  then show "decode_pair t = (byte_key key, item_bytes e)"
    using quote_plus_props [OF e(2)] quote_plus_props [OF e(3)]
    by (simp add: decode_pair_def partition_at_found)
  show "38 \<notin> set t" "t \<noteq> []"
    using e(4) quote_plus_props [OF e(2)] quote_plus_props [OF e(3)] by auto
qed

lemma encode_entries_props:
  "emap (encode_entry key) es = Inr ts \<Longrightarrow>
     map decode_pair ts = map (\<lambda>e. (byte_key key, item_bytes e)) es \<and> (\<forall>t \<in> set ts. 38 \<notin> set t \<and> t \<noteq> [])"
  by (induction es arbitrary: ts) (auto simp: ebind_eq_Inr_iff dest: encode_entry_props)

lemma encode_keys_props:
  "emap (\<lambda>(k, es). encode_key k es) vs = Inr tss \<Longrightarrow>
     map decode_pair (concat tss) = concat (map key_pairs vs) \<and> (\<forall>t \<in> set (concat tss). 38 \<notin> set t \<and> t \<noteq> [])"
proof (induction vs arbitrary: tss)
  case (Cons kv vs)
  obtain k es where kv: "kv = (k, es)" by force
  from Cons.prems obtain ts rest where t: "encode_key k es = Inr ts"
    "emap (\<lambda>(k, es). encode_key k es) vs = Inr rest" "tss = ts # rest"
    by (auto simp: kv ebind_eq_Inr_iff)
  obtain xs where xs: "es = Entries xs" using t(1) by (cases es) auto
  show ?case
    using Cons.IH [OF t(2)] encode_entries_props [of k xs ts] t(1) by (auto simp: t(3) kv xs)
qed simp

lemma decode_joined:
  assumes "\<forall>t \<in> set ts. 38 \<notin> set t \<and> t \<noteq> []"
  shows "decode_query (join_with [38] ts) = map decode_pair ts"
proof (cases ts)
  case (Cons t r)
  have "split_on 38 (join_with [38] (t # r)) = t # r" using assms unfolding Cons
  proof (induction r arbitrary: t)
    case (Cons u r)
    then show ?case by (simp add: join_with_Cons split_on_append_delim)
  qed (simp add: split_on_no_delim)
  moreover have "join_with [38] (t # r) \<noteq> []" using assms Cons by (cases r) auto
  ultimately show ?thesis by (simp add: decode_query_def Cons)
qed (simp add: decode_query_def)

lemma encode_query_values_decodes:
  assumes "encode_query_values values = Inr q"
  shows "decode_query q = query_pairs values"
proof -
  obtain tss where t: "emap (\<lambda>(k, es). encode_key k es) (sort_key (\<lambda>(k, _). byte_key k) values) = Inr tss"
    "q = join_with [38] (concat tss)"
    using assms by (auto simp: encode_query_values_def ebind_eq_Inr_iff split: if_splits)
  show ?thesis
    using encode_keys_props [OF t(1)] unfolding t(2) query_pairs_def
    by (subst decode_joined) auto
qed

end
