(* ===== verification/RetryPolicy.thy ===== *)
theory RetryPolicy
  imports Failures
begin

text \<open>
  \<^verbatim>\<open>sdkpython/src/dex_connectors/sdk/retry_policy.py\<close>: the Execute retry schedule of an
  operation and its wire form in Go's integer nanoseconds.  A \<open>timedelta\<close> holds microseconds
  only, so a decoded policy also keeps the integers it was decoded from
  (\<open>_wire_intervals\<close>) and encodes those again while they still describe its intervals.  The
  lemmas show that decoding and encoding lose nothing, and that a policy built in Python can
  lose one nanosecond through the float conversion.

  A wire value is a number, as the annotation \<open>dict[str, int | float]\<close> says; of another type
  the arithmetic raises \<open>TypeError\<close>.
\<close>

section \<open>Numbers on the wire\<close>

datatype number = NInt int | NFloat pyfloat

fun number_json :: "number \<Rightarrow> json" where
  "number_json (NInt n) = JInt n"
| "number_json (NFloat x) = JFloat x"

fun number_negative :: "number \<Rightarrow> bool" where
  "number_negative (NInt n) \<longleftrightarrow> n < 0"
| "number_negative (NFloat x) \<longleftrightarrow> float_lt x (Fin 0)"

definition bad_operand :: exc where
  "bad_operand = TypeError (str ''unsupported operand'')"

text \<open>The largest magnitude a \<open>timedelta\<close> may have, in microseconds.\<close>

definition timedelta_in_range :: "timedelta \<Rightarrow> bool" where
  "timedelta_in_range td \<longleftrightarrow>
     - (999999999 * 86400000000) \<le> td \<and> td < 1000000000 * 86400000000"

definition timedelta_of_micros :: "pyfloat \<Rightarrow> exc + timedelta" where
  "timedelta_of_micros x =
     (case x of
        Fin r \<Rightarrow> let td = round_half_even r
                 in if timedelta_in_range td then ret td else raise OverflowError
      | NaN \<Rightarrow> raise (ValueError (str ''cannot convert float NaN to integer''))
      | _ \<Rightarrow> raise OverflowError)"

text \<open>\<open>timedelta(microseconds=value / 1000)\<close>.\<close>

fun span_of_ns :: "json \<Rightarrow> exc + timedelta" where
  "span_of_ns (JInt n) = timedelta_of_micros (fl (of_int n / 1000))"
| "span_of_ns (JBool b) = timedelta_of_micros (fl (of_int (int_value (JBool b)) / 1000))"
| "span_of_ns (JFloat x) = timedelta_of_micros (case x of Fin r \<Rightarrow> fl (r / 1000) | _ \<Rightarrow> x)"
| "span_of_ns _ = raise bad_operand"

text \<open>\<open>float(value)\<close> and \<open>int(value)\<close>.\<close>

fun to_float :: "json \<Rightarrow> exc + pyfloat" where
  "to_float (JInt n) = (if is_finite (fl (of_int n)) then ret (fl (of_int n)) else raise OverflowError)"
| "to_float (JBool b) = ret (Fin (if b then 1 else 0))"
| "to_float (JFloat x) = ret x"
| "to_float _ = raise bad_operand"

fun to_int :: "json \<Rightarrow> exc + int" where
  "to_int (JInt n) = ret n"
| "to_int (JBool b) = ret (if b then 1 else 0)"
| "to_int (JFloat x) =
     (case float_to_int x of
        Some n \<Rightarrow> ret n
      | None \<Rightarrow> if x = NaN then raise (ValueError (str ''cannot convert float NaN to integer''))
                else raise OverflowError)"
| "to_int _ = raise bad_operand"

section \<open>Policies\<close>

record retry_policy =
  initial_interval :: timedelta
  backoff_coefficient :: number
  maximum_interval :: timedelta
  maximum_attempts :: int
  total_duration :: timedelta
  wire_intervals :: "(int \<times> int \<times> int) option"

definition retry_policy_validate :: "retry_policy \<Rightarrow> exc + unit" where
  "retry_policy_validate p =
     ensure (\<not> (initial_interval p < 0 \<or> maximum_interval p < 0 \<or> total_duration p < 0
                \<or> number_negative (backoff_coefficient p) \<or> maximum_attempts p < 0))
       (ValueError (str ''invalid connector retry policy''))"

definition retry_policy_nanos :: "retry_policy \<Rightarrow> int \<times> int \<times> int" where
  "retry_policy_nanos p =
     (case wire_intervals p of
        Some (a, b, c) \<Rightarrow>
          if initial_interval p = timedelta_of_ns a \<and> maximum_interval p = timedelta_of_ns b
             \<and> total_duration p = timedelta_of_ns c
          then (a, b, c)
          else (ns_of_timedelta (initial_interval p), ns_of_timedelta (maximum_interval p),
                ns_of_timedelta (total_duration p))
      | None \<Rightarrow> (ns_of_timedelta (initial_interval p), ns_of_timedelta (maximum_interval p),
                 ns_of_timedelta (total_duration p)))"

definition retry_policy_to_wire :: "retry_policy \<Rightarrow> exc + jobj" where
  "retry_policy_to_wire p =
     ethen (retry_policy_validate p)
       (case retry_policy_nanos p of (initial_ns, maximum_ns, total_ns) \<Rightarrow>
          ret [(str ''InitialInterval'', JInt initial_ns),
               (str ''BackoffCoefficient'', number_json (backoff_coefficient p)),
               (str ''MaximumInterval'', JInt maximum_ns),
               (str ''MaximumAttempts'', JInt (maximum_attempts p)),
               (str ''TotalDuration'', JInt total_ns)])"

definition retry_policy_fields :: "pystr set" where
  "retry_policy_fields =
     {str ''InitialInterval'', str ''BackoffCoefficient'', str ''MaximumInterval'',
      str ''MaximumAttempts'', str ''TotalDuration''}"

definition retry_policy_from_wire :: "jobj \<Rightarrow> exc + retry_policy" where
  "retry_policy_from_wire value =
     (if set (dict_keys value) \<noteq> retry_policy_fields
      then raise (ValueError (str ''retry policy fields are invalid''))
      else
        let field = (\<lambda>k. get_or value k JNull) in
        ebind (span_of_ns (field (str ''InitialInterval''))) (\<lambda>initial.
        ebind (to_float (field (str ''BackoffCoefficient''))) (\<lambda>backoff.
        ebind (span_of_ns (field (str ''MaximumInterval''))) (\<lambda>maximum.
        ebind (to_int (field (str ''MaximumAttempts''))) (\<lambda>attempts.
        ebind (span_of_ns (field (str ''TotalDuration''))) (\<lambda>total.
        ebind (to_int (field (str ''InitialInterval''))) (\<lambda>a.
        ebind (to_int (field (str ''MaximumInterval''))) (\<lambda>b.
        ebind (to_int (field (str ''TotalDuration''))) (\<lambda>c.
        let p = \<lparr>initial_interval = initial, backoff_coefficient = NFloat backoff,
                 maximum_interval = maximum, maximum_attempts = attempts, total_duration = total,
                 wire_intervals = Some (a, b, c)\<rparr>
        in ethen (retry_policy_validate p) (ret p))))))))))"

definition default_connector_step_execute_retry_policy :: retry_policy where
  "default_connector_step_execute_retry_policy =
     \<lparr>initial_interval = seconds 1, backoff_coefficient = NInt 2, maximum_interval = minutes 5,
      maximum_attempts = 0, total_duration = minutes 60, wire_intervals = None\<rparr>"

section \<open>Properties\<close>

lemma fl_eq_Fin: "fl x = Fin r \<Longrightarrow> r = fl_rat x"
  by (auto simp: fl_def Let_def split: if_splits)

lemma span_of_ns_int:
  "span_of_ns (JInt n) = Inr td \<Longrightarrow> td = timedelta_of_ns n \<and> timedelta_in_range td"
  by (auto simp: timedelta_of_micros_def timedelta_of_ns_def Let_def dest: fl_eq_Fin
      split: pyfloat.splits if_splits)

lemma retry_policy_fields_fixed:
  assumes "retry_policy_to_wire p = Inr d"
  shows "set (dict_keys d) = retry_policy_fields" "dict_ok d"
  using assms
  by (auto simp: retry_policy_to_wire_def ethen_eq_Inr_iff retry_policy_fields_def dict_keys_def
      dict_ok_def split: prod.splits)

text \<open>Decoding keeps the integers of the wire, and encoding returns them unchanged.\<close>

lemma retry_policy_wire_lossless:
  assumes "retry_policy_from_wire d = Inr p"
    and "get_or d (str ''InitialInterval'') JNull = JInt a"
    and "get_or d (str ''MaximumInterval'') JNull = JInt b"
    and "get_or d (str ''TotalDuration'') JNull = JInt c"
    and "get_or d (str ''MaximumAttempts'') JNull = JInt n"
    and "get_or d (str ''BackoffCoefficient'') JNull = JFloat x"
  shows "retry_policy_to_wire p =
    Inr [(str ''InitialInterval'', JInt a), (str ''BackoffCoefficient'', JFloat x),
         (str ''MaximumInterval'', JInt b), (str ''MaximumAttempts'', JInt n),
         (str ''TotalDuration'', JInt c)]"
proof -
  from assms obtain i m t where
    i: "span_of_ns (JInt a) = Inr i" and m: "span_of_ns (JInt b) = Inr m"
    and t: "span_of_ns (JInt c) = Inr t"
    and p: "p = \<lparr>initial_interval = i, backoff_coefficient = NFloat x, maximum_interval = m,
                 maximum_attempts = n, total_duration = t, wire_intervals = Some (a, b, c)\<rparr>"
    and v: "retry_policy_validate p = Inr ()"
    by (auto simp: retry_policy_from_wire_def Let_def ebind_eq_Inr_iff ethen_eq_Inr_iff
        simp del: span_of_ns.simps split: if_splits)
  have "retry_policy_nanos p = (a, b, c)"
    using span_of_ns_int [OF i] span_of_ns_int [OF m] span_of_ns_int [OF t]
    by (simp add: retry_policy_nanos_def p)
  with v show ?thesis
    by (simp add: retry_policy_to_wire_def p)
qed

text \<open>Such a policy survives the wire.\<close>

fun is_plain_int :: "json \<Rightarrow> bool" where
  "is_plain_int (JInt _) \<longleftrightarrow> True"
| "is_plain_int _ \<longleftrightarrow> False"

fun is_plain_float :: "json \<Rightarrow> bool" where
  "is_plain_float (JFloat _) \<longleftrightarrow> True"
| "is_plain_float _ \<longleftrightarrow> False"

definition retry_wire_integral :: "jobj \<Rightarrow> bool" where
  "retry_wire_integral d \<longleftrightarrow>
     is_plain_int (get_or d (str ''InitialInterval'') JNull)
     \<and> is_plain_int (get_or d (str ''MaximumInterval'') JNull)
     \<and> is_plain_int (get_or d (str ''TotalDuration'') JNull)
     \<and> is_plain_int (get_or d (str ''MaximumAttempts'') JNull)
     \<and> is_plain_float (get_or d (str ''BackoffCoefficient'') JNull)"

lemma is_plain_int_iff: "is_plain_int j \<longleftrightarrow> (\<exists>n. j = JInt n)"
  by (cases j) auto

lemma is_plain_float_iff: "is_plain_float j \<longleftrightarrow> (\<exists>x. j = JFloat x)"
  by (cases j) auto

lemma retry_policy_from_wire_cong:
  assumes "set (dict_keys d') = set (dict_keys d)"
    and "\<And>k. k \<in> retry_policy_fields \<Longrightarrow> get_or d' k JNull = get_or d k JNull"
  shows "retry_policy_from_wire d' = retry_policy_from_wire d"
  unfolding retry_policy_from_wire_def using assms by (simp add: retry_policy_fields_def)

lemma retry_policy_reencode:
  assumes "retry_policy_from_wire d = Inr p" "retry_wire_integral d"
  shows "\<exists>w. retry_policy_to_wire p = Inr w \<and> retry_policy_from_wire w = Inr p"
proof -
  from assms(2) obtain a b c n x where f:
    "get_or d (str ''InitialInterval'') JNull = JInt a"
    "get_or d (str ''MaximumInterval'') JNull = JInt b"
    "get_or d (str ''TotalDuration'') JNull = JInt c"
    "get_or d (str ''MaximumAttempts'') JNull = JInt n"
    "get_or d (str ''BackoffCoefficient'') JNull = JFloat x"
    by (auto simp: retry_wire_integral_def is_plain_int_iff is_plain_float_iff)
  define w where "w = [(str ''InitialInterval'', JInt a), (str ''BackoffCoefficient'', JFloat x),
    (str ''MaximumInterval'', JInt b), (str ''MaximumAttempts'', JInt n), (str ''TotalDuration'', JInt c)]"
  have to: "retry_policy_to_wire p = Inr w"
    unfolding w_def by (rule retry_policy_wire_lossless [OF assms(1) f])
  have "set (dict_keys d) = retry_policy_fields"
    using assms(1) by (auto simp: retry_policy_from_wire_def split: if_splits)
  then have "retry_policy_from_wire w = retry_policy_from_wire d"
    using retry_policy_fields_fixed(1) [OF to] f
    by (intro retry_policy_from_wire_cong) (auto simp: retry_policy_fields_def w_def get_or_def)
  with to assms(1) show ?thesis by simp
qed

lemma retry_policy_from_wire_valid:
  "retry_policy_from_wire d = Inr p \<Longrightarrow> retry_policy_validate p = Inr ()"
  by (auto simp: retry_policy_from_wire_def Let_def ebind_eq_Inr_iff ethen_eq_Inr_iff
      split: if_splits)

text \<open>The default policy is valid and its intervals are exact on the wire.\<close>

lemma default_retry_policy_wire:
  "retry_policy_to_wire default_connector_step_execute_retry_policy =
     Inr [(str ''InitialInterval'', JInt 1000000000), (str ''BackoffCoefficient'', JInt 2),
          (str ''MaximumInterval'', JInt 300000000000), (str ''MaximumAttempts'', JInt 0),
          (str ''TotalDuration'', JInt 3600000000000)]"
proof -
  have "minutes 5 = seconds 300" "minutes 60 = seconds 3600"
    by (simp_all add: minutes_def seconds_def)
  then have "retry_policy_nanos default_connector_step_execute_retry_policy =
      (1000000000, 300000000000, 3600000000000)"
    by (simp add: retry_policy_nanos_def default_connector_step_execute_retry_policy_def
        ns_of_timedelta_seconds)
  moreover have "retry_policy_validate default_connector_step_execute_retry_policy = Inr ()"
    by (simp add: retry_policy_validate_def default_connector_step_execute_retry_policy_def
        seconds_def minutes_def)
  ultimately show ?thesis
    by (simp add: retry_policy_to_wire_def)
      (simp add: default_connector_step_execute_retry_policy_def)
qed

text \<open>
  Without the decoded integers the conversion goes through a float: 1001 milliseconds are
  encoded as 1000999999 nanoseconds.
\<close>

lemma retry_policy_float_loss: "ns_of_timedelta 1001000 = 1000999999"
proof -
  have "\<bar>fl_rat (of_int 1001000 / 1000000)\<bar> < 2 ^ 53"
    by code_simp
  then have t: "total_seconds 1001000 = Fin (fl_rat (of_int 1001000 / 1000000))"
    unfolding total_seconds_def by (rule fl_moderate)
  have "\<bar>fl_rat (fl_rat (of_int 1001000 / 1000000) * of_int 1000000000)\<bar> < 2 ^ 53"
    by code_simp
  then have "float_scale (total_seconds 1001000) 1000000000
      = Fin (fl_rat (fl_rat (of_int 1001000 / 1000000) * of_int 1000000000))"
    unfolding t float_scale.simps by (rule fl_moderate)
  moreover have "trunc_rat (fl_rat (fl_rat (of_int 1001000 / 1000000) * of_int 1000000000)) = 1000999999"
    by code_simp
  ultimately show ?thesis
    unfolding ns_of_timedelta_def by (simp only: pyfloat.case)
qed

end
