(* ===== verification/Definitions.thy ===== *)
theory Definitions
  imports Identities RetryPolicy
begin

text \<open>
  \<^verbatim>\<open>sdkpython/src/dex_connectors/sdk/types.py\<close>, second part: Step defaults and the
  definitions of queries and mutations.  Decoded defaults keep the wire numbers they came
  from, as retry policies do, so both are \<open>json\<close> values here; the durability is compared
  with \<open>==\<close> against 0, 1 and 2.  The lemmas show that definitions survive the wire and that
  validation rules out an undeclared defect route.
\<close>

section \<open>Step defaults\<close>

record step_defaults =
  execute_method_timeout :: timedelta
  execute_durability :: json
  heartbeat_timeout :: timedelta
  execute_retry :: "retry_policy option"
  wire_timeouts :: "(json \<times> json) option"

definition durability_known :: "json \<Rightarrow> bool" where
  "durability_known j \<longleftrightarrow> json_eq j (JInt 0) \<or> json_eq j (JInt 1) \<or> json_eq j (JInt 2)"

definition step_defaults_validate :: "step_defaults \<Rightarrow> exc + unit" where
  "step_defaults_validate s =
     (if execute_method_timeout s < 0 \<or> heartbeat_timeout s < 0
      then raise (ValueError (str ''Step timeouts cannot be negative''))
      else if \<not> durability_known (execute_durability s)
      then raise (ValueError (str ''Step Execute durability is invalid''))
      else (case execute_retry s of None \<Rightarrow> ret () | Some p \<Rightarrow> retry_policy_validate p))"

text \<open>The wire numbers, while they still denote the timeouts.\<close>

definition step_timeout_nanos :: "step_defaults \<Rightarrow> exc + (json \<times> json)" where
  "step_timeout_nanos s =
     (let computed = (JInt (ns_of_timedelta (execute_method_timeout s)),
                      JInt (ns_of_timedelta (heartbeat_timeout s)))
      in case wire_timeouts s of
           None \<Rightarrow> ret computed
         | Some (a, b) \<Rightarrow>
             ebind (span_of_ns a) (\<lambda>ta.
               if execute_method_timeout s \<noteq> ta then ret computed
               else ebind (span_of_ns b) (\<lambda>tb.
                 ret (if heartbeat_timeout s = tb then (a, b) else computed))))"

definition step_defaults_to_wire :: "step_defaults \<Rightarrow> exc + jobj" where
  "step_defaults_to_wire s =
     ethen (step_defaults_validate s)
       (ebind (step_timeout_nanos s) (\<lambda>(execute_ns, heartbeat_ns).
        ebind (case execute_retry s of
                 None \<Rightarrow> ret []
               | Some p \<Rightarrow> ebind (retry_policy_to_wire p) (\<lambda>d. ret [(str ''executeRetry'', JObj d)])) (\<lambda>retry.
        ret ([(str ''executeMethodTimeout'', execute_ns), (str ''executeDurability'', execute_durability s)]
             @ (if heartbeat_timeout s \<noteq> 0
                   \<or> (case wire_timeouts s of None \<Rightarrow> False | Some (a, b) \<Rightarrow> \<not> json_eq b (JInt 0))
                then [(str ''heartbeatTimeout'', heartbeat_ns)] else [])
             @ retry))))"

text \<open>\<open>RetryPolicy.from_wire\<close> on an untyped value: \<open>set(value)\<close> iterates lists and strings.\<close>

definition hashable :: "json \<Rightarrow> bool" where
  "hashable j \<longleftrightarrow> (case j of JArr _ \<Rightarrow> False | JObj _ \<Rightarrow> False | _ \<Rightarrow> True)"

definition retry_policy_of_json :: "json \<Rightarrow> exc + retry_policy" where
  "retry_policy_of_json j =
     (case j of
        JObj d \<Rightarrow> retry_policy_from_wire d
      | JArr xs \<Rightarrow>
          if list_all hashable xs \<and> set xs \<noteq> JStr ` retry_policy_fields
          then raise (ValueError (str ''retry policy fields are invalid''))
          else raise bad_operand
      | JStr _ \<Rightarrow> raise (ValueError (str ''retry policy fields are invalid''))
      | _ \<Rightarrow> raise bad_operand)"

definition step_defaults_from_wire :: "json \<Rightarrow> exc + step_defaults" where
  "step_defaults_from_wire value =
     (case value of
        JObj d \<Rightarrow>
          let retry = get_or d (str ''executeRetry'') JNull;
              hb = get_or d (str ''heartbeatTimeout'') (JInt 0)
          in ebind (item value (str ''executeMethodTimeout'')) (\<lambda>et.
             ebind (span_of_ns et) (\<lambda>execute.
             ebind (item value (str ''executeDurability'')) (\<lambda>durability.
             ebind (span_of_ns hb) (\<lambda>heartbeat.
             ebind (if retry = JNull then ret None
                    else ebind (retry_policy_of_json retry) (\<lambda>p. ret (Some p))) (\<lambda>policy.
             let s = \<lparr>execute_method_timeout = execute, execute_durability = durability,
                      heartbeat_timeout = heartbeat, execute_retry = policy,
                      wire_timeouts = Some (et, hb)\<rparr>
             in ethen (step_defaults_validate s) (ret s))))))
      | _ \<Rightarrow> raise AttributeError)"

section \<open>Operation definitions\<close>

record op_definition =
  od_operation :: operation_ref
  od_branches :: "branch_definition list option"
  od_step_defaults :: step_defaults

text \<open>\<open>definition.branches or ()\<close>.\<close>

definition od_branch_list :: "op_definition \<Rightarrow> branch_definition list" where
  "od_branch_list d = (case od_branches d of None \<Rightarrow> [] | Some bs \<Rightarrow> bs)"

definition query_definition_validate :: "op_definition \<Rightarrow> exc + unit" where
  "query_definition_validate d =
     ethen (operation_ref_validate (od_operation d))
       (if od_branch_list d = [] then step_defaults_validate (od_step_defaults d)
        else
          let ids = map br_id (od_branch_list d) in
          if \<not> distinct ids \<or> DEFECT_BRANCH_ID \<notin> set ids \<or> UNCERTAIN_BRANCH_ID \<in> set ids
          then raise (ValueError (str ''invalid Query branches''))
          else ethen (eall branch_validate (od_branch_list d)) (step_defaults_validate (od_step_defaults d)))"

definition mutation_definition_validate :: "op_definition \<Rightarrow> exc + unit" where
  "mutation_definition_validate d =
     ethen (operation_ref_validate (od_operation d))
       (if od_branch_list d = [] then step_defaults_validate (od_step_defaults d)
        else
          let ids = map br_id (od_branch_list d) in
          if \<not> distinct ids \<or> DEFECT_BRANCH_ID \<notin> set ids
          then raise (ValueError (str ''invalid Mutation branches''))
          else ethen (eall branch_validate (od_branch_list d)) (step_defaults_validate (od_step_defaults d)))"

text \<open>\<open>to_wire\<close> and \<open>from_wire\<close> are inherited; \<open>validate\<close> is the class's own.\<close>

definition definition_to_wire :: "(op_definition \<Rightarrow> exc + unit) \<Rightarrow> op_definition \<Rightarrow> exc + jobj" where
  "definition_to_wire validate d =
     ethen (validate d)
       (ebind (operation_ref_to_wire (od_operation d)) (\<lambda>op.
        ebind (case od_branches d of
                 None \<Rightarrow> ret JNull
               | Some bs \<Rightarrow> ebind (emap (\<lambda>b. ebind (branch_to_wire b) (\<lambda>m. ret (JObj m))) bs) (\<lambda>ws. ret (JArr ws)))
          (\<lambda>branches.
        ebind (step_defaults_to_wire (od_step_defaults d)) (\<lambda>defaults.
        ret [(str ''operation'', JObj op), (str ''branches'', branches), (str ''stepDefaults'', JObj defaults)]))))"

text \<open>Iterating \<open>branches\<close>: an empty object or string yields nothing, their members are not
  objects otherwise.\<close>

definition branches_from_wire :: "json \<Rightarrow> exc + branch_definition list option" where
  "branches_from_wire j =
     (case j of
        JNull \<Rightarrow> ret None
      | JArr xs \<Rightarrow> ebind (emap branch_from_wire xs) (\<lambda>bs. ret (Some bs))
      | JObj d \<Rightarrow> if d = [] then ret (Some []) else raise (TypeError (str ''indices must be integers''))
      | JStr s \<Rightarrow> if s = [] then ret (Some []) else raise (TypeError (str ''indices must be integers''))
      | _ \<Rightarrow> raise (TypeError (str ''object is not iterable'')))"

definition definition_from_wire :: "(op_definition \<Rightarrow> exc + unit) \<Rightarrow> jobj \<Rightarrow> exc + op_definition" where
  "definition_from_wire validate value =
     ebind (item (JObj value) (str ''operation'')) (\<lambda>op.
     ebind (item (JObj value) (str ''branches'')) (\<lambda>bj.
     ebind (item op (str ''connectorId'')) (\<lambda>c.
     ebind (item op (str ''operationId'')) (\<lambda>p.
     ebind (branches_from_wire bj) (\<lambda>branches.
     ebind (item (JObj value) (str ''stepDefaults'')) (\<lambda>sj.
     ebind (step_defaults_from_wire sj) (\<lambda>defaults.
     ebind (operation_ref_of c p) (\<lambda>operation.
     let d = \<lparr>od_operation = operation, od_branches = branches, od_step_defaults = defaults\<rparr>
     in ethen (validate d) (ret d)))))))))"

abbreviation query_definition_to_wire :: "op_definition \<Rightarrow> exc + jobj" where
  "query_definition_to_wire \<equiv> definition_to_wire query_definition_validate"

abbreviation query_definition_from_wire :: "jobj \<Rightarrow> exc + op_definition" where
  "query_definition_from_wire \<equiv> definition_from_wire query_definition_validate"

abbreviation mutation_definition_to_wire :: "op_definition \<Rightarrow> exc + jobj" where
  "mutation_definition_to_wire \<equiv> definition_to_wire mutation_definition_validate"

abbreviation mutation_definition_from_wire :: "jobj \<Rightarrow> exc + op_definition" where
  "mutation_definition_from_wire \<equiv> definition_from_wire mutation_definition_validate"

section \<open>Properties\<close>

lemma validate_defect_declared:
  assumes "query_definition_validate d = Inr () \<or> mutation_definition_validate d = Inr ()"
    and "od_branch_list d \<noteq> []"
  shows "DEFECT_BRANCH_ID \<in> br_id ` set (od_branch_list d)" "distinct (map br_id (od_branch_list d))"
  using assms
  by (auto simp: query_definition_validate_def mutation_definition_validate_def Let_def
      ethen_eq_Inr_iff split: if_splits)

lemma query_definition_is_mutation_definition:
  "query_definition_validate d = Inr () \<Longrightarrow> mutation_definition_validate d = Inr ()"
  by (auto simp: query_definition_validate_def mutation_definition_validate_def Let_def
      ethen_eq_Inr_iff split: if_splits)

lemma query_no_uncertain:
  "query_definition_validate d = Inr () \<Longrightarrow> UNCERTAIN_BRANCH_ID \<notin> br_id ` set (od_branch_list d)"
  by (auto simp: query_definition_validate_def Let_def ethen_eq_Inr_iff split: if_splits)

lemma definition_from_wire_valid:
  "definition_from_wire validate d = Inr x \<Longrightarrow> validate x = Inr ()"
  by (auto simp: definition_from_wire_def Let_def ebind_eq_Inr_iff ethen_eq_Inr_iff)

section \<open>Definitions survive the wire\<close>

definition step_wire_integral :: "jobj \<Rightarrow> bool" where
  "step_wire_integral d \<longleftrightarrow>
     is_plain_int (get_or d (str ''executeMethodTimeout'') JNull)
     \<and> is_plain_int (get_or d (str ''heartbeatTimeout'') (JInt 0))
     \<and> (case get_or d (str ''executeRetry'') JNull of
          JNull \<Rightarrow> True | JObj r \<Rightarrow> retry_wire_integral r | _ \<Rightarrow> False)"

lemma step_defaults_from_wire_eq_Inr_iff:
  "step_defaults_from_wire (JObj d) = Inr s \<longleftrightarrow>
     (\<exists>et du execute heartbeat policy.
        dict_get d (str ''executeMethodTimeout'') = Some et \<and> span_of_ns et = Inr execute
        \<and> dict_get d (str ''executeDurability'') = Some du
        \<and> span_of_ns (get_or d (str ''heartbeatTimeout'') (JInt 0)) = Inr heartbeat
        \<and> (if get_or d (str ''executeRetry'') JNull = JNull then policy = None
            else \<exists>p. retry_policy_of_json (get_or d (str ''executeRetry'') JNull) = Inr p \<and> policy = Some p)
        \<and> s = \<lparr>execute_method_timeout = execute, execute_durability = du, heartbeat_timeout = heartbeat,
               execute_retry = policy, wire_timeouts = Some (et, get_or d (str ''heartbeatTimeout'') (JInt 0))\<rparr>
        \<and> step_defaults_validate s = Inr ())"
  by (auto simp: step_defaults_from_wire_def Let_def ebind_eq_Inr_iff ethen_eq_Inr_iff item_JObj
      split: option.splits if_splits)

lemma step_retry_reencode:
  assumes "get_or d (str ''executeRetry'') JNull \<noteq> JNull"
    and "retry_policy_of_json (get_or d (str ''executeRetry'') JNull) = Inr p" "step_wire_integral d"
  shows "\<exists>w. retry_policy_to_wire p = Inr w \<and> retry_policy_of_json (JObj w) = Inr p"
  using assms
  by (auto simp: step_wire_integral_def retry_policy_of_json_def dest: retry_policy_reencode
      split: json.splits)

lemma step_defaults_reencode:
  assumes "step_defaults_from_wire (JObj d) = Inr s" "step_wire_integral d"
  shows "\<exists>w. step_defaults_to_wire s = Inr w \<and> step_defaults_from_wire (JObj w) = Inr s"
proof -
  from assms obtain a b du execute heartbeat policy where
    f: "dict_get d (str ''executeMethodTimeout'') = Some (JInt a)"
      "dict_get d (str ''executeDurability'') = Some du"
      "get_or d (str ''heartbeatTimeout'') (JInt 0) = JInt b"
    and sp: "span_of_ns (JInt a) = Inr execute" "span_of_ns (JInt b) = Inr heartbeat"
    and pol: "if get_or d (str ''executeRetry'') JNull = JNull then policy = None
            else \<exists>p. retry_policy_of_json (get_or d (str ''executeRetry'') JNull) = Inr p \<and> policy = Some p"
    and s: "s = \<lparr>execute_method_timeout = execute, execute_durability = du, heartbeat_timeout = heartbeat,
               execute_retry = policy, wire_timeouts = Some (JInt a, JInt b)\<rparr>"
    and v: "step_defaults_validate s = Inr ()"
    by (auto simp: step_defaults_from_wire_eq_Inr_iff step_wire_integral_def is_plain_int_iff get_or_def
        simp del: span_of_ns.simps split: option.splits)
  obtain rw where rw: "(case policy of None \<Rightarrow> ret []
      | Some p \<Rightarrow> ebind (retry_policy_to_wire p) (\<lambda>d. ret [(str ''executeRetry'', JObj d)])) = Inr rw"
    and again: "case policy of None \<Rightarrow> rw = []
      | Some p \<Rightarrow> \<exists>w. rw = [(str ''executeRetry'', JObj w)] \<and> retry_policy_of_json (JObj w) = Inr p"
    using pol step_retry_reencode [OF _ _ assms(2)]
    by (cases policy) (fastforce simp: ebind_eq_Inr_iff split: if_splits)+
  define w where "w = [(str ''executeMethodTimeout'', JInt a), (str ''executeDurability'', du)]
    @ (if heartbeat \<noteq> 0 \<or> b \<noteq> 0 then [(str ''heartbeatTimeout'', JInt b)] else []) @ rw"
  have "step_timeout_nanos s = Inr (JInt a, JInt b)"
    using sp by (simp add: step_timeout_nanos_def s del: span_of_ns.simps)
  then have "step_defaults_to_wire s = Inr w"
    using v rw by (simp add: step_defaults_to_wire_def s w_def)
  moreover have "dict_get w (str ''executeMethodTimeout'') = Some (JInt a)"
      "dict_get w (str ''executeDurability'') = Some du"
    by (simp_all add: w_def)
  moreover have "get_or w (str ''heartbeatTimeout'') (JInt 0) = JInt b"
    using again by (cases policy) (auto simp: w_def get_or_def)
  moreover have "get_or w (str ''executeRetry'') JNull = (case rw of [] \<Rightarrow> JNull | (_, j) # _ \<Rightarrow> j)"
    using again by (cases policy) (auto simp: w_def get_or_def)
  ultimately show ?thesis
    using sp again v
    by (cases policy) (auto simp: step_defaults_from_wire_eq_Inr_iff s simp del: span_of_ns.simps)
qed

text \<open>A decoded definition encodes to an object that decodes to it again.\<close>

definition definition_wire_integral :: "jobj \<Rightarrow> bool" where
  "definition_wire_integral d \<longleftrightarrow>
     (case get_or d (str ''stepDefaults'') JNull of JObj s \<Rightarrow> step_wire_integral s | _ \<Rightarrow> False)"

lemma operation_ref_of_valid: "operation_ref_of c p = Inr r \<Longrightarrow> operation_ref_validate r = Inr ()"
  by (auto simp: operation_ref_of_def Let_def ethen_eq_Inr_iff split: if_splits)

lemma branch_from_wire_valid: "branch_from_wire j = Inr b \<Longrightarrow> branch_validate b = Inr ()"
  by (auto simp: branch_from_wire_def Let_def ebind_eq_Inr_iff ethen_eq_Inr_iff)

lemma branches_reencode:
  assumes "\<And>b. b \<in> set bs \<Longrightarrow> branch_validate b = Inr ()"
  shows "\<exists>ws. emap (\<lambda>b. ebind (branch_to_wire b) (\<lambda>m. ret (JObj m))) bs = Inr ws
     \<and> emap branch_from_wire ws = Inr bs"
  using assms
proof (induction bs)
  case (Cons b bs)
  then obtain ws where "emap (\<lambda>b. ebind (branch_to_wire b) (\<lambda>m. ret (JObj m))) bs = Inr ws"
    "emap branch_from_wire ws = Inr bs" by auto
  moreover obtain m where "branch_to_wire b = Inr m"
    using Cons.prems [of b] by (simp add: branch_to_wire_def)
  ultimately show ?case
    by (simp add: branch_roundtrip)
qed simp

lemma branches_from_wire_valid:
  assumes "branches_from_wire j = Inr (Some bs)" "b \<in> set bs"
  shows "branch_validate b = Inr ()"
proof (cases j)
  case (JArr xs)
  with assms(1) have "list_all2 (\<lambda>x y. branch_from_wire x = Inr y) xs bs"
    by (auto simp: branches_from_wire_def ebind_eq_Inr_iff emap_eq_Inr_iff)
  with assms(2) obtain x where "branch_from_wire x = Inr b"
    by (auto simp: list_all2_conv_all_nth in_set_conv_nth)
  then show ?thesis by (rule branch_from_wire_valid)
qed (use assms in \<open>auto simp: branches_from_wire_def split: if_splits\<close>)

lemma branches_wire:
  assumes "branches_from_wire j = Inr branches"
  shows "\<exists>w. (case branches of None \<Rightarrow> ret JNull
      | Some bs \<Rightarrow> ebind (emap (\<lambda>b. ebind (branch_to_wire b) (\<lambda>m. ret (JObj m))) bs) (\<lambda>ws. ret (JArr ws))) = Inr w
    \<and> branches_from_wire w = Inr branches"
proof (cases branches)
  case (Some bs)
  with branches_reencode [of bs] branches_from_wire_valid [of j bs] assms show ?thesis
    by (auto simp: branches_from_wire_def ebind_eq_Inr_iff)
qed (simp add: branches_from_wire_def)

lemma definition_reencode:
  assumes "definition_from_wire validate d = Inr x" "definition_wire_integral d"
  shows "\<exists>w. definition_to_wire validate x = Inr w \<and> definition_from_wire validate w = Inr x"
proof -
  from assms obtain c p bj branches sd defaults operation where
    b: "branches_from_wire bj = Inr branches"
    and sd: "step_defaults_from_wire (JObj sd) = Inr defaults" "step_wire_integral sd"
    and r: "operation_ref_of c p = Inr operation"
    and x: "x = \<lparr>od_operation = operation, od_branches = branches, od_step_defaults = defaults\<rparr>"
    and v: "validate x = Inr ()"
    by (auto simp: definition_from_wire_def definition_wire_integral_def Let_def ebind_eq_Inr_iff
        ethen_eq_Inr_iff item_JObj get_or_def split: option.splits json.splits)
  obtain bw where bw: "(case branches of None \<Rightarrow> ret JNull
      | Some bs \<Rightarrow> ebind (emap (\<lambda>b. ebind (branch_to_wire b) (\<lambda>m. ret (JObj m))) bs) (\<lambda>ws. ret (JArr ws))) = Inr bw"
    "branches_from_wire bw = Inr branches"
    using branches_wire [OF b] by blast
  obtain sw where sw: "step_defaults_to_wire defaults = Inr sw" "step_defaults_from_wire (JObj sw) = Inr defaults"
    using step_defaults_reencode [OF sd] by blast
  have rv: "operation_ref_validate operation = Inr ()"
    using r by (rule operation_ref_of_valid)
  then have "operation_ref_of (JStr (connector_id operation)) (JStr (operation_id operation)) = Inr operation"
    by (cases operation) (auto simp: operation_ref_of_def operation_ref_validate_def split: if_splits)
  with bw sw rv v show ?thesis
    by (auto simp: definition_to_wire_def operation_ref_to_wire_def x definition_from_wire_def item_JObj)
qed

end
