(* ===== verification/Timestamps.thy ===== *)
theory Timestamps
  imports Failures "HOL-Library.Monad_Syntax"
begin

text \<open>
  \<^verbatim>\<open>sdkpython/src/dex_connectors/sdk/timestamps.py\<close>: Go-compatible RFC 3339 timestamps.
  \<open>go_time_parts\<close> matches the pattern \<open>_TIMESTAMP\<close>, checks the calendar and the clock and
  renders the canonical form; \<open>nano_from_wire\<close> keeps that form at any precision, while
  \<open>parse_go_datetime_input\<close> accepts only what a Python \<open>datetime\<close> can hold.  The lemmas show
  that the canonical form is a fixed point of \<open>from_wire\<close>, and that an aware \<open>datetime\<close> with
  a whole-minute offset survives formatting and parsing.
\<close>

section \<open>The pattern\<close>

text \<open>The groups of \<open>_TIMESTAMP\<close>; the fraction separator is not used afterwards.\<close>

record time_parts =
  tp_year :: pystr
  tp_month :: pystr
  tp_day :: pystr
  tp_hour :: pystr
  tp_minute :: pystr
  tp_second :: pystr
  tp_fraction :: "pystr option"
  tp_offset :: pystr

definition take_digits :: "nat \<Rightarrow> pystr \<Rightarrow> (pystr \<times> pystr) option" where
  "take_digits n s =
     (if n \<le> length s \<and> list_all is_digit (take n s) then Some (take n s, drop n s) else None)"

definition take_char :: "nat \<Rightarrow> pystr \<Rightarrow> pystr option" where
  "take_char c s = (case s of [] \<Rightarrow> None | x # r \<Rightarrow> if x = c then Some r else None)"

definition take_hour :: "pystr \<Rightarrow> (pystr \<times> pystr) option" where
  "take_hour s =
     (let h = takeWhile is_digit s
      in if length h = 1 \<or> length h = 2 then Some (h, dropWhile is_digit s) else None)"

definition take_fraction :: "pystr \<Rightarrow> (pystr option \<times> pystr) option" where
  "take_fraction s =
     (case s of
        c # r \<Rightarrow>
          if c = 46 \<or> c = 44
          then (let ds = takeWhile is_digit r
                in if ds = [] then None else Some (Some ds, dropWhile is_digit r))
          else Some (None, s)
      | [] \<Rightarrow> Some (None, s))"

definition is_offset :: "pystr \<Rightarrow> bool" where
  "is_offset s \<longleftrightarrow> s = [90] \<or>
     (length s = 6 \<and> (s ! 0 = 43 \<or> s ! 0 = 45) \<and> is_digit (s ! 1) \<and> is_digit (s ! 2)
      \<and> s ! 3 = 58 \<and> is_digit (s ! 4) \<and> is_digit (s ! 5))"

definition match_timestamp :: "pystr \<Rightarrow> time_parts option" where
  "match_timestamp s0 = do {
     (y, s1) \<leftarrow> take_digits 4 s0; s2 \<leftarrow> take_char 45 s1;
     (mo, s3) \<leftarrow> take_digits 2 s2; s4 \<leftarrow> take_char 45 s3;
     (d, s5) \<leftarrow> take_digits 2 s4; s6 \<leftarrow> take_char 84 s5;
     (h, s7) \<leftarrow> take_hour s6; s8 \<leftarrow> take_char 58 s7;
     (mi, s9) \<leftarrow> take_digits 2 s8; s10 \<leftarrow> take_char 58 s9;
     (sec, s11) \<leftarrow> take_digits 2 s10;
     (fr, off) \<leftarrow> take_fraction s11;
     if is_offset off
     then Some \<lparr>tp_year = y, tp_month = mo, tp_day = d, tp_hour = h, tp_minute = mi,
                tp_second = sec, tp_fraction = fr, tp_offset = off\<rparr>
     else None
   }"

section \<open>Calendar\<close>

definition is_leap :: "int \<Rightarrow> bool" where
  "is_leap y \<longleftrightarrow> y mod 4 = 0 \<and> (y mod 100 \<noteq> 0 \<or> y mod 400 = 0)"

definition days_in_month :: "int \<Rightarrow> int \<Rightarrow> int" where
  "days_in_month y m =
     (if m = 2 then (if is_leap y then 29 else 28)
      else if m = 4 \<or> m = 6 \<or> m = 9 \<or> m = 11 then 30 else 31)"

text \<open>\<open>date(y, m, d)\<close> succeeds.\<close>

definition date_ok :: "int \<Rightarrow> int \<Rightarrow> int \<Rightarrow> bool" where
  "date_ok y m d \<longleftrightarrow> 1 \<le> y \<and> y \<le> 9999 \<and> 1 \<le> m \<and> m \<le> 12 \<and> 1 \<le> d \<and> d \<le> days_in_month y m"

section \<open>Canonical timestamps\<close>

definition opt_str :: "pystr option \<Rightarrow> pystr" where
  "opt_str x = (case x of None \<Rightarrow> [] | Some s \<Rightarrow> s)"

definition pad_hour :: "pystr \<Rightarrow> pystr" where
  "pad_hour h = (if length h = 1 then 48 # h else h)"

definition render_parts :: "time_parts \<Rightarrow> pystr" where
  "render_parts p =
     tp_year p @ [45] @ tp_month p @ [45] @ tp_day p @ [84] @ tp_hour p @ [58] @ tp_minute p
     @ [58] @ tp_second p
     @ (case tp_fraction p of None \<Rightarrow> [] | Some f \<Rightarrow> 46 # f) @ tp_offset p"

text \<open>The hour in two digits, the fraction without trailing zeros, a zero offset as \<open>Z\<close>.\<close>

definition canonical_parts :: "time_parts \<Rightarrow> time_parts" where
  "canonical_parts p =
     (let f = rstrip_by (\<lambda>c. c = 48) (opt_str (tp_fraction p))
      in p\<lparr>tp_hour := pad_hour (tp_hour p),
           tp_fraction := (if f = [] then None else Some f),
           tp_offset := (if tp_offset p = str ''+00:00'' \<or> tp_offset p = str ''-00:00''
                         then [90] else tp_offset p)\<rparr>)"

definition offset_hours :: "pystr \<Rightarrow> int" where
  "offset_hours s = digits_value (take 2 (drop 1 s))"

definition offset_minutes :: "pystr \<Rightarrow> int" where
  "offset_minutes s = digits_value (take 2 (drop 4 s))"

definition date_invalid :: "time_parts \<Rightarrow> bool" where
  "date_invalid p \<longleftrightarrow>
     (let month = digits_value (tp_month p); day = digits_value (tp_day p) in
      \<not> date_ok (digits_value (tp_year p)) month day
      \<and> (tp_year p \<noteq> str ''0000'' \<or> \<not> (1 \<le> month \<and> month \<le> 12) \<or> \<not> (1 \<le> day \<and> day \<le> 31)
         \<or> day > (if month = 2 then 29
                  else if month = 4 \<or> month = 6 \<or> month = 9 \<or> month = 11 then 30 else 31)))"

definition clock_invalid :: "time_parts \<Rightarrow> bool" where
  "clock_invalid p \<longleftrightarrow> digits_value (tp_hour p) > 23 \<or> digits_value (tp_minute p) > 59
     \<or> digits_value (tp_second p) > 59"

definition offset_invalid :: "time_parts \<Rightarrow> bool" where
  "offset_invalid p \<longleftrightarrow> tp_offset p \<noteq> [90]
     \<and> (offset_hours (tp_offset p) > 24 \<or> offset_minutes (tp_offset p) > 60)"

definition check_time_parts :: "time_parts \<Rightarrow> exc + unit" where
  "check_time_parts p =
     (if date_invalid p then raise (ValueError (str ''timestamp has an invalid date''))
      else if clock_invalid p then raise (ValueError (str ''timestamp has an invalid clock time''))
      else if offset_invalid p then raise (ValueError (str ''timestamp has an invalid timezone offset''))
      else ret ())"

definition go_time_parts :: "pystr \<Rightarrow> exc + (time_parts \<times> pystr)" where
  "go_time_parts value =
     (case match_timestamp value of
        None \<Rightarrow> raise (ValueError (str ''timestamp must be a Go RFC 3339 time''))
      | Some p \<Rightarrow> ethen (check_time_parts p) (ret (p, render_parts (canonical_parts p))))"

section \<open>Python datetimes\<close>

text \<open>The fields of a \<open>datetime\<close>; the offset is in microseconds, \<open>None\<close> for a naive value.\<close>

record datetime =
  dt_year :: int
  dt_month :: int
  dt_day :: int
  dt_hour :: int
  dt_minute :: int
  dt_second :: int
  dt_micro :: int
  dt_offset :: "int option"

definition datetime_ok :: "datetime \<Rightarrow> bool" where
  "datetime_ok t \<longleftrightarrow> date_ok (dt_year t) (dt_month t) (dt_day t)
     \<and> 0 \<le> dt_hour t \<and> dt_hour t < 24 \<and> 0 \<le> dt_minute t \<and> dt_minute t < 60
     \<and> 0 \<le> dt_second t \<and> dt_second t < 60 \<and> 0 \<le> dt_micro t \<and> dt_micro t < 1000000
     \<and> (case dt_offset t of None \<Rightarrow> True | Some z \<Rightarrow> \<bar>z\<bar> < 86400000000)"

definition days_before_month :: "int \<Rightarrow> int \<Rightarrow> int" where
  "days_before_month y m = sum_list (map (days_in_month y) [1..m - 1])"

definition days_before_year :: "int \<Rightarrow> int" where
  "days_before_year y = 365 * (y - 1) + (y - 1) div 4 - (y - 1) div 100 + (y - 1) div 400"

text \<open>Microseconds from the start of year 1 at UTC: aware datetimes compare by it.\<close>

definition dt_instant :: "datetime \<Rightarrow> instant" where
  "dt_instant t =
     ((((days_before_year (dt_year t) + days_before_month (dt_year t) (dt_month t) + dt_day t - 1) * 24
        + dt_hour t) * 60 + dt_minute t) * 60 + dt_second t) * 1000000 + dt_micro t
     - (case dt_offset t of None \<Rightarrow> 0 | Some z \<Rightarrow> z)"

text \<open>
  \<open>datetime.fromisoformat\<close> on a canonical timestamp whose fraction has at most six digits,
  with \<open>Z\<close> read as the zero offset.
\<close>

definition datetime_of_parts :: "time_parts \<Rightarrow> datetime" where
  "datetime_of_parts p =
     \<lparr>dt_year = digits_value (tp_year p), dt_month = digits_value (tp_month p),
      dt_day = digits_value (tp_day p), dt_hour = digits_value (tp_hour p),
      dt_minute = digits_value (tp_minute p), dt_second = digits_value (tp_second p),
      dt_micro = digits_value (take 6 (opt_str (tp_fraction p) @ replicate 6 48)),
      dt_offset = Some
        (if tp_offset p = [90] then 0
         else (if hd (tp_offset p) = 45 then - 1 else 1)
              * (offset_hours (tp_offset p) * 3600 + offset_minutes (tp_offset p) * 60) * 1000000)\<rparr>"

definition unrepresentable :: exc where
  "unrepresentable = ValueError (str ''cannot be represented exactly as a Python datetime'')"

definition prefix_field :: "pystr \<Rightarrow> exc + 'a \<Rightarrow> exc + 'a" where
  "prefix_field name m =
     (case m of Inl e \<Rightarrow> if is_ValueError e then Inl (ValueError (name @ str '': '' @ exc_text e)) else Inl e
      | Inr x \<Rightarrow> Inr x)"

definition parse_go_datetime_input :: "pystr \<Rightarrow> pystr \<Rightarrow> exc + datetime" where
  "parse_go_datetime_input value field_name =
     prefix_field field_name
       (ebind (go_time_parts value) (\<lambda>(p, canonical).
          if tp_year p = str ''0000'' \<or> list_ex (\<lambda>c. c \<noteq> 48) (drop 6 (opt_str (tp_fraction p)))
          then raise unrepresentable
          else if tp_offset p \<noteq> [90]
             \<and> (offset_hours (tp_offset p) > 23 \<or> offset_minutes (tp_offset p) > 59)
          then raise unrepresentable
          else ret (datetime_of_parts (canonical_parts p))))"

section \<open>RFC3339NanoTimestamp\<close>

text \<open>The value class holds its canonical text.\<close>

type_synonym nano_timestamp = pystr

definition nano_parsed :: "nano_timestamp \<Rightarrow> exc + datetime" where
  "nano_parsed wire = parse_go_datetime_input wire (str ''timestamp'')"

definition nano_from_wire :: "pystr \<Rightarrow> exc + nano_timestamp" where
  "nano_from_wire value = ebind (go_time_parts value) (\<lambda>(p, canonical). ret canonical)"

text \<open>\<open>isoformat(timespec="microseconds")\<close>.\<close>

definition pad :: "nat \<Rightarrow> int \<Rightarrow> pystr" where
  "pad n k = (let ds = digits k in replicate (n - length ds) 48 @ ds)"

definition offset_text :: "int \<Rightarrow> pystr" where
  "offset_text z =
     (let a = \<bar>z\<bar>; s = a div 1000000
      in [if z < 0 then 45 else 43] @ pad 2 (s div 3600) @ [58] @ pad 2 (s div 60 mod 60)
         @ (if s mod 60 = 0 \<and> a mod 1000000 = 0 then [] else
              [58] @ pad 2 (s mod 60)
              @ (if a mod 1000000 = 0 then [] else [46] @ pad 6 (a mod 1000000))))"

definition isoformat :: "datetime \<Rightarrow> pystr" where
  "isoformat t =
     pad 4 (dt_year t) @ [45] @ pad 2 (dt_month t) @ [45] @ pad 2 (dt_day t) @ [84]
     @ pad 2 (dt_hour t) @ [58] @ pad 2 (dt_minute t) @ [58] @ pad 2 (dt_second t) @ [46]
     @ pad 6 (dt_micro t)
     @ (case dt_offset t of None \<Rightarrow> [] | Some z \<Rightarrow> offset_text z)"

text \<open>
  \<open>.replace("+00:00", "Z")\<close>: the text occurs only at the start of the offset, so an offset
  of less than a minute leaves \<open>Z\<close> with a remainder that \<open>from_wire\<close> then refuses.
\<close>

definition replace_zero_offset :: "datetime \<Rightarrow> pystr" where
  "replace_zero_offset t =
     (case dt_offset t of
        Some z \<Rightarrow>
          isoformat (t\<lparr>dt_offset := None\<rparr>)
          @ (if take 6 (offset_text z) = str ''+00:00'' then 90 # drop 6 (offset_text z) else offset_text z)
      | None \<Rightarrow> isoformat t)"

definition nano_from_datetime :: "datetime \<Rightarrow> exc + nano_timestamp" where
  "nano_from_datetime t =
     (if dt_offset t = None then raise (ValueError (str ''timestamp requires a timezone offset''))
      else nano_from_wire (replace_zero_offset t))"

text \<open>The union \<open>RFC3339NanoTimestamp | datetime\<close> of receipt and expiry fields.\<close>

datatype time_value = NanoTime nano_timestamp | PyTime datetime

definition format_rfc3339_nano :: "time_value \<Rightarrow> exc + pystr" where
  "format_rfc3339_nano v = (case v of NanoTime w \<Rightarrow> ret w | PyTime t \<Rightarrow> nano_from_datetime t)"

section \<open>Matching a rendered timestamp\<close>

definition parts_ok :: "time_parts \<Rightarrow> bool" where
  "parts_ok p \<longleftrightarrow>
     length (tp_year p) = 4 \<and> length (tp_month p) = 2 \<and> length (tp_day p) = 2
     \<and> (length (tp_hour p) = 1 \<or> length (tp_hour p) = 2)
     \<and> length (tp_minute p) = 2 \<and> length (tp_second p) = 2
     \<and> list_all (list_all is_digit)
         [tp_year p, tp_month p, tp_day p, tp_hour p, tp_minute p, tp_second p, opt_str (tp_fraction p)]
     \<and> tp_fraction p \<noteq> Some [] \<and> is_offset (tp_offset p)"

lemma take_digits_append:
  "length ds = n \<Longrightarrow> list_all is_digit ds \<Longrightarrow> take_digits n (ds @ r) = Some (ds, r)"
  by (simp add: take_digits_def)

lemma take_digits_eq_Some:
  "take_digits n s = Some (ds, r) \<Longrightarrow> s = ds @ r \<and> length ds = n \<and> list_all is_digit ds"
  by (auto simp: take_digits_def split: if_splits)

lemma take_char_Cons [simp]: "take_char c (c # r) = Some r"
  by (simp add: take_char_def)

lemma span_digits:
  assumes "list_all is_digit ds" and "\<not> is_digit c"
  shows "takeWhile is_digit (ds @ c # r) = ds" and "dropWhile is_digit (ds @ c # r) = c # r"
  using assms by (induction ds) auto

lemma take_hour_append:
  assumes "length h = 1 \<or> length h = 2" "list_all is_digit h" "\<not> is_digit c"
  shows "take_hour (h @ c # r) = Some (h, c # r)"
  using assms by (auto simp: take_hour_def span_digits)

lemma is_offset_head:
  assumes "is_offset z"
  obtains c r where "z = c # r" "c = 90 \<or> c = 43 \<or> c = 45" "\<not> is_digit c" "c \<noteq> 46" "c \<noteq> 44"
  using assms by (cases z) (auto simp: is_offset_def is_digit_def)

lemma take_fraction_append:
  assumes "f \<noteq> Some []" "list_all is_digit (opt_str f)" "is_offset z"
  shows "take_fraction ((case f of None \<Rightarrow> [] | Some g \<Rightarrow> 46 # g) @ z) = Some (f, z)"
proof -
  obtain c r where z: "z = c # r" "\<not> is_digit c" "c \<noteq> 46" "c \<noteq> 44"
    using assms(3) by (rule is_offset_head)
  show ?thesis
    using assms(1,2) z by (cases f) (auto simp: take_fraction_def opt_str_def span_digits)
qed

lemma match_render: "parts_ok p \<Longrightarrow> match_timestamp (render_parts p) = Some p"
  by (cases p)
    (simp add: parts_ok_def match_timestamp_def render_parts_def take_digits_append
      take_hour_append is_digit_def [of 58] take_fraction_append)

lemma take_hour_eq_Some:
  "take_hour s = Some (h, r) \<Longrightarrow> s = h @ r \<and> (length h = 1 \<or> length h = 2) \<and> list_all is_digit h"
  by (auto simp: take_hour_def Let_def list_all_iff dest: set_takeWhileD split: if_splits)

lemma take_fraction_eq_Some:
  "take_fraction s = Some (f, r) \<Longrightarrow> f \<noteq> Some [] \<and> list_all is_digit (opt_str f)"
  by (auto simp: take_fraction_def Let_def opt_str_def list_all_iff dest: set_takeWhileD
      split: list.splits if_splits)

lemma match_timestamp_parts_ok:
  assumes "match_timestamp s = Some p"
  shows "parts_ok p"
proof -
  from assms show ?thesis
    by (auto simp: match_timestamp_def parts_ok_def bind_eq_Some_conv split: if_splits prod.splits
        dest!: take_digits_eq_Some take_hour_eq_Some take_fraction_eq_Some)
qed

section \<open>The canonical form\<close>

lemma list_all_pad_hour: "list_all is_digit h \<Longrightarrow> list_all is_digit (pad_hour h)"
  by (auto simp: pad_hour_def is_digit_def)

lemma canonical_parts_ok:
  assumes "parts_ok p"
  shows "parts_ok (canonical_parts p)"
proof -
  have f: "list_all is_digit (rstrip_by (\<lambda>c. c = 48) (opt_str (tp_fraction p)))"
    using assms by (auto simp: parts_ok_def intro: list_all_rstrip_by)
  have "is_offset [90]"
    by (simp add: is_offset_def)
  with assms f show ?thesis
    by (auto simp: parts_ok_def canonical_parts_def Let_def opt_str_def list_all_pad_hour pad_hour_def
        is_digit_def [of 48])
qed

lemma pad_hour_two: "length h = 1 \<or> length h = 2 \<Longrightarrow> length (pad_hour h) = 2"
  by (auto simp: pad_hour_def)

lemma canonical_parts_idem:
  assumes "parts_ok p"
  shows "canonical_parts (canonical_parts p) = canonical_parts p"
proof -
  have "pad_hour (pad_hour (tp_hour p)) = pad_hour (tp_hour p)"
    using assms by (auto simp: parts_ok_def pad_hour_def)
  moreover have "([90] :: pystr) \<noteq> str ''+00:00''" "([90] :: pystr) \<noteq> str ''-00:00''"
    by (simp_all add: str_def)
  ultimately show ?thesis
    by (cases p) (auto simp: canonical_parts_def Let_def opt_str_def)
qed

lemma digits_value_pad_hour: "length h = 1 \<or> length h = 2 \<Longrightarrow> digits_value (pad_hour h) = digits_value h"
  by (simp add: pad_hour_def digits_value_def)

lemma go_time_parts_eq_Inr_iff:
  "go_time_parts s = Inr (p, c) \<longleftrightarrow>
     match_timestamp s = Some p \<and> check_time_parts p = Inr () \<and> c = render_parts (canonical_parts p)"
  by (auto simp: go_time_parts_def ethen_eq_Inr_iff split: option.splits)

text \<open>The checks depend only on what canonicalisation keeps.\<close>

lemma check_canonical_parts:
  assumes "check_time_parts p = Inr ()" "parts_ok p"
  shows "check_time_parts (canonical_parts p) = Inr ()"
proof -
  have "length (tp_hour p) = 1 \<or> length (tp_hour p) = 2"
    using assms(2) by (simp add: parts_ok_def)
  then have "digits_value (tp_hour (canonical_parts p)) = digits_value (tp_hour p)"
    by (simp add: canonical_parts_def Let_def digits_value_pad_hour)
  moreover have "tp_year (canonical_parts p) = tp_year p" "tp_month (canonical_parts p) = tp_month p"
    "tp_day (canonical_parts p) = tp_day p" "tp_minute (canonical_parts p) = tp_minute p"
    "tp_second (canonical_parts p) = tp_second p"
    "tp_offset (canonical_parts p) = [90] \<or> tp_offset (canonical_parts p) = tp_offset p"
    by (auto simp: canonical_parts_def Let_def)
  ultimately have "date_invalid (canonical_parts p) = date_invalid p"
    "clock_invalid (canonical_parts p) = clock_invalid p"
    "offset_invalid (canonical_parts p) \<Longrightarrow> offset_invalid p"
    unfolding date_invalid_def clock_invalid_def offset_invalid_def by (simp_all only:) auto
  then show ?thesis
    using assms(1) by (auto simp: check_time_parts_def split: if_splits)
qed

lemma go_time_parts_canonical:
  assumes "go_time_parts s = Inr (p, c)"
  shows "go_time_parts c = Inr (canonical_parts p, c)"
proof -
  from assms have p: "match_timestamp s = Some p" "check_time_parts p = Inr ()"
    "c = render_parts (canonical_parts p)"
    by (simp_all add: go_time_parts_eq_Inr_iff)
  then have "parts_ok p"
    by (simp add: match_timestamp_parts_ok)
  with p show ?thesis
    by (simp add: go_time_parts_eq_Inr_iff match_render canonical_parts_ok check_canonical_parts
        canonical_parts_idem)
qed

lemma nano_from_wire_canonical:
  assumes "nano_from_wire s = Inr t"
  shows "nano_from_wire t = Inr t"
proof -
  from assms obtain p where "go_time_parts s = Inr (p, t)"
    by (auto simp: nano_from_wire_def ebind_eq_Inr_iff)
  then show ?thesis
    by (simp add: nano_from_wire_def go_time_parts_canonical)
qed

section \<open>Formatting and parsing a datetime\<close>

lemma digits_value_zeros: "digits_value (replicate n 48 @ ds) = digits_value ds"
  by (induction n) (simp_all add: digits_value_def)

lemma pad_props:
  assumes "0 \<le> k" "k < 10 ^ n" "0 < n"
  shows "length (pad n k) = n" "digits_value (pad n k) = k" "list_all is_digit (pad n k)"
proof -
  from assms obtain m where m: "n = Suc m" by (cases n) auto
  show "length (pad n k) = n"
    using length_digits [of k m] assms m by (simp add: pad_def Let_def)
  show "digits_value (pad n k) = k"
    by (simp add: pad_def Let_def digits_value_zeros digits_value_digits assms(1))
  show "list_all is_digit (pad n k)"
    using digits_is_digit [OF assms(1)]
    by (auto simp: pad_def Let_def is_digit_def list_all_iff)
qed

lemma rstrip_zeros_refill:
  assumes "length f = n"
  shows "take n (rstrip_by (\<lambda>c. c = 48) f @ replicate n 48) = f"
proof -
  obtain t where t: "list_all (\<lambda>c. c = 48) t" "f = rstrip_by (\<lambda>c. c = 48) f @ t"
    using rstrip_by_append [of "\<lambda>c. c = 48" f] by blast
  then have "t = replicate (length t) 48"
    by (simp add: list_all_iff replicate_eqI)
  moreover have "length t = n - length (rstrip_by (\<lambda>c. c = 48) f)"
    using assms arg_cong [OF t(2), of length] by simp
  ultimately have "t = replicate (n - length (rstrip_by (\<lambda>c. c = 48) f)) 48"
    by simp
  moreover have "length (rstrip_by (\<lambda>c. c = 48) f) \<le> n"
    using assms arg_cong [OF t(2), of length] by simp
  ultimately have "take n (rstrip_by (\<lambda>c. c = 48) f @ replicate n 48) = rstrip_by (\<lambda>c. c = 48) f @ t"
    by simp
  with t(2) show ?thesis by simp
qed

text \<open>The groups that the formatted text of a datetime matches.\<close>

definition datetime_parts :: "datetime \<Rightarrow> int \<Rightarrow> time_parts" where
  "datetime_parts t z =
     \<lparr>tp_year = pad 4 (dt_year t), tp_month = pad 2 (dt_month t), tp_day = pad 2 (dt_day t),
      tp_hour = pad 2 (dt_hour t), tp_minute = pad 2 (dt_minute t), tp_second = pad 2 (dt_second t),
      tp_fraction = Some (pad 6 (dt_micro t)),
      tp_offset = (if take 6 (offset_text z) = str ''+00:00'' then [90] else offset_text z)\<rparr>"

definition minute_offset :: "int \<Rightarrow> bool" where
  "minute_offset z \<longleftrightarrow> z mod 60000000 = 0 \<and> \<bar>z\<bar> < 86400000000"

lemma minute_offset_text:
  assumes "minute_offset z"
  defines "s \<equiv> \<bar>z\<bar> div 1000000"
  shows "offset_text z = [if z < 0 then 45 else 43] @ pad 2 (s div 3600) @ [58] @ pad 2 (s div 60 mod 60)"
    and "\<bar>z\<bar> = (s div 3600 * 3600 + s div 60 mod 60 * 60) * 1000000"
    and "0 \<le> s div 3600" "s div 3600 \<le> 23" "0 \<le> s div 60 mod 60" "s div 60 mod 60 \<le> 59"
proof -
  from assms(1) obtain q where q: "z = 60000000 * q"
    by (auto simp: minute_offset_def)
  then have a: "\<bar>z\<bar> = 60000000 * \<bar>q\<bar>" by simp
  then have s: "s = 60 * \<bar>q\<bar>" by (simp add: s_def)
  have "s mod 60 = 0" "\<bar>z\<bar> mod 1000000 = 0"
    by (simp_all add: s a)
  then show "offset_text z = [if z < 0 then 45 else 43] @ pad 2 (s div 3600) @ [58] @ pad 2 (s div 60 mod 60)"
    by (simp add: offset_text_def Let_def s_def)
  have "\<bar>q\<bar> < 1440"
    using assms(1) a by (simp add: minute_offset_def)
  then show "0 \<le> s div 3600" "s div 3600 \<le> 23" "0 \<le> s div 60 mod 60" "s div 60 mod 60 \<le> 59"
    by (auto simp: s)
  define n where "n = \<bar>q\<bar>"
  have "60 * n div (60 * 60) = n div 60" by (rule div_mult_mult1) simp
  then have "60 * n div 3600 = n div 60" by simp
  moreover have "60 * n div 60 = n" by simp
  moreover have "n div 60 * 60 + n mod 60 = n" by simp
  ultimately have "s div 3600 * 3600 + s div 60 mod 60 * 60 = s"
    unfolding s n_def [symmetric] by (simp only:)
  then show "\<bar>z\<bar> = (s div 3600 * 3600 + s div 60 mod 60 * 60) * 1000000"
    by (simp add: s a)
qed

lemma minute_offset_is_offset:
  assumes "minute_offset z"
  shows "length (offset_text z) = 6" "is_offset (offset_text z)"
    and "(if hd (offset_text z) = 45 then - 1 else 1)
         * (offset_hours (offset_text z) * 3600 + offset_minutes (offset_text z) * 60) * 1000000 = z"
    and "offset_hours (offset_text z) \<le> 23" "offset_minutes (offset_text z) \<le> 59"
proof -
  define h where "h = \<bar>z\<bar> div 1000000 div 3600"
  define m where "m = \<bar>z\<bar> div 1000000 div 60 mod 60"
  note mt = minute_offset_text [OF assms, folded h_def m_def]
  have h: "length (pad 2 h) = 2" "digits_value (pad 2 h) = h" "list_all is_digit (pad 2 h)"
    using pad_props [of h 2] mt by auto
  have m: "length (pad 2 m) = 2" "digits_value (pad 2 m) = m" "list_all is_digit (pad 2 m)"
    using pad_props [of m 2] mt by auto
  obtain a b where ab: "pad 2 h = [a, b]"
    using h(1) by (auto simp: length_Suc_conv numeral_2_eq_2)
  obtain c d where cd: "pad 2 m = [c, d]"
    using m(1) by (auto simp: length_Suc_conv numeral_2_eq_2)
  have o: "offset_text z = [if z < 0 then 45 else 43, a, b, 58, c, d]"
    using mt(1) by (simp add: ab cd)
  then show "length (offset_text z) = 6" "is_offset (offset_text z)"
    using h(3) m(3) by (simp_all add: ab cd is_offset_def)
  have hm: "offset_hours (offset_text z) = h" "offset_minutes (offset_text z) = m"
    using h(2) m(2) by (simp_all add: o ab cd offset_hours_def offset_minutes_def)
  then show "offset_hours (offset_text z) \<le> 23" "offset_minutes (offset_text z) \<le> 59"
    using mt by simp_all
  show "(if hd (offset_text z) = 45 then - 1 else 1)
      * (offset_hours (offset_text z) * 3600 + offset_minutes (offset_text z) * 60) * 1000000 = z"
    unfolding hm using mt(2) by (auto simp: o abs_if split: if_splits)
qed

lemma replace_zero_offset_render:
  assumes "dt_offset t = Some z" "minute_offset z"
  shows "replace_zero_offset t = render_parts (datetime_parts t z)"
  using minute_offset_is_offset(1) [OF assms(2)] assms(1)
  by (simp add: replace_zero_offset_def render_parts_def datetime_parts_def isoformat_def)

lemma days_in_month_le: "days_in_month y m \<le> 31"
  by (simp add: days_in_month_def)

lemma datetime_fields:
  assumes "datetime_ok t"
  shows "0 \<le> dt_year t" "dt_year t < 10 ^ 4" "0 \<le> dt_month t" "dt_month t < 10 ^ 2"
    "0 \<le> dt_day t" "dt_day t < 10 ^ 2" "0 \<le> dt_hour t" "dt_hour t < 10 ^ 2"
    "0 \<le> dt_minute t" "dt_minute t < 10 ^ 2" "0 \<le> dt_second t" "dt_second t < 10 ^ 2"
    "0 \<le> dt_micro t" "dt_micro t < 10 ^ 6"
  using assms days_in_month_le [of "dt_year t" "dt_month t"]
  by (auto simp: datetime_ok_def date_ok_def)

lemma datetime_parts_ok:
  assumes "datetime_ok t" "minute_offset z"
  shows "parts_ok (datetime_parts t z)"
proof -
  note f = datetime_fields [OF assms(1)]
  have "pad 6 (dt_micro t) \<noteq> []"
    using pad_props(1) [of "dt_micro t" 6] f by auto
  then show ?thesis
    using f minute_offset_is_offset(2) [OF assms(2)]
    by (simp add: parts_ok_def datetime_parts_def pad_props opt_str_def is_offset_def)
qed

lemma datetime_parts_check:
  assumes "datetime_ok t" "minute_offset z"
  shows "check_time_parts (datetime_parts t z) = Inr ()"
proof -
  note f = datetime_fields [OF assms(1)]
  have "\<not> date_invalid (datetime_parts t z)" "\<not> clock_invalid (datetime_parts t z)"
    using f assms(1)
    by (simp_all add: date_invalid_def clock_invalid_def datetime_parts_def pad_props datetime_ok_def)
  moreover have "\<not> offset_invalid (datetime_parts t z)"
    using minute_offset_is_offset(4,5) [OF assms(2)]
    by (auto simp: offset_invalid_def datetime_parts_def)
  ultimately show ?thesis
    by (simp add: check_time_parts_def)
qed

lemma canonical_datetime:
  assumes "datetime_ok t" "dt_offset t = Some z" "minute_offset z"
  shows "datetime_of_parts (canonical_parts (datetime_parts t z)) = t"
proof -
  note f = datetime_fields [OF assms(1)]
  define c where "c = canonical_parts (datetime_parts t z)"
  have fr: "opt_str (tp_fraction c) = rstrip_by (\<lambda>c. c = 48) (pad 6 (dt_micro t))"
    by (simp add: c_def canonical_parts_def datetime_parts_def Let_def opt_str_def)
  have micro: "digits_value (take 6 (opt_str (tp_fraction c) @ replicate 6 48)) = dt_micro t"
    unfolding fr using f(13,14) pad_props(1,2) [of "dt_micro t" 6]
    by (subst rstrip_zeros_refill) auto
  have zero: "z = 0" if "offset_text z = str ''+00:00'' \<or> offset_text z = str ''-00:00''"
    using that minute_offset_is_offset(3) [OF assms(3)]
    by (auto simp: str_def offset_hours_def offset_minutes_def digits_value_def)
  have off: "(if tp_offset c = [90] then 0
      else (if hd (tp_offset c) = 45 then - 1 else 1)
           * (offset_hours (tp_offset c) * 3600 + offset_minutes (tp_offset c) * 60) * 1000000) = z"
    using zero minute_offset_is_offset(1,3) [OF assms(3)]
    by (auto simp: c_def canonical_parts_def datetime_parts_def Let_def)
  have hour: "digits_value (tp_hour c) = dt_hour t"
    using f by (simp add: c_def canonical_parts_def datetime_parts_def Let_def pad_hour_def pad_props)
  have rest: "digits_value (tp_year c) = dt_year t" "digits_value (tp_month c) = dt_month t"
    "digits_value (tp_day c) = dt_day t" "digits_value (tp_minute c) = dt_minute t"
    "digits_value (tp_second c) = dt_second t"
    using f by (simp_all add: c_def canonical_parts_def datetime_parts_def Let_def pad_props)
  show ?thesis
    unfolding c_def [symmetric] datetime_of_parts_def micro off hour rest using assms(2) by (cases t) simp
qed

lemma datetime_roundtrip:
  assumes "datetime_ok t" "dt_offset t = Some z" "minute_offset z"
  shows "\<exists>w. nano_from_datetime t = Inr w \<and> nano_parsed w = Inr t"
proof -
  define p where "p = datetime_parts t z"
  define w where "w = render_parts (canonical_parts p)"
  have ok: "parts_ok p" "check_time_parts p = Inr ()"
    using assms by (simp_all add: p_def datetime_parts_ok datetime_parts_check)
  then have g: "go_time_parts (render_parts p) = Inr (p, w)"
    by (simp add: go_time_parts_eq_Inr_iff match_render w_def)
  then have n: "nano_from_datetime t = Inr w"
    using assms by (simp add: nano_from_datetime_def replace_zero_offset_render p_def nano_from_wire_def)
  have f: "length (opt_str (tp_fraction (canonical_parts p))) \<le> 6"
    using datetime_fields(13,14) [OF assms(1)]
      rstrip_by_append [of "\<lambda>c. c = 48" "pad 6 (dt_micro t)"] pad_props(1) [of "dt_micro t" 6]
    by (auto simp: p_def datetime_parts_def canonical_parts_def Let_def opt_str_def)
      (metis le_add1 length_append)
  have y: "tp_year (canonical_parts p) \<noteq> str ''0000''"
    using pad_props(2) [OF datetime_fields(1,2) [OF assms(1)]] assms(1)
    by (auto simp: p_def datetime_parts_def canonical_parts_def Let_def datetime_ok_def date_ok_def
        str_def digits_value_def)
  have o: "tp_offset (canonical_parts p) \<noteq> [90] \<Longrightarrow>
      offset_hours (tp_offset (canonical_parts p)) \<le> 23 \<and> offset_minutes (tp_offset (canonical_parts p)) \<le> 59"
    using minute_offset_is_offset(4,5) [OF assms(3)]
    by (auto simp: p_def datetime_parts_def canonical_parts_def Let_def split: if_splits)
  have "nano_parsed w = Inr (datetime_of_parts (canonical_parts (canonical_parts p)))"
    using go_time_parts_canonical [OF g] f y o
    by (auto simp: nano_parsed_def parse_go_datetime_input_def prefix_field_def)
  then have "nano_parsed w = Inr t"
    using canonical_datetime [OF assms] ok by (simp add: canonical_parts_idem p_def)
  with n show ?thesis by blast
qed

end
