(* ===== verification/Results.thy ===== *)
theory Results
  imports Definitions Timestamps
begin

text \<open>
  \<^verbatim>\<open>sdkpython/src/dex_connectors/sdk/types.py\<close>, third part: receipts, terminal results and
  provider attempts.  A constructor whose \<open>__post_init__\<close> can raise is a function to a result.
  The Python value \<open>None\<close> of a generic field is \<open>None\<close> of an option.  The lemmas classify the
  attempts that can be constructed and show the wire round trips.
\<close>

section \<open>Receipts\<close>

text \<open>\<open>from_wire\<close> does not check the two provider identifiers, so they are \<open>json\<close>.\<close>

record receipt =
  rc_call_id :: pystr
  rc_provider :: pystr
  rc_observed_at :: time_value
  rc_idempotency_key :: pystr
  rc_provider_object_id :: json
  rc_provider_request_id :: json
  rc_metadata :: "(pystr, pystr) dict"

definition utc_min :: datetime where
  "utc_min = \<lparr>dt_year = 1, dt_month = 1, dt_day = 1, dt_hour = 0, dt_minute = 0, dt_second = 0,
              dt_micro = 0, dt_offset = Some 0\<rparr>"

definition zero_receipt :: receipt where
  "zero_receipt =
     \<lparr>rc_call_id = [], rc_provider = [], rc_observed_at = PyTime utc_min, rc_idempotency_key = [],
      rc_provider_object_id = JStr [], rc_provider_request_id = JStr [], rc_metadata = []\<rparr>"

definition receipt_to_wire :: "receipt \<Rightarrow> exc + jobj" where
  "receipt_to_wire r =
     ebind (format_rfc3339_nano (rc_observed_at r)) (\<lambda>t.
     ret ([(str ''callId'', JStr (rc_call_id r)), (str ''provider'', JStr (rc_provider r)),
           (str ''observedAt'', JStr t)]
          @ (if rc_idempotency_key r \<noteq> [] then [(str ''idempotencyKey'', JStr (rc_idempotency_key r))] else [])
          @ (if truthy (rc_provider_object_id r) then [(str ''providerObjectId'', rc_provider_object_id r)] else [])
          @ (if truthy (rc_provider_request_id r)
             then [(str ''providerRequestId'', rc_provider_request_id r)] else [])
          @ (if rc_metadata r \<noteq> []
             then [(str ''metadata'', JObj (map (\<lambda>(k, v). (k, JStr v)) (rc_metadata r)))] else [])))"

definition receipt_from_wire :: "json \<Rightarrow> exc + receipt" where
  "receipt_from_wire value =
     (case value of
        JObj d \<Rightarrow>
          let field = (\<lambda>k. get_or d k JNull);
              call_id = str_value (field (str ''callId''))
          in if \<not> is_str (field (str ''callId'')) \<or> \<not> is_str (field (str ''provider''))
                \<or> \<not> is_str (field (str ''observedAt''))
             then raise (ValueError (str ''receipt fields are invalid''))
             else
               (case get_or d (str ''metadata'') (JObj []) of
                  JObj m \<Rightarrow>
                    if \<not> list_all (\<lambda>(k, v). is_str v) m
                    then raise (ValueError (str ''receipt metadata is invalid''))
                    else
                      ethen (if call_id \<noteq> [] then call_id_validate call_id else ret ())
                        (ebind (nano_from_wire (str_value (field (str ''observedAt'')))) (\<lambda>t.
                           ret \<lparr>rc_call_id = call_id,
                                rc_provider = str_value (field (str ''provider'')),
                                rc_observed_at = NanoTime t,
                                rc_idempotency_key = py_str (get_or d (str ''idempotencyKey'') (JStr [])),
                                rc_provider_object_id = get_or d (str ''providerObjectId'') (JStr []),
                                rc_provider_request_id = get_or d (str ''providerRequestId'') (JStr []),
                                rc_metadata = map (\<lambda>(k, v). (k, str_value v)) m\<rparr>))
                | _ \<Rightarrow> raise (ValueError (str ''receipt metadata is invalid'')))
      | _ \<Rightarrow> raise (ValueError (str ''receipt must be an object'')))"

section \<open>Results\<close>

text \<open>\<open>QueryResult\<close> and \<open>MutationResult\<close> have the same fields.\<close>

record 'v op_result =
  rs_branch :: pystr
  rs_value :: "'v option"
  rs_receipt :: receipt
  rs_failure :: "failure option"

definition optional_failure_validate :: "failure option \<Rightarrow> exc + unit" where
  "optional_failure_validate f = (case f of None \<Rightarrow> ret () | Some x \<Rightarrow> failure_validate x)"

definition query_result ::
  "pystr \<Rightarrow> 'v option \<Rightarrow> receipt \<Rightarrow> failure option \<Rightarrow> exc + 'v op_result" where
  "query_result branch value receipt failure =
     (if branch = [] \<or> branch = UNCERTAIN_BRANCH_ID
      then raise (ValueError (str ''Query result branch is invalid''))
      else ethen (optional_failure_validate failure)
        (ret \<lparr>rs_branch = branch, rs_value = value, rs_receipt = receipt, rs_failure = failure\<rparr>))"

definition mutation_result ::
  "pystr \<Rightarrow> 'v option \<Rightarrow> receipt \<Rightarrow> failure option \<Rightarrow> exc + 'v op_result" where
  "mutation_result branch value receipt failure =
     (if branch = [] \<or> (branch = UNCERTAIN_BRANCH_ID \<and> failure = None)
      then raise (ValueError (str ''Mutation result branch is invalid''))
      else ethen (optional_failure_validate failure)
        (ret \<lparr>rs_branch = branch, rs_value = value, rs_receipt = receipt, rs_failure = failure\<rparr>))"

text \<open>The wire form carries the value itself, a JSON value here.\<close>

definition value_json :: "json option \<Rightarrow> json" where
  "value_json v = (case v of None \<Rightarrow> JNull | Some j \<Rightarrow> j)"

definition json_value :: "json \<Rightarrow> json option" where
  "json_value j = (if j = JNull then None else Some j)"

definition result_to_wire :: "json op_result \<Rightarrow> exc + jobj" where
  "result_to_wire r =
     ebind (receipt_to_wire (rs_receipt r)) (\<lambda>rc.
     ebind (case rs_failure r of
              None \<Rightarrow> ret []
            | Some f \<Rightarrow> ebind (failure_to_wire f) (\<lambda>fw. ret [(str ''failure'', JObj fw)])) (\<lambda>fw.
     ret ([(str ''branch'', JStr (rs_branch r)), (str ''value'', value_json (rs_value r)),
           (str ''receipt'', JObj rc)] @ fw)))"

text \<open>The decoder of either class, with the class's constructor.\<close>

definition result_from_wire ::
  "(pystr \<Rightarrow> json option \<Rightarrow> receipt \<Rightarrow> failure option \<Rightarrow> exc + json op_result) \<Rightarrow> jobj
     \<Rightarrow> exc + json op_result" where
  "result_from_wire build value =
     ebind (case dict_get value (str ''failure'') of
              None \<Rightarrow> ret None
            | Some j \<Rightarrow> ebind (failure_from_wire j) (\<lambda>f. ret (Some f))) (\<lambda>failure.
     ebind (item (JObj value) (str ''branch'')) (\<lambda>b.
     ebind (item (JObj value) (str ''value'')) (\<lambda>v.
     ebind (item (JObj value) (str ''receipt'')) (\<lambda>rj.
     ebind (receipt_from_wire rj) (\<lambda>rc.
     build (py_str b) (json_value v) rc failure)))))"

section \<open>Attempts\<close>

text \<open>\<open>QueryAttempt\<close> and \<open>MutationAttempt\<close>; the kind is the literal of the source.\<close>

record 'v attempt =
  at_kind :: pystr
  at_branch :: pystr
  at_value :: "'v option"
  at_receipt :: "receipt option"
  at_failure :: "failure option"
  at_delay :: pyfloat

definition retry_malformed :: "'v attempt \<Rightarrow> bool" where
  "retry_malformed a \<longleftrightarrow>
     at_failure a = None \<or> float_lt (at_delay a) (Fin 0) \<or> \<not> is_finite (at_delay a)
     \<or> at_branch a \<noteq> [] \<or> at_receipt a \<noteq> None \<or> at_value a \<noteq> None"

definition query_attempt_check :: "'v attempt \<Rightarrow> exc + unit" where
  "query_attempt_check a =
     ethen
       (if at_kind a = str ''retry''
        then ensure (\<not> retry_malformed a)
               (ValueError (str ''Query retry requires failure and nonnegative delay''))
        else if at_kind a = str ''branch''
        then ensure (\<not> (at_branch a = [] \<or> at_branch a = UNCERTAIN_BRANCH_ID \<or> at_receipt a = None
                        \<or> float_nonzero (at_delay a)))
               (ValueError (str ''Query branch requires route and receipt''))
        else raise (ValueError (str ''Query attempt kind is invalid'')))
       (optional_failure_validate (at_failure a))"

definition mutation_attempt_check :: "'v attempt \<Rightarrow> exc + unit" where
  "mutation_attempt_check a =
     ethen
       (if at_kind a = str ''retry''
        then ensure (\<not> retry_malformed a)
               (ValueError (str ''Mutation retry requires failure and nonnegative delay''))
        else if at_kind a = str ''branch'' \<or> at_kind a = str ''uncertain''
        then
          ethen (ensure (\<not> (at_branch a = [] \<or> at_receipt a = None \<or> float_nonzero (at_delay a)))
                  (ValueError (str ''Mutation terminal outcome requires route and receipt'')))
          (ethen (ensure (\<not> (at_kind a = str ''branch'' \<and> at_branch a = UNCERTAIN_BRANCH_ID))
                  (ValueError (str ''uncertainty requires an uncertain Mutation attempt'')))
            (ensure (\<not> (at_kind a = str ''uncertain''
                         \<and> (at_branch a \<noteq> UNCERTAIN_BRANCH_ID \<or> at_failure a = None)))
                  (ValueError (str ''uncertain Mutation requires failure and uncertainty route''))))
        else raise (ValueError (str ''Mutation attempt kind is invalid'')))
       (optional_failure_validate (at_failure a))"

text \<open>The attempts the class methods build, before \<open>__post_init__\<close>.\<close>

definition branch_attempt :: "pystr \<Rightarrow> 'v option \<Rightarrow> receipt \<Rightarrow> failure option \<Rightarrow> 'v attempt" where
  "branch_attempt branch value receipt failure =
     \<lparr>at_kind = str ''branch'', at_branch = branch, at_value = value, at_receipt = Some receipt,
      at_failure = failure, at_delay = Fin 0\<rparr>"

definition retry_attempt :: "failure \<Rightarrow> pyfloat \<Rightarrow> 'v attempt" where
  "retry_attempt failure delay =
     \<lparr>at_kind = str ''retry'', at_branch = [], at_value = None, at_receipt = None,
      at_failure = Some failure, at_delay = delay\<rparr>"

definition uncertain_attempt :: "'v option \<Rightarrow> failure \<Rightarrow> receipt \<Rightarrow> 'v attempt" where
  "uncertain_attempt value failure receipt =
     \<lparr>at_kind = str ''uncertain'', at_branch = UNCERTAIN_BRANCH_ID, at_value = value,
      at_receipt = Some receipt, at_failure = Some failure, at_delay = Fin 0\<rparr>"

definition checked :: "('v attempt \<Rightarrow> exc + unit) \<Rightarrow> 'v attempt \<Rightarrow> exc + 'v attempt" where
  "checked check a = ethen (check a) (ret a)"

section \<open>Properties of attempts\<close>

lemma float_zero_iff: "\<not> float_nonzero x \<longleftrightarrow> x = Fin 0"
  by (cases x) auto

definition sound_delay :: "pyfloat \<Rightarrow> bool" where
  "sound_delay d \<longleftrightarrow> \<not> float_lt d (Fin 0) \<and> is_finite d"

text \<open>Exactly the attempts built by the class methods from valid parts pass the check.\<close>

lemma query_attempt_check_iff:
  "query_attempt_check a = Inr () \<longleftrightarrow>
     (\<exists>f d. a = retry_attempt f d \<and> failure_validate f = Inr () \<and> sound_delay d)
     \<or> (\<exists>b v r f. a = branch_attempt b v r f \<and> b \<noteq> [] \<and> b \<noteq> UNCERTAIN_BRANCH_ID
          \<and> optional_failure_validate f = Inr ())"
  by (cases a)
    (auto simp: query_attempt_check_def retry_malformed_def retry_attempt_def branch_attempt_def
      ethen_eq_Inr_iff optional_failure_validate_def float_zero_iff sound_delay_def split: if_splits)

lemma mutation_attempt_check_iff:
  "mutation_attempt_check a = Inr () \<longleftrightarrow>
     (\<exists>f d. a = retry_attempt f d \<and> failure_validate f = Inr () \<and> sound_delay d)
     \<or> (\<exists>b v r f. a = branch_attempt b v r f \<and> b \<noteq> [] \<and> b \<noteq> UNCERTAIN_BRANCH_ID
          \<and> optional_failure_validate f = Inr ())
     \<or> (\<exists>v r f. a = uncertain_attempt v f r \<and> failure_validate f = Inr ())"
proof -
  have u: "UNCERTAIN_BRANCH_ID \<noteq> []" by (simp add: UNCERTAIN_BRANCH_ID_def)
  show ?thesis
    by (cases a)
      (auto simp: mutation_attempt_check_def retry_malformed_def retry_attempt_def branch_attempt_def
        uncertain_attempt_def ethen_eq_Inr_iff optional_failure_validate_def float_zero_iff
        sound_delay_def u split: if_splits)
qed

section \<open>Wire round trips\<close>

text \<open>
  Decoding turns the observation time into a timestamp value; a receipt that holds a canonical
  timestamp and plain identifiers survives the wire unchanged.
\<close>

definition receipt_canonical :: "receipt \<Rightarrow> bool" where
  "receipt_canonical r \<longleftrightarrow>
     (rc_call_id r = [] \<or> call_id_validate (rc_call_id r) = Inr ())
     \<and> (case rc_observed_at r of NanoTime t \<Rightarrow> nano_from_wire t = Inr t | PyTime _ \<Rightarrow> False)
     \<and> is_str (rc_provider_object_id r) \<and> is_str (rc_provider_request_id r)"

lemma str_cases: "is_str j \<Longrightarrow> \<exists>s. j = JStr s"
  by (cases j) auto

lemma receipt_roundtrip:
  assumes "receipt_canonical r"
  shows "\<exists>w. receipt_to_wire r = Inr w \<and> receipt_from_wire (JObj w) = Inr r"
proof -
  obtain t where t: "rc_observed_at r = NanoTime t" "nano_from_wire t = Inr t"
    using assms by (auto simp: receipt_canonical_def split: time_value.splits)
  obtain a b where ab: "rc_provider_object_id r = JStr a" "rc_provider_request_id r = JStr b"
    using assms unfolding receipt_canonical_def by (metis str_cases)
  have m: "map ((\<lambda>(k, v). (k, str_value v)) \<circ> (\<lambda>(k, v). (k, JStr v))) m = m" for m :: "(pystr, pystr) dict"
    by (induction m) auto
  have ms: "list_all (\<lambda>(k, v). is_str v) (map (\<lambda>(k, v). (k, JStr v)) m)" for m :: "(pystr, pystr) dict"
    by (auto simp: list_all_iff)
  obtain w where w: "receipt_to_wire r = Inr w"
    by (simp add: receipt_to_wire_def t format_rfc3339_nano_def)
  then have g: "get_or w (str ''callId'') JNull = JStr (rc_call_id r)"
    "get_or w (str ''provider'') JNull = JStr (rc_provider r)"
    "get_or w (str ''observedAt'') JNull = JStr t"
    "get_or w (str ''idempotencyKey'') (JStr []) = JStr (rc_idempotency_key r)"
    "get_or w (str ''providerObjectId'') (JStr []) = JStr a"
    "get_or w (str ''providerRequestId'') (JStr []) = JStr b"
    "get_or w (str ''metadata'') (JObj []) = JObj (map (\<lambda>(k, v). (k, JStr v)) (rc_metadata r))"
    by (auto simp: receipt_to_wire_def t ab format_rfc3339_nano_def get_or_def)
  have "receipt_from_wire (JObj w) = Inr r"
    using assms t ab
    by (cases r) (auto simp: receipt_from_wire_def g m ms receipt_canonical_def Let_def)
  with w show ?thesis by blast
qed

lemma result_roundtrip:
  assumes "receipt_canonical (rs_receipt r)" "rs_value r \<noteq> Some JNull"
    and "optional_failure_validate (rs_failure r) = Inr ()"
    and "build (rs_branch r) (rs_value r) (rs_receipt r) (rs_failure r) = Inr r"
  shows "\<exists>w. result_to_wire r = Inr w \<and> result_from_wire build w = Inr r"
proof -
  obtain rc where rc: "receipt_to_wire (rs_receipt r) = Inr rc"
    "receipt_from_wire (JObj rc) = Inr (rs_receipt r)"
    using receipt_roundtrip [OF assms(1)] by blast
  have v: "json_value (value_json (rs_value r)) = rs_value r"
    using assms(2) by (auto simp: json_value_def value_json_def split: option.splits)
  show ?thesis
  proof (cases "rs_failure r")
    case None
    with rc v assms(4) show ?thesis
      by (auto simp: result_to_wire_def result_from_wire_def item_JObj)
  next
    case (Some f)
    with assms(3) obtain fw where "failure_to_wire f = Inr fw"
      by (auto simp: optional_failure_validate_def failure_to_wire_def)
    with rc v assms(4) Some failure_roundtrip [of f fw] show ?thesis
      by (auto simp: result_to_wire_def result_from_wire_def item_JObj)
  qed
qed

text \<open>Both constructors accept what they built, so both kinds of result survive the wire.\<close>

lemma query_result_eq_Inr_iff:
  "query_result b v rc f = Inr r \<longleftrightarrow> b \<noteq> [] \<and> b \<noteq> UNCERTAIN_BRANCH_ID
     \<and> optional_failure_validate f = Inr ()
     \<and> r = \<lparr>rs_branch = b, rs_value = v, rs_receipt = rc, rs_failure = f\<rparr>"
  by (auto simp: query_result_def ethen_eq_Inr_iff)

lemma mutation_result_eq_Inr_iff:
  "mutation_result b v rc f = Inr r \<longleftrightarrow> b \<noteq> [] \<and> (b = UNCERTAIN_BRANCH_ID \<longrightarrow> f \<noteq> None)
     \<and> optional_failure_validate f = Inr ()
     \<and> r = \<lparr>rs_branch = b, rs_value = v, rs_receipt = rc, rs_failure = f\<rparr>"
  by (auto simp: mutation_result_def ethen_eq_Inr_iff)

lemma receipt_from_wire_canonical:
  assumes "receipt_from_wire j = Inr r"
    and "is_str (rc_provider_object_id r)" "is_str (rc_provider_request_id r)"
  shows "receipt_canonical r"
  using assms
  by (auto simp: receipt_from_wire_def receipt_canonical_def Let_def ethen_eq_Inr_iff ebind_eq_Inr_iff
      dest: nano_from_wire_canonical split: json.splits if_splits)

end
