(* ===== verification/Operations.thy ===== *)
theory Operations
  imports Results
begin

text \<open>
  \<^verbatim>\<open>sdkpython/src/dex_connectors/sdk/operations.py\<close>: running one Query or Mutation and
  validating what the provider code returned.  A provider operation is a record of its
  definition, its idempotency key function and its \<open>invoke\<close>, which acts on a world \<open>'w\<close> and
  returns an attempt, an object that is none (\<open>None\<close>), or raises.  \<open>now\<close> reads the clock.
  The lemmas show that a run ends in a declared route, in the defect route or in a retry,
  that the receipt always names the call, and that uncertainty only comes from an uncertain
  attempt.
\<close>

record ('i, 'v, 'w) provider_operation =
  op_definition :: op_definition
  op_idempotency_key :: "pystr \<Rightarrow> 'i \<Rightarrow> exc + pystr"
  op_invoke :: "call \<Rightarrow> 'i \<Rightarrow> 'w \<Rightarrow> (exc + 'v attempt option) \<times> 'w"

section \<open>Helpers\<close>

definition validate_call :: "call \<Rightarrow> operation_ref \<Rightarrow> exc + unit" where
  "validate_call c operation =
     ethen (call_id_validate (call_id c))
       (ethen (connection_ref_validate (call_connection c))
         (ensure (call_operation c = operation)
           (ValueError (str ''call operation does not match the definition''))))"

text \<open>A naive \<open>datetime\<close> never equals an aware one.\<close>

definition is_zero_time :: "time_value \<Rightarrow> exc + bool" where
  "is_zero_time v =
     (case v of
        NanoTime t \<Rightarrow> ebind (nano_parsed t) (\<lambda>d. ret (dt_instant d = dt_instant utc_min))
      | PyTime d \<Rightarrow> ret (dt_offset d \<noteq> None \<and> dt_instant d = dt_instant utc_min))"

definition complete_receipt :: "datetime \<Rightarrow> receipt option \<Rightarrow> call \<Rightarrow> exc + receipt" where
  "complete_receipt now ro c =
     (case ro of
        None \<Rightarrow> raise (ValueError (str ''operation returned no receipt''))
      | Some r \<Rightarrow>
        if rc_call_id r \<noteq> [] \<and> rc_call_id r \<noteq> call_id c
        then raise (ValueError (str ''operation returned a receipt for another call''))
        else if rc_idempotency_key r \<noteq> [] \<and> rc_idempotency_key r \<noteq> call_idempotency_key c
        then raise (ValueError (str ''operation returned a receipt with another idempotency key''))
        else ebind (is_zero_time (rc_observed_at r)) (\<lambda>zero.
          ret (r\<lparr>rc_call_id := call_id c,
                 rc_provider := (if rc_provider r \<noteq> [] then rc_provider r
                                 else connector_id (call_operation c)),
                 rc_idempotency_key := call_idempotency_key c,
                 rc_observed_at := (if zero then PyTime now else rc_observed_at r)\<rparr>)))"

definition raise_retry :: "failure option \<Rightarrow> pyfloat \<Rightarrow> exc + 'a" where
  "raise_retry f delay =
     (case f of
        None \<Rightarrow> raise (ValueError (str ''retry attempt requires a failure''))
      | Some x \<Rightarrow> raise (new_retry_error x delay))"

definition local_failure :: "call \<Rightarrow> pystr \<Rightarrow> failure" where
  "local_failure c message =
     \<lparr>fkind = LOCAL_DEFECT, fprovider = connector_id (call_operation c),
      foperation = operation_id (call_operation c), fmessage = message\<rparr>"

definition defect_receipt :: "datetime \<Rightarrow> call \<Rightarrow> receipt" where
  "defect_receipt now c =
     zero_receipt\<lparr>rc_call_id := call_id c, rc_provider := connector_id (call_operation c),
                  rc_observed_at := PyTime now, rc_idempotency_key := call_idempotency_key c\<rparr>"

definition query_defect :: "datetime \<Rightarrow> call \<Rightarrow> pystr \<Rightarrow> exc + 'v op_result" where
  "query_defect now c message =
     query_result (str ''defect'') None (defect_receipt now c) (Some (local_failure c message))"

definition mutation_defect :: "datetime \<Rightarrow> call \<Rightarrow> pystr \<Rightarrow> exc + 'v op_result" where
  "mutation_defect now c message =
     mutation_result (str ''defect'') None (defect_receipt now c) (Some (local_failure c message))"

section \<open>Queries\<close>

definition declared_ids :: "op_definition \<Rightarrow> pystr set" where
  "declared_ids d = br_id ` set (od_branch_list d)"

text \<open>The part of \<open>run_query\<close> after the provider returned an attempt.\<close>

definition conclude_query :: "datetime \<Rightarrow> op_definition \<Rightarrow> call \<Rightarrow> 'v attempt \<Rightarrow> exc + 'v op_result" where
  "conclude_query now d c a =
     (if at_kind a = str ''retry'' then raise_retry (at_failure a) (at_delay a)
      else if at_branch a \<notin> declared_ids d
      then query_defect now c (str ''query returned an unknown branch'')
      else
        (case complete_receipt now (at_receipt a) c of
           Inl e \<Rightarrow> if is_ValueError e then query_defect now c (exc_text e) else raise e
         | Inr r \<Rightarrow> query_result (at_branch a) (at_value a) r (at_failure a)))"

definition invoke_query ::
  "('w \<Rightarrow> datetime) \<Rightarrow> ('i, 'v, 'w) provider_operation \<Rightarrow> call \<Rightarrow> 'i \<Rightarrow> 'w
     \<Rightarrow> (exc + 'v op_result) \<times> 'w" where
  "invoke_query now operation c input w =
     (case op_invoke operation c input w of
        (Inl e, w') \<Rightarrow>
          (if is_ValueError e then query_defect (now w') c (str ''query returned an invalid attempt'')
           else raise e, w')
      | (Inr None, w') \<Rightarrow> (query_defect (now w') c (str ''query returned an invalid attempt''), w')
      | (Inr (Some a), w') \<Rightarrow> (conclude_query (now w') (op_definition operation) c a, w'))"

definition run_query ::
  "('w \<Rightarrow> datetime) \<Rightarrow> ('i, 'v, 'w) provider_operation \<Rightarrow> call \<Rightarrow> 'i \<Rightarrow> 'w
     \<Rightarrow> (exc + 'v op_result) \<times> 'w" where
  "run_query now operation c input w =
     (let d = op_definition operation in
      case ethen (query_definition_validate d) (validate_call c (od_operation d)) of
        Inl e \<Rightarrow> (if is_ValueError e then query_defect (now w) c (exc_text e) else raise e, w)
      | Inr _ \<Rightarrow> invoke_query now operation c input w)"

section \<open>Mutations\<close>

definition conclude_mutation ::
  "datetime \<Rightarrow> op_definition \<Rightarrow> call \<Rightarrow> 'v attempt \<Rightarrow> exc + 'v op_result" where
  "conclude_mutation now d c a =
     (if at_kind a = str ''retry'' then raise_retry (at_failure a) (at_delay a)
      else if at_branch a \<notin> declared_ids d
      then mutation_defect now c (str ''mutation returned an unknown branch'')
      else if at_kind a = str ''uncertain'' \<and> at_branch a \<noteq> str ''uncertain''
      then mutation_defect now c (str ''mutation returned invalid uncertainty'')
      else
        (case complete_receipt now (at_receipt a) c of
           Inl e \<Rightarrow> if is_ValueError e then mutation_defect now c (exc_text e) else raise e
         | Inr r \<Rightarrow> mutation_result (at_branch a) (at_value a) r (at_failure a)))"

definition invoke_mutation ::
  "('w \<Rightarrow> datetime) \<Rightarrow> ('i, 'v, 'w) provider_operation \<Rightarrow> call \<Rightarrow> 'i \<Rightarrow> 'w
     \<Rightarrow> (exc + 'v op_result) \<times> 'w" where
  "invoke_mutation now operation c input w =
     (case op_invoke operation c input w of
        (Inl e, w') \<Rightarrow>
          (if is_ValueError e then mutation_defect (now w') c (str ''mutation returned an invalid attempt'')
           else raise e, w')
      | (Inr None, w') \<Rightarrow> (mutation_defect (now w') c (str ''mutation returned an invalid attempt''), w')
      | (Inr (Some a), w') \<Rightarrow> (conclude_mutation (now w') (op_definition operation) c a, w'))"

text \<open>\<open>operation.idempotency_key(call.id, input) or IdempotencyKey(call.id)\<close>.\<close>

definition mutation_key :: "('i, 'v, 'w) provider_operation \<Rightarrow> pystr \<Rightarrow> 'i \<Rightarrow> exc + pystr" where
  "mutation_key operation i input =
     ebind (op_idempotency_key operation i input) (\<lambda>k. ret (if k \<noteq> [] then k else i))"

definition run_mutation ::
  "('w \<Rightarrow> datetime) \<Rightarrow> ('i, 'v, 'w) provider_operation \<Rightarrow> call \<Rightarrow> 'i \<Rightarrow> 'w
     \<Rightarrow> (exc + 'v op_result) \<times> 'w" where
  "run_mutation now operation c input w =
     (let d = op_definition operation in
      case ethen (mutation_definition_validate d) (validate_call c (od_operation d)) of
        Inl e \<Rightarrow> (if is_ValueError e then mutation_defect (now w) c (exc_text e) else raise e, w)
      | Inr _ \<Rightarrow>
        (case mutation_key operation (call_id c) input of
           Inl e \<Rightarrow> (raise e, w)
         | Inr key \<Rightarrow>
           if strip key = []
           then (mutation_defect (now w) c (str ''mutation returned an invalid idempotency key''), w)
           else invoke_mutation now operation (c\<lparr>call_idempotency_key := key\<rparr>) input w))"

section \<open>Contracts\<close>

text \<open>
  What a result promises: its route is declared or the defect route with a local failure, and
  its receipt names the call and its idempotency key.
\<close>

definition receipt_for :: "call \<Rightarrow> receipt \<Rightarrow> bool" where
  "receipt_for c r \<longleftrightarrow> rc_call_id r = call_id c \<and> rc_idempotency_key r = call_idempotency_key c"

definition is_local_defect :: "call \<Rightarrow> 'v op_result \<Rightarrow> bool" where
  "is_local_defect c r \<longleftrightarrow> rs_branch r = DEFECT_BRANCH_ID \<and> rs_value r = None
     \<and> (\<exists>m. rs_failure r = Some (local_failure c m))"

definition result_sound :: "op_definition \<Rightarrow> call \<Rightarrow> 'v op_result \<Rightarrow> bool" where
  "result_sound d c r \<longleftrightarrow> receipt_for c (rs_receipt r)
     \<and> (rs_branch r \<in> declared_ids d \<or> is_local_defect c r)"

lemma complete_receipt_eq_Inr:
  assumes "complete_receipt now ro c = Inr r"
  shows "receipt_for c r" "\<exists>r0. ro = Some r0 \<and> rc_metadata r = rc_metadata r0"
    "rc_provider r \<noteq> [] \<or> connector_id (call_operation c) = []"
  using assms
  by (auto simp: complete_receipt_def receipt_for_def ebind_eq_Inr_iff split: option.splits if_splits)

lemma query_defect_sound:
  assumes "query_defect now c m = Inr r"
  shows "result_sound d c r" "is_local_defect c r"
  using assms
  by (auto simp: query_defect_def query_result_eq_Inr_iff result_sound_def receipt_for_def
      is_local_defect_def defect_receipt_def DEFECT_BRANCH_ID_def)

lemma mutation_defect_sound:
  assumes "mutation_defect now c m = Inr r"
  shows "result_sound d c r" "is_local_defect c r"
  using assms
  by (auto simp: mutation_defect_def mutation_result_eq_Inr_iff result_sound_def receipt_for_def
      is_local_defect_def defect_receipt_def DEFECT_BRANCH_ID_def)

lemma raise_retry_not_Inr [simp]: "raise_retry f d \<noteq> Inr r"
  by (simp add: raise_retry_def split: option.splits)

lemma conclude_query_sound: "conclude_query now d c a = Inr r \<Longrightarrow> result_sound d c r"
  by (auto simp: conclude_query_def query_result_eq_Inr_iff result_sound_def
      dest: query_defect_sound(1) [where d = d] complete_receipt_eq_Inr(1) split: if_splits sum.splits)

lemma conclude_mutation_sound: "conclude_mutation now d c a = Inr r \<Longrightarrow> result_sound d c r"
  by (auto simp: conclude_mutation_def mutation_result_eq_Inr_iff result_sound_def
      dest: mutation_defect_sound(1) [where d = d] complete_receipt_eq_Inr(1) split: if_splits sum.splits)

lemma invoke_query_sound:
  assumes "invoke_query now operation c input w = (Inr r, w')"
  shows "result_sound (op_definition operation) c r"
  using assms
  by (auto simp: invoke_query_def dest: query_defect_sound(1) [where d = "op_definition operation"]
      conclude_query_sound split: sum.splits prod.splits option.splits if_splits)

lemma invoke_mutation_sound:
  assumes "invoke_mutation now operation c input w = (Inr r, w')"
  shows "result_sound (op_definition operation) c r"
  using assms
  by (auto simp: invoke_mutation_def dest: mutation_defect_sound(1) [where d = "op_definition operation"]
      conclude_mutation_sound split: sum.splits prod.splits option.splits if_splits)

lemma run_query_sound:
  assumes "run_query now operation c input w = (Inr r, w')"
  shows "result_sound (op_definition operation) c r"
  using assms
  by (auto simp: run_query_def Let_def dest: query_defect_sound(1) [where d = "op_definition operation"]
      invoke_query_sound split: sum.splits if_splits)

lemma run_query_not_uncertain:
  assumes "run_query now operation c input w = (Inr r, w')"
  shows "rs_branch r \<noteq> UNCERTAIN_BRANCH_ID"
  using assms
  by (auto simp: run_query_def invoke_query_def Let_def query_defect_def conclude_query_def
      query_result_eq_Inr_iff split: sum.splits prod.splits option.splits if_splits)

text \<open>
  A mutation's result names the key the operation chose, or the call's own key when the run
  ended before the provider was reached.
\<close>

lemma run_mutation_sound:
  assumes "run_mutation now operation c input w = (Inr r, w')"
  shows "(result_sound (op_definition operation) c r \<and> w' = w)
    \<or> (\<exists>k. mutation_key operation (call_id c) input = Inr k \<and> strip k \<noteq> []
         \<and> result_sound (op_definition operation) (c\<lparr>call_idempotency_key := k\<rparr>) r)"
  using assms
  by (auto simp: run_mutation_def Let_def dest: mutation_defect_sound(1) [where d = "op_definition operation"]
      invoke_mutation_sound split: sum.splits if_splits)

lemma mutation_defect_branch: "mutation_defect now c m = Inr r \<Longrightarrow> rs_branch r \<noteq> UNCERTAIN_BRANCH_ID"
  by (auto simp: mutation_defect_def mutation_result_eq_Inr_iff UNCERTAIN_BRANCH_ID_def)

text \<open>An uncertain route is reported only for an attempt that was uncertain, with its failure.\<close>

lemma run_mutation_uncertain:
  assumes "run_mutation now operation c input w = (Inr r, w')"
    and "rs_branch r = UNCERTAIN_BRANCH_ID"
    and "\<And>c' a w1. op_invoke operation c' input w = (Inr (Some a), w1) \<Longrightarrow> mutation_attempt_check a = Inr ()"
  shows "\<exists>k v f rc. op_invoke operation (c\<lparr>call_idempotency_key := k\<rparr>) input w
           = (Inr (Some (uncertain_attempt v f rc)), w')
         \<and> rs_failure r = Some f \<and> UNCERTAIN_BRANCH_ID \<in> declared_ids (op_definition operation)"
proof -
  obtain k a where a: "op_invoke operation (c\<lparr>call_idempotency_key := k\<rparr>) input w = (Inr (Some a), w')"
    and r: "conclude_mutation (now w') (op_definition operation) (c\<lparr>call_idempotency_key := k\<rparr>) a = Inr r"
    using assms(1,2)
    by (auto simp: run_mutation_def invoke_mutation_def Let_def dest: mutation_defect_branch
        split: sum.splits prod.splits option.splits if_splits)
  have b: "at_branch a = UNCERTAIN_BRANCH_ID" "rs_failure r = at_failure a"
    "UNCERTAIN_BRANCH_ID \<in> declared_ids (op_definition operation)" "at_kind a \<noteq> str ''retry''"
    using r assms(2)
    by (auto simp: conclude_mutation_def mutation_result_eq_Inr_iff dest: mutation_defect_branch
        split: if_splits sum.splits)
  with assms(3) [OF a] obtain v f rc where "a = uncertain_attempt v f rc"
    by (auto simp: mutation_attempt_check_iff branch_attempt_def retry_attempt_def)
  with a b show ?thesis
    by (auto simp: uncertain_attempt_def)
qed

section \<open>Runs end\<close>

text \<open>The exceptions of a receipt check are value errors with a text.\<close>

lemma nano_parsed_error: "nano_parsed t = Inl e \<Longrightarrow> is_ValueError e \<and> exc_text e \<noteq> []"
proof -
  have g: "is_ValueError e" if "go_time_parts t = Inl e" for e
    using that by (auto simp: go_time_parts_def check_time_parts_def ethen_eq_Inl_iff
        split: option.splits if_splits)
  show "nano_parsed t = Inl e \<Longrightarrow> is_ValueError e \<and> exc_text e \<noteq> []"
    by (auto simp: nano_parsed_def parse_go_datetime_input_def prefix_field_def ebind_def
        unrepresentable_def dest: g split: sum.splits if_splits prod.splits)
qed

lemma complete_receipt_error:
  "complete_receipt now ro c = Inl e \<Longrightarrow> is_ValueError e \<and> exc_text e \<noteq> []"
  by (auto simp: complete_receipt_def is_zero_time_def ebind_eq_Inl_iff dest: nano_parsed_error
      split: option.splits if_splits time_value.splits)

lemma validated_ids:
  assumes "operation_ref_validate p = Inr ()"
  shows "connector_id p \<noteq> []" "operation_id p \<noteq> []"
  using assms
  by (auto simp: operation_ref_validate_def is_connector_id_def is_operation_id_def split: if_splits)

lemma query_defect_total:
  assumes "operation_ref_validate (call_operation c) = Inr ()" "m \<noteq> []"
  shows "\<exists>r. query_defect now c m = Inr r"
  using validated_ids [OF assms(1)] assms(2)
  by (simp add: query_defect_def query_result_eq_Inr_iff optional_failure_validate_def
      failure_validate_def local_failure_def UNCERTAIN_BRANCH_ID_def)

lemma mutation_defect_total:
  assumes "operation_ref_validate (call_operation c) = Inr ()" "m \<noteq> []"
  shows "\<exists>r. mutation_defect now c m = Inr r"
  using validated_ids [OF assms(1)] assms(2)
  by (simp add: mutation_defect_def mutation_result_eq_Inr_iff optional_failure_validate_def
      failure_validate_def local_failure_def UNCERTAIN_BRANCH_ID_def)

lemma raise_retry_valid:
  "failure_validate f = Inr () \<Longrightarrow> sound_delay d \<Longrightarrow> raise_retry (Some f) d = Inl (RetryError f d)"
  by (simp add: raise_retry_def new_retry_error_cases sound_delay_def)

lemma conclude_query_total:
  assumes "query_attempt_check a = Inr ()" "operation_ref_validate (call_operation c) = Inr ()"
  shows "(\<exists>r. conclude_query now d c a = Inr r)
    \<or> (\<exists>f dl. a = retry_attempt f dl \<and> conclude_query now d c a = Inl (RetryError f dl))"
proof -
  note def = query_defect_total [OF assms(2)]
  from assms(1) consider
      (retry) f dl where "a = retry_attempt f dl" "failure_validate f = Inr ()" "sound_delay dl"
    | (branch) b v r f where "a = branch_attempt b v r f" "b \<noteq> []" "b \<noteq> UNCERTAIN_BRANCH_ID"
        "optional_failure_validate f = Inr ()"
    by (auto simp: query_attempt_check_iff)
  then show ?thesis
  proof cases
    case retry
    then show ?thesis
      by (simp add: conclude_query_def retry_attempt_def raise_retry_valid)
  next
    case branch
    then show ?thesis
      by (auto simp: conclude_query_def branch_attempt_def query_result_eq_Inr_iff
          intro!: def dest: complete_receipt_error split: sum.splits)
  qed
qed

lemma conclude_mutation_total:
  assumes "mutation_attempt_check a = Inr ()" "operation_ref_validate (call_operation c) = Inr ()"
  shows "(\<exists>r. conclude_mutation now d c a = Inr r)
    \<or> (\<exists>f dl. a = retry_attempt f dl \<and> conclude_mutation now d c a = Inl (RetryError f dl))"
proof -
  note def = mutation_defect_total [OF assms(2)]
  from assms(1) consider
      (retry) f dl where "a = retry_attempt f dl" "failure_validate f = Inr ()" "sound_delay dl"
    | (branch) b v r f where "a = branch_attempt b v r f" "b \<noteq> []" "b \<noteq> UNCERTAIN_BRANCH_ID"
        "optional_failure_validate f = Inr ()"
    | (uncertain) v r f where "a = uncertain_attempt v f r" "failure_validate f = Inr ()"
    by (auto simp: mutation_attempt_check_iff)
  then show ?thesis
  proof cases
    case retry
    then show ?thesis
      by (simp add: conclude_mutation_def retry_attempt_def raise_retry_valid)
  next
    case branch
    then show ?thesis
      by (auto simp: conclude_mutation_def branch_attempt_def mutation_result_eq_Inr_iff
          intro!: def dest: complete_receipt_error split: sum.splits)
  next
    case uncertain
    then show ?thesis
      by (auto simp: conclude_mutation_def uncertain_attempt_def mutation_result_eq_Inr_iff
          optional_failure_validate_def UNCERTAIN_BRANCH_ID_def
          intro!: def dest: complete_receipt_error split: sum.splits)
  qed
qed

end
