(* ===== verification/StateExc.thy ===== *)
theory StateExc
  imports Failures
begin

text \<open>
  Asynchronous methods that change a world \<open>'w\<close> and may raise: \<open>sbind\<close> is \<open>await\<close> followed by
  the rest, \<open>slift\<close> a call that only computes, \<open>scatch\<close> an \<open>except\<close> clause, which sees the
  world as the failed call left it.
\<close>

type_synonym ('a, 'w) action = "'w \<Rightarrow> (exc + 'a) \<times> 'w"

definition slift :: "exc + 'a \<Rightarrow> ('a, 'w) action" where
  "slift r w = (r, w)"

abbreviation sret :: "'a \<Rightarrow> ('a, 'w) action" where
  "sret x \<equiv> slift (Inr x)"

abbreviation sraise :: "exc \<Rightarrow> ('a, 'w) action" where
  "sraise e \<equiv> slift (Inl e)"

definition sbind :: "('a, 'w) action \<Rightarrow> ('a \<Rightarrow> ('b, 'w) action) \<Rightarrow> ('b, 'w) action" where
  "sbind m f w = (case m w of (Inl e, w') \<Rightarrow> (Inl e, w') | (Inr x, w') \<Rightarrow> f x w')"

definition scatch :: "('a, 'w) action \<Rightarrow> (exc \<Rightarrow> ('a, 'w) action) \<Rightarrow> ('a, 'w) action" where
  "scatch m h w = (case m w of (Inl e, w') \<Rightarrow> h e w' | (Inr x, w') \<Rightarrow> (Inr x, w'))"

lemma slift_apply [simp]: "slift r w = (r, w)"
  by (simp add: slift_def)

lemma sbind_slift [simp]: "sbind (slift (Inr x)) f = f x" "sbind (slift (Inl e)) f = slift (Inl e)"
  by (auto simp: sbind_def fun_eq_iff)

lemma sbind_eq_Inr_iff:
  "sbind m f w = (Inr y, w') \<longleftrightarrow> (\<exists>x w1. m w = (Inr x, w1) \<and> f x w1 = (Inr y, w'))"
  by (auto simp: sbind_def split: prod.splits sum.splits)

lemma sbind_eq_Inl_iff:
  "sbind m f w = (Inl e, w') \<longleftrightarrow>
     m w = (Inl e, w') \<or> (\<exists>x w1. m w = (Inr x, w1) \<and> f x w1 = (Inl e, w'))"
  by (auto simp: sbind_def split: prod.splits sum.splits)

lemma scatch_eq_Inr_iff:
  "scatch m h w = (Inr y, w') \<longleftrightarrow>
     m w = (Inr y, w') \<or> (\<exists>e w1. m w = (Inl e, w1) \<and> h e w1 = (Inr y, w'))"
  by (auto simp: scatch_def split: prod.splits sum.splits)

lemma scatch_eq_Inl_iff:
  "scatch m h w = (Inl e, w') \<longleftrightarrow> (\<exists>e1 w1. m w = (Inl e1, w1) \<and> h e1 w1 = (Inl e, w'))"
  by (auto simp: scatch_def split: prod.splits sum.splits)

lemma sbind_Inr: "m w = (Inr x, w1) \<Longrightarrow> sbind m f w = f x w1"
  by (simp add: sbind_def)

lemma sbind_Inl: "m w = (Inl e, w1) \<Longrightarrow> sbind m f w = (Inl e, w1)"
  by (simp add: sbind_def)

lemma scatch_Inr: "m w = (Inr x, w1) \<Longrightarrow> scatch m h w = (Inr x, w1)"
  by (simp add: scatch_def)

lemma scatch_Inl: "m w = (Inl e, w1) \<Longrightarrow> scatch m h w = h e w1"
  by (simp add: scatch_def)

lemmas state_iffs = sbind_eq_Inr_iff sbind_eq_Inl_iff scatch_eq_Inr_iff scatch_eq_Inl_iff

text \<open>An action on a part of a larger world.\<close>

definition frame_action :: "('w \<Rightarrow> 'm) \<Rightarrow> ('m \<Rightarrow> 'w \<Rightarrow> 'w) \<Rightarrow> ('a, 'm) action \<Rightarrow> ('a, 'w) action" where
  "frame_action get_part put_part act w = (case act (get_part w) of (r, m) \<Rightarrow> (r, put_part m w))"

lemma frame_action_eq:
  assumes "\<And>m w. get_part (put_part m w) = m" "frame_action get_part put_part act w = (r, w')"
  shows "act (get_part w) = (r, get_part w')" "\<exists>m. w' = put_part m w"
  using assms by (auto simp: frame_action_def split: prod.splits)

end
