(* ===== verification/ProjectModels.thy ===== *)
theory ProjectModels
  imports Identities JsonText UrlSplit "HOL-Library.List_Lexorder"
begin

text \<open>
  \<^verbatim>\<open>sdkpython/src/dex_connectors/sdk/projectconfig/models.py\<close>: scopes, snapshot and secret
  references, environment selections, connection entries, the credential-broker section and the
  revisioned configuration document with its validation and wire form, and the canonical JSON
  bytes whose SHA-256 digest pins a document.  SHA-256 is the argument \<open>sha256\<close>, the text of
  \<open>hashlib.sha256(\<dots>).hexdigest()\<close>; the Unicode tables of \<open>urlsplit\<close> are the argument \<open>u\<close>.
\<close>

section \<open>Identifiers\<close>

definition CONFIGURATION_SCHEMA_VERSION :: pystr where
  "CONFIGURATION_SCHEMA_VERSION = str ''connectors.dex.dev/project-configuration/v1alpha3''"

definition PREVIOUS_CONFIGURATION_SCHEMA_VERSION :: pystr where
  "PREVIOUS_CONFIGURATION_SCHEMA_VERSION = str ''connectors.dex.dev/project-configuration/v1alpha2''"

text \<open>One character of \<open>first\<close>, then at most \<open>n\<close> of \<open>rest\<close>.\<close>

definition matches_class :: "(nat \<Rightarrow> bool) \<Rightarrow> (nat \<Rightarrow> bool) \<Rightarrow> nat \<Rightarrow> pystr \<Rightarrow> bool" where
  "matches_class first rest n s =
     (case s of [] \<Rightarrow> False | c # cs \<Rightarrow> first c \<and> length cs \<le> n \<and> list_all rest cs)"

definition is_scope_id :: "pystr \<Rightarrow> bool" where
  "is_scope_id = matches_class is_alnum (\<lambda>c. is_alnum c \<or> c = 95 \<or> c = 45) 127"

definition is_environment_name :: "pystr \<Rightarrow> bool" where
  "is_environment_name = matches_class is_upper (\<lambda>c. is_upper c \<or> is_digit c \<or> c = 95) 127"

definition is_shared_id :: "pystr \<Rightarrow> bool" where
  "is_shared_id = matches_class is_alnum (\<lambda>c. is_alnum c \<or> c = 46 \<or> c = 95 \<or> c = 58 \<or> c = 45) 127"

definition is_hex_text :: "nat \<Rightarrow> pystr \<Rightarrow> bool" where
  "is_hex_text n s \<longleftrightarrow> length s = n \<and> list_all is_hex_lower s"

definition is_digest :: "pystr \<Rightarrow> bool" where
  "is_digest s \<longleftrightarrow> take 7 s = str ''sha256:'' \<and> is_hex_text 64 (drop 7 s)"

definition reserved_names :: "pystr list" where
  "reserved_names = map str [''PATH'', ''HOME'', ''PORT'', ''HOST'', ''NODE_OPTIONS'', ''SSL_CERT_FILE'',
     ''SSL_CERT_DIR'', ''PUBLIC_BASE_URL'', ''HTTP_PROXY'', ''HTTPS_PROXY'', ''ALL_PROXY'', ''NO_PROXY'']"

definition reserved_prefixes :: "pystr list" where
  "reserved_prefixes = map str [''SUPERVERSE_'', ''DEX_'', ''AWS_'', ''LD_'', ''GO'', ''GIT_'']"

definition is_application_environment_name :: "pystr \<Rightarrow> bool" where
  "is_application_environment_name name \<longleftrightarrow> is_environment_name name \<and> name \<notin> set reserved_names
     \<and> list_all (\<lambda>p. \<not> prefix p name) reserved_prefixes"

definition validate_environment_value :: "pystr \<Rightarrow> exc + unit" where
  "validate_environment_value value =
     (let invalid = ValueError (str ''invalid application environment value'')
      in if 0 \<in> set value then raise invalid
         else case utf8_encode value of
             None \<Rightarrow> raise UnicodeError
           | Some b \<Rightarrow> ensure (length b \<le> 32768) invalid)"

section \<open>Canonical bytes\<close>

definition digest_bytes :: "(bytes \<Rightarrow> pystr) \<Rightarrow> bytes \<Rightarrow> pystr" where
  "digest_bytes sha256 contents = str ''sha256:'' @ sha256 contents"

definition go_escapes :: "(nat \<times> pystr) list" where
  "go_escapes =
     [(60, 92 # str ''u003c''), (62, 92 # str ''u003e''), (38, 92 # str ''u0026''),
      (0x2028, 92 # str ''u2028''), (0x2029, 92 # str ''u2029'')]"

definition go_canonical_json_bytes :: "json \<Rightarrow> exc + bytes" where
  "go_canonical_json_bytes value =
     (case utf8_encode (fold (\<lambda>(c, e). replace_char c e) go_escapes (dumps value)) of
        None \<Rightarrow> raise UnicodeError | Some b \<Rightarrow> ret b)"

section \<open>Untyped objects\<close>

definition require_object :: "json \<Rightarrow> string \<Rightarrow> exc + jobj" where
  "require_object value label =
     (case value of JObj d \<Rightarrow> ret d | _ \<Rightarrow> raise (ValueError (str (label @ '' must be a JSON object''))))"

definition require_fields :: "jobj \<Rightarrow> string list \<Rightarrow> string \<Rightarrow> exc + unit" where
  "require_fields d allowed label =
     ensure (set (dict_keys d) \<subseteq> set (map str allowed)) (ValueError (str (label @ '' has unknown fields'')))"

text \<open>\<open>str(record.get(name, ""))\<close>\<close>

definition text_member :: "jobj \<Rightarrow> string \<Rightarrow> pystr" where
  "text_member d name = py_str (get_or d (str name) (JStr []))"

text \<open>\<open>int(text)\<close>: any script's decimal digits, single underscores between them, a sign.\<close>

definition decimal_value :: "nat \<Rightarrow> int option" where
  "decimal_value c = map_option (\<lambda>z. int (c - z)) (find (\<lambda>z. z \<le> c \<and> c \<le> z + 9) decimal_zeros)"

fun grouped_value :: "int \<Rightarrow> pystr \<Rightarrow> int option" where
  "grouped_value acc [] = None"
| "grouped_value acc [c] = map_option (\<lambda>d. acc * 10 + d) (decimal_value c)"
| "grouped_value acc (c # d # cs) =
     (case decimal_value c of
        None \<Rightarrow> None
      | Some v \<Rightarrow> if d = 95 then grouped_value (acc * 10 + v) cs else grouped_value (acc * 10 + v) (d # cs))"

definition int_of_str :: "pystr \<Rightarrow> exc + int" where
  "int_of_str s =
     (let t = strip_by is_int_space s; body = drop_sign t;
          invalid = ValueError (str ''invalid literal for int() with base 10'')
      in if length (filter (\<lambda>c. c \<noteq> 95) body) > 4300 then raise invalid
         else case grouped_value 0 body of
             None \<Rightarrow> raise invalid
           | Some n \<Rightarrow> ret (if take 1 t = [45] then - n else n))"

fun int_of_json :: "json \<Rightarrow> exc + int" where
  "int_of_json (JInt n) = ret n"
| "int_of_json (JBool b) = ret (if b then 1 else 0)"
| "int_of_json (JFloat x) =
     (case float_to_int x of
        Some n \<Rightarrow> ret n
      | None \<Rightarrow> if x = NaN then raise (ValueError (str ''cannot convert float NaN to integer''))
                else raise OverflowError)"
| "int_of_json (JStr s) = int_of_str s"
| "int_of_json _ = raise (TypeError (str ''int() argument must be a string or a number''))"

section \<open>Scopes and references\<close>

record scope =
  project_id :: pystr
  scope_kind :: pystr

definition scope_prefix :: "scope \<Rightarrow> exc + pystr" where
  "scope_prefix s =
     (if \<not> is_scope_id (project_id s) \<or> scope_kind s \<notin> {str ''live'', str ''preview''}
      then raise (ValueError (str ''invalid project configuration scope''))
      else ret (str ''projects/'' @ project_id s @ str ''/'' @ scope_kind s))"

definition scope_to_wire :: "scope \<Rightarrow> exc + jobj" where
  "scope_to_wire s =
     ebind (scope_prefix s) (\<lambda>_.
       ret [(str ''projectId'', JStr (project_id s)), (str ''kind'', JStr (scope_kind s))])"

definition scope_from_wire :: "json \<Rightarrow> exc + scope" where
  "scope_from_wire value =
     ebind (require_object value ''scope'') (\<lambda>d.
     ethen (require_fields d [''projectId'', ''kind''] ''scope'')
       (let s = \<lparr>project_id = text_member d ''projectId'', scope_kind = text_member d ''kind''\<rparr>
        in ebind (scope_prefix s) (\<lambda>_. ret s)))"

record snapshot_ref =
  sn_key :: pystr
  sn_version :: pystr
  sn_digest :: pystr
  sn_media_type :: pystr

definition snapshot_ref_validate :: "snapshot_ref \<Rightarrow> scope \<Rightarrow> exc + unit" where
  "snapshot_ref_validate r s =
     ebind (scope_prefix s) (\<lambda>p.
       ensure (sn_key r = p @ str ''/configuration/head'' \<and> sn_version r \<noteq> [] \<and> sn_version r \<noteq> str ''null''
           \<and> is_digest (sn_digest r) \<and> sn_media_type r = str ''application/json'')
         (ValueError (str ''invalid configuration snapshot reference'')))"

definition snapshot_ref_to_wire :: "snapshot_ref \<Rightarrow> jobj" where
  "snapshot_ref_to_wire r =
     [(str ''key'', JStr (sn_key r)), (str ''version'', JStr (sn_version r)),
      (str ''digest'', JStr (sn_digest r)), (str ''mediaType'', JStr (sn_media_type r))]"

definition snapshot_ref_from_wire :: "json \<Rightarrow> exc + snapshot_ref" where
  "snapshot_ref_from_wire value =
     ebind (require_object value ''snapshot'') (\<lambda>d.
     ethen (require_fields d [''key'', ''version'', ''digest'', ''mediaType''] ''snapshot'')
       (ret \<lparr>sn_key = text_member d ''key'', sn_version = text_member d ''version'',
             sn_digest = text_member d ''digest'', sn_media_type = text_member d ''mediaType''\<rparr>))"

record secret_ref =
  sr_key :: pystr
  sr_version :: pystr
  sr_digest :: pystr

definition secret_ref_to_wire :: "secret_ref \<Rightarrow> jobj" where
  "secret_ref_to_wire r =
     [(str ''key'', JStr (sr_key r)), (str ''version'', JStr (sr_version r)), (str ''digest'', JStr (sr_digest r))]"

definition secret_ref_from_wire :: "json \<Rightarrow> exc + secret_ref" where
  "secret_ref_from_wire value =
     ebind (require_object value ''application secret reference'') (\<lambda>d.
     ethen (require_fields d [''key'', ''version'', ''digest''] ''application secret reference'')
       (let r = \<lparr>sr_key = text_member d ''key'', sr_version = text_member d ''version'',
                 sr_digest = text_member d ''digest''\<rparr>
        in ethen (ensure (sr_version r \<noteq> [] \<and> is_digest (sr_digest r))
             (ValueError (str ''invalid application secret reference''))) (ret r)))"

definition validate_secret_reference :: "secret_ref \<Rightarrow> scope \<Rightarrow> pystr \<Rightarrow> exc + unit" where
  "validate_secret_reference r s name =
     ebind (scope_prefix s) (\<lambda>sp.
       let p = sp @ str ''/app-secrets/'' @ name @ str ''/''
       in ensure (prefix p (sr_key r) \<and> is_hex_text 32 (drop (length p) (sr_key r))
            \<and> sr_version r \<noteq> [] \<and> sr_version r \<noteq> str ''null'' \<and> is_digest (sr_digest r))
          (ValueError (str ''application secret reference differs from scope'')))"

section \<open>Broker endpoints\<close>

definition is_private_host :: "pystr \<Rightarrow> bool" where
  "is_private_host host \<longleftrightarrow> host = str ''localhost'' \<or> host = str ''host.docker.internal''
     \<or> 46 \<notin> set host \<or> suffix (str ''.svc'') host \<or> suffix (str ''.svc.cluster.local'') host
     \<or> (case ip_address host of
          None \<Rightarrow> False | Some a \<Rightarrow> is_private a \<or> is_loopback a \<or> is_link_local a)"

definition opt_text :: "pystr option \<Rightarrow> pystr" where
  "opt_text t = (case t of None \<Rightarrow> [] | Some s \<Rightarrow> s)"

definition validate_broker_endpoint :: "unicode_data \<Rightarrow> pystr \<Rightarrow> exc + unit" where
  "validate_broker_endpoint u value =
     ebind (urlsplit u value) (\<lambda>parsed.
       let host = opt_text (url_hostname u parsed)
       in if length value > 2048 \<or> url_scheme parsed \<notin> {str ''http'', str ''https''} \<or> host = []
             \<or> opt_text (url_username parsed) \<noteq> [] \<or> opt_text (url_password parsed) \<noteq> []
             \<or> url_query parsed \<noteq> [] \<or> url_fragment parsed \<noteq> []
          then raise (ValueError (str ''credential broker endpoint must be an absolute HTTP or HTTPS URL''))
          else if url_scheme parsed = str ''https'' then ret ()
          else ensure (is_private_host host)
            (ValueError (str ''credential broker HTTP endpoint must use a private host'')))"

section \<open>Document parts\<close>

record environment_value =
  ev_value :: "pystr option"
  ev_secret_ref :: "secret_ref option"

definition environment_value_to_wire :: "environment_value \<Rightarrow> exc + jobj" where
  "environment_value_to_wire e =
     (case (ev_value e, ev_secret_ref e) of
        (Some v, None) \<Rightarrow> ret [(str ''value'', JStr v)]
      | (None, Some r) \<Rightarrow> ret [(str ''secretRef'', JObj (secret_ref_to_wire r))]
      | _ \<Rightarrow> raise (ValueError (str ''environment value requires exactly one value or secret reference'')))"

definition environment_value_from_wire :: "json \<Rightarrow> exc + environment_value" where
  "environment_value_from_wire value =
     ebind (require_object value ''environment value'') (\<lambda>d.
       if set (dict_keys d) = {str ''value''} \<and> is_str (get_or d (str ''value'') JNull)
       then ret \<lparr>ev_value = Some (str_value (get_or d (str ''value'') JNull)), ev_secret_ref = None\<rparr>
       else if set (dict_keys d) = {str ''secretRef''}
       then ebind (secret_ref_from_wire (get_or d (str ''secretRef'') JNull)) (\<lambda>r.
         ret \<lparr>ev_value = None, ev_secret_ref = Some r\<rparr>)
       else raise (ValueError (str ''invalid environment selection'')))"

record connection_configuration =
  cc_connector_id :: pystr
  cc_connection_name :: pystr
  cc_module_path :: pystr
  cc_provider :: pystr
  cc_configuration :: jobj
  cc_auth_method_id :: pystr
  cc_shared_connection_id :: pystr

definition optional_text :: "string \<Rightarrow> pystr \<Rightarrow> jobj" where
  "optional_text name v = (if v \<noteq> [] then [(str name, JStr v)] else [])"

definition connection_configuration_to_wire :: "connection_configuration \<Rightarrow> jobj" where
  "connection_configuration_to_wire c =
     [(str ''connectorId'', JStr (cc_connector_id c)), (str ''connectionName'', JStr (cc_connection_name c)),
      (str ''modulePath'', JStr (cc_module_path c)), (str ''provider'', JStr (cc_provider c))]
     @ optional_text ''authMethodId'' (cc_auth_method_id c)
     @ optional_text ''sharedConnectionId'' (cc_shared_connection_id c)
     @ [(str ''configuration'', JObj (cc_configuration c))]"

definition connection_configuration_from_wire :: "json \<Rightarrow> exc + connection_configuration" where
  "connection_configuration_from_wire value =
     ebind (require_object value ''connection'') (\<lambda>d.
     ethen (require_fields d [''connectorId'', ''connectionName'', ''modulePath'', ''provider'',
         ''configuration'', ''authMethodId'', ''sharedConnectionId''] ''connection'')
     (ebind (require_object (get_or d (str ''configuration'') JNull) ''connection configuration'') (\<lambda>conf.
       ret \<lparr>cc_connector_id = text_member d ''connectorId'',
            cc_connection_name = text_member d ''connectionName'',
            cc_module_path = text_member d ''modulePath'', cc_provider = text_member d ''provider'',
            cc_configuration = conf, cc_auth_method_id = text_member d ''authMethodId'',
            cc_shared_connection_id = text_member d ''sharedConnectionId''\<rparr>)))"

record broker_configuration =
  bc_endpoint :: pystr
  bc_token_secret_ref :: secret_ref

definition broker_configuration_to_wire :: "broker_configuration \<Rightarrow> jobj" where
  "broker_configuration_to_wire b =
     [(str ''endpoint'', JStr (bc_endpoint b)),
      (str ''tokenSecretRef'', JObj (secret_ref_to_wire (bc_token_secret_ref b)))]"

definition broker_configuration_from_wire :: "json \<Rightarrow> exc + broker_configuration" where
  "broker_configuration_from_wire value =
     ebind (require_object value ''credential broker'') (\<lambda>d.
     ethen (require_fields d [''endpoint'', ''tokenSecretRef''] ''credential broker'')
     (ebind (secret_ref_from_wire (get_or d (str ''tokenSecretRef'') JNull)) (\<lambda>r.
       ret \<lparr>bc_endpoint = text_member d ''endpoint'', bc_token_secret_ref = r\<rparr>)))"

section \<open>The configuration document\<close>

record configuration =
  conf_scope :: scope
  conf_revision :: int
  conf_connections :: "connection_configuration list"
  conf_trigger_bindings :: "jobj list"
  conf_operation_configurations :: "jobj list"
  conf_environment :: "(pystr, environment_value) dict"
  conf_credential_broker :: "broker_configuration option"
  conf_schema_version :: pystr

type_synonym identity = "pystr \<times> pystr"

definition connection_identity :: "connection_configuration \<Rightarrow> identity" where
  "connection_identity c = (cc_connector_id c, cc_connection_name c)"

definition binding_owner :: "jobj \<Rightarrow> identity" where
  "binding_owner d = (text_member d ''connectorId'', text_member d ''connectionName'')"

definition valid_connection :: "connection_configuration \<Rightarrow> bool" where
  "valid_connection c \<longleftrightarrow> is_connector_id (cc_connector_id c) \<and> cc_connection_name c \<noteq> []
     \<and> cc_module_path c \<noteq> [] \<and> cc_provider c \<noteq> []"

text \<open>The trigger loop and the operation loop, with the identities seen so far.\<close>

fun check_triggers :: "identity list \<Rightarrow> (identity \<times> pystr list) list \<Rightarrow> jobj list \<Rightarrow> exc + unit" where
  "check_triggers owners seen [] = ret ()"
| "check_triggers owners seen (d # ds) =
     (let key = (binding_owner d, [text_member d ''triggerName'', text_member d ''bindingName''])
      in if binding_owner d \<notin> set owners \<or> text_member d ''triggerName'' = [] \<or> text_member d ''bindingName'' = []
            \<or> \<not> is_dict (get_or d (str ''configuration'') JNull) \<or> key \<in> set seen
         then raise (ValueError (str ''configuration trigger is invalid or duplicated''))
         else check_triggers owners (key # seen) ds)"

fun check_operations :: "identity list \<Rightarrow> (identity \<times> pystr list) list \<Rightarrow> jobj list \<Rightarrow> exc + unit" where
  "check_operations owners seen [] = ret ()"
| "check_operations owners seen (d # ds) =
     (let parts = [text_member d ''operationId'', text_member d ''flowType'', text_member d ''stepType''];
          key = (binding_owner d, parts)
      in if binding_owner d \<notin> set owners \<or> [] \<in> set parts
            \<or> \<not> is_dict (get_or d (str ''configuration'') JNull) \<or> key \<in> set seen
         then raise (ValueError (str ''configuration operation is invalid or duplicated''))
         else check_operations owners (key # seen) ds)"

definition check_environment_entry :: "scope \<Rightarrow> pystr \<times> environment_value \<Rightarrow> exc + unit" where
  "check_environment_entry s entry =
     (case entry of (name, e) \<Rightarrow>
        if \<not> is_application_environment_name name
        then raise (ValueError (str ''invalid application environment name''))
        else ebind (environment_value_to_wire e) (\<lambda>_.
          case ev_value e of
            Some v \<Rightarrow> validate_environment_value v
          | None \<Rightarrow> (case ev_secret_ref e of
                       Some r \<Rightarrow> validate_secret_reference r s name | None \<Rightarrow> ret ())))"

definition BROKER_TOKEN_NAME :: pystr where
  "BROKER_TOKEN_NAME = str ''DEX_CREDENTIAL_BROKER_TOKEN''"

definition check_broker :: "unicode_data \<Rightarrow> scope \<Rightarrow> broker_configuration option \<Rightarrow> exc + unit" where
  "check_broker u s broker =
     (case broker of
        None \<Rightarrow> ret ()
      | Some b \<Rightarrow> ethen (validate_broker_endpoint u (bc_endpoint b))
          (validate_secret_reference (bc_token_secret_ref b) s BROKER_TOKEN_NAME))"

definition configuration_validate :: "unicode_data \<Rightarrow> configuration \<Rightarrow> exc + unit" where
  "configuration_validate u c =
     (let err = (\<lambda>m. ValueError (str m));
          identities = map connection_identity (conf_connections c);
          shared = filter (\<lambda>e. cc_shared_connection_id e \<noteq> []) (conf_connections c) in
      ebind (scope_prefix (conf_scope c)) (\<lambda>_.
      ethen (ensure (conf_schema_version c \<in> {CONFIGURATION_SCHEMA_VERSION, PREVIOUS_CONFIGURATION_SCHEMA_VERSION})
        (err ''unsupported configuration schema''))
      (ethen (ensure (1 \<le> conf_revision c) (err ''configuration revision is required''))
      (ethen (ensure (length (conf_connections c) \<le> 1000 \<and> length (conf_trigger_bindings c) \<le> 10000
          \<and> length (conf_operation_configurations c) \<le> 10000)
        (err ''configuration document exceeds binding limits''))
      (ethen (ensure (distinct identities) (err ''duplicate project connection''))
      (ethen (ensure (list_all valid_connection (conf_connections c)) (err ''invalid project connection''))
      (ethen (check_triggers identities [] (conf_trigger_bindings c))
      (ethen (check_operations identities [] (conf_operation_configurations c))
      (ethen (ensure (shared = [] \<or> conf_credential_broker c \<noteq> None)
        (err ''shared connection requires a credential broker''))
      (ethen (ensure (conf_schema_version c \<noteq> PREVIOUS_CONFIGURATION_SCHEMA_VERSION
          \<or> conf_credential_broker c = None)
        (err ''previous configuration schema cannot declare a broker''))
      (ethen (ensure (list_all (\<lambda>e. is_shared_id (cc_shared_connection_id e)) shared)
        (err ''configuration shared connection ID is invalid''))
      (ethen (ensure (length (conf_environment c) \<le> 128) (err ''application environment exceeds field limit''))
      (ethen (eall (check_environment_entry (conf_scope c)) (conf_environment c))
        (check_broker u (conf_scope c) (conf_credential_broker c)))))))))))))))"

definition environment_to_wire :: "(pystr, environment_value) dict \<Rightarrow> exc + jobj" where
  "environment_to_wire env =
     emap (\<lambda>(k, e). ebind (environment_value_to_wire e) (\<lambda>w. ret (k, JObj w))) (sort_key fst env)"

definition configuration_to_wire :: "unicode_data \<Rightarrow> configuration \<Rightarrow> exc + jobj" where
  "configuration_to_wire u c =
     ethen (configuration_validate u c)
     (ebind (scope_to_wire (conf_scope c)) (\<lambda>s.
      ebind (environment_to_wire (conf_environment c)) (\<lambda>env.
        ret ([(str ''schemaVersion'', JStr (conf_schema_version c)), (str ''scope'', JObj s),
          (str ''revision'', JInt (conf_revision c)),
          (str ''connections'', JArr (map (\<lambda>e. JObj (connection_configuration_to_wire e)) (conf_connections c))),
          (str ''triggerBindings'', JArr (map JObj (conf_trigger_bindings c))),
          (str ''operationConfigurations'', JArr (map JObj (conf_operation_configurations c)))]
         @ (if env \<noteq> [] then [(str ''environment'', JObj env)] else [])
         @ (case conf_credential_broker c of
              None \<Rightarrow> [] | Some b \<Rightarrow> [(str ''credentialBroker'', JObj (broker_configuration_to_wire b))])))))"

definition configuration_fields :: "string list" where
  "configuration_fields = [''schemaVersion'', ''scope'', ''revision'', ''connections'', ''triggerBindings'',
     ''operationConfigurations'', ''environment'', ''credentialBroker'']"

definition environment_from_wire :: "jobj \<Rightarrow> exc + (pystr, environment_value) dict" where
  "environment_from_wire env =
     emap (\<lambda>(k, v). ebind (environment_value_from_wire v) (\<lambda>e. ret (k, e))) env"

definition broker_member :: "json \<Rightarrow> exc + broker_configuration option" where
  "broker_member j =
     (if j = JNull then ret None
      else ebind (broker_configuration_from_wire j) (\<lambda>b. ret (Some b)))"

definition configuration_from_wire :: "unicode_data \<Rightarrow> json \<Rightarrow> exc + configuration" where
  "configuration_from_wire u value =
     ebind (require_object value ''configuration'') (\<lambda>d.
     ethen (require_fields d configuration_fields ''configuration'')
     (ebind (require_object (get_or d (str ''environment'') (JObj [])) ''environment'') (\<lambda>env.
      case (get_or d (str ''connections'') JNull, get_or d (str ''triggerBindings'') JNull,
            get_or d (str ''operationConfigurations'') JNull) of
        (JArr connections, JArr triggers, JArr operations) \<Rightarrow>
          ebind (scope_from_wire (get_or d (str ''scope'') JNull)) (\<lambda>s.
          ebind (int_of_json (get_or d (str ''revision'') (JInt 0))) (\<lambda>revision.
          ebind (emap connection_configuration_from_wire connections) (\<lambda>cs.
          ebind (emap (\<lambda>j. require_object j ''trigger'') triggers) (\<lambda>ts.
          ebind (emap (\<lambda>j. require_object j ''operation'') operations) (\<lambda>ops.
          ebind (environment_from_wire env) (\<lambda>es.
          ebind (broker_member (get_or d (str ''credentialBroker'') JNull)) (\<lambda>broker.
          let c = \<lparr>conf_scope = s, conf_revision = revision, conf_connections = cs,
                   conf_trigger_bindings = ts, conf_operation_configurations = ops,
                   conf_environment = es, conf_credential_broker = broker,
                   conf_schema_version = text_member d ''schemaVersion''\<rparr>
          in ethen (configuration_validate u c) (ret c))))))))
      | _ \<Rightarrow> raise (ValueError (str ''configuration arrays are required'')))))"

section \<open>Canonical bytes decode to the document\<close>

definition go_escape :: "nat \<Rightarrow> pystr" where
  "go_escape c =
     (if c \<in> {60, 62, 38, 0x2028, 0x2029} then [92, 117] @ hex4_text c else escape_char c)"

lemma replace_char_list:
  "replace_char c r [] = []"
  "replace_char c r (x # s) = (if x = c then r else [x]) @ replace_char c r s"
  by (simp_all add: replace_char_def)

lemma replace_char_concat: "replace_char c r (concat ws) = concat (map (replace_char c r) ws)"
  by (induction ws) (simp_all add: replace_char_append replace_char_list)

lemma replace_char_join:
  "c \<notin> set sep \<Longrightarrow> replace_char c r (join_with sep ws) = join_with sep (map (replace_char c r) ws)"
  by (induction sep ws rule: join_with.induct) (auto simp: replace_char_append)

text \<open>
  Replacing a character in the whole text is the same as replacing it in the escape of each
  string character, because it is none of the characters JSON structure is written with.
\<close>

lemma replace_char_print:
  assumes "json_plain j" "\<not> is_digit c" "\<not> is_lower c" "c \<notin> {34, 44, 45, 58, 91, 93, 123, 125}"
  shows "replace_char c r (print_with esc j) = print_with (\<lambda>x. replace_char c r (esc x)) j"
  using assms(1)
proof (induction j)
  case (JInt n)
  have "c \<notin> set (print_with esc (JInt n))"
    using assms(2,4) digits_notin [of c n] digits_notin [of c "- n"] by (auto simp: int_text_def)
  then show ?case by simp
next
  case (JStr s)
  then show ?case
    using assms(4) by (simp add: quote_with_def replace_char_append replace_char_concat replace_char_list comp_def)
next
  case (JArr xs)
  have eq: "map (\<lambda>x. replace_char c r (print_with esc x)) xs = map (print_with (\<lambda>x. replace_char c r (esc x))) xs"
    using JArr by (auto simp: list_all_iff)
  show ?case
    using assms(4) by (simp add: replace_char_append replace_char_join replace_char_list comp_def eq)
next
  case (JObj d)
  have "replace_char c r (print_member esc kv) = print_member (\<lambda>x. replace_char c r (esc x)) kv"
    if "kv \<in> set d" for kv
  proof -
    obtain k v where kv: "kv = (k, v)" by force
    have "replace_char c r (print_with esc v) = print_with (\<lambda>x. replace_char c r (esc x)) v"
      using JObj that kv by (fastforce simp: list_all_iff)
    moreover have "replace_char c r (quote_with esc k) = quote_with (\<lambda>x. replace_char c r (esc x)) k"
      using assms(4) by (simp add: quote_with_def replace_char_append replace_char_concat replace_char_list comp_def)
    ultimately show ?thesis using assms(4) by (simp add: kv replace_char_append replace_char_list)
  qed
  then have eq: "map (\<lambda>kv. replace_char c r (print_member esc kv)) d = map (print_member (\<lambda>x. replace_char c r (esc x))) d"
    by (intro map_cong) auto
  show ?case
    using assms(4) by (simp add: replace_char_append replace_char_join replace_char_list comp_def
        eq [unfolded append_Cons append_Nil])
next
  case JNull
  have "c \<notin> set (str ''null'')" using assms(3) by (auto simp: str_def is_lower_def)
  then show ?case by simp
next
  case (JBool b)
  have "c \<notin> set (str ''true'')" "c \<notin> set (str ''false'')" using assms(3) by (auto simp: str_def is_lower_def)
  then show ?case by simp
qed simp

lemma hex4_text_range:
  assumes "c \<in> set (hex4_text x)"
  shows "48 \<le> c \<and> c \<le> 57 \<or> 97 \<le> c \<and> c \<le> 102"
proof -
  have "48 \<le> (if d < 10 then 48 + d else 87 + d) \<and> (if d < 10 then 48 + d else 87 + d) \<le> 57
      \<or> 97 \<le> (if d < 10 then 48 + d else 87 + d) \<and> (if d < 10 then 48 + d else 87 + d) \<le> 102"
    if "d < 16" for d :: nat using that by auto
  from this [of "x div 4096 mod 16"] this [of "x div 256 mod 16"] this [of "x div 16 mod 16"]
    this [of "x mod 16"]
  show ?thesis using assms unfolding hex4_text_def list.map list.set by (elim insertE) simp_all
qed

lemma go_escape_fold:
  "fold (\<lambda>(c, e). replace_char c e) go_escapes (escape_char x) = go_escape x"
proof -
  have hex: "c \<notin> set (hex4_text x)" if "c \<in> {60, 62, 38, 0x2028, 0x2029}" for c
    using that hex4_text_range [of _ x] by fastforce
  show ?thesis
  proof (cases "x \<in> {60, 62, 38, 0x2028, 0x2029}")
    case True
    then consider "x = 60" | "x = 62" | "x = 38" | "x = 0x2028" | "x = 0x2029" by blast
    moreover have e: "fold (\<lambda>(c, e). replace_char c e) go_escapes (escape_char 60) = go_escape 60"
      "fold (\<lambda>(c, e). replace_char c e) go_escapes (escape_char 62) = go_escape 62"
      "fold (\<lambda>(c, e). replace_char c e) go_escapes (escape_char 38) = go_escape 38"
      "fold (\<lambda>(c, e). replace_char c e) go_escapes (escape_char 0x2028) = go_escape 0x2028"
      "fold (\<lambda>(c, e). replace_char c e) go_escapes (escape_char 0x2029) = go_escape 0x2029"
      by (simp_all add: go_escapes_def go_escape_def escape_char_def replace_char_list hex4_text_def str_def)
    ultimately show ?thesis by cases (simp_all only: e)
  next
    case False
    then have "c \<notin> set (escape_char x)" if "c \<in> {60, 62, 38, 0x2028, 0x2029}" for c
      using that hex [OF that] by (auto simp: escape_char_def)
    then show ?thesis using False by (simp add: go_escapes_def go_escape_def)
  qed
qed

lemma go_serialized:
  assumes "json_plain j"
  shows "fold (\<lambda>(c, e). replace_char c e) go_escapes (dumps j) = print_with go_escape j"
proof -
  have step: "replace_char c e (print_with esc j) = print_with (\<lambda>x. replace_char c e (esc x)) j"
    if "c \<in> {60, 62, 38, 0x2028, 0x2029}" for c e esc
    using that by (intro replace_char_print [OF assms]) (auto simp: is_digit_def is_lower_def)
  have "fold (\<lambda>(c, e). replace_char c e) go_escapes (dumps j) =
      print_with (\<lambda>x. fold (\<lambda>(c, e). replace_char c e) go_escapes (escape_char x)) j"
    by (simp add: go_escapes_def dumps_def step)
  then show ?thesis by (simp add: go_escape_fold)
qed

lemma escape_ok_go: "escape_ok go_escape"
proof -
  have "parse_string (go_escape c @ r) = map_option (\<lambda>(s, t). (c # s, t)) (parse_string r)" for c r
  proof (cases "c \<in> {60, 62, 38, 0x2028, 0x2029}")
    case True
    then show ?thesis
      using parse_unicode_escape [of c r] by (auto simp: go_escape_def is_high_def)
  next
    case False
    then show ?thesis using escape_ok_escape_char by (simp add: go_escape_def escape_ok_def)
  qed
  then show ?thesis by (simp add: escape_ok_def)
qed

lemma go_escape_nonzero: "0 \<notin> set (go_escape c)"
  using hex4_text_range [of 0 c] by (auto simp: go_escape_def escape_char_def)

text \<open>Reading the canonical bytes of a document gives the document back.\<close>

lemma loads_canonical:
  assumes "json_plain j" "go_canonical_json_bytes j = Inr b"
  shows "loads_bytes b = Inr j"
  using assms
  by (intro loads_bytes_print [OF escape_ok_go])
    (auto simp: go_canonical_json_bytes_def go_serialized go_escape_nonzero split: option.splits)

lemma go_canonical_inj:
  assumes "json_plain j" "json_plain k" "go_canonical_json_bytes j = Inr b" "go_canonical_json_bytes k = Inr b"
  shows "j = k"
  using loads_canonical [OF assms(1,3)] loads_canonical [OF assms(2,4)] by simp

end
