(* ===== verification/ConnectorMock.thy ===== *)
theory ConnectorMock
  imports Operations StateExc ProjectModels
begin

text \<open>
  Scripted provider operations for connector tests (\<open>connectormock/__init__.py\<close>): cases, scripts
  with rules, queues and defaults, Flow-scoped scripts, replay of terminal keyed outcomes, the
  record of answered calls, and the call report file.

  The world of an operation is its own state and what lies outside: the failure callback and the
  report; the callback does not call back into the operation.  Predicates of rules and the
  callback may raise.  Waiting for the lock file of the
  report and the reading of fixture files are not modelled.
\<close>

section \<open>Cases\<close>

record 'o mock_case =
  mc_kind :: pystr
  mc_branch :: pystr
  mc_value :: "'o option"
  mc_failure :: "failure option"
  mc_retry_after :: pyfloat
  mc_pages :: "'o list"

definition case_branch_result :: "pystr \<Rightarrow> 'o option \<Rightarrow> failure option \<Rightarrow> 'o mock_case" where
  "case_branch_result branch value failure =
     \<lparr>mc_kind = str ''branch'', mc_branch = branch, mc_value = value, mc_failure = failure,
      mc_retry_after = Fin 0, mc_pages = []\<rparr>"

definition case_retry :: "failure \<Rightarrow> pyfloat \<Rightarrow> 'o mock_case" where
  "case_retry failure delay =
     \<lparr>mc_kind = str ''retry'', mc_branch = [], mc_value = None, mc_failure = Some failure,
      mc_retry_after = delay, mc_pages = []\<rparr>"

definition case_uncertain :: "'o option \<Rightarrow> failure \<Rightarrow> 'o mock_case" where
  "case_uncertain value failure =
     \<lparr>mc_kind = str ''uncertain'', mc_branch = UNCERTAIN_BRANCH_ID, mc_value = value, mc_failure = Some failure,
      mc_retry_after = Fin 0, mc_pages = []\<rparr>"

definition case_paged :: "pystr \<Rightarrow> 'o list \<Rightarrow> exc + 'o mock_case" where
  "case_paged branch pages =
     ethen (ensure (pages \<noteq> []) (ValueError (str ''paged mock requires at least one page'')))
       (ret \<lparr>mc_kind = str ''paged'', mc_branch = branch, mc_value = None, mc_failure = None,
             mc_retry_after = Fin 0, mc_pages = pages\<rparr>)"

section \<open>Recorded calls and the report\<close>

record 'i recorded_call =
  rd_connector_id :: pystr
  rd_operation_id :: pystr
  rd_connection_name :: pystr
  rd_flow_id :: pystr
  rd_call_id :: pystr
  rd_input :: 'i
  rd_branch :: pystr
  rd_retry :: bool
  rd_replay :: bool
  rd_unscripted :: bool

definition text_field :: "string \<Rightarrow> pystr \<Rightarrow> jobj" where
  "text_field name s = (if s \<noteq> [] then [(str name, JStr s)] else [])"

definition flag_field :: "string \<Rightarrow> bool \<Rightarrow> jobj" where
  "flag_field name b = (if b then [(str name, JBool True)] else [])"

definition recorded_to_wire :: "'i recorded_call \<Rightarrow> jobj" where
  "recorded_to_wire r =
     [(str ''connectorId'', JStr (rd_connector_id r)), (str ''operationId'', JStr (rd_operation_id r)),
      (str ''connectionName'', JStr (rd_connection_name r)), (str ''flowId'', JStr (rd_flow_id r)),
      (str ''callId'', JStr (rd_call_id r))]
     @ text_field ''branch'' (rd_branch r) @ flag_field ''retry'' (rd_retry r)
     @ flag_field ''replay'' (rd_replay r) @ flag_field ''unscripted'' (rd_unscripted r)"

definition to_report_wire :: "'i recorded_call \<Rightarrow> jobj" where
  "to_report_wire r =
     [(str ''connection'', JStr (rd_connection_name r)), (str ''operation'', JStr (rd_operation_id r))]
     @ text_field ''branch'' (rd_branch r)
     @ [(str ''connectorId'', JStr (rd_connector_id r))]
     @ text_field ''flowId'' (rd_flow_id r) @ text_field ''callId'' (rd_call_id r)
     @ flag_field ''retry'' (rd_retry r) @ flag_field ''replay'' (rd_replay r)
     @ flag_field ''unscripted'' (rd_unscripted r)"

text \<open>What one more row makes of the bytes of the report file, with the lock held.\<close>

definition append_row :: "bytes \<Rightarrow> bytes \<Rightarrow> exc + bytes" where
  "append_row file encoded =
     (let size = length file in
      if size = 0 then ret (str ''{\"calls\":['' @ encoded @ str '']}'')
      else if size < 2 \<or> drop (size - 2) file \<noteq> str '']}''
      then raise (ValueError (str ''connector call report has no closing bracket''))
      else ret (take (size - 2) file @ str '','' @ encoded @ str '']}''))"

text \<open>The outside world: the report directory variable, the report file and the failure callback.\<close>

record 'w mock_host =
  mh_directory :: "'w \<Rightarrow> pystr"
  mh_read_report :: "(bytes, 'w) action"
  mh_write_report :: "bytes \<Rightarrow> (unit, 'w) action"
  mh_report_failure :: "(pystr \<Rightarrow> (unit, 'w) action) option"

definition append_to_report :: "'w mock_host \<Rightarrow> 'i recorded_call \<Rightarrow> (unit, 'w) action" where
  "append_to_report h r w =
     (if mh_directory h w = [] then (ret (), w)
      else
        sbind (slift (go_canonical_json_bytes (JObj (to_report_wire r)))) (\<lambda>encoded.
        sbind (mh_read_report h) (\<lambda>file.
        sbind (slift (append_row file encoded)) (mh_write_report h))) w)"

section \<open>Scripts\<close>

record ('i, 'o) mock_script =
  ms_rules :: "(('i \<Rightarrow> exc + bool) \<times> 'o mock_case) list"
  ms_queue :: "'o mock_case list"
  ms_defaults :: "'o mock_case list"
  ms_default_count :: nat

definition empty_script :: "('i, 'o) mock_script" where
  "empty_script = \<lparr>ms_rules = [], ms_queue = [], ms_defaults = [], ms_default_count = 0\<rparr>"

fun first_rule :: "(('i \<Rightarrow> exc + bool) \<times> 'o mock_case) list \<Rightarrow> 'i \<Rightarrow> exc + 'o mock_case option" where
  "first_rule [] x = ret None"
| "first_rule ((predicate, response) # rest) x =
     ebind (predicate x) (\<lambda>b. if b then ret (Some response) else first_rule rest x)"

definition script_answer :: "'i \<Rightarrow> ('i, 'o) mock_script \<Rightarrow> exc + ('o mock_case option \<times> ('i, 'o) mock_script)" where
  "script_answer x s =
     ebind (first_rule (ms_rules s) x) (\<lambda>found.
       case found of
         Some c \<Rightarrow> ret (Some c, s)
       | None \<Rightarrow>
         (case ms_queue s of
            [] \<Rightarrow> ret (None, s)
          | c # rest \<Rightarrow> ret (Some c, s\<lparr>ms_queue := rest\<rparr>)))"

definition script_default :: "('i, 'o) mock_script \<Rightarrow> exc + ('o mock_case option \<times> ('i, 'o) mock_script)" where
  "script_default s =
     (if ms_defaults s = [] then ret (None, s)
      else ret (Some (ms_defaults s ! min (ms_default_count s) (length (ms_defaults s) - 1)),
                s\<lparr>ms_default_count := ms_default_count s + 1\<rparr>))"

definition script_respond :: "'o mock_case list \<Rightarrow> ('i, 'o) mock_script \<Rightarrow> ('i, 'o) mock_script" where
  "script_respond cases s = s\<lparr>ms_queue := ms_queue s @ cases\<rparr>"

definition script_when :: "('i \<Rightarrow> exc + bool) \<Rightarrow> 'o mock_case \<Rightarrow> ('i, 'o) mock_script \<Rightarrow> ('i, 'o) mock_script" where
  "script_when predicate response s = s\<lparr>ms_rules := ms_rules s @ [(predicate, response)]\<rparr>"

definition script_set_default :: "'o mock_case list \<Rightarrow> ('i, 'o) mock_script \<Rightarrow> ('i, 'o) mock_script" where
  "script_set_default cases s = s\<lparr>ms_defaults := cases, ms_default_count := 0\<rparr>"

definition new_flow_script :: "pystr \<Rightarrow> exc + ('i, 'o) mock_script" where
  "new_flow_script flow_prefix =
     ethen (ensure (strip flow_prefix \<noteq> []) (ValueError (str ''Flow script prefix is required''))) (ret empty_script)"

section \<open>Scripted operations\<close>

record ('i, 'o) scripted_operation =
  so_operation :: operation_ref
  so_branches :: "pystr list"
  so_is_mutation :: bool
  so_script :: "('i, 'o) mock_script"
  so_flow_scripts :: "(pystr, ('i, 'o) mock_script) dict"
  so_strict :: bool
  so_terminal_by_key :: "(pystr, 'o mock_case) dict"
  so_calls :: "'i recorded_call list"
  so_failures :: "pystr list"

definition new_scripted_operation :: "operation_ref \<Rightarrow> pystr list \<Rightarrow> bool \<Rightarrow> exc + ('i, 'o) scripted_operation" where
  "new_scripted_operation operation branches is_mutation =
     ethen (operation_ref_validate operation)
     (ethen (ensure (DEFECT_BRANCH_ID \<in> set branches) (ValueError (str ''mock operation must declare defect branch'')))
       (ret \<lparr>so_operation = operation, so_branches = branches, so_is_mutation = is_mutation, so_script = empty_script,
             so_flow_scripts = [], so_strict = False, so_terminal_by_key = [], so_calls = [], so_failures = []\<rparr>))"

definition validate_case :: "('i, 'o) scripted_operation \<Rightarrow> 'o mock_case \<Rightarrow> exc + unit" where
  "validate_case op c =
     ethen (ensure (\<not> (mc_kind c \<in> {str ''branch'', str ''paged''} \<and> mc_branch c \<notin> set (so_branches op)))
       (ValueError (str ''mock branch is not declared'')))
     (ethen (ensure (\<not> (mc_kind c = str ''uncertain'' \<and> (\<not> so_is_mutation op \<or> UNCERTAIN_BRANCH_ID \<notin> set (so_branches op))))
       (ValueError (str ''uncertainty requires a declared Mutation branch'')))
     (ethen (ensure (\<not> (mc_kind c = str ''retry'' \<and> (mc_failure c = None \<or> float_lt (mc_retry_after c) (Fin 0))))
       (ValueError (str ''invalid mock retry'')))
     (case mc_failure c of None \<Rightarrow> ret () | Some f \<Rightarrow> failure_validate f)))"

definition validate_cases :: "('i, 'o) scripted_operation \<Rightarrow> 'o mock_case list \<Rightarrow> exc + unit" where
  "validate_cases op cases = eall (validate_case op) cases"

definition op_respond :: "'o mock_case list \<Rightarrow> ('i, 'o) scripted_operation \<Rightarrow> exc + ('i, 'o) scripted_operation" where
  "op_respond cases op =
     ethen (validate_cases op cases) (ret (op\<lparr>so_script := script_respond cases (so_script op)\<rparr>))"

definition op_when ::
  "('i \<Rightarrow> exc + bool) \<Rightarrow> 'o mock_case \<Rightarrow> ('i, 'o) scripted_operation \<Rightarrow> exc + ('i, 'o) scripted_operation" where
  "op_when predicate response op =
     ethen (validate_cases op [response]) (ret (op\<lparr>so_script := script_when predicate response (so_script op)\<rparr>))"

definition op_default :: "'o mock_case list \<Rightarrow> ('i, 'o) scripted_operation \<Rightarrow> exc + ('i, 'o) scripted_operation" where
  "op_default cases op =
     ethen (validate_cases op cases) (ret (op\<lparr>so_script := script_set_default cases (so_script op)\<rparr>))"

definition op_strict :: "('i, 'o) scripted_operation \<Rightarrow> ('i, 'o) scripted_operation" where
  "op_strict op = op\<lparr>so_strict := True\<rparr>"

text \<open>\<open>for_flow\<close> followed by a change of the script it returns; that change validates no case.\<close>

definition for_flow ::
  "pystr \<Rightarrow> (('i, 'o) mock_script \<Rightarrow> ('i, 'o) mock_script) \<Rightarrow> ('i, 'o) scripted_operation \<Rightarrow> exc + ('i, 'o) scripted_operation" where
  "for_flow flow_prefix change op =
     ebind (case dict_get (so_flow_scripts op) flow_prefix of Some s \<Rightarrow> ret s | None \<Rightarrow> new_flow_script flow_prefix) (\<lambda>s.
       ret (op\<lparr>so_flow_scripts := dict_set flow_prefix (change s) (so_flow_scripts op)\<rparr>))"

section \<open>Answering\<close>

text \<open>A script is named by its Flow prefix, the operation's own script by \<open>None\<close>.\<close>

definition script_order :: "pystr \<Rightarrow> ('i, 'o) scripted_operation \<Rightarrow> pystr option list" where
  "script_order flow_id op =
     map Some (sort_key (\<lambda>p. - int (length p)) (filter (\<lambda>p. prefix p flow_id) (dict_keys (so_flow_scripts op)))) @ [None]"

definition get_script :: "pystr option \<Rightarrow> ('i, 'o) scripted_operation \<Rightarrow> ('i, 'o) mock_script" where
  "get_script i op =
     (case i of None \<Rightarrow> so_script op
      | Some p \<Rightarrow> (case dict_get (so_flow_scripts op) p of Some s \<Rightarrow> s | None \<Rightarrow> empty_script))"

definition put_script :: "pystr option \<Rightarrow> ('i, 'o) mock_script \<Rightarrow> ('i, 'o) scripted_operation \<Rightarrow> ('i, 'o) scripted_operation" where
  "put_script i s op =
     (case i of None \<Rightarrow> op\<lparr>so_script := s\<rparr>
      | Some p \<Rightarrow> op\<lparr>so_flow_scripts := dict_set p s (so_flow_scripts op)\<rparr>)"

text \<open>\<open>next((answer for script in scripts if ...), None)\<close>.\<close>

fun first_from ::
  "(('i, 'o) mock_script \<Rightarrow> exc + ('o mock_case option \<times> ('i, 'o) mock_script)) \<Rightarrow> pystr option list
     \<Rightarrow> ('i, 'o) scripted_operation \<Rightarrow> exc + ('o mock_case option \<times> ('i, 'o) scripted_operation)" where
  "first_from ask [] op = ret (None, op)"
| "first_from ask (i # rest) op =
     ebind (ask (get_script i op)) (\<lambda>(found, s).
       case found of
         Some c \<Rightarrow> ret (Some c, put_script i s op)
       | None \<Rightarrow> first_from ask rest op)"

definition scripted_response ::
  "pystr \<Rightarrow> 'i \<Rightarrow> ('i, 'o) scripted_operation \<Rightarrow> exc + ('o mock_case option \<times> ('i, 'o) scripted_operation)" where
  "scripted_response flow_id x op =
     ebind (first_from (script_answer x) (script_order flow_id op) op) (\<lambda>(found, op').
       if found = None \<and> \<not> so_strict op' then first_from script_default (script_order flow_id op) op' else ret (found, op'))"

definition mock_defect :: "('i, 'o) scripted_operation \<Rightarrow> string \<Rightarrow> 'o mock_case" where
  "mock_defect op message =
     case_branch_result DEFECT_BRANCH_ID None
       (Some \<lparr>fkind = LOCAL_DEFECT, fprovider = connector_id (so_operation op), foperation = operation_id (so_operation op),
              fmessage = str message\<rparr>)"

type_synonym ('i, 'o, 'w) mock_world = "('i, 'o) scripted_operation \<times> 'w"

definition on_operation ::
  "(('i, 'o) scripted_operation \<Rightarrow> exc + ('a \<times> ('i, 'o) scripted_operation)) \<Rightarrow> ('a, ('i, 'o, 'w) mock_world) action" where
  "on_operation f s = (case f (fst s) of Inl e \<Rightarrow> (raise e, s) | Inr (x, op) \<Rightarrow> (ret x, op, snd s))"

definition update_operation ::
  "(('i, 'o) scripted_operation \<Rightarrow> ('i, 'o) scripted_operation) \<Rightarrow> (unit, ('i, 'o, 'w) mock_world) action" where
  "update_operation f = on_operation (\<lambda>op. ret ((), f op))"

definition outside :: "('a, 'w) action \<Rightarrow> ('a, ('i, 'o, 'w) mock_world) action" where
  "outside = frame_action snd (\<lambda>w s. (fst s, w))"

definition report_failure :: "'w mock_host \<Rightarrow> pystr \<Rightarrow> (unit, ('i, 'o, 'w) mock_world) action" where
  "report_failure h message =
     sbind (update_operation (\<lambda>op. op\<lparr>so_failures := so_failures op @ [message]\<rparr>)) (\<lambda>_.
       case mh_report_failure h of None \<Rightarrow> sret () | Some callback \<Rightarrow> outside (callback message))"

definition select_page ::
  "'w mock_host \<Rightarrow> int \<Rightarrow> 'o mock_case \<Rightarrow> ('o mock_case, ('i, 'o, 'w) mock_world) action" where
  "select_page h page_number response =
     (if mc_kind response \<noteq> str ''paged'' then sret response
      else if page_number < 1 \<or> page_number > int (length (mc_pages response))
      then
        sbind (report_failure h (str ''requested page is outside the scripted listing'')) (\<lambda>_.
        on_operation (\<lambda>op. ret (mock_defect op ''requested page is outside the scripted listing'', op)))
      else sret (case_branch_result (mc_branch response) (Some (mc_pages response ! nat (page_number - 1))) None))"

text \<open>A call that is not a replay: its response, and whether no script had one.\<close>

definition fresh_answer ::
  "'w mock_host \<Rightarrow> pystr \<Rightarrow> 'i \<Rightarrow> pystr \<Rightarrow> int \<Rightarrow> ('o mock_case \<times> bool, ('i, 'o, 'w) mock_world) action" where
  "fresh_answer h flow_id x key page_number =
     sbind (on_operation (scripted_response flow_id x)) (\<lambda>found.
     sbind (case found of
         Some c \<Rightarrow> sret (c, False)
       | None \<Rightarrow>
         sbind (report_failure h (str ''unscripted call for Flow '' @ str_repr flow_id)) (\<lambda>_.
         on_operation (\<lambda>op. ret ((mock_defect op ''unscripted connector mock call'', True), op)))) (\<lambda>(c, unscripted).
     sbind (select_page h page_number c) (\<lambda>response.
     sbind (if key \<noteq> [] \<and> mc_kind response \<noteq> str ''retry''
            then update_operation (\<lambda>op. op\<lparr>so_terminal_by_key := dict_set key response (so_terminal_by_key op)\<rparr>)
            else sret ()) (\<lambda>_.
       sret (response, unscripted)))))"

definition recorded ::
  "('i, 'o) scripted_operation \<Rightarrow> pystr \<Rightarrow> pystr \<Rightarrow> pystr \<Rightarrow> 'i \<Rightarrow> 'o mock_case \<Rightarrow> bool \<Rightarrow> bool \<Rightarrow> 'i recorded_call" where
  "recorded op connection_name flow_id cid x response replay unscripted =
     \<lparr>rd_connector_id = connector_id (so_operation op), rd_operation_id = operation_id (so_operation op),
      rd_connection_name = connection_name, rd_flow_id = flow_id, rd_call_id = cid, rd_input = x,
      rd_branch = (if mc_kind response = str ''retry'' then [] else mc_branch response),
      rd_retry = (mc_kind response = str ''retry''), rd_replay = replay, rd_unscripted = unscripted\<rparr>"

fun is_report_error :: "exc \<Rightarrow> bool" where
  "is_report_error (OSError _) \<longleftrightarrow> True"
| "is_report_error e \<longleftrightarrow> is_ValueError e"

definition record_call ::
  "'w mock_host \<Rightarrow> pystr \<Rightarrow> pystr \<Rightarrow> pystr \<Rightarrow> 'i \<Rightarrow> 'o mock_case \<Rightarrow> bool \<Rightarrow> bool \<Rightarrow> ('o mock_case, ('i, 'o, 'w) mock_world) action" where
  "record_call h flow_id cid connection_name x response replay unscripted =
     sbind (on_operation (\<lambda>op.
         let r = recorded op connection_name flow_id cid x response replay unscripted
         in ret (r, op\<lparr>so_calls := so_calls op @ [r]\<rparr>))) (\<lambda>r.
     sbind (scatch (outside (append_to_report h r))
         (\<lambda>e. if is_report_error e then report_failure h (exc_text e) else sraise e)) (\<lambda>_.
       sret response))"

definition op_answer ::
  "'w mock_host \<Rightarrow> pystr \<Rightarrow> pystr \<Rightarrow> pystr \<Rightarrow> 'i \<Rightarrow> pystr \<Rightarrow> int \<Rightarrow> ('o mock_case, ('i, 'o, 'w) mock_world) action" where
  "op_answer h flow_id cid connection_name x key page_number =
     sbind (on_operation (\<lambda>op. ret (if key = [] then None else dict_get (so_terminal_by_key op) key, op))) (\<lambda>terminal.
     sbind (case terminal of Some c \<Rightarrow> sret (c, False) | None \<Rightarrow> fresh_answer h flow_id x key page_number)
       (\<lambda>(response, unscripted).
       record_call h flow_id cid connection_name x response (terminal \<noteq> None) unscripted))"

definition assert_no_failures :: "('i, 'o) scripted_operation \<Rightarrow> exc + unit" where
  "assert_no_failures op =
     ensure (so_failures op = []) (AssertionError (join_with (str ''; '') (so_failures op)))"

section \<open>Mock operations\<close>

definition mock_receipt :: "datetime \<Rightarrow> call \<Rightarrow> receipt" where
  "mock_receipt now c =
     zero_receipt\<lparr>rc_call_id := call_id c, rc_provider := connector_id (call_operation c), rc_observed_at := PyTime now,
       rc_idempotency_key := call_idempotency_key c\<rparr>"

text \<open>\<open>flow\<close> is the Flow identity of the call's context, \<open>None\<close> without a context.\<close>

definition mock_answer ::
  "'w mock_host \<Rightarrow> pystr option \<Rightarrow> call \<Rightarrow> 'i \<Rightarrow> pystr \<Rightarrow> ('o mock_case, ('i, 'o, 'w) mock_world) action" where
  "mock_answer h flow c x key =
     (case flow of
        None \<Rightarrow> sraise (ValueError (str ''connector mock requires a live Dex Step context''))
      | Some flow_id \<Rightarrow> op_answer h flow_id (call_id c) (cr_name (call_connection c)) x key 1)"

definition retry_of :: "'o mock_case \<Rightarrow> 'o attempt" where
  "retry_of response =
     \<lparr>at_kind = str ''retry'', at_branch = [], at_value = None, at_receipt = None,
      at_failure = mc_failure response, at_delay = mc_retry_after response\<rparr>"

definition uncertain_of :: "receipt \<Rightarrow> 'o mock_case \<Rightarrow> 'o attempt" where
  "uncertain_of receipt response =
     \<lparr>at_kind = str ''uncertain'', at_branch = UNCERTAIN_BRANCH_ID, at_value = mc_value response,
      at_receipt = Some receipt, at_failure = mc_failure response, at_delay = Fin 0\<rparr>"

definition query_attempt_of :: "datetime \<Rightarrow> call \<Rightarrow> 'o mock_case \<Rightarrow> exc + 'o attempt" where
  "query_attempt_of now c response =
     checked query_attempt_check
       (if mc_kind response = str ''retry'' then retry_of response
        else branch_attempt (mc_branch response) (mc_value response) (mock_receipt now c) (mc_failure response))"

definition mutation_attempt_of :: "datetime \<Rightarrow> call \<Rightarrow> 'o mock_case \<Rightarrow> exc + 'o attempt" where
  "mutation_attempt_of now c response =
     checked mutation_attempt_check
       (if mc_kind response = str ''retry'' then retry_of response
        else if mc_kind response = str ''uncertain'' then uncertain_of (mock_receipt now c) response
        else branch_attempt (mc_branch response) (mc_value response) (mock_receipt now c) (mc_failure response))"

definition mock_query ::
  "'w mock_host \<Rightarrow> ('w \<Rightarrow> datetime) \<Rightarrow> pystr option \<Rightarrow> op_definition \<Rightarrow> ('i, 'o, ('i, 'o, 'w) mock_world) provider_operation" where
  "mock_query h now flow d =
     \<lparr>op_definition = d, op_idempotency_key = (\<lambda>i x. ret i),
      op_invoke = (\<lambda>c x. sbind (mock_answer h flow c x []) (\<lambda>response s.
        (ebind (query_attempt_of (now (snd s)) c response) (\<lambda>a. ret (Some a)), s)))\<rparr>"

definition mock_mutation ::
  "'w mock_host \<Rightarrow> ('w \<Rightarrow> datetime) \<Rightarrow> pystr option \<Rightarrow> op_definition \<Rightarrow> ('i, 'o, ('i, 'o, 'w) mock_world) provider_operation" where
  "mock_mutation h now flow d =
     \<lparr>op_definition = d, op_idempotency_key = (\<lambda>i x. ret i),
      op_invoke = (\<lambda>c x. sbind (mock_answer h flow c x (call_idempotency_key c)) (\<lambda>response s.
        (ebind (mutation_attempt_of (now (snd s)) c response) (\<lambda>a. ret (Some a)), s)))\<rparr>"

definition new_mock_query :: "op_definition \<Rightarrow> exc + ('i, 'o) scripted_operation" where
  "new_mock_query d =
     ethen (query_definition_validate d) (new_scripted_operation (od_operation d) (map br_id (od_branch_list d)) False)"

definition new_mock_mutation :: "op_definition \<Rightarrow> exc + ('i, 'o) scripted_operation" where
  "new_mock_mutation d =
     ethen (mutation_definition_validate d) (new_scripted_operation (od_operation d) (map br_id (od_branch_list d)) True)"

section \<open>The report is one JSON document\<close>

definition report_document :: "jobj list \<Rightarrow> json" where
  "report_document rows = JObj [(str ''calls'', JArr (map JObj rows))]"

text \<open>The bytes of the file after the rows were appended one by one.\<close>

fun append_rows :: "bytes \<Rightarrow> jobj list \<Rightarrow> exc + bytes" where
  "append_rows file [] = ret file"
| "append_rows file (row # rows) =
     ebind (go_canonical_json_bytes (JObj row)) (\<lambda>encoded.
     ebind (append_row file encoded) (\<lambda>file'. append_rows file' rows))"

lemma utf8_encode_append:
  "utf8_encode (s @ t) = Some b \<longleftrightarrow> (\<exists>b1 b2. utf8_encode s = Some b1 \<and> utf8_encode t = Some b2 \<and> b = b1 @ b2)"
  by (auto simp: utf8_encode_def split: if_splits)

lemma join_with_snoc: "ws \<noteq> [] \<Longrightarrow> join_with sep (ws @ [w]) = join_with sep ws @ sep @ w"
  by (induction ws rule: induct_list012) auto

lemma canonical_plain:
  "json_plain j \<Longrightarrow> go_canonical_json_bytes j = Inr b \<longleftrightarrow> utf8_encode (print_with go_escape j) = Some b"
  by (auto simp: go_canonical_json_bytes_def go_serialized split: option.splits)

definition row_texts :: "jobj list \<Rightarrow> pystr" where
  "row_texts rows = join_with [44] (map (\<lambda>r. print_with go_escape (JObj r)) rows)"

lemma report_print: "print_with go_escape (report_document rows) = str ''{\"calls\":['' @ row_texts rows @ str '']}''"
proof -
  have "quote_with go_escape (str ''calls'') @ [58] = str ''\"calls\":''"
    by (simp add: quote_with_def go_escape_def escape_char_def str_def)
  then show ?thesis by (simp add: report_document_def row_texts_def comp_def) (simp add: str_def)
qed

lemma report_ascii: "utf8_encode (str ''{\"calls\":['') = Some (str ''{\"calls\":['')"
  "utf8_encode (str '']}'') = Some (str '']}'')" "utf8_encode [44] = Some [44]"
  by (rule utf8_encode_ascii, simp add: str_def)+

lemma report_bytes:
  assumes "list_all (\<lambda>r. json_plain (JObj r)) rows"
  shows "go_canonical_json_bytes (report_document rows) = Inr b \<longleftrightarrow>
    (\<exists>t. utf8_encode (row_texts rows) = Some t \<and> b = str ''{\"calls\":['' @ t @ str '']}'')"
proof -
  have "json_plain (report_document rows)"
    using assms by (simp add: report_document_def dict_ok_def dict_keys_def list_all_iff)
  then show ?thesis by (auto simp: canonical_plain report_print utf8_encode_append report_ascii)
qed

lemma append_row_document:
  assumes "list_all (\<lambda>r. json_plain (JObj r)) (rows @ [row])" "go_canonical_json_bytes (JObj row) = Inr encoded"
    and "if rows = [] then file = [] else go_canonical_json_bytes (report_document rows) = Inr file"
  shows "\<exists>file'. append_row file encoded = Inr file' \<and> go_canonical_json_bytes (report_document (rows @ [row])) = Inr file'"
proof -
  have e: "utf8_encode (print_with go_escape (JObj row)) = Some encoded"
    using assms(1,2) canonical_plain [of "JObj row"] by simp
  show ?thesis
  proof (cases "rows = []")
    case True
    with assms e show ?thesis
      by (auto simp: append_row_def report_bytes row_texts_def)
  next
    case False
    then obtain t where t: "utf8_encode (row_texts rows) = Some t" "file = str ''{\"calls\":['' @ t @ str '']}''"
      using assms by (auto simp: report_bytes)
    have "row_texts (rows @ [row]) = row_texts rows @ [44] @ print_with go_escape (JObj row)"
      using False by (simp add: row_texts_def join_with_snoc del: print_with.simps)
    moreover have "utf8_encode ([44] @ print_with go_escape (JObj row)) = Some ([44] @ encoded)"
      unfolding utf8_encode_append using e report_ascii(3) by blast
    ultimately have "utf8_encode (row_texts (rows @ [row])) = Some (t @ [44] @ encoded)"
      using t(1) utf8_encode_append by metis
    moreover have "append_row file encoded = Inr (str ''{\"calls\":['' @ (t @ [44] @ encoded) @ str '']}'')"
    proof -
      have "length file - 2 = length (str ''{\"calls\":['' @ t)" by (simp add: t(2))
      then have "drop (length file - 2) file = str '']}''" "take (length file - 2) file = str ''{\"calls\":['' @ t"
        by (simp_all add: t(2))
      then show ?thesis by (simp add: append_row_def t(2)) (simp add: str_def)
    qed
    ultimately show ?thesis using assms(1) by (auto simp: report_bytes)
  qed
qed

lemma append_rows_document:
  assumes "list_all (\<lambda>r. json_plain (JObj r)) (sofar @ rows)" "rows \<noteq> []"
    and "if sofar = [] then content = [] else go_canonical_json_bytes (report_document sofar) = Inr content"
    and "append_rows content rows = Inr content'"
  shows "go_canonical_json_bytes (report_document (sofar @ rows)) = Inr content'"
  using assms
proof (induction rows arbitrary: content sofar)
  case (Cons row rows)
  obtain encoded f where f: "go_canonical_json_bytes (JObj row) = Inr encoded" "append_row content encoded = Inr f"
    "append_rows f rows = Inr content'"
    using Cons.prems(4) by (auto simp: ebind_eq_Inr_iff)
  have d: "go_canonical_json_bytes (report_document (sofar @ [row])) = Inr f"
    using append_row_document [of sofar row encoded content] Cons.prems(1,3) f(1,2) by auto
  show ?case
  proof (cases "rows = []")
    case True
    with d f(3) show ?thesis by simp
  next
    case False
    from Cons.IH [of "sofar @ [row]" f] Cons.prems(1) False d f(3) show ?thesis by simp
  qed
qed simp

text \<open>Every row the mock writes is plain: its texts and flags have distinct names.\<close>

lemma report_wire_plain: "json_plain (JObj (to_report_wire r))"
  by (simp add: to_report_wire_def text_field_def flag_field_def dict_ok_def dict_keys_def)

section \<open>Replay\<close>

text \<open>Answers of a sequence of calls, as flow, call identity, connection, input, key and page.\<close>

fun mock_answers ::
  "'w mock_host \<Rightarrow> (pystr \<times> pystr \<times> pystr \<times> 'i \<times> pystr \<times> int) list \<Rightarrow> ('i, 'o, 'w) mock_world
     \<Rightarrow> (exc + 'o mock_case) list \<times> ('i, 'o, 'w) mock_world" where
  "mock_answers h [] s = ([], s)"
| "mock_answers h ((flow_id, cid, connection_name, x, key, page) # rest) s =
     (case op_answer h flow_id cid connection_name x key page s of
        (r, s1) \<Rightarrow> (case mock_answers h rest s1 of (rs, s2) \<Rightarrow> (r # rs, s2)))"

definition call_key :: "pystr \<times> pystr \<times> pystr \<times> 'i \<times> pystr \<times> int \<Rightarrow> pystr" where
  "call_key = (\<lambda>(_, _, _, _, key, _). key)"

text \<open>What an operation remembers: the terminal outcomes and the scripts.\<close>

definition terminals :: "('i, 'o, 'w) mock_world \<Rightarrow> (pystr, 'o mock_case) dict" where
  "terminals s = so_terminal_by_key (fst s)"

definition scripts :: "('i, 'o, 'w) mock_world \<Rightarrow> ('i, 'o) mock_script \<times> (pystr, ('i, 'o) mock_script) dict" where
  "scripts s = (so_script (fst s), so_flow_scripts (fst s))"

definition keeps :: "(('i, 'o, 'w) mock_world \<Rightarrow> 'b) \<Rightarrow> ('a, ('i, 'o, 'w) mock_world) action \<Rightarrow> bool" where
  "keeps view m \<longleftrightarrow> (\<forall>s r s'. m s = (r, s') \<longrightarrow> view s' = view s)"

lemma keepsD: "keeps view m \<Longrightarrow> m s = (r, s') \<Longrightarrow> view s' = view s"
  unfolding keeps_def by blast

lemma keeps_slift: "keeps view (slift r)"
  by (simp add: keeps_def)

lemma keeps_sbind:
  assumes "keeps view m" "\<And>x. keeps view (f x)"
  shows "keeps view (sbind m f)"
  unfolding keeps_def
proof (intro allI impI)
  fix s r s' assume e: "sbind m f s = (r, s')"
  obtain q s1 where q: "m s = (q, s1)" by (cases "m s")
  have "view s1 = view s" by (rule keepsD [OF assms(1) q])
  with e q keepsD [OF assms(2)] show "view s' = view s" by (cases q) (auto simp: sbind_def)
qed

lemma keeps_scatch:
  assumes "keeps view m" "\<And>e. keeps view (f e)"
  shows "keeps view (scatch m f)"
  unfolding keeps_def
proof (intro allI impI)
  fix s r s' assume e: "scatch m f s = (r, s')"
  obtain q s1 where q: "m s = (q, s1)" by (cases "m s")
  have "view s1 = view s" by (rule keepsD [OF assms(1) q])
  with e q keepsD [OF assms(2)] show "view s' = view s" by (cases q) (auto simp: scatch_def)
qed

lemma keeps_if: "keeps view a \<Longrightarrow> keeps view b \<Longrightarrow> keeps view (if c then a else b)"
  by simp

lemma keeps_option: "keeps view a \<Longrightarrow> (\<And>x. keeps view (f x)) \<Longrightarrow> keeps view (case y of None \<Rightarrow> a | Some x \<Rightarrow> f x)"
  by (cases y) auto

lemma keeps_prod: "(\<And>x y. keeps view (f x y)) \<Longrightarrow> keeps view (case p of (x, y) \<Rightarrow> f x y)"
  by (cases p) auto

lemma keeps_outside: "keeps terminals (outside m)" "keeps scripts (outside m)"
  by (auto simp: keeps_def outside_def frame_action_def terminals_def scripts_def split: prod.splits)

lemma keeps_on_operation:
  assumes "\<And>op x op'. f op = Inr (x, op') \<Longrightarrow> view (op', w) = view (op, w)" "\<And>op w v. view (op, w) = view (op, v)"
  shows "keeps view (on_operation f)"
  using assms by (auto simp: keeps_def on_operation_def split: sum.splits prod.splits) metis

lemma keeps_report_failure: "keeps terminals (report_failure h m)" "keeps scripts (report_failure h m)"
  unfolding report_failure_def update_operation_def
  by (intro keeps_sbind keeps_option keeps_slift keeps_outside keeps_on_operation; auto simp: terminals_def scripts_def)+

lemma put_script_terminals: "so_terminal_by_key (put_script i s op) = so_terminal_by_key op"
  by (simp add: put_script_def split: option.splits)

lemma first_from_terminals: "first_from ask is op = Inr (c, op') \<Longrightarrow> so_terminal_by_key op' = so_terminal_by_key op"
  by (induction "is" arbitrary: op)
    (auto simp: ebind_eq_Inr_iff put_script_terminals split: option.splits)

lemma scripted_response_terminals:
  "scripted_response flow_id x op = Inr (c, op') \<Longrightarrow> so_terminal_by_key op' = so_terminal_by_key op"
  by (auto simp: scripted_response_def ebind_eq_Inr_iff split: if_splits) (metis first_from_terminals)+

lemma keeps_select_page: "keeps terminals (select_page h n c)"
  unfolding select_page_def
  by (intro keeps_if keeps_sbind keeps_slift keeps_report_failure keeps_on_operation) (auto simp: terminals_def)

lemma keeps_then:
  assumes "keeps view m" "sbind m f s = (r, s')"
  obtains (failed) e where "r = Inl e" "view s' = view s"
  | (ok) x s1 where "m s = (Inr x, s1)" "view s1 = view s" "f x s1 = (r, s')"
proof -
  obtain q s1 where q: "m s = (q, s1)" by (cases "m s")
  note k = keepsD [OF assms(1) q]
  show thesis
    using assms(2) q k that by (cases q) (auto simp: sbind_def)
qed

text \<open>A call that is not replayed adds at most the outcome it returns, under its own key.\<close>

lemma keeps_found:
  "keeps terminals (on_operation (scripted_response flow_id x))"
  "keeps terminals (case found of
         Some c \<Rightarrow> sret (c, False)
       | None \<Rightarrow>
         sbind (report_failure h m) (\<lambda>_. on_operation (\<lambda>op. ret ((mock_defect op t, True), op))))"
proof -
  show "keeps terminals (on_operation (scripted_response flow_id x))"
    by (rule keeps_on_operation) (auto simp: terminals_def dest: scripted_response_terminals)
  show "keeps terminals (case found of
         Some c \<Rightarrow> sret (c, False)
       | None \<Rightarrow>
         sbind (report_failure h m) (\<lambda>_. on_operation (\<lambda>op. ret ((mock_defect op t, True), op))))"
    by (intro keeps_option keeps_sbind keeps_slift keeps_report_failure keeps_on_operation) (auto simp: terminals_def)
qed

lemma fresh_answer_terminals:
  assumes "fresh_answer h flow_id x key page s = (r, s')"
  shows "(\<exists>e. r = Inl e \<and> terminals s' = terminals s) \<or> (\<exists>c u. r = Inr (c, u) \<and> terminals s' =
    (if key \<noteq> [] \<and> mc_kind c \<noteq> str ''retry'' then dict_set key c (terminals s) else terminals s))"
  using keeps_found(1) assms unfolding fresh_answer_def
proof (cases rule: keeps_then)
  case (ok found s1)
  from keeps_found(2) ok(3) show ?thesis
  proof (cases rule: keeps_then)
    case found: (ok p s2)
    obtain c u where p: "p = (c, u)" by fastforce
    from keeps_select_page [of h page c] found(3) [unfolded p prod.case] show ?thesis
    proof (cases rule: keeps_then)
      case page: (ok response s3)
      then show ?thesis
        using ok(2) found(2) by (auto simp: sbind_def update_operation_def on_operation_def terminals_def split: if_splits)
    qed (use ok(2) found(2) in auto)
  qed (use ok(2) in auto)
qed auto

text \<open>Recording a call changes neither scripts nor outcomes.\<close>

lemma record_call_keeps:
  "keeps terminals (record_call h flow_id cid connection_name x response replay unscripted)"
  "keeps scripts (record_call h flow_id cid connection_name x response replay unscripted)"
  unfolding record_call_def Let_def
  by (intro keeps_sbind keeps_scatch keeps_if keeps_slift keeps_outside keeps_report_failure keeps_on_operation;
      auto simp: terminals_def scripts_def)+

lemma record_call_Inr:
  "record_call h flow_id cid connection_name x response replay unscripted s = (Inr c, s') \<Longrightarrow> c = response"
  by (auto simp: record_call_def sbind_eq_Inr_iff)

lemma op_answer_replay:
  assumes "key \<noteq> []" "dict_get (terminals s) key = Some c"
  shows "op_answer h flow_id cid connection_name x key page s = record_call h flow_id cid connection_name x c True False s"
  using assms by (simp add: op_answer_def sbind_def on_operation_def terminals_def)

lemma op_answer_fresh:
  assumes "key = [] \<or> dict_get (terminals s) key = None"
  shows "op_answer h flow_id cid connection_name x key page s =
    sbind (fresh_answer h flow_id x key page) (\<lambda>(c, u). record_call h flow_id cid connection_name x c False u) s"
  using assms by (auto simp: op_answer_def sbind_def on_operation_def terminals_def
      split: prod.splits sum.splits)

lemma op_answer_replayed:
  assumes "op_answer h flow_id cid connection_name x key page s = (r, s')"
    and "key \<noteq> []" "dict_get (terminals s) key = Some c"
  shows "terminals s' = terminals s \<and> scripts s' = scripts s \<and> (\<forall>c'. r = Inr c' \<longrightarrow> c' = c)"
proof -
  have e: "record_call h flow_id cid connection_name x c True False s = (r, s')"
    using assms(1) op_answer_replay [OF assms(2,3)] by simp
  show ?thesis
    using keepsD [OF record_call_keeps(1) e] keepsD [OF record_call_keeps(2) e] record_call_Inr e by metis
qed

lemma op_answer_terminals:
  assumes "op_answer h flow_id cid connection_name x key page s = (r, s')"
  shows "dict_get (terminals s) k = Some c \<Longrightarrow> dict_get (terminals s') k = Some c"
    and "key \<noteq> [] \<Longrightarrow> r = Inr c' \<Longrightarrow> mc_kind c' \<noteq> str ''retry'' \<Longrightarrow> dict_get (terminals s') key = Some c'"
proof -
  have "(dict_get (terminals s) k = Some c \<longrightarrow> dict_get (terminals s') k = Some c)
    \<and> (key \<noteq> [] \<longrightarrow> r = Inr c' \<longrightarrow> mc_kind c' \<noteq> str ''retry'' \<longrightarrow> dict_get (terminals s') key = Some c')"
  proof (cases "key = [] \<or> dict_get (terminals s) key = None")
    case True
    obtain q s1 where q: "fresh_answer h flow_id x key page s = (q, s1)" by (cases "fresh_answer h flow_id x key page s")
    have e: "(case q of Inl e \<Rightarrow> (Inl e, s1) | Inr p \<Rightarrow> (case p of (c, u) \<Rightarrow> record_call h flow_id cid connection_name x c False u) s1) = (r, s')"
      using assms op_answer_fresh [OF True] q by (simp add: sbind_def)
    have t: "terminals s' = terminals s1"
      using e by (auto split: sum.splits prod.splits) (metis keepsD [OF record_call_keeps(1)])
    have "c' = fst p" if "q = Inr p" "r = Inr c'" for p
      using e that by (cases p) (auto dest: record_call_Inr)
    moreover have "dict_get (dict_set key d (terminals s)) k = Some c" if "dict_get (terminals s) k = Some c" "key \<noteq> []" for d
      using that True by (auto simp: dict_get_set)
    moreover have "dict_get (dict_set key d (terminals s)) key = Some d" for d by (simp add: dict_get_set)
    ultimately show ?thesis
      using fresh_answer_terminals [OF q] t e by (cases q) (auto simp del: dict_get_set split: if_splits, metis)
  next
    case False
    then obtain d where "key \<noteq> []" "dict_get (terminals s) key = Some d" by auto
    with op_answer_replayed [OF assms this] show ?thesis by auto
  qed
  then show "dict_get (terminals s) k = Some c \<Longrightarrow> dict_get (terminals s') k = Some c"
    "key \<noteq> [] \<Longrightarrow> r = Inr c' \<Longrightarrow> mc_kind c' \<noteq> str ''retry'' \<Longrightarrow> dict_get (terminals s') key = Some c'"
    by blast+
qed

lemma answers_replayed:
  assumes "mock_answers h cs s = (rs, s')" "k \<noteq> []" "dict_get (terminals s) k = Some c"
    and "j < length cs" "call_key (cs ! j) = k" "rs ! j = Inr c'"
  shows "c' = c"
  using assms
proof (induction cs arbitrary: s rs j)
  case (Cons a cs)
  obtain flow_id cid n x key page where a: "a = (flow_id, cid, n, x, key, page)" by (cases a) auto
  obtain r s1 where r: "op_answer h flow_id cid n x key page s = (r, s1)"
    by (cases "op_answer h flow_id cid n x key page s")
  obtain rs1 where rs1: "mock_answers h cs s1 = (rs1, s')" "rs = r # rs1"
    using Cons.prems(1) a r by (auto split: prod.splits)
  show ?case
  proof (cases j)
    case 0
    then have "key = k" "r = Inr c'" using Cons.prems(5,6) a rs1 by (auto simp: call_key_def)
    with op_answer_replayed [OF r] Cons.prems(2,3) show ?thesis by blast
  next
    case (Suc i)
    then show ?thesis
      using Cons.IH [OF rs1(1) Cons.prems(2) op_answer_terminals(1) [OF r Cons.prems(3)], of i] Cons.prems(4-6) rs1(2) by simp
  qed
qed simp

text \<open>The first terminal outcome of a key is the outcome of every later call with that key.\<close>

lemma answers_stable:
  assumes "mock_answers h cs s = (rs, s')" "i < j" "j < length cs" "call_key (cs ! i) = call_key (cs ! j)" "call_key (cs ! i) \<noteq> []"
    and "rs ! i = Inr c" "mc_kind c \<noteq> str ''retry''" "rs ! j = Inr c'"
  shows "c' = c"
  using assms
proof (induction cs arbitrary: s rs i j)
  case (Cons a cs)
  obtain flow_id cid n x key page where a: "a = (flow_id, cid, n, x, key, page)" by (cases a) auto
  obtain r s1 where r: "op_answer h flow_id cid n x key page s = (r, s1)"
    by (cases "op_answer h flow_id cid n x key page s")
  obtain rs1 where rs1: "mock_answers h cs s1 = (rs1, s')" "rs = r # rs1"
    using Cons.prems(1) a r by (auto split: prod.splits)
  obtain m where j: "j = Suc m" using Cons.prems(2) by (cases j) auto
  show ?case
  proof (cases i)
    case 0
    then have k: "key \<noteq> []" "r = Inr c" "call_key (cs ! m) = key"
      using Cons.prems(4-6) a rs1(2) j by (auto simp: call_key_def)
    show ?thesis
      using answers_replayed [OF rs1(1) k(1) op_answer_terminals(2) [OF r k(1,2) Cons.prems(7)], of m c']
        Cons.prems(3,8) rs1(2) j k(3) by simp
  next
    case (Suc l)
    then show ?thesis
      using Cons.IH [OF rs1(1), of l m] Cons.prems(2-8) rs1(2) j by simp
  qed
qed simp

lemma report_document_loads:
  assumes "calls \<noteq> []" "append_rows [] (map to_report_wire calls) = Inr b"
  shows "loads_bytes b = Inr (report_document (map to_report_wire calls))"
proof -
  have p: "list_all (\<lambda>r. json_plain (JObj r)) (map to_report_wire calls)"
    using report_wire_plain by (auto simp: list_all_iff)
  then have "json_plain (report_document (map to_report_wire calls))"
    by (simp add: report_document_def dict_ok_def dict_keys_def list_all_iff)
  moreover have "go_canonical_json_bytes (report_document (map to_report_wire calls)) = Inr b"
    using append_rows_document [of "[]"] p assms by simp
  ultimately show ?thesis by (rule loads_canonical)
qed

end
