(* ===== verification/Steps.thy ===== *)
theory Steps
  imports Operations ConfigurationUI
begin

text \<open>
  \<^verbatim>\<open>sdkpython/src/dex_connectors/sdk/steps.py\<close>: Dex Steps built from a Query or a Mutation.
  The Dex SDK is third-party code: its options, durability modes and decisions appear as the
  data the source reads and builds, and its effects (the Flow attribute, the Step context) as
  arguments.  The contract a Step needs from its operation runner is the locale
  \<open>operation_runner\<close>, interpreted for \<open>run_query\<close> and \<open>run_mutation\<close>; under it a
  constructed Step always finds a route.
\<close>

section \<open>Annotations and configuration\<close>

record step_annotations =
  group_id :: pystr
  group_label :: pystr
  explanation :: pystr

definition is_group_id :: "pystr \<Rightarrow> bool" where
  "is_group_id s \<longleftrightarrow> s \<noteq> [] \<and> is_lower (hd s) \<and> list_all (\<lambda>c. is_lower c \<or> is_digit c \<or> c = 45) (tl s)"

definition annotations_validate :: "step_annotations \<Rightarrow> exc + unit" where
  "annotations_validate a =
     ensure (is_group_id (group_id a) \<and> strip (group_label a) \<noteq> [] \<and> strip (explanation a) \<noteq> [])
       (ValueError (str ''Step group, group label, and explanation are required''))"

text \<open>\<open>dex.StepDurability\<close>, \<open>dex.RetryPolicy\<close> and the fields of \<open>dex.StepOptions\<close> the SDK uses;
  the other option fields are \<open>so_rest\<close>.\<close>

datatype durability = DEFAULT | SYNC | ASYNC

record dex_retry_policy =
  dr_initial_interval :: timedelta
  dr_backoff_coefficient :: number
  dr_maximum_interval :: timedelta
  dr_maximum_attempts :: int
  dr_total_duration :: timedelta

record 'o dex_step_options =
  so_wait_for_method_timeout :: "timedelta option"
  so_wait_for_retry :: "dex_retry_policy option"
  so_wait_for_fails_flow :: bool
  so_wait_for_durability :: durability
  so_wait_for_lock_attributes :: "pystr list"
  so_wait_for_load_attribute_maps :: "pystr list"
  so_wait_for_load_attribute_map_instances :: "pystr list"
  so_wait_for_load_channels :: "pystr list"
  so_wait_for_load_channel_maps :: "pystr list"
  so_wait_for_load_channel_map_instances :: "pystr list"
  so_execute_method_timeout :: "timedelta option"
  so_heartbeat_timeout :: "timedelta option"
  so_execute_retry :: "dex_retry_policy option"
  so_execute_durability :: durability
  so_rest :: 'o

text \<open>
  \<open>QueryStepConfig\<close> and \<open>MutationStepConfig\<close>.  A \<open>None\<close> the factories test for is \<open>None\<close>;
  \<open>sc_result_attribute\<close> is the attribute's \<open>set\<close>.
\<close>

record ('s, 'i, 'v, 'w, 't, 'o) step_config =
  sc_step_type :: pystr
  sc_has_input_type :: bool
  sc_annotations :: step_annotations
  sc_operation :: "('i, 'v, 'w) provider_operation option"
  sc_connection :: connection_ref
  sc_map_to_operation_input :: "('s \<Rightarrow> exc + 'i) option"
  sc_branches :: "(pystr, 't option) dict"
  sc_configuration_ui :: configuration_ui
  sc_result_attribute :: "('v op_result \<Rightarrow> 'w \<Rightarrow> (exc + unit) \<times> 'w) option"
  sc_has_progress_stream :: bool
  sc_step_options_override :: "'o dex_step_options option"

record ('s, 'i, 'v, 'w, 't, 'o) connector_step =
  st_config :: "('s, 'i, 'v, 'w, 't, 'o) step_config"
  st_run_operation :: "('i, 'v, 'w) provider_operation"
  st_map_input :: "'s \<Rightarrow> exc + 'i"
  st_branches :: "(pystr, 't) dict"
  st_optional_branches :: "pystr list"
  st_operation_ref :: operation_ref
  st_options :: "'o dex_step_options"

section \<open>Construction\<close>

definition validate_factory ::
  "pystr \<Rightarrow> bool \<Rightarrow> step_annotations \<Rightarrow> connection_ref \<Rightarrow> 'm option \<Rightarrow> exc + 'm" where
  "validate_factory step_type has_input_type annotations connection mapper =
     (if strip step_type = [] then raise (ValueError (str ''stable Step type is required''))
      else if \<not> has_input_type then raise (ValueError (str ''Step input type is required''))
      else
        ethen (annotations_validate annotations)
        (ethen (connection_ref_validate connection)
          (case mapper of
             None \<Rightarrow> raise (ValueError (str ''map_to_operation_input is required''))
           | Some m \<Rightarrow> ret m)))"

definition target_of :: "pystr \<times> 't option \<Rightarrow> exc + (pystr \<times> 't)" where
  "target_of x =
     (case x of
        (branch_id, None) \<Rightarrow>
          raise (ValueError (str ''branch target '' @ str_repr branch_id @ str '' must name a Step''))
      | (branch_id, Some t) \<Rightarrow> ret (branch_id, t))"

text \<open>Branch identities are distinct here, so the dictionary \<open>declared\<close> is the list itself.\<close>

definition validate_branches ::
  "branch_definition list \<Rightarrow> (pystr, 't option) dict \<Rightarrow> exc + ((pystr, 't) dict \<times> pystr list)" where
  "validate_branches definitions targets =
     (if \<not> set (dict_keys targets) \<subseteq> br_id ` set definitions
      then raise (ValueError (str ''branch target is not declared by the operation''))
      else
        ebind (emap target_of targets) (\<lambda>ts.
        ethen
          (eall (\<lambda>b. ensure (br_optional b \<or> br_id b \<in> set (dict_keys targets))
             (ValueError (str ''branch target '' @ str_repr (br_id b) @ str '' is required''))) definitions)
          (ret (ts, map br_id (filter br_optional definitions)))))"

definition rejects_override :: "'o dex_step_options \<Rightarrow> bool" where
  "rejects_override v \<longleftrightarrow>
     so_wait_for_method_timeout v \<noteq> None \<or> so_wait_for_retry v \<noteq> None
     \<or> \<not> so_wait_for_fails_flow v \<or> so_wait_for_durability v \<noteq> DEFAULT
     \<or> so_wait_for_lock_attributes v \<noteq> [] \<or> so_wait_for_load_attribute_maps v \<noteq> []
     \<or> so_wait_for_load_attribute_map_instances v \<noteq> [] \<or> so_wait_for_load_channels v \<noteq> []
     \<or> so_wait_for_load_channel_maps v \<noteq> [] \<or> so_wait_for_load_channel_map_instances v \<noteq> []"

text \<open>Indexing the triple of modes: a float is no index, \<open>True\<close> is 1.\<close>

definition durability_of :: "json \<Rightarrow> exc + durability" where
  "durability_of j =
     (if is_int j
      then (if int_value j = 0 then ret DEFAULT else if int_value j = 1 then ret SYNC
            else if int_value j = 2 then ret ASYNC else raise (ForeignError (str ''IndexError'')))
      else raise (TypeError (str ''tuple indices must be integers or slices'')))"

definition dex_retry_of :: "retry_policy \<Rightarrow> dex_retry_policy" where
  "dex_retry_of p =
     \<lparr>dr_initial_interval = initial_interval p, dr_backoff_coefficient = backoff_coefficient p,
      dr_maximum_interval = maximum_interval p, dr_maximum_attempts = maximum_attempts p,
      dr_total_duration = total_duration p\<rparr>"

text \<open>\<open>a or b\<close> on optional time spans: \<open>None\<close> and the zero span are false.\<close>

definition or_span :: "timedelta option \<Rightarrow> timedelta option \<Rightarrow> timedelta option" where
  "or_span a b = (case a of Some t \<Rightarrow> if t \<noteq> 0 then a else b | None \<Rightarrow> b)"

definition default_options :: "'o \<Rightarrow> 'o dex_step_options" where
  "default_options rest =
     \<lparr>so_wait_for_method_timeout = None, so_wait_for_retry = None, so_wait_for_fails_flow = True,
      so_wait_for_durability = DEFAULT, so_wait_for_lock_attributes = [],
      so_wait_for_load_attribute_maps = [], so_wait_for_load_attribute_map_instances = [],
      so_wait_for_load_channels = [], so_wait_for_load_channel_maps = [],
      so_wait_for_load_channel_map_instances = [], so_execute_method_timeout = None,
      so_heartbeat_timeout = None, so_execute_retry = None, so_execute_durability = DEFAULT,
      so_rest = rest\<rparr>"

definition step_options ::
  "'o \<Rightarrow> step_defaults \<Rightarrow> 'o dex_step_options option \<Rightarrow> exc + 'o dex_step_options" where
  "step_options rest defaults override =
     (if (case override of None \<Rightarrow> False | Some v \<Rightarrow> rejects_override v)
      then raise (ValueError (str ''execute-only connector Step rejects wait_for options''))
      else
        let policy = (case execute_retry defaults of
                        Some p \<Rightarrow> p | None \<Rightarrow> default_connector_step_execute_retry_policy)
        in ebind (durability_of (execute_durability defaults)) (\<lambda>durability.
           let base = (default_options rest)
                 \<lparr>so_execute_method_timeout := Some (execute_method_timeout defaults),
                  so_heartbeat_timeout := (if heartbeat_timeout defaults \<noteq> 0
                                           then Some (heartbeat_timeout defaults) else None),
                  so_execute_retry := Some (dex_retry_of policy),
                  so_execute_durability := durability\<rparr>
           in case override of
                None \<Rightarrow> ret base
              | Some v \<Rightarrow> ret (v
                  \<lparr>so_execute_method_timeout :=
                     or_span (so_execute_method_timeout v) (so_execute_method_timeout base),
                   so_heartbeat_timeout := or_span (so_heartbeat_timeout v) (so_heartbeat_timeout base),
                   so_execute_retry := (case so_execute_retry v of
                                          Some p \<Rightarrow> Some p | None \<Rightarrow> so_execute_retry base),
                   so_execute_durability := (if so_execute_durability v \<noteq> DEFAULT
                                             then so_execute_durability v
                                             else so_execute_durability base)\<rparr>)))"

text \<open>
  \<open>QueryStep.__init__\<close> and \<open>MutationStep.__init__\<close>: the two differ in the definition's own
  \<open>validate\<close> and in the first message.
\<close>

definition new_step ::
  "(op_definition \<Rightarrow> exc + unit) \<Rightarrow> pystr \<Rightarrow> 'o \<Rightarrow> ('s, 'i, 'v, 'w, 't, 'o) step_config
     \<Rightarrow> exc + ('s, 'i, 'v, 'w, 't, 'o) connector_step" where
  "new_step validate missing rest config =
     (case sc_operation config of
        None \<Rightarrow> raise (ValueError missing)
      | Some operation \<Rightarrow>
        let d = op_definition operation in
        ethen (validate d)
        (ebind (validate_factory (sc_step_type config) (sc_has_input_type config) (sc_annotations config)
                  (sc_connection config) (sc_map_to_operation_input config)) (\<lambda>mapper.
         ethen (configuration_ui_validate (sc_configuration_ui config))
         (ebind (validate_branches (od_branch_list d) (sc_branches config)) (\<lambda>(targets, optionals).
          ebind (step_options rest (od_step_defaults d) (sc_step_options_override config)) (\<lambda>options.
          ret \<lparr>st_config = config, st_run_operation = operation, st_map_input = mapper,
               st_branches = targets, st_optional_branches = optionals,
               st_operation_ref = od_operation d, st_options = options\<rparr>))))))"

definition new_query_step ::
  "'o \<Rightarrow> ('s, 'i, 'v, 'w, 't, 'o) step_config \<Rightarrow> exc + ('s, 'i, 'v, 'w, 't, 'o) connector_step" where
  "new_query_step = new_step query_definition_validate (str ''query operation is required'')"

definition new_mutation_step ::
  "'o \<Rightarrow> ('s, 'i, 'v, 'w, 't, 'o) step_config \<Rightarrow> exc + ('s, 'i, 'v, 'w, 't, 'o) connector_step" where
  "new_mutation_step = new_step mutation_definition_validate (str ''mutation operation is required'')"

section \<open>Execution\<close>

text \<open>The identity fields of a Dex Step context.\<close>

record step_context =
  cx_flow_id :: pystr
  cx_step_execution_id :: pystr
  cx_attempt :: int

definition step_call ::
  "(bytes \<Rightarrow> bytes) \<Rightarrow> step_context \<Rightarrow> operation_ref \<Rightarrow> connection_ref \<Rightarrow> bool
     \<Rightarrow> exc + (call \<times> reporter option)" where
  "step_call sha1 context operation connection has_progress_stream =
     (if cx_flow_id context = [] \<or> cx_step_execution_id context = []
      then raise (ValueError (str ''connector operations require a Dex Flow and Step execution''))
      else
        ebind (derive_call_id sha1 (cx_flow_id context) (cx_step_execution_id context) operation) (\<lambda>i.
        ret (\<lparr>call_id = i, call_connection = connection, call_operation = operation,
              call_idempotency_key = []\<rparr>,
             if has_progress_stream then Some (new_reporter i (cx_attempt context)) else None)))"

definition raise_dex_retry :: "failure \<Rightarrow> pyfloat \<Rightarrow> exc" where
  "raise_dex_retry f delay =
     (if retry_after_whole_seconds delay > 0
      then DexRetryAfter (retry_after_whole_seconds delay) (RetryError f delay)
      else RetryError f delay)"

datatype ('t, 'v) step_decision = GoTo 't "'v op_result" | ForceFail pystr

definition MAX_REASON_BYTES :: nat where
  "MAX_REASON_BYTES = 1024"

definition failure_suffix :: "failure \<Rightarrow> exc + pystr" where
  "failure_suffix f =
     ebind (encode_str (fmessage f)) (\<lambda>b.
       ret (str '': '' @ kind_value (fkind f) @ str '': ''
            @ utf8_decode_ignore (take MAX_REASON_BYTES b)
            @ (if length b > MAX_REASON_BYTES then str '' (truncated)'' else [])))"

definition route_branch ::
  "(pystr, 't) dict \<Rightarrow> pystr list \<Rightarrow> pystr \<Rightarrow> 'v op_result \<Rightarrow> failure option \<Rightarrow> call \<Rightarrow> pystr
     \<Rightarrow> exc + ('t, 'v) step_decision" where
  "route_branch branches optional branch result failure c kind =
     (case dict_get branches branch of
        Some target \<Rightarrow> ret (GoTo target result)
      | None \<Rightarrow>
        if branch \<in> set optional
        then
          let reason = connector_id (call_operation c) @ str '' '' @ operation_id (call_operation c)
                @ str '' (connection '' @ cr_name (call_connection c) @ str '') selected branch ''
                @ branch @ str '' with no target''
          in ebind (case failure of None \<Rightarrow> ret [] | Some f \<Rightarrow> failure_suffix f)
               (\<lambda>suffix. ret (ForceFail (reason @ suffix)))
        else raise (ValueError (kind @ str '' result selected unconfigured branch '' @ str_repr branch)))"

text \<open>\<open>execute\<close> of both classes, over the runner of the class.\<close>

definition step_execute ::
  "(('w \<Rightarrow> datetime) \<Rightarrow> ('i, 'v, 'w) provider_operation \<Rightarrow> call \<Rightarrow> 'i \<Rightarrow> 'w \<Rightarrow> (exc + 'v op_result) \<times> 'w)
     \<Rightarrow> pystr \<Rightarrow> (bytes \<Rightarrow> bytes) \<Rightarrow> ('w \<Rightarrow> datetime) \<Rightarrow> ('s, 'i, 'v, 'w, 't, 'o) connector_step
     \<Rightarrow> step_context \<Rightarrow> 's \<Rightarrow> 'w \<Rightarrow> (exc + ('t, 'v) step_decision) \<times> 'w" where
  "step_execute run kind sha1 now st context input w =
     (case step_call sha1 context (st_operation_ref st) (sc_connection (st_config st))
             (sc_has_progress_stream (st_config st)) of
        Inl e \<Rightarrow> (raise e, w)
      | Inr (c, rep) \<Rightarrow>
        (case (case st_map_input st input of
                 Inl e \<Rightarrow> (raise e, w)
               | Inr x \<Rightarrow> run now (st_run_operation st) c x w) of
           (Inl e, w1) \<Rightarrow>
             (case e of RetryError f delay \<Rightarrow> raise (raise_dex_retry f delay) | _ \<Rightarrow> raise e, w1)
         | (Inr result, w1) \<Rightarrow>
             (case (case sc_result_attribute (st_config st) of
                      None \<Rightarrow> (ret (), w1)
                    | Some set_attribute \<Rightarrow> set_attribute result w1) of
                (Inl e, w2) \<Rightarrow> (raise e, w2)
              | (Inr _, w2) \<Rightarrow>
                  (route_branch (st_branches st) (st_optional_branches st) (rs_branch result) result
                     (rs_failure result) c kind, w2))))"

definition query_step_execute ::
  "(bytes \<Rightarrow> bytes) \<Rightarrow> ('w \<Rightarrow> datetime) \<Rightarrow> ('s, 'i, 'v, 'w, 't, 'o) connector_step
     \<Rightarrow> step_context \<Rightarrow> 's \<Rightarrow> 'w \<Rightarrow> (exc + ('t, 'v) step_decision) \<times> 'w" where
  "query_step_execute = step_execute run_query (str ''query'')"

definition mutation_step_execute ::
  "(bytes \<Rightarrow> bytes) \<Rightarrow> ('w \<Rightarrow> datetime) \<Rightarrow> ('s, 'i, 'v, 'w, 't, 'o) connector_step
     \<Rightarrow> step_context \<Rightarrow> 's \<Rightarrow> 'w \<Rightarrow> (exc + ('t, 'v) step_decision) \<times> 'w" where
  "mutation_step_execute = step_execute run_mutation (str ''mutation'')"

section \<open>Routes are found\<close>

lemma emap_target_of:
  assumes "emap target_of targets = Inr ts"
  shows "dict_keys ts = dict_keys targets" "dict_get ts b = Some t \<longleftrightarrow> dict_get targets b = Some (Some t)"
  using assms
  by (induction targets arbitrary: ts)
    (auto simp: dict_keys_def target_of_def ebind_eq_Inr_iff split: prod.splits option.splits if_splits)

lemma validate_branches_eq_Inr:
  assumes "validate_branches ds targets = Inr (ts, optionals)"
  shows "dict_get ts b = Some t \<longleftrightarrow> dict_get targets b = Some (Some t)"
    and "dict_get ts b \<noteq> None \<Longrightarrow> b \<in> br_id ` set ds"
    and "b \<in> set optionals \<longleftrightarrow> (\<exists>d \<in> set ds. br_optional d \<and> br_id d = b)"
    and "b \<in> br_id ` set ds \<Longrightarrow> dict_get ts b \<noteq> None \<or> b \<in> set optionals"
proof -
  from assms have sub: "set (dict_keys targets) \<subseteq> br_id ` set ds"
    and ts: "emap target_of targets = Inr ts"
    and req: "\<And>d. d \<in> set ds \<Longrightarrow> br_optional d \<or> br_id d \<in> set (dict_keys targets)"
    and opt: "optionals = map br_id (filter br_optional ds)"
    by (auto simp: validate_branches_def ebind_eq_Inr_iff ethen_eq_Inr_iff eall_eq_Inr_iff split: if_splits)
  show "dict_get ts b = Some t \<longleftrightarrow> dict_get targets b = Some (Some t)"
    by (rule emap_target_of(2) [OF ts])
  show o: "b \<in> set optionals \<longleftrightarrow> (\<exists>d \<in> set ds. br_optional d \<and> br_id d = b)"
    by (auto simp: opt)
  show "dict_get ts b \<noteq> None \<Longrightarrow> b \<in> br_id ` set ds"
    using sub emap_target_of(1) [OF ts] by (auto simp: map_of_eq_None_keys)
  show "b \<in> br_id ` set ds \<Longrightarrow> dict_get ts b \<noteq> None \<or> b \<in> set optionals"
    using req emap_target_of(1) [OF ts] o by (auto simp: map_of_eq_None_keys)
qed

lemma failure_suffix_error: "failure_suffix f = Inl e \<Longrightarrow> e = UnicodeError"
  by (auto simp: failure_suffix_def encode_str_def ebind_eq_Inl_iff split: option.splits)

text \<open>A declared branch has a target, or is optional and fails the Flow with a reason.\<close>

lemma route_branch_declared:
  assumes "validate_branches ds targets = Inr (ts, optionals)" "b \<in> br_id ` set ds"
  shows "(\<exists>t. dict_get targets b = Some (Some t) \<and> route_branch ts optionals b r f c k = Inr (GoTo t r))
    \<or> (dict_get ts b = None \<and> b \<in> set optionals
        \<and> ((\<exists>m. route_branch ts optionals b r f c k = Inr (ForceFail m))
           \<or> route_branch ts optionals b r f c k = Inl UnicodeError))"
proof (cases "dict_get ts b")
  case None
  with validate_branches_eq_Inr(4) [OF assms(1,2)] have "b \<in> set optionals"
    by simp
  with None failure_suffix_error show ?thesis
    by (cases f; cases "failure_suffix (the f)") (auto simp: route_branch_def Let_def)
next
  case (Some t)
  with validate_branches_eq_Inr(1) [OF assms(1), of b t] show ?thesis
    by (simp add: route_branch_def)
qed

text \<open>What a Step needs of the runner of its class, and the class's own validation.\<close>

locale operation_runner =
  fixes run :: "('w \<Rightarrow> datetime) \<Rightarrow> ('i, 'v, 'w) provider_operation \<Rightarrow> call \<Rightarrow> 'i \<Rightarrow> 'w
      \<Rightarrow> (exc + 'v op_result) \<times> 'w"
    and validate :: "op_definition \<Rightarrow> exc + unit"
  assumes run_branch: "run now operation c x w = (Inr r, w') \<Longrightarrow>
      rs_branch r \<in> declared_ids (op_definition operation) \<or> rs_branch r = DEFECT_BRANCH_ID"
    and defect_declared: "validate d = Inr () \<Longrightarrow> od_branch_list d \<noteq> [] \<Longrightarrow>
      DEFECT_BRANCH_ID \<in> declared_ids d"
begin

lemma new_step_eq_Inr:
  assumes "new_step validate m rest config = Inr st"
  shows "sc_operation config = Some (st_run_operation st)" "st_config st = config"
    and "validate (op_definition (st_run_operation st)) = Inr ()"
    and "validate_branches (od_branch_list (op_definition (st_run_operation st))) (sc_branches config)
           = Inr (st_branches st, st_optional_branches st)"
    and "st_operation_ref st = od_operation (op_definition (st_run_operation st))"
  using assms
  by (auto simp: new_step_def Let_def ebind_eq_Inr_iff ethen_eq_Inr_iff split: option.splits)

lemma result_routed:
  assumes st: "new_step validate m rest config = Inr st"
    and ne: "od_branch_list (op_definition (st_run_operation st)) \<noteq> []"
    and r: "run now (st_run_operation st) c x w = (Inr r, w')"
  shows "rs_branch r \<in> br_id ` set (od_branch_list (op_definition (st_run_operation st)))"
  using run_branch [OF r] defect_declared [OF new_step_eq_Inr(3) [OF st] ne]
  by (auto simp: declared_ids_def)

text \<open>The only error of the last step of \<open>execute\<close> is a failure text that UTF-8 cannot encode.\<close>

lemma execute_decides:
  assumes st: "new_step validate m rest config = Inr st"
    and ne: "od_branch_list (op_definition (st_run_operation st)) \<noteq> []"
    and c: "step_call sha1 context (st_operation_ref st) (sc_connection config)
              (sc_has_progress_stream config) = Inr (c, rep)"
    and x: "st_map_input st input = Inr x"
    and r: "run now (st_run_operation st) c x w = (Inr r, w1)"
    and a: "sc_result_attribute config = None"
  shows "(\<exists>t. dict_get (sc_branches config) (rs_branch r) = Some (Some t)
            \<and> step_execute run k sha1 now st context input w = (Inr (GoTo t r), w1))
    \<or> (rs_branch r \<in> set (st_optional_branches st) \<and> dict_get (st_branches st) (rs_branch r) = None
        \<and> ((\<exists>reason. step_execute run k sha1 now st context input w = (Inr (ForceFail reason), w1))
           \<or> step_execute run k sha1 now st context input w = (Inl UnicodeError, w1)))"
proof -
  have "step_execute run k sha1 now st context input w =
      (route_branch (st_branches st) (st_optional_branches st) (rs_branch r) r (rs_failure r) c k, w1)"
    using c x r a by (simp add: step_execute_def new_step_eq_Inr(2) [OF st])
  then show ?thesis
    using route_branch_declared [OF new_step_eq_Inr(4) [OF st] result_routed [OF st ne r],
        of r "rs_failure r" c k] by auto
qed

text \<open>A retry of the runner reaches Dex with its whole-second delay.\<close>

lemma execute_retries:
  assumes st: "new_step validate m rest config = Inr st"
    and c: "step_call sha1 context (st_operation_ref st) (sc_connection config)
              (sc_has_progress_stream config) = Inr (c, rep)"
    and x: "st_map_input st input = Inr x"
    and r: "run now (st_run_operation st) c x w = (Inl (RetryError f (Fin q)), w1)"
    and q: "0 \<le> q"
  shows "step_execute run k sha1 now st context input w =
    (Inl (if 1 \<le> q then DexRetryAfter \<lfloor>q\<rfloor> (RetryError f (Fin q)) else RetryError f (Fin q)), w1)"
proof -
  have "retry_after_whole_seconds (Fin q) = \<lfloor>q\<rfloor>"
    using q by (simp add: retry_after_whole_seconds_def trunc_rat_def)
  moreover have "0 < \<lfloor>q\<rfloor> \<longleftrightarrow> 1 \<le> q" by linarith
  ultimately show ?thesis
    using c x r by (simp add: step_execute_def new_step_eq_Inr(2) [OF st] raise_dex_retry_def)
qed

end

lemma declared_defect_of_validate:
  assumes "query_definition_validate d = Inr () \<or> mutation_definition_validate d = Inr ()"
    and "od_branch_list d \<noteq> []"
  shows "DEFECT_BRANCH_ID \<in> declared_ids d"
  using validate_defect_declared(1) [OF assms] by (simp add: declared_ids_def)

interpretation query_runner: operation_runner run_query query_definition_validate
proof
  fix now operation c x w w'
  and r :: "'v op_result"
  assume "run_query now operation c x w = (Inr r, w')"
  from run_query_sound [OF this]
  show "rs_branch r \<in> declared_ids (op_definition operation) \<or> rs_branch r = DEFECT_BRANCH_ID"
    by (auto simp: result_sound_def is_local_defect_def)
qed (simp add: declared_defect_of_validate)

interpretation mutation_runner: operation_runner run_mutation mutation_definition_validate
proof
  fix now operation c x w w'
  and r :: "'v op_result"
  assume "run_mutation now operation c x w = (Inr r, w')"
  from run_mutation_sound [OF this]
  show "rs_branch r \<in> declared_ids (op_definition operation) \<or> rs_branch r = DEFECT_BRANCH_ID"
    by (auto simp: result_sound_def is_local_defect_def)
qed (simp add: declared_defect_of_validate)

section \<open>The failure text\<close>

text \<open>
  The message in a failure reason is the longest prefix of the failure message whose encoding
  has at most 1024 bytes, and it is marked when something was cut.
\<close>

lemma failure_suffix_bounded:
  assumes "failure_suffix f = Inr s"
  shows "\<exists>k \<le> length (fmessage f). s = str '': '' @ kind_value (fkind f) @ str '': '' @ take k (fmessage f)
           @ (if k < length (fmessage f) then str '' (truncated)'' else [])
         \<and> utf8_len (take k (fmessage f)) \<le> 1024
         \<and> (k < length (fmessage f) \<longrightarrow> 1024 < utf8_len (take (Suc k) (fmessage f)))"
proof -
  let ?m = "fmessage f"
  have sc: "list_all is_scalar ?m" and b: "utf8_encode ?m = Some (concat (map utf8_char ?m))"
    and s: "s = str '': '' @ kind_value (fkind f) @ str '': ''
      @ utf8_decode_ignore (take 1024 (concat (map utf8_char ?m)))
      @ (if 1024 < length (concat (map utf8_char ?m)) then str '' (truncated)'' else [])"
    using assms
    by (auto simp: failure_suffix_def encode_str_def utf8_encode_def MAX_REASON_BYTES_def
        split: option.splits if_splits)
  from utf8_cut_longest_prefix [OF sc, of 1024] obtain k where
    k: "k \<le> length ?m" "utf8_decode_ignore (take 1024 (concat (map utf8_char ?m))) = take k ?m"
    "utf8_len (take k ?m) \<le> 1024" "k < length ?m \<longrightarrow> 1024 < utf8_len (take (Suc k) ?m)"
    by blast
  have "utf8_len (take n ?m) \<le> utf8_len ?m" for n
  proof -
    have "utf8_len ?m = utf8_len (take n ?m) + utf8_len (drop n ?m)"
      by (metis append_take_drop_id concat_append length_append map_append)
    then show ?thesis by simp
  qed
  from this [of "Suc k"] have cut: "k < length ?m \<longleftrightarrow> 1024 < utf8_len ?m"
    using k(1,3,4) by (cases "k < length ?m") simp_all
  have "s = str '': '' @ kind_value (fkind f) @ str '': '' @ take k ?m
      @ (if k < length ?m then str '' (truncated)'' else [])"
    unfolding s k(2) cut ..
  with k(1,3,4) show ?thesis by blast
qed

end
