(* ===== verification/SingleDispatch.thy ===== *)
theory SingleDispatch
  imports Identities
begin

text \<open>
  \<^verbatim>\<open>sdkpython/src/dex_connectors/sdk/singledispatch/\<close>: heartbeat markers, the resend
  decision and the \<open>Fence\<close> that lets a non-idempotent request be sent once.  Every method of
  the fence holds its lock, so a method is one step; \<open>dispatch\<close> is three steps (claim, the
  request in flight, completion) with the claim repeater running in between.  The Dex
  heartbeat is the argument \<open>hb\<close>, which acts on the durable last value: when it returns, the
  marker is stored; when it raises, the marker may or may not be stored.

  The relation \<open>dispatch_step\<close> runs any number of attempts of one call in any order of
  operations.  Its invariant gives the at-most-once theorem: a request is sent at most once
  more often than the connector proved that the provider had not processed it.
\<close>

section \<open>Markers\<close>

datatype dispatch_state = NOT_SENT | CLAIMED | CAN_RESEND

fun state_value :: "dispatch_state \<Rightarrow> pystr" where
  "state_value NOT_SENT = str ''notSent''"
| "state_value CLAIMED = str ''claimed''"
| "state_value CAN_RESEND = str ''canResend''"

definition state_of :: "pystr \<Rightarrow> dispatch_state option" where
  "state_of s = find (\<lambda>x. state_value x = s) [NOT_SENT, CLAIMED, CAN_RESEND]"

record marker =
  mk_call_id :: pystr
  mk_attempt :: int
  mk_state :: dispatch_state
  mk_provider_id :: pystr

definition bad_checkpoint :: exc where
  "bad_checkpoint = ValueError (str ''invalid single-dispatch checkpoint'')"

definition marker_validate :: "marker \<Rightarrow> exc + unit" where
  "marker_validate m = ethen (call_id_validate (mk_call_id m)) (ensure (mk_attempt m \<ge> 1) bad_checkpoint)"

definition marker_to_wire :: "marker \<Rightarrow> exc + jobj" where
  "marker_to_wire m =
     ethen (marker_validate m)
       (ret ([(str ''callId'', JStr (mk_call_id m)), (str ''attempt'', JInt (mk_attempt m)),
              (str ''state'', JStr (state_value (mk_state m)))]
             @ (if mk_provider_id m \<noteq> [] then [(str ''providerId'', JStr (mk_provider_id m))] else [])))"

definition marker_from_wire :: "json \<Rightarrow> exc + marker" where
  "marker_from_wire value =
     (case value of
        JObj d \<Rightarrow>
          let field = (\<lambda>k. get_or d k JNull); provider = get_or d (str ''providerId'') (JStr []) in
          if \<not> {str ''callId'', str ''attempt'', str ''state''} \<subseteq> set (dict_keys d)
          then raise bad_checkpoint
          else if \<not> set (dict_keys d) \<subseteq> {str ''callId'', str ''attempt'', str ''state'', str ''providerId''}
          then raise bad_checkpoint
          else if \<not> is_str (field (str ''callId'')) \<or> \<not> is_int (field (str ''attempt''))
             \<or> is_bool (field (str ''attempt'')) \<or> \<not> is_str (field (str ''state'')) \<or> \<not> is_str provider
          then raise bad_checkpoint
          else
            (case state_of (str_value (field (str ''state''))) of
               None \<Rightarrow> raise bad_checkpoint
             | Some s \<Rightarrow>
               let m = \<lparr>mk_call_id = str_value (field (str ''callId'')),
                        mk_attempt = int_value (field (str ''attempt'')), mk_state = s,
                        mk_provider_id = str_value provider\<rparr>
               in if is_ok (marker_validate m) then ret m else raise bad_checkpoint)
      | _ \<Rightarrow> raise bad_checkpoint)"

section \<open>Decisions\<close>

datatype decision_kind = SEND_ALLOWED | READ_BACK_REQUIRED | FAIL_CLOSED

record decision =
  dc_kind :: decision_kind
  dc_marker :: "marker option"
  dc_error :: pystr

text \<open>A previous heartbeat is a marker or decoded JSON.\<close>

datatype heartbeat_value = MarkerValue marker | JsonValue json

definition read_marker :: "heartbeat_value \<Rightarrow> exc + marker" where
  "read_marker v =
     (case v of
        MarkerValue m \<Rightarrow> marker_from_wire (JObj
          [(str ''callId'', JStr (mk_call_id m)), (str ''attempt'', JInt (mk_attempt m)),
           (str ''state'', JStr (state_value (mk_state m))), (str ''providerId'', JStr (mk_provider_id m))])
      | JsonValue j \<Rightarrow> marker_from_wire j)"

definition decide_dispatch :: "pystr \<Rightarrow> int \<Rightarrow> heartbeat_value option \<Rightarrow> exc + decision" where
  "decide_dispatch i attempt previous =
     ethen (call_id_validate i)
       (if attempt < 1 then raise (ValueError (str ''single dispatch requires a positive attempt''))
        else
          (case previous of
             None \<Rightarrow>
               if attempt = 1 then ret \<lparr>dc_kind = SEND_ALLOWED, dc_marker = None, dc_error = []\<rparr>
               else ret \<lparr>dc_kind = READ_BACK_REQUIRED, dc_marker = None, dc_error = []\<rparr>
           | Some v \<Rightarrow>
               (case read_marker v of
                  Inl e \<Rightarrow> ret \<lparr>dc_kind = FAIL_CLOSED, dc_marker = None,
                               dc_error = str ''invalid single-dispatch checkpoint''\<rparr>
                | Inr m \<Rightarrow>
                  if mk_call_id m \<noteq> i
                  then ret \<lparr>dc_kind = FAIL_CLOSED, dc_marker = Some m,
                            dc_error = str ''foreign single-dispatch checkpoint''\<rparr>
                  else if mk_attempt m = attempt - 1 \<and> (mk_state m = NOT_SENT \<or> mk_state m = CAN_RESEND)
                     \<and> mk_provider_id m = []
                  then ret \<lparr>dc_kind = SEND_ALLOWED, dc_marker = Some m, dc_error = []\<rparr>
                  else ret \<lparr>dc_kind = READ_BACK_REQUIRED, dc_marker = Some m, dc_error = []\<rparr>)))"

section \<open>The fence\<close>

record fence =
  fn_call_id :: pystr
  fn_attempt :: int
  fn_write_deadline :: instant
  fn_minimum_request_time :: timedelta
  fn_decision :: "decision option"
  fn_has_dispatched :: bool
  fn_has_send_finished :: bool
  fn_has_pre_send_retry :: bool
  fn_marker :: "marker option"

text \<open>
  \<open>context\<close> is the attempt number and the optional deadline of the Dex context.  A span times a
  float and a span divided by an integer round to the nearest microsecond, ties to even.
\<close>

definition new_fence ::
  "pystr \<Rightarrow> (int \<times> instant option) option \<Rightarrow> instant \<Rightarrow> timedelta \<Rightarrow> pyfloat \<Rightarrow> exc + fence" where
  "new_fence i context started_at execute_timeout fraction =
     (case context of
        None \<Rightarrow> raise (ValueError (str ''single dispatch requires a call, positive attempt, and Execute timeout''))
      | Some (attempt, deadline) \<Rightarrow>
        if i = [] \<or> attempt < 1 \<or> execute_timeout \<le> 0
        then raise (ValueError (str ''single dispatch requires a call, positive attempt, and Execute timeout''))
        else
          (case fraction of
             Fin r \<Rightarrow>
               if r \<le> 0 \<or> r > fl_rat (5 / 6)
               then raise (ValueError (str ''single-dispatch write window must be within (0, 5/6]''))
               else
                 let budget = max 0 (case deadline of None \<Rightarrow> execute_timeout
                                     | Some t \<Rightarrow> min execute_timeout (t - started_at))
                 in ret \<lparr>fn_call_id = i, fn_attempt = attempt,
                         fn_write_deadline = started_at + round_half_even (of_int budget * r),
                         fn_minimum_request_time = round_half_even (of_int budget / 10),
                         fn_decision = None, fn_has_dispatched = False, fn_has_send_finished = False,
                         fn_has_pre_send_retry = False, fn_marker = None\<rparr>
           | _ \<Rightarrow> raise (ValueError (str ''single-dispatch write window must be within (0, 5/6]''))))"

definition DEFAULT_WRITE_WINDOW :: pyfloat where
  "DEFAULT_WRITE_WINDOW = Fin (fl_rat (7 / 12))"

text \<open>\<open>prior\<close> is what reading the last heartbeat gives: an error, absent, or a value, where a
  present value may still be \<open>None\<close>.\<close>

definition fence_decide :: "exc + heartbeat_value option option \<Rightarrow> fence \<Rightarrow> decision \<times> fence" where
  "fence_decide prior f =
     (case fn_decision f of
        Some d \<Rightarrow> (d, f)
      | None \<Rightarrow>
        let attempted =
              ebind prior (\<lambda>p.
              ebind (case p of
                       None \<Rightarrow> ret None
                     | Some None \<Rightarrow> raise (ValueError (str ''present heartbeat has no checkpoint''))
                     | Some (Some v) \<Rightarrow> ret (Some v)) (\<lambda>previous.
              decide_dispatch (fn_call_id f) (fn_attempt f) previous));
            d = (case attempted of
                   Inr d \<Rightarrow> d
                 | Inl e \<Rightarrow> \<lparr>dc_kind = FAIL_CLOSED, dc_marker = None,
                            dc_error = str ''single-dispatch checkpoint could not be read''\<rparr>)
        in (d, f\<lparr>fn_decision := Some d\<rparr>))"

type_synonym 'w heartbeat = "marker \<Rightarrow> 'w \<Rightarrow> (exc + unit) \<times> 'w"

text \<open>\<open>_record\<close>: the fence remembers a marker once the heartbeat returned.\<close>

definition fence_record :: "'w heartbeat \<Rightarrow> marker \<Rightarrow> fence \<Rightarrow> 'w \<Rightarrow> (exc + unit) \<times> fence \<times> 'w" where
  "fence_record hb m f w =
     (case hb m w of
        (Inl e, w') \<Rightarrow> (raise e, f, w')
      | (Inr _, w') \<Rightarrow> (ret (), f\<lparr>fn_marker := Some m\<rparr>, w'))"

definition fence_mark :: "fence \<Rightarrow> dispatch_state \<Rightarrow> pystr \<Rightarrow> marker" where
  "fence_mark f s p = \<lparr>mk_call_id = fn_call_id f, mk_attempt = fn_attempt f, mk_state = s, mk_provider_id = p\<rparr>"

definition send_permitted :: "fence \<Rightarrow> bool" where
  "send_permitted f \<longleftrightarrow> (case fn_decision f of None \<Rightarrow> False | Some d \<Rightarrow> dc_kind d = SEND_ALLOWED)
     \<and> \<not> fn_has_dispatched f \<and> \<not> fn_has_pre_send_retry f"

text \<open>
  The locked part of \<open>dispatch\<close>.  A value means that \<open>send\<close> is called next; \<open>now\<close> is the clock.
\<close>

definition dispatch_begin :: "'w heartbeat \<Rightarrow> instant \<Rightarrow> fence \<Rightarrow> 'w \<Rightarrow> (exc + unit) \<times> fence \<times> 'w" where
  "dispatch_begin hb now f w =
     (if \<not> send_permitted f then (raise DispatchNotAllowedError, f, w)
      else if fn_minimum_request_time f \<le> 0 \<or> fn_write_deadline f - now < fn_minimum_request_time f
      then
        (case fence_record hb (fence_mark f NOT_SENT []) (f\<lparr>fn_has_pre_send_retry := True\<rparr>) w of
           (Inl e, f', w') \<Rightarrow> (raise e, f', w')
         | (Inr _, f', w') \<Rightarrow> (raise InsufficientAttemptTimeError, f', w'))
      else
        (case fence_record hb (fence_mark f CLAIMED []) (f\<lparr>fn_has_dispatched := True\<rparr>) w of
           (Inl e, f', w') \<Rightarrow>
             (case fence_record hb (fence_mark f NOT_SENT []) (f'\<lparr>fn_has_pre_send_retry := True\<rparr>) w' of
                (_, f'', w'') \<Rightarrow> (raise CheckpointError, f'', w''))
         | (Inr _, f', w') \<Rightarrow> (ret (), f', w')))"

text \<open>The \<open>finally\<close> block after the request.\<close>

definition dispatch_finish :: "fence \<Rightarrow> fence" where
  "dispatch_finish f = f\<lparr>fn_has_send_finished := True\<rparr>"

text \<open>The seconds the request is given, \<open>max(deadline - now, 0)\<close>, in microseconds.\<close>

definition send_budget :: "instant \<Rightarrow> fence \<Rightarrow> timedelta" where
  "send_budget now f = max 0 (fn_write_deadline f - now)"

definition record_not_sent :: "'w heartbeat \<Rightarrow> fence \<Rightarrow> 'w \<Rightarrow> (exc + unit) \<times> fence \<times> 'w" where
  "record_not_sent hb f w =
     (if \<not> send_permitted f then (raise DispatchNotAllowedError, f, w)
      else fence_record hb (fence_mark f NOT_SENT []) (f\<lparr>fn_has_pre_send_retry := True\<rparr>) w)"

definition resend_provable :: "fence \<Rightarrow> bool" where
  "resend_provable f \<longleftrightarrow> fn_has_send_finished f
     \<and> (case fn_marker f of None \<Rightarrow> False | Some m \<Rightarrow> mk_state m = CLAIMED \<and> mk_provider_id m = [])"

definition record_can_resend :: "'w heartbeat \<Rightarrow> fence \<Rightarrow> 'w \<Rightarrow> (exc + unit) \<times> fence \<times> 'w" where
  "record_can_resend hb f w =
     (if \<not> resend_provable f then (raise DispatchNotAllowedError, f, w)
      else fence_record hb (fence_mark f CAN_RESEND []) f w)"

definition record_provider_id :: "'w heartbeat \<Rightarrow> pystr \<Rightarrow> fence \<Rightarrow> 'w \<Rightarrow> (exc + unit) \<times> fence \<times> 'w" where
  "record_provider_id hb p f w =
     (if \<not> fn_has_send_finished f
         \<or> (case fn_marker f of None \<Rightarrow> True | Some m \<Rightarrow> mk_state m \<noteq> CLAIMED) \<or> p = []
      then (raise DispatchNotAllowedError, f, w)
      else fence_record hb (fence_mark f CLAIMED p) f w)"

text \<open>One round of \<open>_repeat_claim\<close> after its interval passed; a failing heartbeat is ignored.\<close>

definition repeat_claim :: "'w heartbeat \<Rightarrow> marker \<Rightarrow> fence \<Rightarrow> 'w \<Rightarrow> 'w" where
  "repeat_claim hb claim f w = (if fn_marker f = Some claim then snd (hb claim w) else w)"

section \<open>Markers survive the wire\<close>

lemma state_of_value [simp]: "state_of (state_value s) = Some s"
  by (cases s) (simp_all add: state_of_def)

lemma marker_roundtrip:
  assumes "marker_to_wire m = Inr d"
  shows "marker_from_wire (JObj d) = Inr m"
proof -
  from assms have v: "marker_validate m = Inr ()"
    and d: "d = [(str ''callId'', JStr (mk_call_id m)), (str ''attempt'', JInt (mk_attempt m)),
                 (str ''state'', JStr (state_value (mk_state m)))]
                @ (if mk_provider_id m \<noteq> [] then [(str ''providerId'', JStr (mk_provider_id m))] else [])"
    by (auto simp: marker_to_wire_def ethen_eq_Inr_iff)
  from v show ?thesis
    by (cases m) (auto simp: marker_from_wire_def d dict_keys_def get_or_def Let_def)
qed

lemma read_marker_value:
  "marker_validate m = Inr () \<Longrightarrow> read_marker (MarkerValue m) = Inr m"
  by (cases m) (simp add: read_marker_def marker_from_wire_def dict_keys_def get_or_def Let_def)

lemma read_marker_value_eq:
  "read_marker (MarkerValue m) = Inr m' \<Longrightarrow> m' = m \<and> marker_validate m = Inr ()"
  by (cases m)
    (auto simp: read_marker_def marker_from_wire_def dict_keys_def get_or_def Let_def is_ok_unit_iff
      split: if_splits)

text \<open>A resend is permitted only by the first attempt or by a safe marker of the attempt before.\<close>

definition safe_marker :: "pystr \<Rightarrow> int \<Rightarrow> marker \<Rightarrow> bool" where
  "safe_marker i attempt m \<longleftrightarrow> mk_call_id m = i \<and> mk_attempt m = attempt
     \<and> mk_state m \<noteq> CLAIMED \<and> mk_provider_id m = []"

lemma decide_dispatch_send_iff:
  assumes "decide_dispatch i attempt previous = Inr d"
  shows "dc_kind d = SEND_ALLOWED \<longleftrightarrow>
    (previous = None \<and> attempt = 1)
    \<or> (\<exists>v m. previous = Some v \<and> read_marker v = Inr m \<and> safe_marker i (attempt - 1) m)"
proof (cases previous)
  case None
  then show ?thesis
    using assms by (auto simp: decide_dispatch_def ethen_eq_Inr_iff split: if_splits)
next
  case (Some v)
  have st: "mk_state m \<noteq> CLAIMED \<longleftrightarrow> mk_state m = NOT_SENT \<or> mk_state m = CAN_RESEND" for m
    by (cases "mk_state m") auto
  show ?thesis
    using assms Some
    by (auto simp: decide_dispatch_def safe_marker_def ethen_eq_Inr_iff st split: if_splits sum.splits)
qed

section \<open>Attempts of one call\<close>

text \<open>
  The durable last heartbeat, the fence of the running attempt, how often \<open>send\<close> was called
  and how often \<open>record_can_resend\<close> was accepted, over all attempts.
\<close>

record dispatch_sys =
  ds_fence :: fence
  ds_last :: "marker option"
  ds_sends :: nat
  ds_proofs :: nat

definition hb_ok :: "marker option heartbeat \<Rightarrow> bool" where
  "hb_ok hb \<longleftrightarrow> (\<forall>m w. snd (hb m w) = Some m \<or> (snd (hb m w) = w \<and> fst (hb m w) \<noteq> Inr ()))"

text \<open>Reading may fail, lose the value, or return what was stored.\<close>

inductive reads :: "marker option \<Rightarrow> exc + heartbeat_value option option \<Rightarrow> bool" where
  read_error: "reads l (Inl e)"
| read_lost: "reads l (Inr (Some None))"
| read_value: "reads l (Inr (map_option (\<lambda>m. Some (MarkerValue m)) l))"

inductive dispatch_step :: "dispatch_sys \<Rightarrow> dispatch_sys \<Rightarrow> bool" where
  decide: "reads (ds_last s) prior \<Longrightarrow> fence_decide prior (ds_fence s) = (d, f)
    \<Longrightarrow> dispatch_step s (s\<lparr>ds_fence := f\<rparr>)"
| begin_send: "hb_ok hb \<Longrightarrow> dispatch_begin hb now (ds_fence s) (ds_last s) = (Inr (), f, l)
    \<Longrightarrow> dispatch_step s (s\<lparr>ds_fence := f, ds_last := l, ds_sends := Suc (ds_sends s)\<rparr>)"
| begin_refused: "hb_ok hb \<Longrightarrow> dispatch_begin hb now (ds_fence s) (ds_last s) = (Inl e, f, l)
    \<Longrightarrow> dispatch_step s (s\<lparr>ds_fence := f, ds_last := l\<rparr>)"
| finish: "fn_has_dispatched (ds_fence s) \<Longrightarrow> dispatch_step s (s\<lparr>ds_fence := dispatch_finish (ds_fence s)\<rparr>)"
| repeat: "hb_ok hb \<Longrightarrow> fn_has_dispatched (ds_fence s) \<Longrightarrow> dispatch_step s
    (s\<lparr>ds_last := repeat_claim hb (fence_mark (ds_fence s) CLAIMED []) (ds_fence s) (ds_last s)\<rparr>)"
| not_sent: "hb_ok hb \<Longrightarrow> record_not_sent hb (ds_fence s) (ds_last s) = (r, f, l)
    \<Longrightarrow> dispatch_step s (s\<lparr>ds_fence := f, ds_last := l\<rparr>)"
| can_resend: "hb_ok hb \<Longrightarrow> record_can_resend hb (ds_fence s) (ds_last s) = (r, f, l)
    \<Longrightarrow> dispatch_step s (s\<lparr>ds_fence := f, ds_last := l,
          ds_proofs := ds_proofs s + (if resend_provable (ds_fence s) then 1 else 0)\<rparr>)"
| provider_id: "hb_ok hb \<Longrightarrow> record_provider_id hb p (ds_fence s) (ds_last s) = (r, f, l)
    \<Longrightarrow> dispatch_step s (s\<lparr>ds_fence := f, ds_last := l\<rparr>)"
| next_attempt: "new_fence (fn_call_id (ds_fence s)) (Some (fn_attempt (ds_fence s) + 1, dl)) t x q = Inr f
    \<Longrightarrow> dispatch_step s (s\<lparr>ds_fence := f\<rparr>)"

inductive_cases dispatch_stepE: "dispatch_step s s'"

inductive dispatch_reachable :: "pystr \<Rightarrow> dispatch_sys \<Rightarrow> bool" for i where
  first: "new_fence i (Some (1, dl)) t x q = Inr f \<Longrightarrow>
    dispatch_reachable i \<lparr>ds_fence = f, ds_last = None, ds_sends = 0, ds_proofs = 0\<rparr>"
| more: "dispatch_reachable i s \<Longrightarrow> dispatch_step s s' \<Longrightarrow> dispatch_reachable i s'"

text \<open>A send is permitted now, or would be after reading the stored marker.\<close>

definition may_send :: "fence \<Rightarrow> marker option \<Rightarrow> bool" where
  "may_send f l \<longleftrightarrow>
     (case fn_decision f of
        Some d \<Rightarrow> dc_kind d = SEND_ALLOWED
      | None \<Rightarrow> (l = None \<and> fn_attempt f = 1)
          \<or> (\<exists>m. l = Some m \<and> safe_marker (fn_call_id f) (fn_attempt f - 1) m))"

definition dispatch_inv :: "dispatch_sys \<Rightarrow> bool" where
  "dispatch_inv s \<longleftrightarrow>
     (let f = ds_fence s in
      (\<forall>m. ds_last s = Some m \<longrightarrow> mk_attempt m \<le> fn_attempt f)
      \<and> ds_sends s \<le> Suc (ds_proofs s)
      \<and> (\<not> fn_has_dispatched f \<and> may_send f (ds_last s) \<longrightarrow> ds_sends s \<le> ds_proofs s)
      \<and> (\<forall>m. ds_last s = Some m \<and> safe_marker (fn_call_id f) (fn_attempt f) m \<longrightarrow> ds_sends s \<le> ds_proofs s)
      \<and> (fn_decision f = None \<longrightarrow> \<not> fn_has_dispatched f)
      \<and> (fn_has_send_finished f \<longrightarrow> fn_has_dispatched f)
      \<and> 1 \<le> fn_attempt f)"

lemma hb_ok_stored:
  "hb_ok hb \<Longrightarrow> hb m w = (r, w') \<Longrightarrow> w' = Some m \<or> (w' = w \<and> r \<noteq> Inr ())"
  unfolding hb_ok_def by (metis fst_conv snd_conv)

lemma fence_record_cases:
  assumes "hb_ok hb" "fence_record hb m f w = (r, f', w')"
  shows "(w' = Some m \<or> w' = w) \<and> (f' = f \<or> f' = f\<lparr>fn_marker := Some m\<rparr>)
    \<and> (r = Inr () \<longrightarrow> w' = Some m \<and> f' = f\<lparr>fn_marker := Some m\<rparr>)"
  using assms hb_ok_stored [OF assms(1)]
  by (fastforce simp: fence_record_def split: prod.splits sum.splits)

lemma new_fence_fields:
  assumes "new_fence i (Some (n, dl)) t x q = Inr f"
  shows "fn_call_id f = i" "fn_attempt f = n" "1 \<le> n" "fn_decision f = None"
    "\<not> fn_has_dispatched f" "\<not> fn_has_pre_send_retry f" "fn_marker f = None" "\<not> fn_has_send_finished f"
  using assms by (auto simp: new_fence_def Let_def split: pyfloat.splits if_splits)

lemma fence_decide_fields:
  assumes "reads l prior" "fence_decide prior f = (d, f')"
  shows "fn_call_id f' = fn_call_id f" "fn_attempt f' = fn_attempt f"
    "fn_has_dispatched f' = fn_has_dispatched f" "fn_decision f' = Some d"
    "may_send f' l \<Longrightarrow> may_send f l"
proof -
  show "fn_call_id f' = fn_call_id f" "fn_attempt f' = fn_attempt f"
    "fn_has_dispatched f' = fn_has_dispatched f" "fn_decision f' = Some d"
    using assms(2) by (auto simp: fence_decide_def Let_def split: option.splits)
  assume m: "may_send f' l"
  show "may_send f l"
  proof (cases "fn_decision f")
    case (Some d')
    with assms(2) m show ?thesis by (auto simp: fence_decide_def)
  next
    case None
    from m have k: "dc_kind d = SEND_ALLOWED"
      by (simp add: may_send_def \<open>fn_decision f' = Some d\<close>)
    with assms None
    have "decide_dispatch (fn_call_id f) (fn_attempt f) (map_option MarkerValue l) = Inr d"
      by (auto simp: fence_decide_def Let_def elim!: reads.cases split: sum.splits option.splits)
    from decide_dispatch_send_iff [OF this] k None show ?thesis
      by (auto simp: may_send_def dest: read_marker_value_eq)
  qed
qed

definition same_identity :: "fence \<Rightarrow> fence \<Rightarrow> bool" where
  "same_identity f f' \<longleftrightarrow> fn_call_id f' = fn_call_id f \<and> fn_attempt f' = fn_attempt f
     \<and> fn_decision f' = fn_decision f \<and> (fn_has_dispatched f \<longrightarrow> fn_has_dispatched f')
     \<and> (fn_has_send_finished f' \<longrightarrow> fn_has_send_finished f \<or> fn_has_dispatched f')"

lemma same_identity_refl [simp]: "same_identity f f"
  by (simp add: same_identity_def)

text \<open>A recording keeps the identity and stores its marker or nothing.\<close>

lemma fence_record_identity:
  assumes "fence_record hb m f0 l = (r, f', l')" "hb_ok hb" "same_identity f f0"
  shows "same_identity f f'" "l' = l \<or> l' = Some m" "fn_has_dispatched f' = fn_has_dispatched f0"
    "r = Inr () \<Longrightarrow> l' = Some m"
  using fence_record_cases [OF assms(2,1)] assms(3) by (auto simp: same_identity_def)

lemma dispatch_begin_cases:
  assumes "hb_ok hb" "dispatch_begin hb now f l = (r, f', l')"
  shows "same_identity f f' \<and>
    ((\<not> send_permitted f \<and> f' = f \<and> l' = l \<and> r = Inl DispatchNotAllowedError)
     \<or> (send_permitted f \<and> r = Inr () \<and> fn_has_dispatched f' \<and> l' = Some (fence_mark f CLAIMED []))
     \<or> (send_permitted f \<and> r \<noteq> Inr ()
         \<and> l' \<in> {l, Some (fence_mark f CLAIMED []), Some (fence_mark f NOT_SENT [])}))"
proof (cases "send_permitted f")
  case False
  with assms(2) show ?thesis
    by (simp add: dispatch_begin_def)
next
  case True
  show ?thesis
  proof (cases "fn_minimum_request_time f \<le> 0 \<or> fn_write_deadline f - now < fn_minimum_request_time f")
    case late: True
    obtain r1 f1 l1 where e: "fence_record hb (fence_mark f NOT_SENT [])
        (f\<lparr>fn_has_pre_send_retry := True\<rparr>) l = (r1, f1, l1)" by (metis prod_cases3)
    then have "dispatch_begin hb now f l =
        (case r1 of Inl e \<Rightarrow> Inl e | Inr _ \<Rightarrow> Inl InsufficientAttemptTimeError, f1, l1)"
      unfolding dispatch_begin_def using True late by (cases r1) (simp_all only: if_True if_False not_True_eq_False prod.case sum.case)
    with assms(2) have "r \<noteq> Inr ()" "f' = f1" "l' = l1"
      by (auto split: sum.splits)
    moreover have "same_identity f f1" "l1 = l \<or> l1 = Some (fence_mark f NOT_SENT [])"
      using fence_record_identity [OF e assms(1), of f] by (simp_all add: same_identity_def)
    ultimately show ?thesis using True by blast
  next
    case early: False
    obtain r1 f1 l1 where e: "fence_record hb (fence_mark f CLAIMED [])
        (f\<lparr>fn_has_dispatched := True\<rparr>) l = (r1, f1, l1)" by (metis prod_cases3)
    obtain r2 f2 l2 where e2: "fence_record hb (fence_mark f NOT_SENT [])
        (f1\<lparr>fn_has_pre_send_retry := True\<rparr>) l1 = (r2, f2, l2)" by (metis prod_cases3)
    have "same_identity f (f\<lparr>fn_has_dispatched := True\<rparr>)"
      by (simp add: same_identity_def)
    note i1 = fence_record_identity [OF e assms(1) this]
    then have "same_identity f (f1\<lparr>fn_has_pre_send_retry := True\<rparr>)"
      by (simp add: same_identity_def)
    note i2 = fence_record_identity [OF e2 assms(1) this]
    have "(r1 = Inr () \<and> r = Inr () \<and> f' = f1 \<and> l' = l1) \<or> (r \<noteq> Inr () \<and> f' = f2 \<and> l' = l2)"
    proof (cases r1)
      case (Inl x)
      have "dispatch_begin hb now f l = (Inl CheckpointError, f2, l2)"
        unfolding dispatch_begin_def using True early e e2 Inl
        by (simp only: if_True if_False not_True_eq_False prod.case sum.case)
      with assms(2) show ?thesis by auto
    next
      case (Inr x)
      have "dispatch_begin hb now f l = (Inr (), f1, l1)"
        unfolding dispatch_begin_def using True early e Inr
        by (simp only: if_True if_False not_True_eq_False prod.case sum.case)
      with assms(2) Inr show ?thesis by auto
    qed
    then show ?thesis
      using True i1 i2 by auto
  qed
qed

lemma send_permitted_may_send: "send_permitted f \<Longrightarrow> may_send f l \<and> \<not> fn_has_dispatched f"
  by (auto simp: send_permitted_def may_send_def split: option.splits)

lemma safe_fence_mark:
  "safe_marker i a (fence_mark f s p) \<longleftrightarrow> fn_call_id f = i \<and> fn_attempt f = a \<and> s \<noteq> CLAIMED \<and> p = []"
  by (simp add: safe_marker_def fence_mark_def)

lemma may_send_identity:
  "same_identity f f' \<Longrightarrow> fn_decision f \<noteq> None \<Longrightarrow> may_send f' l' = may_send f l"
  by (auto simp: same_identity_def may_send_def split: option.splits)

lemma mk_attempt_fence_mark [simp]: "mk_attempt (fence_mark f s p) = fn_attempt f"
  by (simp add: fence_mark_def)

text \<open>An operation of a decided fence that stores nothing, a claim, or a justified marker.\<close>

lemma dispatch_inv_update:
  assumes inv: "dispatch_inv s" and same: "same_identity (ds_fence s) f"
    and dec: "fn_decision (ds_fence s) \<noteq> None"
    and l: "l = ds_last s \<or> (\<exists>st p. l = Some (fence_mark (ds_fence s) st p) \<and> (st = CLAIMED \<or> n \<le> k))"
    and bound: "n \<le> Suc k" "ds_proofs s \<le> k"
    and cnt: "n = ds_sends s \<or> (fn_has_dispatched f \<and> l = Some (fence_mark (ds_fence s) CLAIMED []))"
  shows "dispatch_inv (s\<lparr>ds_fence := f, ds_last := l, ds_sends := n, ds_proofs := k\<rparr>)"
proof -
  let ?f = "ds_fence s"
  have idf: "fn_call_id f = fn_call_id ?f" "fn_attempt f = fn_attempt ?f"
    "fn_decision f \<noteq> None" "fn_has_dispatched ?f \<Longrightarrow> fn_has_dispatched f"
    "fn_has_send_finished f \<Longrightarrow> fn_has_send_finished ?f \<or> fn_has_dispatched f"
    using same dec by (auto simp: same_identity_def)
  have i: "\<forall>m. ds_last s = Some m \<longrightarrow> mk_attempt m \<le> fn_attempt ?f"
    "\<not> fn_has_dispatched ?f \<and> may_send ?f (ds_last s) \<Longrightarrow> ds_sends s \<le> ds_proofs s"
    "\<And>m. ds_last s = Some m \<Longrightarrow> safe_marker (fn_call_id ?f) (fn_attempt ?f) m \<Longrightarrow> ds_sends s \<le> ds_proofs s"
    "fn_has_send_finished ?f \<Longrightarrow> fn_has_dispatched ?f" "1 \<le> fn_attempt ?f"
    using inv by (auto simp: dispatch_inv_def Let_def)
  have m: "may_send f l = may_send ?f (ds_last s)"
    by (rule may_send_identity [OF same dec])
  have "\<forall>m. l = Some m \<longrightarrow> mk_attempt m \<le> fn_attempt f"
    using l i(1) idf(2) by auto
  moreover have "n \<le> k" if "\<not> fn_has_dispatched f \<and> may_send f l"
  proof -
    have "n = ds_sends s" "\<not> fn_has_dispatched ?f"
      using that cnt idf(4) by auto
    then show ?thesis using that i(2) m bound(2) by simp
  qed
  moreover have "n \<le> k" if "l = Some m" "safe_marker (fn_call_id f) (fn_attempt f) m" for m
    using l
  proof
    assume "l = ds_last s"
    with that i(3) [of m] cnt bound(2) idf(1,2) show ?thesis
      by (auto simp: safe_fence_mark)
  next
    assume "\<exists>st p. l = Some (fence_mark ?f st p) \<and> (st = CLAIMED \<or> n \<le> k)"
    with that show ?thesis by (auto simp: safe_fence_mark)
  qed
  moreover have "fn_has_send_finished f \<Longrightarrow> fn_has_dispatched f"
    using i(4) idf(4,5) by blast
  ultimately show ?thesis
    using bound(1) idf(2,3) i(5) by (auto simp: dispatch_inv_def Let_def)
qed

lemma dispatch_inv_permitted:
  "dispatch_inv s \<Longrightarrow> send_permitted (ds_fence s) \<Longrightarrow> ds_sends s \<le> ds_proofs s"
  using send_permitted_may_send by (auto simp: dispatch_inv_def Let_def)

lemma dispatch_inv_decided:
  assumes "dispatch_inv s"
    and "fn_has_dispatched (ds_fence s) \<or> fn_has_send_finished (ds_fence s) \<or> send_permitted (ds_fence s)"
  shows "fn_decision (ds_fence s) \<noteq> None"
  using assms by (auto simp: dispatch_inv_def Let_def send_permitted_def split: option.splits)

lemma dispatch_inv_first:
  assumes "new_fence i (Some (1, dl)) t x q = Inr f"
  shows "dispatch_inv \<lparr>ds_fence = f, ds_last = None, ds_sends = 0, ds_proofs = 0\<rparr>"
  using new_fence_fields [OF assms] by (simp add: dispatch_inv_def)

lemma dispatch_inv_next:
  assumes "dispatch_inv s"
    and "new_fence (fn_call_id (ds_fence s)) (Some (fn_attempt (ds_fence s) + 1, dl)) t x q = Inr f"
  shows "dispatch_inv (s\<lparr>ds_fence := f\<rparr>)"
  using assms(1) new_fence_fields [OF assms(2)]
  by (auto simp: dispatch_inv_def Let_def may_send_def safe_marker_def)

lemma dispatch_inv_decide:
  assumes "dispatch_inv s" "reads (ds_last s) prior" "fence_decide prior (ds_fence s) = (d, f)"
  shows "dispatch_inv (s\<lparr>ds_fence := f\<rparr>)"
proof -
  have "fn_has_send_finished f = fn_has_send_finished (ds_fence s)"
    using assms(3) by (auto simp: fence_decide_def Let_def split: option.splits)
  then show ?thesis
    using assms(1) fence_decide_fields [OF assms(2,3)] by (auto simp: dispatch_inv_def Let_def)
qed

lemma dispatch_inv_begin:
  assumes "dispatch_inv s" "hb_ok hb" "dispatch_begin hb now (ds_fence s) (ds_last s) = (r, f, l)"
  shows "dispatch_inv (s\<lparr>ds_fence := f, ds_last := l,
    ds_sends := (if r = Inr () then Suc (ds_sends s) else ds_sends s), ds_proofs := ds_proofs s\<rparr>)"
  using dispatch_begin_cases [OF assms(2,3)]
proof (elim conjE disjE)
  assume "f = ds_fence s" "l = ds_last s" "r = Inl DispatchNotAllowedError"
  with assms(1) show ?thesis by simp
next
  assume p: "send_permitted (ds_fence s)" "r = Inr ()" "fn_has_dispatched f" "same_identity (ds_fence s) f"
    and l: "l = Some (fence_mark (ds_fence s) CLAIMED [])"
  have d: "fn_decision (ds_fence s) \<noteq> None"
    using dispatch_inv_decided [OF assms(1)] p(1) by blast
  from p(2,3) l dispatch_inv_permitted [OF assms(1) p(1)] show ?thesis
    by (intro dispatch_inv_update [OF assms(1) p(4) d]) auto
next
  assume p: "send_permitted (ds_fence s)" "r \<noteq> Inr ()" "same_identity (ds_fence s) f"
    and l: "l \<in> {ds_last s, Some (fence_mark (ds_fence s) CLAIMED []), Some (fence_mark (ds_fence s) NOT_SENT [])}"
  have d: "fn_decision (ds_fence s) \<noteq> None"
    using dispatch_inv_decided [OF assms(1)] p(1) by blast
  from p(2) l dispatch_inv_permitted [OF assms(1) p(1)] show ?thesis
    by (intro dispatch_inv_update [OF assms(1) p(3) d]) auto
qed

lemma dispatch_inv_not_sent:
  assumes "dispatch_inv s" "hb_ok hb" "record_not_sent hb (ds_fence s) (ds_last s) = (r, f, l)"
  shows "dispatch_inv (s\<lparr>ds_fence := f, ds_last := l, ds_sends := ds_sends s, ds_proofs := ds_proofs s\<rparr>)"
proof (cases "send_permitted (ds_fence s)")
  case True
  with assms(3) have "fence_record hb (fence_mark (ds_fence s) NOT_SENT [])
      ((ds_fence s)\<lparr>fn_has_pre_send_retry := True\<rparr>) (ds_last s) = (r, f, l)"
    by (simp add: record_not_sent_def)
  from fence_record_identity(1,2) [OF this assms(2), of "ds_fence s"]
  have "same_identity (ds_fence s) f \<and> (l = ds_last s \<or> l = Some (fence_mark (ds_fence s) NOT_SENT []))"
    by (simp add: same_identity_def)
  with True dispatch_inv_decided [OF assms(1)] dispatch_inv_permitted [OF assms(1) True] show ?thesis
    by (intro dispatch_inv_update [OF assms(1)]) auto
qed (use assms in \<open>auto simp: record_not_sent_def\<close>)

lemma dispatch_inv_can_resend:
  assumes "dispatch_inv s" "hb_ok hb" "record_can_resend hb (ds_fence s) (ds_last s) = (r, f, l)"
  shows "dispatch_inv (s\<lparr>ds_fence := f, ds_last := l, ds_sends := ds_sends s,
    ds_proofs := ds_proofs s + (if resend_provable (ds_fence s) then 1 else 0)\<rparr>)"
proof (cases "resend_provable (ds_fence s)")
  case True
  with assms(3) have "fence_record hb (fence_mark (ds_fence s) CAN_RESEND []) (ds_fence s) (ds_last s) = (r, f, l)"
    by (simp add: record_can_resend_def)
  from fence_record_identity(1,2) [OF this assms(2) same_identity_refl]
  have "same_identity (ds_fence s) f \<and> (l = ds_last s \<or> l = Some (fence_mark (ds_fence s) CAN_RESEND []))"
    by blast
  moreover have "fn_decision (ds_fence s) \<noteq> None"
    using dispatch_inv_decided [OF assms(1)] True by (simp add: resend_provable_def)
  moreover have "ds_sends s \<le> Suc (ds_proofs s)"
    using assms(1) by (simp add: dispatch_inv_def Let_def)
  ultimately show ?thesis
    using True by (intro dispatch_inv_update [OF assms(1)]) auto
qed (use assms in \<open>auto simp: record_can_resend_def\<close>)

lemma dispatch_inv_provider_id:
  assumes "dispatch_inv s" "hb_ok hb" "record_provider_id hb p (ds_fence s) (ds_last s) = (r, f, l)"
  shows "dispatch_inv (s\<lparr>ds_fence := f, ds_last := l, ds_sends := ds_sends s, ds_proofs := ds_proofs s\<rparr>)"
proof (cases "f = ds_fence s \<and> l = ds_last s")
  case False
  with assms(3) have fin: "fn_has_send_finished (ds_fence s)"
    and rec: "fence_record hb (fence_mark (ds_fence s) CLAIMED p) (ds_fence s) (ds_last s) = (r, f, l)"
    by (auto simp: record_provider_id_def split: if_splits)
  from fence_record_identity(1,2) [OF rec assms(2) same_identity_refl]
  have "same_identity (ds_fence s) f \<and> (l = ds_last s \<or> l = Some (fence_mark (ds_fence s) CLAIMED p))"
    by blast
  moreover have "fn_decision (ds_fence s) \<noteq> None"
    using dispatch_inv_decided [OF assms(1)] fin by simp
  moreover have "ds_sends s \<le> Suc (ds_proofs s)"
    using assms(1) by (simp add: dispatch_inv_def Let_def)
  ultimately show ?thesis
    by (intro dispatch_inv_update [OF assms(1)]) auto
qed (use assms in simp)

lemma dispatch_inv_repeat:
  assumes "dispatch_inv s" "hb_ok hb" "fn_has_dispatched (ds_fence s)"
  shows "dispatch_inv (s\<lparr>ds_fence := ds_fence s,
    ds_last := repeat_claim hb (fence_mark (ds_fence s) CLAIMED []) (ds_fence s) (ds_last s),
    ds_sends := ds_sends s, ds_proofs := ds_proofs s\<rparr>)"
proof -
  let ?l = "repeat_claim hb (fence_mark (ds_fence s) CLAIMED []) (ds_fence s) (ds_last s)"
  have "?l = ds_last s \<or> ?l = Some (fence_mark (ds_fence s) CLAIMED [])"
    using assms(2) by (auto simp: repeat_claim_def hb_ok_def)
  moreover have "fn_decision (ds_fence s) \<noteq> None"
    using dispatch_inv_decided [OF assms(1)] assms(3) by simp
  moreover have "ds_sends s \<le> Suc (ds_proofs s)"
    using assms(1) by (simp add: dispatch_inv_def Let_def)
  ultimately show ?thesis
    by (intro dispatch_inv_update [OF assms(1)]) auto
qed

lemma dispatch_inv_finish:
  "dispatch_inv s \<Longrightarrow> fn_has_dispatched (ds_fence s) \<Longrightarrow> dispatch_inv (s\<lparr>ds_fence := dispatch_finish (ds_fence s)\<rparr>)"
  by (auto simp: dispatch_inv_def Let_def dispatch_finish_def may_send_def split: option.splits)

lemma dispatch_inv_step: "dispatch_step s s' \<Longrightarrow> dispatch_inv s \<Longrightarrow> dispatch_inv s'"
proof (induction rule: dispatch_step.induct)
  case (begin_send hb now s f l)
  from dispatch_inv_begin [OF begin_send(3,1,2)] show ?case by simp
next
  case (begin_refused hb now s e f l)
  from dispatch_inv_begin [OF begin_refused(3,1,2)] show ?case by simp
next
  case (repeat hb s)
  from dispatch_inv_repeat [OF repeat(3,1,2)] show ?case by simp
next
  case (not_sent hb s r f l)
  from dispatch_inv_not_sent [OF not_sent(3,1,2)] show ?case by simp
next
  case (can_resend hb s r f l)
  from dispatch_inv_can_resend [OF can_resend(3,1,2)] show ?case by simp
next
  case (provider_id hb p s r f l)
  from dispatch_inv_provider_id [OF provider_id(3,1,2)] show ?case by simp
qed (auto intro: dispatch_inv_next dispatch_inv_decide dispatch_inv_finish)

lemma dispatch_reachable_inv: "dispatch_reachable i s \<Longrightarrow> dispatch_inv s"
  by (induction rule: dispatch_reachable.induct) (auto intro: dispatch_inv_first dispatch_inv_step)

text \<open>At most one unproven send over all attempts of a call.\<close>

lemma dispatch_at_most_once:
  assumes "dispatch_reachable i s"
  shows "ds_sends s \<le> Suc (ds_proofs s)"
  using dispatch_reachable_inv [OF assms] by (simp add: dispatch_inv_def Let_def)

text \<open>The write window lies within the attempt's budget.\<close>

lemma round_half_even_mono_bound:
  assumes "0 \<le> x" "x \<le> of_int n"
  shows "0 \<le> round_half_even x" "round_half_even x \<le> n"
proof -
  have f: "0 \<le> \<lfloor>x\<rfloor>" "\<lfloor>x\<rfloor> \<le> n"
    using assms by (simp, linarith)
  then show "0 \<le> round_half_even x"
    by (auto simp: round_half_even_def Let_def)
  have "\<lfloor>x\<rfloor> < n" if "1 / 2 \<le> x - of_int \<lfloor>x\<rfloor>"
  proof -
    have "of_int \<lfloor>x\<rfloor> < (of_int n :: rat)" using that assms(2) by linarith
    then show ?thesis by simp
  qed
  with f show "round_half_even x \<le> n"
    by (auto simp: round_half_even_def Let_def not_less)
qed

lemma new_fence_window:
  assumes "new_fence i (Some (n, dl)) t x q = Inr f"
  shows "t \<le> fn_write_deadline f \<and> fn_write_deadline f \<le> t + x
    \<and> (case dl of None \<Rightarrow> True | Some e \<Rightarrow> t \<le> e \<longrightarrow> fn_write_deadline f \<le> e)"
proof -
  define b where "b = max 0 (case dl of None \<Rightarrow> x | Some e \<Rightarrow> min x (e - t))"
  from assms obtain r where q: "q = Fin r" "0 < r" "r \<le> fl_rat (5 / 6)" "0 < x"
    and d: "fn_write_deadline f = t + round_half_even (of_int b * r)"
    by (auto simp: new_fence_def Let_def b_def split: pyfloat.splits if_splits)
  have "fl_rat (5 / 6) \<le> 1" by code_simp
  with q(3) have "r \<le> 1" by simp
  moreover have b0: "0 \<le> b" by (simp add: b_def)
  ultimately have "of_int b * r \<le> of_int b * 1"
    by (intro mult_left_mono) simp_all
  moreover have "0 \<le> of_int b * r" using b0 q(2) by simp
  ultimately have "0 \<le> round_half_even (of_int b * r)" "round_half_even (of_int b * r) \<le> b"
    using round_half_even_mono_bound [of "of_int b * r" b] by simp_all
  moreover have "b \<le> x" "dl = Some e \<Longrightarrow> t \<le> e \<Longrightarrow> b \<le> e - t" for e
    using q(4) by (auto simp: b_def split: option.splits)
  ultimately show ?thesis
    unfolding d by (fastforce split: option.splits)
qed

end
