(* ===== verification/Examples.thy ===== *)
theory Examples
  imports Steps SingleDispatch
begin

text \<open>
  Concrete inputs at which the properties with hypotheses are applied: one operation with a
  page and a defect route, a call of it, and a Step that runs it.
\<close>

definition ex_time :: datetime where
  "ex_time = \<lparr>dt_year = 2026, dt_month = 1, dt_day = 2, dt_hour = 3, dt_minute = 4, dt_second = 5,
              dt_micro = 0, dt_offset = Some 0\<rparr>"

definition ex_now :: "unit \<Rightarrow> datetime" where
  "ex_now w = ex_time"

definition ex_operation_ref :: operation_ref where
  "ex_operation_ref = \<lparr>connector_id = str ''mail'', operation_id = str ''sendMessage''\<rparr>"

definition ex_connection :: connection_ref where
  "ex_connection = \<lparr>cr_provider = str ''mail'', cr_name = str ''main''\<rparr>"

definition ex_call :: call where
  "ex_call = \<lparr>call_id = str ''00000000-0000-5000-8000-000000000001'', call_connection = ex_connection,
              call_operation = ex_operation_ref, call_idempotency_key = []\<rparr>"

definition ex_branch :: "string \<Rightarrow> branch_definition" where
  "ex_branch i = \<lparr>br_id = str i, br_description = str ''route'', br_optional = False\<rparr>"

definition ex_defaults :: step_defaults where
  "ex_defaults = \<lparr>execute_method_timeout = seconds 30, execute_durability = JInt 0,
     heartbeat_timeout = 0, execute_retry = None, wire_timeouts = None\<rparr>"

definition ex_definition :: "string list \<Rightarrow> op_definition" where
  "ex_definition bs = \<lparr>od_operation = ex_operation_ref, od_branches = Some (map ex_branch bs),
     od_step_defaults = ex_defaults\<rparr>"

definition ex_failure :: failure where
  "ex_failure = \<lparr>fkind = AVAILABILITY, fprovider = str ''mail'', foperation = str ''sendMessage'',
     fmessage = str ''down''\<rparr>"

definition ex_operation :: "string list \<Rightarrow> nat attempt \<Rightarrow> (unit, nat, unit) provider_operation" where
  "ex_operation bs a = \<lparr>op_definition = ex_definition bs, op_idempotency_key = (\<lambda>i _. ret i),
     op_invoke = (\<lambda>_ _ w. (ret (Some a), w))\<rparr>"

definition ex_query :: "(unit, nat, unit) provider_operation" where
  "ex_query = ex_operation [''page'', ''defect''] (branch_attempt (str ''page'') (Some 1) zero_receipt None)"

definition ex_mutation :: "(unit, nat, unit) provider_operation" where
  "ex_mutation = ex_operation [''sent'', ''defect'', ''uncertain'']
     (uncertain_attempt None ex_failure zero_receipt)"


lemmas ex_defs = ex_time_def ex_now_def ex_operation_ref_def ex_connection_def ex_call_def ex_branch_def
  ex_defaults_def ex_definition_def ex_failure_def ex_operation_def ex_query_def ex_mutation_def

lemma ex_call_id: "call_id_validate (str ''00000000-0000-5000-8000-000000000001'') = Inr ()"
  by (simp add: call_id_validate_def uuid_hex_def parses_base16_def str_def strip_by_def
      drop_hex_prefix_def drop_sign_def is_hex_digit_def decimal_zeros_def is_int_space_def is_space_def)

lemma ex_call_valid: "validate_call ex_call ex_operation_ref = Inr ()"
  unfolding validate_call_def ex_call_def call.simps ex_call_id ethen_simps
  by (simp add: ex_connection_def connection_ref_validate_def strip_eq_Nil_iff str_def is_space_def)

lemma ex_ref_valid: "operation_ref_validate ex_operation_ref = Inr ()"
  by (simp add: operation_ref_validate_def ex_operation_ref_def is_connector_id_def is_operation_id_def
      str_def char_class_defs)

lemma ex_defaults_valid: "step_defaults_validate ex_defaults = Inr ()"
  by (simp add: step_defaults_validate_def ex_defaults_def seconds_def durability_known_def)

lemma ex_branch_valid: "i \<in> {''page'', ''sent'', ''defect'', ''uncertain''} \<Longrightarrow> branch_validate (ex_branch i) = Inr ()"
  by (auto simp: branch_validate_def ex_branch_def is_operation_id_def strip_eq_Nil_iff str_def
      char_class_defs is_space_def)

lemma ex_query_valid: "query_definition_validate (ex_definition [''page'', ''defect'']) = Inr ()"
  using ex_ref_valid ex_defaults_valid ex_branch_valid
  by (simp add: query_definition_validate_def ex_definition_def od_branch_list_def DEFECT_BRANCH_ID_def
      UNCERTAIN_BRANCH_ID_def) (simp add: ex_branch_def)

lemma ex_mutation_valid: "mutation_definition_validate (ex_definition [''sent'', ''defect'', ''uncertain'']) = Inr ()"
  using ex_ref_valid ex_defaults_valid ex_branch_valid
  by (simp add: mutation_definition_validate_def ex_definition_def od_branch_list_def DEFECT_BRANCH_ID_def)
    (simp add: ex_branch_def)

definition ex_result :: "call \<Rightarrow> nat op_result" where
  "ex_result c = \<lparr>rs_branch = str ''page'', rs_value = Some 1, rs_receipt = defect_receipt ex_time c,
     rs_failure = None\<rparr>"

definition ex_keyed_call :: call where
  "ex_keyed_call = ex_call\<lparr>call_idempotency_key := call_id ex_call\<rparr>"

definition ex_uncertain :: "nat op_result" where
  "ex_uncertain = \<lparr>rs_branch = str ''uncertain'', rs_value = None, rs_receipt = defect_receipt ex_time ex_keyed_call,
     rs_failure = Some ex_failure\<rparr>"

lemma ex_receipt: "complete_receipt ex_time (Some zero_receipt) c = Inr (defect_receipt ex_time c)"
  by (simp add: complete_receipt_def zero_receipt_def is_zero_time_def utc_min_def defect_receipt_def)

lemma ex_failure_valid: "failure_validate ex_failure = Inr ()"
  by (simp add: failure_validate_def ex_failure_def)

lemma ex_operation_fields [simp]:
  "op_definition (ex_operation bs a) = ex_definition bs"
  "op_invoke (ex_operation bs a) c x w = (Inr (Some a), w)"
  "op_idempotency_key (ex_operation bs a) i x = Inr i"
  "od_operation (ex_definition bs) = ex_operation_ref"
  "declared_ids (ex_definition bs) = str ` set bs"
  by (simp_all add: ex_operation_def ex_definition_def declared_ids_def od_branch_list_def ex_branch_def image_image)

lemma ex_query_runs:
  "validate_call c ex_operation_ref = Inr () \<Longrightarrow> run_query ex_now ex_query c () () = (Inr (ex_result c), ())"
  using ex_query_valid
  by (simp add: run_query_def ex_query_def invoke_query_def conclude_query_def Let_def
      branch_attempt_def ex_now_def ex_receipt query_result_def ex_result_def UNCERTAIN_BRANCH_ID_def
      optional_failure_validate_def)

lemma ex_key: "strip (call_id ex_call) \<noteq> []" "call_id ex_call \<noteq> []"
  by (simp_all add: ex_call_def strip_eq_Nil_iff str_def is_space_def)

lemma ex_mutation_runs: "run_mutation ex_now ex_mutation ex_call () () = (Inr ex_uncertain, ())"
  using ex_mutation_valid ex_call_valid ex_failure_valid ex_key
  by (simp add: run_mutation_def ex_mutation_def invoke_mutation_def conclude_mutation_def mutation_key_def
      uncertain_attempt_def ex_now_def ex_receipt mutation_result_def ex_uncertain_def Let_def
      ex_keyed_call_def UNCERTAIN_BRANCH_ID_def optional_failure_validate_def)

section \<open>One dispatch\<close>

definition ex_fence :: fence where
  "ex_fence = \<lparr>fn_call_id = call_id ex_call, fn_attempt = 1, fn_write_deadline = 5000000,
     fn_minimum_request_time = 1000000, fn_decision = None, fn_has_dispatched = False,
     fn_has_send_finished = False, fn_has_pre_send_retry = False, fn_marker = None\<rparr>"

definition ex_allowed :: decision where
  "ex_allowed = \<lparr>dc_kind = SEND_ALLOWED, dc_marker = None, dc_error = []\<rparr>"

definition ex_heartbeat :: "marker option heartbeat" where
  "ex_heartbeat m w = (Inr (), Some m)"

definition ex_claim :: marker where
  "ex_claim = fence_mark ex_fence CLAIMED []"

definition ex_sent :: dispatch_sys where
  "ex_sent = \<lparr>ds_fence = ex_fence\<lparr>fn_decision := Some ex_allowed, fn_has_dispatched := True, fn_marker := Some ex_claim\<rparr>,
     ds_last = Some ex_claim, ds_sends = 1, ds_proofs = 0\<rparr>"

lemma ex_fraction: "(1 :: rat) / 2 \<le> fl_rat (5 / 6)"
  by code_simp

lemma ex_new_fence: "new_fence (call_id ex_call) (Some (1, None)) 0 10000000 (Fin (1 / 2)) = Inr ex_fence"
  using ex_fraction ex_key(2) by (simp add: new_fence_def ex_fence_def round_half_even_def Let_def)

lemma ex_decide: "fence_decide (Inr None) ex_fence = (ex_allowed, ex_fence\<lparr>fn_decision := Some ex_allowed\<rparr>)"
  using ex_call_id by (simp add: fence_decide_def ex_fence_def decide_dispatch_def ex_allowed_def ex_call_def Let_def)

lemma ex_begin: "dispatch_begin ex_heartbeat 0 (ex_fence\<lparr>fn_decision := Some ex_allowed\<rparr>) None
    = (Inr (), ds_fence ex_sent, ds_last ex_sent)"
  by (simp add: dispatch_begin_def ex_fence_def ex_sent_def send_permitted_def ex_allowed_def
      fence_record_def ex_heartbeat_def ex_claim_def fence_mark_def)

lemma ex_reachable: "dispatch_reachable (call_id ex_call) ex_sent"
proof -
  let ?s0 = "\<lparr>ds_fence = ex_fence, ds_last = None, ds_sends = 0, ds_proofs = 0\<rparr>"
  let ?s1 = "?s0\<lparr>ds_fence := ex_fence\<lparr>fn_decision := Some ex_allowed\<rparr>\<rparr>"
  have 0: "dispatch_reachable (call_id ex_call) ?s0"
    using ex_new_fence by (rule dispatch_reachable.first)
  have "reads (ds_last ?s0) (Inr None)" using read_value [of None] by simp
  then have "dispatch_step ?s0 ?s1" using ex_decide by (intro dispatch_step.decide) simp_all
  with 0 have 1: "dispatch_reachable (call_id ex_call) ?s1" by (rule dispatch_reachable.more)
  have "hb_ok ex_heartbeat" by (simp add: hb_ok_def ex_heartbeat_def)
  then have "dispatch_step ?s1 (?s1\<lparr>ds_fence := ds_fence ex_sent, ds_last := ds_last ex_sent,
      ds_sends := Suc (ds_sends ?s1)\<rparr>)"
    using ex_begin by (intro dispatch_step.begin_send) simp_all
  moreover have "?s1\<lparr>ds_fence := ds_fence ex_sent, ds_last := ds_last ex_sent,
      ds_sends := Suc (ds_sends ?s1)\<rparr> = ex_sent"
    by (simp add: ex_sent_def)
  ultimately show ?thesis using 1 dispatch_reachable.more by metis
qed

section \<open>A Step\<close>

definition ex_targets :: "(pystr, string option) dict" where
  "ex_targets = [(str ''page'', Some ''ShowPage''), (str ''defect'', Some ''Repair'')]"

definition ex_step_config :: "(unit, unit, nat, unit, string, unit) step_config" where
  "ex_step_config = \<lparr>sc_step_type = str ''List'', sc_has_input_type = True,
     sc_annotations = \<lparr>group_id = str ''mail'', group_label = str ''Mail'', explanation = str ''Lists''\<rparr>,
     sc_operation = Some ex_query, sc_connection = ex_connection, sc_map_to_operation_input = Some Inr,
     sc_branches = ex_targets, sc_configuration_ui = [], sc_result_attribute = None,
     sc_has_progress_stream = False, sc_step_options_override = None\<rparr>"

definition ex_sha1 :: "bytes \<Rightarrow> bytes" where
  "ex_sha1 m = replicate 20 7"

definition ex_context :: step_context where
  "ex_context = \<lparr>cx_flow_id = str ''flow'', cx_step_execution_id = str ''step-1'', cx_attempt = 1\<rparr>"

lemma ex_new_step: "\<exists>st. new_query_step () ex_step_config = Inr st \<and> st_run_operation st = ex_query
    \<and> st_operation_ref st = ex_operation_ref \<and> st_map_input st = Inr"
proof -
  have f: "validate_factory (str ''List'') True
      \<lparr>group_id = str ''mail'', group_label = str ''Mail'', explanation = str ''Lists''\<rparr> ex_connection (Some f)
      = Inr f" for f :: "unit \<Rightarrow> exc + unit"
    by (simp add: validate_factory_def annotations_validate_def is_group_id_def connection_ref_validate_def
        ex_connection_def strip_eq_Nil_iff str_def is_space_def char_class_defs)
  have b: "\<exists>ts. validate_branches (od_branch_list (ex_definition [''page'', ''defect''])) ex_targets = Inr (ts, [])"
    by (simp add: validate_branches_def ex_definition_def od_branch_list_def ex_branch_def ex_targets_def
        dict_keys_def target_of_def)
  have o: "\<exists>x. step_options () ex_defaults None = Inr x"
    by (simp add: step_options_def ex_defaults_def durability_of_def Let_def)
  show ?thesis
    using f ex_query_valid b o
    by (auto simp: new_query_step_def new_step_def ex_step_config_def ex_query_def
        configuration_ui_validate_def Let_def) (simp add: ex_definition_def)
qed

lemma ex_derive: "\<exists>i. derive_call_id ex_sha1 (str ''flow'') (str ''step-1'') ex_operation_ref = Inr i"
proof -
  have "encode_str (str s) = Inr (str s)" if "list_all (\<lambda>c. of_char c < (128 :: nat)) s" for s
    using that utf8_encode_ascii [of "str s"]
    by (simp add: encode_str_def str_def list_all_iff)
  moreover have "operation_ref_validate \<lparr>connector_id = str ''mail'', operation_id = str ''sendMessage''\<rparr> = Inr ()"
    using ex_ref_valid by (simp only: ex_operation_ref_def)
  ultimately show ?thesis
    by (simp add: derive_call_id_def call_id_payload_def length_prefixed_def ex_operation_ref_def to_bytes4_def)
qed

lemma ex_step_call:
  "\<exists>c. step_call ex_sha1 ex_context ex_operation_ref ex_connection False = Inr (c, None)
    \<and> validate_call c ex_operation_ref = Inr ()"
proof -
  obtain i where i: "derive_call_id ex_sha1 (str ''flow'') (str ''step-1'') ex_operation_ref = Inr i"
    using ex_derive by blast
  have "call_id_validate i = Inr ()"
    using i by (rule derive_call_id_valid [rotated 2]) (simp_all add: ex_sha1_def list_all_iff)
  then show ?thesis
    using i by (simp add: step_call_def ex_context_def validate_call_def ex_connection_def
        connection_ref_validate_def strip_eq_Nil_iff str_def is_space_def)
qed

section \<open>Wire documents\<close>

definition ex_definition_wire :: jobj where
  "ex_definition_wire =
     [(str ''operation'', JObj [(str ''connectorId'', JStr (str ''mail'')), (str ''operationId'', JStr (str ''sendMessage''))]),
      (str ''branches'', JNull),
      (str ''stepDefaults'', JObj [(str ''executeMethodTimeout'', JInt 30000000000), (str ''executeDurability'', JInt 0)])]"

lemma ex_definition_decodes:
  "\<exists>x. definition_from_wire query_definition_validate ex_definition_wire = Inr x"
proof -
  have t: "span_of_ns (JInt 30000000000) = Inr 30000000"
    using fl_int [of 30000000] round_half_even_of_int [of 30000000]
    by (simp add: timedelta_of_micros_def timedelta_in_range_def Let_def)
  have z: "span_of_ns (JInt 0) = Inr 0"
    using fl_int [of 0] round_half_even_of_int [of 0]
    by (simp add: timedelta_of_micros_def timedelta_in_range_def Let_def)
  have d: "step_defaults_from_wire (JObj [(str ''executeMethodTimeout'', JInt 30000000000), (str ''executeDurability'', JInt 0)])
      = Inr \<lparr>execute_method_timeout = 30000000, execute_durability = JInt 0, heartbeat_timeout = 0,
             execute_retry = None, wire_timeouts = Some (JInt 30000000000, JInt 0)\<rparr>"
    using t z by (simp add: step_defaults_from_wire_def item_JObj get_or_def step_defaults_validate_def
        durability_known_def Let_def del: span_of_ns.simps)
  have r: "operation_ref_of (JStr (str ''mail'')) (JStr (str ''sendMessage'')) = Inr ex_operation_ref"
    using ex_ref_valid by (simp add: operation_ref_of_def ex_operation_ref_def Let_def is_connector_id_def)
      (simp add: str_def char_class_defs)
  show ?thesis
    using ex_ref_valid
    by (simp add: definition_from_wire_def ex_definition_wire_def item_JObj branches_from_wire_def d r
        query_definition_validate_def od_branch_list_def step_defaults_validate_def durability_known_def Let_def)
qed

definition ex_wire_result :: "json op_result" where
  "ex_wire_result = \<lparr>rs_branch = str ''page'', rs_value = Some (JInt 1),
     rs_receipt = (defect_receipt ex_time ex_call)\<lparr>rc_observed_at := NanoTime (str ''2026-01-02T03:04:05Z'')\<rparr>,
     rs_failure = None\<rparr>"

lemma ex_stamp: "nano_from_wire (str ''2026-01-02T03:04:05Z'') = Inr (str ''2026-01-02T03:04:05Z'')"
  by code_simp

end
