(* ===== verification/MockExamples.thy ===== *)
theory MockExamples
  imports ConnectorMock Examples "HOL-Library.Code_Target_Numeral"
begin

text \<open>Concrete scripted operations for the properties of the connector mock.\<close>

definition ex_mock_host :: "unit mock_host" where
  "ex_mock_host = \<lparr>mh_directory = (\<lambda>_. []), mh_read_report = sret [], mh_write_report = (\<lambda>_. sret ()),
     mh_report_failure = None\<rparr>"

definition ex_scripted :: "(nat, nat) scripted_operation" where
  "ex_scripted = \<lparr>so_operation = ex_operation_ref, so_branches = [str ''sent'', str ''defect''], so_is_mutation = True,
     so_script = script_respond [case_branch_result (str ''sent'') (Some 1) None, case_branch_result (str ''sent'') (Some 2) None]
       empty_script,
     so_flow_scripts = [], so_strict = True, so_terminal_by_key = [], so_calls = [], so_failures = []\<rparr>"

definition ex_mock_calls :: "(pystr \<times> pystr \<times> pystr \<times> nat \<times> pystr \<times> int) list" where
  "ex_mock_calls = [(str ''f'', str ''c1'', str ''main'', 0, str ''k1'', 1), (str ''f'', str ''c2'', str ''main'', 0, str ''k2'', 1),
     (str ''f'', str ''c3'', str ''main'', 0, str ''k1'', 1)]"

lemma ex_mock_answers:
  "fst (mock_answers ex_mock_host ex_mock_calls (ex_scripted, ())) =
     [Inr (case_branch_result (str ''sent'') (Some 1) None), Inr (case_branch_result (str ''sent'') (Some 2) None),
      Inr (case_branch_result (str ''sent'') (Some 1) None)]"
  by (simp add: ex_mock_calls_def op_answer_def fresh_answer_def record_call_def sbind_def scatch_def on_operation_def ex_scripted_def
      scripted_response_def script_order_def dict_keys_def get_script_def put_script_def script_answer_def script_respond_def empty_script_def
      select_page_def case_branch_result_def update_operation_def outside_def frame_action_def append_to_report_def
      ex_mock_host_def Let_def)

definition ex_recorded :: "bool \<Rightarrow> nat recorded_call" where
  "ex_recorded replay = recorded ex_scripted (str ''main'') (str ''f'') (str ''c1'') 0 (case_branch_result (str ''sent'') (Some 1) None) replay False"

lemma ex_report: "is_ok (append_rows [] (map to_report_wire [ex_recorded False, ex_recorded True]))"
  by code_simp

end
