(* ===== verification/ConfigurationWire.thy ===== *)
theory ConfigurationWire
  imports ProjectModels
begin

text \<open>
  The configuration document of \<^verbatim>\<open>projectconfig/models.py\<close> as its readers rely on it: every
  part round-trips through its wire form, a document that encodes decodes to itself with its
  environment sorted, canonical bytes decode to the document they were made from, and what a
  validated document guarantees about its bindings, its broker and its secret references.
\<close>

section \<open>Parts\<close>

lemma require_object_simps [simp]: "require_object (JObj d) l = Inr d"
  by (simp add: require_object_def)

lemma require_object_eq_Inr: "require_object j l = Inr d \<longleftrightarrow> j = JObj d"
  by (cases j) (auto simp: require_object_def)

lemma scope_roundtrip: "scope_to_wire s = Inr d \<Longrightarrow> scope_from_wire (JObj d) = Inr s"
  by (cases s)
    (auto simp: scope_to_wire_def scope_from_wire_def ebind_eq_Inr_iff require_fields_def dict_keys_def
      text_member_def get_or_def Let_def)

lemma scope_from_wire_prefix: "scope_from_wire j = Inr s \<Longrightarrow> is_ok (scope_prefix s)"
  by (auto simp: scope_from_wire_def ebind_eq_Inr_iff ethen_eq_Inr_iff Let_def)

lemma snapshot_ref_roundtrip: "snapshot_ref_from_wire (JObj (snapshot_ref_to_wire r)) = Inr r"
  by (cases r)
    (simp add: snapshot_ref_from_wire_def snapshot_ref_to_wire_def require_fields_def dict_keys_def
      text_member_def get_or_def)

lemma secret_ref_roundtrip:
  "sr_version r \<noteq> [] \<Longrightarrow> is_digest (sr_digest r) \<Longrightarrow> secret_ref_from_wire (JObj (secret_ref_to_wire r)) = Inr r"
  by (cases r)
    (simp add: secret_ref_from_wire_def secret_ref_to_wire_def require_fields_def dict_keys_def
      text_member_def get_or_def Let_def)

lemma validate_secret_reference_ok:
  "validate_secret_reference r s n = Inr () \<Longrightarrow> sr_version r \<noteq> [] \<and> is_digest (sr_digest r)"
  by (auto simp: validate_secret_reference_def ebind_eq_Inr_iff Let_def)

lemma environment_value_roundtrip:
  assumes "environment_value_to_wire e = Inr d"
    and "\<And>r. ev_secret_ref e = Some r \<Longrightarrow> sr_version r \<noteq> [] \<and> is_digest (sr_digest r)"
  shows "environment_value_from_wire (JObj d) = Inr e"
  using assms
  by (cases e)
    (auto simp: environment_value_to_wire_def environment_value_from_wire_def dict_keys_def get_or_def
      secret_ref_roundtrip split: option.splits)

lemma connection_configuration_roundtrip:
  "connection_configuration_from_wire (JObj (connection_configuration_to_wire c)) = Inr c"
  by (cases c)
    (auto simp: connection_configuration_from_wire_def connection_configuration_to_wire_def
      require_fields_def dict_keys_def text_member_def get_or_def optional_text_def)

lemma broker_configuration_roundtrip:
  assumes "sr_version (bc_token_secret_ref b) \<noteq> []" "is_digest (sr_digest (bc_token_secret_ref b))"
  shows "broker_configuration_from_wire (JObj (broker_configuration_to_wire b)) = Inr b"
  using assms
  by (cases b)
    (simp add: broker_configuration_from_wire_def broker_configuration_to_wire_def require_fields_def
      dict_keys_def text_member_def get_or_def secret_ref_roundtrip)

section \<open>The document\<close>

definition sorted_environment :: "configuration \<Rightarrow> configuration" where
  "sorted_environment c = c\<lparr>conf_environment := sort_key fst (conf_environment c)\<rparr>"

lemma validate_sorted: "configuration_validate u (sorted_environment c) = Inr () \<longleftrightarrow> configuration_validate u c = Inr ()"
  by (simp add: configuration_validate_def sorted_environment_def Let_def ebind_eq_Inr_iff
      ethen_eq_Inr_iff eall_eq_Inr_iff)

text \<open>What validation establishes, named once for the lemmas below.\<close>

lemma configuration_validD:
  assumes "configuration_validate u c = Inr ()"
  shows "is_ok (scope_prefix (conf_scope c))" "1 \<le> conf_revision c"
    "distinct (map connection_identity (conf_connections c))"
    "list_all valid_connection (conf_connections c)"
    "check_triggers (map connection_identity (conf_connections c)) [] (conf_trigger_bindings c) = Inr ()"
    "check_operations (map connection_identity (conf_connections c)) [] (conf_operation_configurations c) = Inr ()"
    "\<And>e. e \<in> set (conf_connections c) \<Longrightarrow> cc_shared_connection_id e \<noteq> [] \<Longrightarrow> conf_credential_broker c \<noteq> None"
    "\<And>x. x \<in> set (conf_environment c) \<Longrightarrow> check_environment_entry (conf_scope c) x = Inr ()"
    "check_broker u (conf_scope c) (conf_credential_broker c) = Inr ()"
  using assms
  by (auto simp: configuration_validate_def Let_def ebind_eq_Inr_iff ethen_eq_Inr_iff eall_eq_Inr_iff
      filter_empty_conv)

lemma check_environment_entry_ok:
  assumes "check_environment_entry s (k, e) = Inr ()"
  shows "is_application_environment_name k" "is_ok (environment_value_to_wire e)"
    "ev_secret_ref e = Some r \<Longrightarrow> sr_version r \<noteq> [] \<and> is_digest (sr_digest r)"
proof -
  show "is_application_environment_name k" "is_ok (environment_value_to_wire e)"
    using assms by (auto simp: check_environment_entry_def ebind_eq_Inr_iff split: if_splits)
  show "sr_version r \<noteq> [] \<and> is_digest (sr_digest r)" if "ev_secret_ref e = Some r"
  proof (cases "ev_value e")
    case None
    with assms that have "validate_secret_reference r s k = Inr ()"
      by (auto simp: check_environment_entry_def ebind_eq_Inr_iff split: if_splits)
    then show ?thesis by (rule validate_secret_reference_ok)
  next
    case (Some v)
    with that have "\<not> is_ok (environment_value_to_wire e)" by (simp add: environment_value_to_wire_def)
    with \<open>is_ok (environment_value_to_wire e)\<close> show ?thesis by blast
  qed
qed

lemma environment_roundtrip:
  assumes "environment_to_wire env = Inr w" "\<And>x. x \<in> set env \<Longrightarrow> check_environment_entry s x = Inr ()"
  shows "environment_from_wire w = Inr (sort_key fst env)"
proof -
  have *: "environment_from_wire w = Inr xs"
    if "emap (\<lambda>(k, e). ebind (environment_value_to_wire e) (\<lambda>w. ret (k, JObj w))) xs = Inr w"
      "\<And>x. x \<in> set xs \<Longrightarrow> check_environment_entry s x = Inr ()" for xs
    using that
  proof (induction xs arbitrary: w)
    case (Cons x xs)
    obtain k e where x: "x = (k, e)" by force
    from Cons.prems(1) obtain d ws where d: "environment_value_to_wire e = Inr d"
      "emap (\<lambda>(k, e). ebind (environment_value_to_wire e) (\<lambda>w. ret (k, JObj w))) xs = Inr ws"
      "w = (k, JObj d) # ws"
      by (auto simp: x ebind_eq_Inr_iff)
    have "environment_value_from_wire (JObj d) = Inr e"
      using d(1) check_environment_entry_ok(3) [of s k e] Cons.prems(2) [of x] x
      by (intro environment_value_roundtrip) auto
    moreover have "environment_from_wire ws = Inr xs"
      using Cons.IH [OF d(2)] Cons.prems(2) by simp
    ultimately show ?case by (simp add: d(3) x environment_from_wire_def)
  qed (simp add: environment_from_wire_def)
  show ?thesis
    using assms by (intro *) (auto simp: environment_to_wire_def)
qed

lemma emap_require_objects: "emap (\<lambda>j. require_object j l) (map JObj ds) = Inr ds"
  by (induction ds) auto

lemma emap_connections:
  "emap connection_configuration_from_wire (map (\<lambda>e. JObj (connection_configuration_to_wire e)) cs) = Inr cs"
  by (induction cs) (auto simp: connection_configuration_roundtrip)

lemma broker_roundtrip:
  assumes "check_broker u s b = Inr ()"
  shows "broker_member (case b of None \<Rightarrow> JNull | Some x \<Rightarrow> JObj (broker_configuration_to_wire x)) = Inr b"
proof (cases b)
  case (Some x)
  with assms have "validate_secret_reference (bc_token_secret_ref x) s BROKER_TOKEN_NAME = Inr ()"
    by (simp add: check_broker_def ethen_eq_Inr_iff)
  then have "broker_configuration_from_wire (JObj (broker_configuration_to_wire x)) = Inr x"
    using validate_secret_reference_ok by (intro broker_configuration_roundtrip) blast+
  with Some show ?thesis by (simp add: broker_member_def)
qed (simp add: broker_member_def)

text \<open>The members of an encoded document, as \<open>from_wire\<close> looks them up.\<close>

lemma encoded_members:
  assumes "configuration_to_wire u c = Inr d"
  obtains s env where "scope_to_wire (conf_scope c) = Inr s" "environment_to_wire (conf_environment c) = Inr env"
    "configuration_validate u c = Inr ()"
    "require_fields d configuration_fields ''configuration'' = Inr ()"
    "get_or d (str ''schemaVersion'') (JStr []) = JStr (conf_schema_version c)"
    "get_or d (str ''scope'') JNull = JObj s"
    "get_or d (str ''revision'') (JInt 0) = JInt (conf_revision c)"
    "get_or d (str ''connections'') JNull
       = JArr (map (\<lambda>e. JObj (connection_configuration_to_wire e)) (conf_connections c))"
    "get_or d (str ''triggerBindings'') JNull = JArr (map JObj (conf_trigger_bindings c))"
    "get_or d (str ''operationConfigurations'') JNull = JArr (map JObj (conf_operation_configurations c))"
    "get_or d (str ''environment'') (JObj []) = JObj env"
    "get_or d (str ''credentialBroker'') JNull
       = (case conf_credential_broker c of None \<Rightarrow> JNull | Some b \<Rightarrow> JObj (broker_configuration_to_wire b))"
proof -
  obtain s env where s: "scope_to_wire (conf_scope c) = Inr s"
    "environment_to_wire (conf_environment c) = Inr env" "configuration_validate u c = Inr ()"
    using assms by (auto simp: configuration_to_wire_def ethen_eq_Inr_iff ebind_eq_Inr_iff)
  have d: "d = [(str ''schemaVersion'', JStr (conf_schema_version c)), (str ''scope'', JObj s),
          (str ''revision'', JInt (conf_revision c)),
          (str ''connections'', JArr (map (\<lambda>e. JObj (connection_configuration_to_wire e)) (conf_connections c))),
          (str ''triggerBindings'', JArr (map JObj (conf_trigger_bindings c))),
          (str ''operationConfigurations'', JArr (map JObj (conf_operation_configurations c)))]
         @ (if env \<noteq> [] then [(str ''environment'', JObj env)] else [])
         @ (case conf_credential_broker c of
              None \<Rightarrow> [] | Some b \<Rightarrow> [(str ''credentialBroker'', JObj (broker_configuration_to_wire b))])"
    using assms s by (simp add: configuration_to_wire_def)
  show thesis
    by (rule that [OF s])
      (cases "env = []"; cases "conf_credential_broker c";
       simp add: d get_or_def require_fields_def dict_keys_def configuration_fields_def)+
qed

lemma configuration_roundtrip:
  assumes "configuration_to_wire u c = Inr d"
  shows "configuration_from_wire u (JObj d) = Inr (sorted_environment c)"
  using assms
proof (rule encoded_members)
  fix s env
  assume s: "scope_to_wire (conf_scope c) = Inr s" "environment_to_wire (conf_environment c) = Inr env"
    and v: "configuration_validate u c = Inr ()"
    and m: "require_fields d configuration_fields ''configuration'' = Inr ()"
    "get_or d (str ''schemaVersion'') (JStr []) = JStr (conf_schema_version c)"
    "get_or d (str ''scope'') JNull = JObj s"
    "get_or d (str ''revision'') (JInt 0) = JInt (conf_revision c)"
    "get_or d (str ''connections'') JNull
       = JArr (map (\<lambda>e. JObj (connection_configuration_to_wire e)) (conf_connections c))"
    "get_or d (str ''triggerBindings'') JNull = JArr (map JObj (conf_trigger_bindings c))"
    "get_or d (str ''operationConfigurations'') JNull = JArr (map JObj (conf_operation_configurations c))"
    "get_or d (str ''environment'') (JObj []) = JObj env"
    "get_or d (str ''credentialBroker'') JNull
       = (case conf_credential_broker c of None \<Rightarrow> JNull | Some b \<Rightarrow> JObj (broker_configuration_to_wire b))"
  have sc: "scope_from_wire (JObj s) = Inr (conf_scope c)" by (rule scope_roundtrip [OF s(1)])
  have e: "environment_from_wire env = Inr (sort_key fst (conf_environment c))"
    using s(2) configuration_validD(8) [OF v] by (rule environment_roundtrip)
  have b: "broker_member (get_or d (str ''credentialBroker'') JNull) = Inr (conf_credential_broker c)"
    unfolding m(9) by (rule broker_roundtrip [OF configuration_validD(9) [OF v]])
  have "configuration_validate u (sorted_environment c) = Inr ()" using v by (simp add: validate_sorted)
  moreover have "\<lparr>conf_scope = conf_scope c, conf_revision = conf_revision c,
      conf_connections = conf_connections c, conf_trigger_bindings = conf_trigger_bindings c,
      conf_operation_configurations = conf_operation_configurations c,
      conf_environment = sort_key fst (conf_environment c),
      conf_credential_broker = conf_credential_broker c,
      conf_schema_version = conf_schema_version c\<rparr> = sorted_environment c"
    by (cases c) (simp add: sorted_environment_def)
  ultimately show ?thesis
    by (simp add: configuration_from_wire_def m(1-8) sc e b emap_require_objects emap_connections
        text_member_def Let_def)
qed

lemma configuration_from_wire_valid:
  assumes "configuration_from_wire u j = Inr c"
  shows "configuration_validate u c = Inr ()"
proof -
  obtain d where d: "j = JObj d"
    using assms by (auto simp: configuration_from_wire_def ebind_eq_Inr_iff require_object_eq_Inr)
  obtain cs where c: "get_or d (str ''connections'') JNull = JArr cs"
    using assms by (cases "get_or d (str ''connections'') JNull")
      (auto simp: configuration_from_wire_def d ebind_eq_Inr_iff ethen_eq_Inr_iff)
  obtain ts where t: "get_or d (str ''triggerBindings'') JNull = JArr ts"
    using assms by (cases "get_or d (str ''triggerBindings'') JNull")
      (auto simp: configuration_from_wire_def d c ebind_eq_Inr_iff ethen_eq_Inr_iff)
  obtain os where o: "get_or d (str ''operationConfigurations'') JNull = JArr os"
    using assms by (cases "get_or d (str ''operationConfigurations'') JNull")
      (auto simp: configuration_from_wire_def d c t ebind_eq_Inr_iff ethen_eq_Inr_iff)
  show ?thesis
    using assms
    by (auto simp: configuration_from_wire_def d c t o ebind_eq_Inr_iff ethen_eq_Inr_iff Let_def)
qed

lemma environment_to_wire_total:
  "(\<And>x. x \<in> set env \<Longrightarrow> check_environment_entry s x = Inr ()) \<Longrightarrow> is_ok (environment_to_wire env)"
proof -
  assume a: "\<And>x. x \<in> set env \<Longrightarrow> check_environment_entry s x = Inr ()"
  have "is_ok (emap (\<lambda>(k, e). ebind (environment_value_to_wire e) (\<lambda>w. ret (k, JObj w))) xs)"
    if "set xs \<subseteq> set env" for xs
    using that
  proof (induction xs)
    case (Cons x xs)
    obtain k e where x: "x = (k, e)" by force
    then have "is_ok (environment_value_to_wire e)"
      using a [of x] Cons.prems check_environment_entry_ok(2) by simp
    with Cons x show ?case by (auto simp: is_ok_iff)
  qed simp
  then show ?thesis by (simp add: environment_to_wire_def)
qed

text \<open>A document encodes exactly when it validates.\<close>

lemma configuration_to_wire_total: "is_ok (configuration_to_wire u c) \<longleftrightarrow> configuration_validate u c = Inr ()"
proof
  assume v: "configuration_validate u c = Inr ()"
  have "is_ok (scope_to_wire (conf_scope c))"
    using configuration_validD(1) [OF v] by (auto simp: scope_to_wire_def is_ok_iff)
  moreover have "is_ok (environment_to_wire (conf_environment c))"
    by (rule environment_to_wire_total) (rule configuration_validD(8) [OF v])
  ultimately show "is_ok (configuration_to_wire u c)" using v by (auto simp: configuration_to_wire_def is_ok_iff)
qed (auto simp: configuration_to_wire_def is_ok_ethen is_ok_unit_iff)

lemma configuration_bytes_roundtrip:
  assumes "configuration_to_wire u c = Inr d" "json_plain (JObj d)" "go_canonical_json_bytes (JObj d) = Inr b"
  shows "ebind (loads_bytes b) (configuration_from_wire u) = Inr (sorted_environment c)"
  using loads_canonical [OF assms(2,3)] configuration_roundtrip [OF assms(1)] by simp

text \<open>A document whose settings hold no floats and no repeated members is plain.\<close>

definition plain_settings :: "configuration \<Rightarrow> bool" where
  "plain_settings c \<longleftrightarrow> list_all (\<lambda>e. json_plain (JObj (cc_configuration e))) (conf_connections c)
     \<and> list_all (\<lambda>d. json_plain (JObj d)) (conf_trigger_bindings c)
     \<and> list_all (\<lambda>d. json_plain (JObj d)) (conf_operation_configurations c) \<and> dict_ok (conf_environment c)"

lemma plain_connection: "json_plain (JObj (cc_configuration e)) \<Longrightarrow> json_plain (JObj (connection_configuration_to_wire e))"
  by (auto simp: connection_configuration_to_wire_def dict_ok_def dict_keys_def optional_text_def)

lemma plain_environment_value: "environment_value_to_wire e = Inr d \<Longrightarrow> json_plain (JObj d)"
  by (auto simp: environment_value_to_wire_def secret_ref_to_wire_def dict_ok_def dict_keys_def
      split: option.splits)

lemma plain_environment:
  assumes "environment_to_wire env = Inr d" "dict_ok env"
  shows "json_plain (JObj d)"
proof -
  have *: "map fst d = map fst xs \<and> list_all (\<lambda>(k, v). json_plain v) d"
    if "emap (\<lambda>(k, e). ebind (environment_value_to_wire e) (\<lambda>w. ret (k, JObj w))) xs = Inr d" for xs d
    using that
  proof (induction xs arbitrary: d)
    case (Cons a xs)
    then show ?case using plain_environment_value by (cases a) (fastforce simp: ebind_eq_Inr_iff)
  qed simp
  have "map fst d = map fst (sort_key fst env)" "list_all (\<lambda>(k, v). json_plain v) d"
    using * [of "sort_key fst env" d] assms(1) by (simp_all add: environment_to_wire_def)
  moreover have "distinct (map fst (sort_key fst env))"
    using assms(2) by (simp add: dict_ok_def dict_keys_def distinct_map)
  ultimately show ?thesis by (simp add: dict_ok_def dict_keys_def)
qed

lemma plain_document:
  assumes "configuration_to_wire u c = Inr d" "plain_settings c"
  shows "json_plain (JObj d)"
proof -
  obtain s env where s: "scope_to_wire (conf_scope c) = Inr s" and env: "environment_to_wire (conf_environment c) = Inr env"
    and d: "d = [(str ''schemaVersion'', JStr (conf_schema_version c)), (str ''scope'', JObj s),
          (str ''revision'', JInt (conf_revision c)),
          (str ''connections'', JArr (map (\<lambda>e. JObj (connection_configuration_to_wire e)) (conf_connections c))),
          (str ''triggerBindings'', JArr (map JObj (conf_trigger_bindings c))),
          (str ''operationConfigurations'', JArr (map JObj (conf_operation_configurations c)))]
         @ (if env \<noteq> [] then [(str ''environment'', JObj env)] else [])
         @ (case conf_credential_broker c of
              None \<Rightarrow> [] | Some b \<Rightarrow> [(str ''credentialBroker'', JObj (broker_configuration_to_wire b))])"
    using assms(1) by (auto simp: configuration_to_wire_def ebind_eq_Inr_iff ethen_eq_Inr_iff)
  have "json_plain (JObj s)"
    using s by (auto simp: scope_to_wire_def ebind_eq_Inr_iff dict_ok_def dict_keys_def)
  moreover have "json_plain (JObj env)"
    using plain_environment [OF env] assms(2) by (simp add: plain_settings_def)
  moreover have "json_plain (JObj (broker_configuration_to_wire b))" for b
    by (simp add: broker_configuration_to_wire_def secret_ref_to_wire_def dict_ok_def dict_keys_def)
  moreover have "json_plain (JArr (map (\<lambda>e. JObj (connection_configuration_to_wire e)) (conf_connections c)))"
    using assms(2) plain_connection by (auto simp: plain_settings_def list_all_iff simp del: json_plain.simps(3))
  moreover have "json_plain (JArr (map JObj (conf_trigger_bindings c)))"
    "json_plain (JArr (map JObj (conf_operation_configurations c)))"
    using assms(2) by (auto simp: plain_settings_def list_all_iff)
  ultimately show ?thesis
    unfolding d by (auto simp: dict_ok_def dict_keys_def split: option.splits)
qed

section \<open>Bindings\<close>

definition trigger_key :: "jobj \<Rightarrow> identity \<times> pystr list" where
  "trigger_key d = (binding_owner d, [text_member d ''triggerName'', text_member d ''bindingName''])"

definition operation_key :: "jobj \<Rightarrow> identity \<times> pystr list" where
  "operation_key d = (binding_owner d,
     [text_member d ''operationId'', text_member d ''flowType'', text_member d ''stepType''])"

text \<open>A binding belongs to a declared connection, names all its parts and has settings.\<close>

definition bound_to :: "identity list \<Rightarrow> (jobj \<Rightarrow> identity \<times> pystr list) \<Rightarrow> jobj \<Rightarrow> bool" where
  "bound_to owners key d \<longleftrightarrow> binding_owner d \<in> set owners \<and> [] \<notin> set (snd (key d))
     \<and> is_dict (get_or d (str ''configuration'') JNull)"

lemma check_triggers_step:
  "check_triggers owners seen (d # ds) =
     (if bound_to owners trigger_key d \<and> trigger_key d \<notin> set seen
      then check_triggers owners (trigger_key d # seen) ds
      else Inl (ValueError (str ''configuration trigger is invalid or duplicated'')))"
  by (auto simp: bound_to_def trigger_key_def Let_def)

lemma check_triggers_iff:
  "check_triggers owners seen ds = Inr () \<longleftrightarrow>
     list_all (bound_to owners trigger_key) ds \<and> distinct (map trigger_key ds)
     \<and> set (map trigger_key ds) \<inter> set seen = {}"
proof (induction ds arbitrary: seen)
  case (Cons d ds)
  show ?case
    unfolding check_triggers_step by (auto simp: Cons.IH)
qed simp

lemma check_operations_step:
  "check_operations owners seen (d # ds) =
     (if bound_to owners operation_key d \<and> operation_key d \<notin> set seen
      then check_operations owners (operation_key d # seen) ds
      else Inl (ValueError (str ''configuration operation is invalid or duplicated'')))"
  by (auto simp: bound_to_def operation_key_def Let_def)

lemma check_operations_iff:
  "check_operations owners seen ds = Inr () \<longleftrightarrow>
     list_all (bound_to owners operation_key) ds \<and> distinct (map operation_key ds)
     \<and> set (map operation_key ds) \<inter> set seen = {}"
proof (induction ds arbitrary: seen)
  case (Cons d ds)
  show ?case
    unfolding check_operations_step by (auto simp: Cons.IH)
qed simp

section \<open>Secrets belong to one scope and one name\<close>

lemma alnum_not_slash: "is_alnum c \<Longrightarrow> c \<noteq> 47" "is_upper c \<Longrightarrow> c \<noteq> 47" "is_digit c \<Longrightarrow> c \<noteq> 47"
  "is_hex_lower c \<Longrightarrow> c \<noteq> 47"
  by (auto simp: char_class_defs)

lemma matches_class_avoids:
  assumes "matches_class p q n s" "\<not> p x" "\<not> q x"
  shows "x \<notin> set s"
  using assms by (cases s) (auto simp: matches_class_def list_all_iff)

lemma scope_id_no_slash: "is_scope_id s \<Longrightarrow> 47 \<notin> set s"
  unfolding is_scope_id_def by (erule matches_class_avoids) (simp_all add: char_class_defs)

lemma environment_name_no_slash: "is_environment_name s \<Longrightarrow> 47 \<notin> set s"
  unfolding is_environment_name_def by (erule matches_class_avoids) (simp_all add: char_class_defs)

lemma secret_key_segments:
  assumes "validate_secret_reference r s n = Inr ()" "47 \<notin> set n"
  shows "\<exists>h. split_on 47 (sr_key r) = [str ''projects'', project_id s, scope_kind s, str ''app-secrets'', n, h]"
proof -
  obtain p where p: "scope_prefix s = Inr p"
    and k: "prefix (p @ str ''/app-secrets/'' @ n @ str ''/'') (sr_key r)"
    and h: "is_hex_text 32 (drop (length (p @ str ''/app-secrets/'' @ n @ str ''/'')) (sr_key r))"
    using assms(1) by (auto simp: validate_secret_reference_def ebind_eq_Inr_iff Let_def)
  define t where "t = drop (length (p @ str ''/app-secrets/'' @ n @ str ''/'')) (sr_key r)"
  have key: "sr_key r = (p @ str ''/app-secrets/'' @ n @ str ''/'') @ t"
    using k by (auto simp: t_def prefix_def)
  have pe: "p = str ''projects/'' @ project_id s @ str ''/'' @ scope_kind s"
    and sid: "47 \<notin> set (project_id s)" and kd: "scope_kind s = str ''live'' \<or> scope_kind s = str ''preview''"
    using p scope_id_no_slash by (auto simp: scope_prefix_def split: if_splits)
  have kk: "47 \<notin> set (scope_kind s)" using kd by (auto simp: str_def)
  have lit: "str ''projects/'' = str ''projects'' @ [47]" "str ''/'' = [47]"
    "str ''/app-secrets/'' = 47 # str ''app-secrets'' @ [47]"
    "47 \<notin> set (str ''projects'')" "47 \<notin> set (str ''app-secrets'')"
    by (simp_all add: str_def)
  have "is_hex_text 32 t" using h unfolding t_def .
  then have tn: "47 \<notin> set t" using alnum_not_slash(4) by (auto simp: is_hex_text_def list_all_iff)
  show ?thesis
    unfolding key pe lit append_assoc append_Cons append_Nil
    using sid kk assms(2) tn lit(4,5) by (simp add: split_on_append_delim split_on_no_delim)
qed

text \<open>No reference is valid in two scopes, or under two field names of one scope.\<close>

lemma secret_reference_exclusive:
  assumes "validate_secret_reference r s n = Inr ()" "validate_secret_reference r s' n' = Inr ()"
    and "is_environment_name n" "is_environment_name n'"
  shows "s = s' \<and> n = n'"
proof -
  obtain h h' where "split_on 47 (sr_key r) = [str ''projects'', project_id s, scope_kind s, str ''app-secrets'', n, h]"
    "split_on 47 (sr_key r) = [str ''projects'', project_id s', scope_kind s', str ''app-secrets'', n', h']"
    using secret_key_segments [OF assms(1)] secret_key_segments [OF assms(2)]
      environment_name_no_slash [OF assms(3)] environment_name_no_slash [OF assms(4)] by blast
  then show ?thesis by (cases s; cases s') simp
qed

section \<open>Broker endpoints\<close>

text \<open>An accepted endpoint is HTTPS, or plain HTTP to a host that is private by name or address.\<close>

lemma broker_endpoint_private:
  assumes "validate_broker_endpoint u value = Inr ()"
  shows "\<exists>p host. urlsplit u value = Inr p \<and> url_hostname u p = Some host \<and> length value \<le> 2048
    \<and> (url_scheme p = str ''https'' \<or> (url_scheme p = str ''http'' \<and> is_private_host host))
    \<and> opt_text (url_username p) = [] \<and> opt_text (url_password p) = []
    \<and> url_query p = [] \<and> url_fragment p = []"
  using assms
  by (auto simp: validate_broker_endpoint_def ebind_eq_Inr_iff Let_def opt_text_def
      split: if_splits option.splits)

section \<open>Which exceptions a document can raise\<close>

fun data_error :: "exc \<Rightarrow> bool" where
  "data_error (ValueError _) \<longleftrightarrow> True"
| "data_error (TypeError _) \<longleftrightarrow> True"
| "data_error OverflowError \<longleftrightarrow> True"
| "data_error UnicodeError \<longleftrightarrow> True"
| "data_error _ \<longleftrightarrow> False"

definition data_only :: "exc + 'a \<Rightarrow> bool" where
  "data_only m \<longleftrightarrow> (\<forall>e. m = Inl e \<longrightarrow> data_error e)"

lemma data_only_Inl [simp]: "data_only (Inl e) \<longleftrightarrow> data_error e" "data_only (Inr x)"
  by (simp_all add: data_only_def)

lemma data_only_ensure [simp]: "data_only (ensure b e) \<longleftrightarrow> b \<or> data_error e"
  by (simp add: ensure_def)

lemma data_only_ebind: "data_only m \<Longrightarrow> (\<And>x. data_only (f x)) \<Longrightarrow> data_only (ebind m f)"
  by (auto simp: data_only_def ebind_eq_Inl_iff)

lemma data_only_ethen: "data_only m \<Longrightarrow> data_only k \<Longrightarrow> data_only (ethen m k)"
  by (auto simp: data_only_def ethen_eq_Inl_iff)

lemma data_only_emap: "(\<And>x. data_only (f x)) \<Longrightarrow> data_only (emap f xs)"
  by (induction xs) (auto intro!: data_only_ebind)

lemma data_only_eall: "(\<And>x. data_only (f x)) \<Longrightarrow> data_only (eall f xs)"
  by (induction xs) (auto intro!: data_only_ethen)

lemmas data_only_rules = data_only_ebind data_only_ethen data_only_emap data_only_eall

lemma data_only_objects [simp]: "data_only (require_object j l)" "data_only (require_fields d fs l)"
  by (auto simp: require_object_def require_fields_def split: json.splits)

lemma data_only_scope [simp]: "data_only (scope_prefix s)" "data_only (scope_from_wire j)" "data_only (scope_to_wire s)"
  by (auto simp: scope_prefix_def scope_from_wire_def scope_to_wire_def Let_def intro!: data_only_rules)

lemma data_only_int [simp]: "data_only (int_of_json j)"
  by (cases j) (auto simp: int_of_str_def Let_def split: option.splits)

lemma data_only_secret [simp]: "data_only (secret_ref_from_wire j)" "data_only (validate_secret_reference r s n)"
  by (auto simp: secret_ref_from_wire_def validate_secret_reference_def Let_def intro!: data_only_rules)

lemma data_only_parts [simp]: "data_only (connection_configuration_from_wire j)" "data_only (broker_member j)"
  "data_only (environment_value_from_wire j)" "data_only (environment_from_wire d)"
  "data_only (environment_value_to_wire e)"
  by (auto simp: connection_configuration_from_wire_def broker_member_def broker_configuration_from_wire_def
      environment_value_from_wire_def environment_from_wire_def environment_value_to_wire_def
      intro!: data_only_rules split: option.splits)

lemma data_only_urlsplit [simp]: "data_only (urlsplit u value)"
  by (auto simp: urlsplit_def check_brackets_def check_netloc_def check_bracketed_host_def url_error_def Let_def
      intro!: data_only_rules split: prod.splits option.splits ip.splits)

lemma data_only_endpoint [simp]: "data_only (validate_broker_endpoint u value)"
  by (auto simp: validate_broker_endpoint_def Let_def intro!: data_only_rules)

lemma data_only_value [simp]: "data_only (validate_environment_value v)"
  by (auto simp: validate_environment_value_def Let_def split: option.splits)

lemma data_only_bindings [simp]: "data_only (check_triggers owners seen ds)" "data_only (check_operations owners seen ds)"
  by (induction ds arbitrary: seen) (auto simp: Let_def)

lemma data_only_broker [simp]: "data_only (check_broker u s b)"
  by (auto simp: check_broker_def intro!: data_only_rules split: option.splits)

lemma data_only_entry [simp]: "data_only (check_environment_entry s x)"
  by (cases x) (auto simp: check_environment_entry_def intro!: data_only_rules split: option.splits)

lemma data_only_validate [simp]: "data_only (configuration_validate u c)"
  unfolding configuration_validate_def Let_def
  by (intro data_only_rules) simp_all

lemma configuration_from_wire_errors: "data_only (configuration_from_wire u j)"
  unfolding configuration_from_wire_def
  by (auto simp: Let_def intro!: data_only_rules split: json.splits)

end
