(* ===== verification/ObjectStorage.thy ===== *)
theory ObjectStorage
  imports ConfigurationWire StateExc
begin

text \<open>
  \<^verbatim>\<open>sdkpython/src/dex_connectors/sdk/projectconfig/storage.py\<close>, the object stores: private
  versioned objects, the in-memory store, and the S3 store over a client that is outside the
  repository.  The protocol \<open>ObjectStore\<close> is the record \<open>object_store\<close>; the locale
  \<open>versioned_store\<close> states what its clients rely on, in terms of the history of every key: reads
  return stored versions, a conditional write appends exactly one version or leaves the history
  alone, and an unknown outcome is one of the two.  The in-memory store is shown to keep these
  laws; for the S3 store the lemmas show what it checks and that every write is conditional.
\<close>

section \<open>Objects\<close>

record obj =
  ob_key :: pystr
  ob_version :: pystr
  ob_etag :: pystr
  ob_contents :: bytes

definition object_repr :: "obj \<Rightarrow> pystr" where
  "object_repr x = str ''Object(key='' @ str_repr (ob_key x) @ str '', version='' @ str_repr (ob_version x) @ str '')''"

definition object_reduce :: "obj \<Rightarrow> exc + unit" where
  "object_reduce x = raise (TypeError (str ''private project objects cannot be serialized''))"

record 'w object_store =
  read_object :: "pystr \<Rightarrow> pystr \<Rightarrow> (obj, 'w) action"
  create_object :: "pystr \<Rightarrow> bytes \<Rightarrow> (obj, 'w) action"
  compare_and_swap_object :: "pystr \<Rightarrow> pystr \<Rightarrow> bytes \<Rightarrow> (obj, 'w) action"

definition MAXIMUM_OBJECT_BYTES :: nat where
  "MAXIMUM_OBJECT_BYTES = 4194304"

definition validate_object_key :: "pystr \<Rightarrow> exc + unit" where
  "validate_object_key key =
     ensure (key \<noteq> [] \<and> length key \<le> 1024 \<and> take 1 key \<noteq> [47]
         \<and> list_all (\<lambda>c. c \<notin> {92, 0, 13, 10}) key
         \<and> list_all (\<lambda>seg. seg \<notin> {[], str ''.'', str ''..''}) (split_on 47 key))
       (ValueError (str ''invalid project object key''))"

definition validate_contents :: "bytes \<Rightarrow> exc + unit" where
  "validate_contents contents =
     ensure (contents \<noteq> [] \<and> length contents \<le> MAXIMUM_OBJECT_BYTES)
       (ValueError (str ''project object body is empty or oversized''))"

text \<open>The documented form of \<open>hashlib.sha256(...).hexdigest()\<close>.\<close>

definition is_sha256 :: "(bytes \<Rightarrow> pystr) \<Rightarrow> bool" where
  "is_sha256 sha256 \<longleftrightarrow> (\<forall>b. is_hex_text 64 (sha256 b))"

lemma is_digest_sha256: "is_sha256 sha256 \<Longrightarrow> is_digest (digest_bytes sha256 b)"
  by (simp add: is_sha256_def is_digest_def digest_bytes_def)

section \<open>The in-memory store\<close>

type_synonym memory = "(pystr, obj list) dict"

definition versions :: "memory \<Rightarrow> pystr \<Rightarrow> obj list" where
  "versions st key = (case dict_get st key of None \<Rightarrow> [] | Some vs \<Rightarrow> vs)"

definition mem_read :: "pystr \<Rightarrow> pystr \<Rightarrow> (obj, memory) action" where
  "mem_read key version st =
     (ethen (validate_object_key key)
       (case find (\<lambda>x. version = [] \<or> ob_version x = version) (rev (versions st key)) of
          Some x \<Rightarrow> ret x | None \<Rightarrow> raise ObjectNotFoundError), st)"

definition mem_append :: "(bytes \<Rightarrow> pystr) \<Rightarrow> pystr \<Rightarrow> bytes \<Rightarrow> (obj, memory) action" where
  "mem_append sha256 key contents st =
     (let version = digits (int (length (versions st key)) + 1);
          x = \<lparr>ob_key = key, ob_version = version,
               ob_etag = drop 7 (digest_bytes sha256 contents) @ str ''-'' @ version, ob_contents = contents\<rparr>
      in (ret x, dict_set key (versions st key @ [x]) st))"

definition mem_create :: "(bytes \<Rightarrow> pystr) \<Rightarrow> pystr \<Rightarrow> bytes \<Rightarrow> (obj, memory) action" where
  "mem_create sha256 key contents st =
     (case ethen (validate_object_key key) (validate_contents contents) of
        Inl e \<Rightarrow> (raise e, st)
      | Inr _ \<Rightarrow>
        if dict_get st key \<noteq> None
        then (raise (ObjectConflictError (str ''project object already exists'')), st)
        else mem_append sha256 key contents st)"

definition mem_cas :: "(bytes \<Rightarrow> pystr) \<Rightarrow> pystr \<Rightarrow> pystr \<Rightarrow> bytes \<Rightarrow> (obj, memory) action" where
  "mem_cas sha256 key expected_etag contents st =
     (case ethen (validate_object_key key) (validate_contents contents) of
        Inl e \<Rightarrow> (raise e, st)
      | Inr _ \<Rightarrow>
        if versions st key = [] \<or> expected_etag = [] \<or> ob_etag (last (versions st key)) \<noteq> expected_etag
        then (raise (ObjectConflictError (str ''project object compare-and-swap conflict'')), st)
        else mem_append sha256 key contents st)"

definition memory_store :: "(bytes \<Rightarrow> pystr) \<Rightarrow> memory object_store" where
  "memory_store sha256 =
     \<lparr>read_object = mem_read, create_object = mem_create sha256,
      compare_and_swap_object = mem_cas sha256\<rparr>"

section \<open>What clients rely on\<close>

fun is_conflict :: "exc \<Rightarrow> bool" where
  "is_conflict (ObjectConflictError _) \<longleftrightarrow> True"
| "is_conflict _ \<longleftrightarrow> False"

fun is_unknown :: "exc \<Rightarrow> bool" where
  "is_unknown (OutcomeUnknownError _) \<longleftrightarrow> True"
| "is_unknown _ \<longleftrightarrow> False"

text \<open>
  Two ways every client writes: an immutable object whose contents decide a conflict or an
  unknown outcome, and a conditional write of a head that is read again when its outcome is
  unknown.
\<close>

definition create_immutable :: "'w object_store \<Rightarrow> pystr \<Rightarrow> bytes \<Rightarrow> pystr \<Rightarrow> (obj, 'w) action" where
  "create_immutable objects key contents message =
     scatch (create_object objects key contents)
       (\<lambda>e. if is_conflict e \<or> is_unknown e
            then sbind (read_object objects key []) (\<lambda>stored.
                   if ob_contents stored \<noteq> contents then sraise (ValueError message) else sret stored)
            else sraise e)"

definition reconciled_write :: "'w object_store \<Rightarrow> pystr \<Rightarrow> obj option \<Rightarrow> bytes \<Rightarrow> (obj, 'w) action" where
  "reconciled_write objects key head contents =
     scatch
       (case head of
          None \<Rightarrow> create_object objects key contents
        | Some stored \<Rightarrow> compare_and_swap_object objects key (ob_etag stored) contents)
       (\<lambda>e. if is_unknown e
            then sbind (read_object objects key []) (\<lambda>observed.
              if ob_contents observed \<noteq> contents then sraise e else sret observed)
            else sraise e)"

text \<open>An append: the history of one key grows by one object with the given contents.\<close>

definition appends :: "(pystr \<Rightarrow> obj list) \<Rightarrow> pystr \<Rightarrow> bytes \<Rightarrow> obj \<Rightarrow> (pystr \<Rightarrow> obj list) \<Rightarrow> bool" where
  "appends h key contents x h' \<longleftrightarrow> h' = h(key := h key @ [x]) \<and> ob_contents x = contents"

definition grows :: "(pystr \<Rightarrow> obj list) \<Rightarrow> (pystr \<Rightarrow> obj list) \<Rightarrow> bool" where
  "grows h h' \<longleftrightarrow> (\<forall>key. prefix (h key) (h' key))"

lemma grows_refl [simp]: "grows h h"
  by (simp add: grows_def)

lemma grows_trans: "grows h h' \<Longrightarrow> grows h' h'' \<Longrightarrow> grows h h''"
  unfolding grows_def using prefix_order.trans by blast

lemma appends_grows: "appends h key c x h' \<Longrightarrow> grows h h'"
  by (auto simp: appends_def grows_def)

lemma grows_mem: "grows h h' \<Longrightarrow> x \<in> set (h key) \<Longrightarrow> x \<in> set (h' key)"
  unfolding grows_def using set_mono_prefix by blast

text \<open>A history in which a version names one object, and every object has an identity.\<close>

definition sound_history :: "(pystr \<Rightarrow> obj list) \<Rightarrow> bool" where
  "sound_history h \<longleftrightarrow> (\<forall>key. distinct (map ob_version (h key))
     \<and> (\<forall>x \<in> set (h key). ob_key x = key \<and> ob_version x \<notin> {[], str ''null''} \<and> ob_etag x \<noteq> []))"

lemma sound_history_unique:
  assumes "sound_history h" "x \<in> set (h key)" "y \<in> set (h key)" "ob_version x = ob_version y"
  shows "x = y"
proof -
  have "distinct (map ob_version (h key))" using assms(1) by (simp add: sound_history_def)
  then have "inj_on ob_version (set (h key))" by (simp add: distinct_map)
  then show ?thesis using assms(2-4) by (auto dest: inj_onD)
qed

locale versioned_store =
  fixes store :: "'w object_store"
    and hist :: "'w \<Rightarrow> pystr \<Rightarrow> obj list"
    and inv :: "'w \<Rightarrow> bool"
  assumes sound: "inv w \<Longrightarrow> sound_history (hist w)"
    and read_keeps: "inv w \<Longrightarrow> read_object store key v w = (r, w') \<Longrightarrow> inv w' \<and> hist w' = hist w"
    and read_head: "inv w \<Longrightarrow> read_object store key [] w = (Inr x, w')
      \<Longrightarrow> hist w key \<noteq> [] \<and> x = last (hist w key)"
    and read_version: "inv w \<Longrightarrow> v \<noteq> [] \<Longrightarrow> read_object store key v w = (Inr x, w')
      \<Longrightarrow> x \<in> set (hist w key) \<and> ob_version x = v"
    and read_missing: "inv w \<Longrightarrow> read_object store key [] w = (Inl ObjectNotFoundError, w') \<Longrightarrow> hist w key = []"
    and create_ok: "inv w \<Longrightarrow> create_object store key c w = (Inr x, w')
      \<Longrightarrow> inv w' \<and> hist w key = [] \<and> appends (hist w) key c x (hist w')"
    and create_error: "inv w \<Longrightarrow> create_object store key c w = (Inl e, w')
      \<Longrightarrow> inv w' \<and> (hist w' = hist w \<or> (\<exists>x. is_unknown e \<and> hist w key = []
                     \<and> appends (hist w) key c x (hist w')))"
    and swap_ok: "inv w \<Longrightarrow> compare_and_swap_object store key t c w = (Inr x, w')
      \<Longrightarrow> inv w' \<and> hist w key \<noteq> [] \<and> ob_etag (last (hist w key)) = t \<and> appends (hist w) key c x (hist w')"
    and swap_error: "inv w \<Longrightarrow> compare_and_swap_object store key t c w = (Inl e, w')
      \<Longrightarrow> inv w' \<and> (hist w' = hist w \<or> (\<exists>x. is_unknown e \<and> hist w key \<noteq> []
                     \<and> ob_etag (last (hist w key)) = t \<and> appends (hist w) key c x (hist w')))"
begin

lemma read_grows: "inv w \<Longrightarrow> read_object store key v w = (r, w') \<Longrightarrow> inv w' \<and> grows (hist w) (hist w')"
  using read_keeps [of w key v r w'] by simp

lemma create_grows: "inv w \<Longrightarrow> create_object store key c w = (r, w') \<Longrightarrow> inv w' \<and> grows (hist w) (hist w')"
  using create_ok [of w key c _ w'] create_error [of w key c _ w'] appends_grows by (cases r) fastforce+

lemma swap_grows:
  "inv w \<Longrightarrow> compare_and_swap_object store key t c w = (r, w') \<Longrightarrow> inv w' \<and> grows (hist w) (hist w')"
  using swap_ok [of w key t c _ w'] swap_error [of w key t c _ w'] appends_grows by (cases r) fastforce+

lemma hist_identity:
  "inv w \<Longrightarrow> x \<in> set (hist w key) \<Longrightarrow> ob_key x = key \<and> ob_version x \<notin> {[], str ''null''} \<and> ob_etag x \<noteq> []"
  using sound [of w] by (simp add: sound_history_def)

text \<open>A version that was stored is the one every later read of that version returns.\<close>

lemma read_version_stable:
  assumes "inv w" "x \<in> set (hist w key)" "inv w1" "grows (hist w) (hist w1)"
    and "read_object store key (ob_version x) w1 = (Inr y, w2)"
  shows "y = x"
proof -
  have x: "x \<in> set (hist w1 key)" using assms(2,4) by (rule grows_mem [rotated])
  have "ob_version x \<noteq> []" using hist_identity [OF assms(1,2)] by simp
  then have "y \<in> set (hist w1 key)" "ob_version y = ob_version x"
    using read_version [OF assms(3) _ assms(5)] by auto
  then show ?thesis using sound_history_unique [OF sound [OF assms(3)]] x by blast
qed

text \<open>What the two ways of writing do to the history.\<close>

lemma write_head_cases:
  assumes "inv w" "(case head of None \<Rightarrow> create_object store key contents
      | Some stored \<Rightarrow> compare_and_swap_object store key (ob_etag stored) contents) w = (r, w1)"
  shows "inv w1"
    and "hist w1 = hist w \<or> (\<exists>x. appends (hist w) key contents x (hist w1))
      \<and> (case head of None \<Rightarrow> hist w key = [] | Some stored \<Rightarrow> hist w key \<noteq> [] \<and> ob_etag (last (hist w key)) = ob_etag stored)"
    and "r = Inr x \<Longrightarrow> appends (hist w) key contents x (hist w1)"
proof -
  have "inv w1 \<and> (hist w1 = hist w \<or> (\<exists>x. appends (hist w) key contents x (hist w1))
      \<and> (case head of None \<Rightarrow> hist w key = [] | Some stored \<Rightarrow> hist w key \<noteq> [] \<and> ob_etag (last (hist w key)) = ob_etag stored))
      \<and> (\<forall>x. r = Inr x \<longrightarrow> appends (hist w) key contents x (hist w1))"
  proof (cases head)
    case None
    with assms create_ok [OF assms(1), of key contents _ w1] create_error [OF assms(1), of key contents _ w1]
    show ?thesis by (cases r) auto
  next
    case (Some stored)
    with assms swap_ok [OF assms(1), of key "ob_etag stored" contents _ w1]
      swap_error [OF assms(1), of key "ob_etag stored" contents _ w1]
    show ?thesis by (cases r) auto
  qed
  then show "inv w1" "hist w1 = hist w \<or> (\<exists>x. appends (hist w) key contents x (hist w1))
      \<and> (case head of None \<Rightarrow> hist w key = [] | Some stored \<Rightarrow> hist w key \<noteq> [] \<and> ob_etag (last (hist w key)) = ob_etag stored)"
    "r = Inr x \<Longrightarrow> appends (hist w) key contents x (hist w1)"
    by blast+
qed

lemma reconciled_write_cases:
  assumes "reconciled_write store key head contents w = (r, w')"
  obtains (direct) r1 where "(case head of None \<Rightarrow> create_object store key contents
      | Some stored \<Rightarrow> compare_and_swap_object store key (ob_etag stored) contents) w = (r1, w')" "r = r1"
    | (reread) e w1 r2 where "(case head of None \<Rightarrow> create_object store key contents
      | Some stored \<Rightarrow> compare_and_swap_object store key (ob_etag stored) contents) w = (Inl e, w1)"
      "read_object store key [] w1 = (r2, w')" "\<And>z. r = Inr z \<Longrightarrow> r2 = Inr z \<and> ob_contents z = contents"
proof -
  let ?conditional = "case head of None \<Rightarrow> create_object store key contents
      | Some stored \<Rightarrow> compare_and_swap_object store key (ob_etag stored) contents"
  obtain r1 w1 where w1: "?conditional w = (r1, w1)" by fastforce
  obtain r2 w2 where r2: "read_object store key [] w1 = (r2, w2)" by fastforce
  show thesis
  proof (cases "\<exists>e. r1 = Inl e \<and> is_unknown e")
    case True
    then obtain e where e: "r1 = Inl e" "is_unknown e" by blast
    have "sbind (read_object store key []) (\<lambda>observed.
        if ob_contents observed \<noteq> contents then sraise e else sret observed) w1 = (r, w')"
      using assms w1 e by (simp add: reconciled_write_def scatch_def)
    then have "w' = w2 \<and> (\<forall>z. r = Inr z \<longrightarrow> r2 = Inr z \<and> ob_contents z = contents)"
      using r2 by (cases r2) (auto simp: sbind_def split: if_splits)
    then show thesis using reread w1 e(1) r2 by blast
  next
    case False
    then have "r = r1" "w' = w1"
      using assms w1 by (cases r1; auto simp: reconciled_write_def scatch_def)+
    then show thesis using direct w1 by blast
  qed
qed

lemma reconciled_write_effect:
  assumes "inv w" "reconciled_write store key head contents w = (r, w')"
  shows "inv w'"
    and "hist w' = hist w \<or> (\<exists>x. appends (hist w) key contents x (hist w'))
      \<and> (case head of None \<Rightarrow> hist w key = [] | Some stored \<Rightarrow> hist w key \<noteq> [] \<and> ob_etag (last (hist w key)) = ob_etag stored)"
    and "r = Inr x \<Longrightarrow> hist w' key \<noteq> [] \<and> x = last (hist w' key) \<and> ob_contents x = contents"
proof -
  have "inv w' \<and> (hist w' = hist w \<or> (\<exists>x. appends (hist w) key contents x (hist w'))
      \<and> (case head of None \<Rightarrow> hist w key = [] | Some stored \<Rightarrow> hist w key \<noteq> [] \<and> ob_etag (last (hist w key)) = ob_etag stored))
      \<and> (\<forall>x. r = Inr x \<longrightarrow> hist w' key \<noteq> [] \<and> x = last (hist w' key) \<and> ob_contents x = contents)"
    using assms(2)
  proof (cases rule: reconciled_write_cases)
    case (direct r1)
    note eff = write_head_cases [OF assms(1) direct(1)]
    have "hist w' key \<noteq> [] \<and> x = last (hist w' key) \<and> ob_contents x = contents" if "r = Inr x" for x
      using eff(3) [of x] that direct(2) by (auto simp: appends_def)
    with eff(1,2) show ?thesis by blast
  next
    case (reread e w1 r2)
    note eff = write_head_cases(1,2) [OF assms(1) reread(1)]
    note k = read_keeps [OF eff(1) reread(2)]
    have "hist w' key \<noteq> [] \<and> x = last (hist w' key) \<and> ob_contents x = contents" if "r = Inr x" for x
      using read_head [OF eff(1), of key x w'] reread(2,3) that k by auto
    with eff(2) k show ?thesis by simp
  qed
  then show "inv w'" "hist w' = hist w \<or> (\<exists>x. appends (hist w) key contents x (hist w'))
      \<and> (case head of None \<Rightarrow> hist w key = [] | Some stored \<Rightarrow> hist w key \<noteq> [] \<and> ob_etag (last (hist w key)) = ob_etag stored)"
    "r = Inr x \<Longrightarrow> hist w' key \<noteq> [] \<and> x = last (hist w' key) \<and> ob_contents x = contents"
    by blast+
qed

lemma create_immutable_effect:
  assumes "inv w" "create_immutable store key contents message w = (r, w')"
  shows "inv w'" "hist w' = hist w \<or> (\<exists>x. hist w key = [] \<and> appends (hist w) key contents x (hist w'))"
    and "r = Inr x \<Longrightarrow> x \<in> set (hist w' key) \<and> ob_contents x = contents"
proof -
  obtain r1 w1 where w1: "create_object store key contents w = (r1, w1)" by fastforce
  obtain r2 w2 where r2: "read_object store key [] w1 = (r2, w2)" by fastforce
  have i: "inv w1 \<and> (hist w1 = hist w \<or> (\<exists>x. hist w key = [] \<and> appends (hist w) key contents x (hist w1)))"
    using create_ok [OF assms(1), of key contents _ w1] create_error [OF assms(1), of key contents _ w1] w1
    by (cases r1) auto
  have k: "inv w2" "hist w2 = hist w1" using read_keeps [OF _ r2] i by auto
  have "(w' = w1 \<and> r = r1) \<or> (w' = w2 \<and> (\<forall>z. r = Inr z \<longrightarrow> r2 = Inr z \<and> ob_contents z = contents))"
  proof (cases "\<exists>e. r1 = Inl e \<and> (is_conflict e \<or> is_unknown e)")
    case True
    then have "sbind (read_object store key []) (\<lambda>stored.
        if ob_contents stored \<noteq> contents then sraise (ValueError message) else sret stored) w1 = (r, w')"
      using assms(2) w1 by (auto simp: create_immutable_def scatch_def)
    then show ?thesis using r2 by (cases r2) (auto simp: sbind_def split: if_splits)
  next
    case False
    then show ?thesis using assms(2) w1 by (cases r1) (auto simp: create_immutable_def scatch_def)
  qed
  then have "inv w' \<and> hist w' = hist w1 \<and> (r = Inr x \<longrightarrow> x \<in> set (hist w' key) \<and> ob_contents x = contents)"
  proof (elim disjE conjE)
    assume "w' = w1" "r = r1"
    then show ?thesis using i w1 create_ok [OF assms(1), of key contents x w1] by (auto simp: appends_def)
  next
    assume a: "w' = w2" "\<forall>z. r = Inr z \<longrightarrow> r2 = Inr z \<and> ob_contents z = contents"
    have "x \<in> set (hist w1 key) \<and> ob_contents x = contents" if "r = Inr x"
      using read_head [of w1 key x w2] i r2 a(2) that by auto
    then show ?thesis using a(1) k by simp
  qed
  then show "inv w'" "hist w' = hist w \<or> (\<exists>x. hist w key = [] \<and> appends (hist w) key contents x (hist w'))"
    "r = Inr x \<Longrightarrow> x \<in> set (hist w' key) \<and> ob_contents x = contents"
    using i by auto
qed

end

text \<open>A store that also answers every read of a stored object.\<close>

locale available_store = versioned_store +
  assumes head_available: "inv w \<Longrightarrow> hist w key \<noteq> [] \<Longrightarrow>
      \<exists>w'. read_object store key [] w = (Inr (last (hist w key)), w')"
    and version_available: "inv w \<Longrightarrow> x \<in> set (hist w key) \<Longrightarrow>
      \<exists>w'. read_object store key (ob_version x) w = (Inr x, w')"

text \<open>A store whose failed writes never change the history.\<close>

locale definite_store = available_store +
  assumes create_definite: "inv w \<Longrightarrow> create_object store key c w = (Inl e, w') \<Longrightarrow> hist w' = hist w"
    and swap_definite: "inv w \<Longrightarrow> compare_and_swap_object store key t c w = (Inl e, w') \<Longrightarrow> hist w' = hist w"
begin

lemma reconciled_write_definite:
  assumes "inv w" "reconciled_write store key head contents w = (Inl e, w')"
  shows "hist w' = hist w"
proof -
  have d: "hist w1 = hist w" if "(case head of None \<Rightarrow> create_object store key contents
      | Some stored \<Rightarrow> compare_and_swap_object store key (ob_etag stored) contents) w = (Inl e1, w1)" for e1 w1
    using that create_definite [OF assms(1)] swap_definite [OF assms(1)] by (auto split: option.splits)
  from assms(2) show ?thesis
  proof (cases rule: reconciled_write_cases)
    case (direct r1)
    with d show ?thesis by auto
  next
    case (reread e1 w1 r2)
    with d [OF reread(1)] read_keeps [OF write_head_cases(1) [OF assms(1) reread(1)] reread(2)] show ?thesis by simp
  qed
qed

end

section \<open>The in-memory store keeps the laws\<close>

definition numbered :: "pystr \<Rightarrow> obj list \<Rightarrow> bool" where
  "numbered key vs \<longleftrightarrow> (\<forall>i < length vs. ob_key (vs ! i) = key \<and> ob_version (vs ! i) = digits (int i + 1)
     \<and> ob_etag (vs ! i) \<noteq> [])"

definition mem_inv :: "memory \<Rightarrow> bool" where
  "mem_inv st \<longleftrightarrow> (\<forall>key vs. dict_get st key = Some vs \<longrightarrow>
     vs \<noteq> [] \<and> validate_object_key key = Inr () \<and> numbered key vs)"

lemma digits_inject: "0 \<le> m \<Longrightarrow> 0 \<le> n \<Longrightarrow> digits m = digits n \<longleftrightarrow> m = n"
  using digits_value_digits by metis

lemma numbered_append:
  "numbered key vs \<Longrightarrow> ob_key x = key \<Longrightarrow> ob_version x = digits (int (length vs) + 1) \<Longrightarrow> ob_etag x \<noteq> []
     \<Longrightarrow> numbered key (vs @ [x])"
  by (auto simp: numbered_def nth_append less_Suc_eq)

lemma numbered_distinct: "numbered key vs \<Longrightarrow> distinct (map ob_version vs)"
  by (auto simp: numbered_def distinct_conv_nth digits_inject)

lemma digits_not_null: "0 \<le> n \<Longrightarrow> digits n \<noteq> str ''null''"
  using digits_is_digit [of n] by (auto simp: str_def is_digit_def)

lemma numbered_mem:
  "numbered key vs \<Longrightarrow> x \<in> set vs \<Longrightarrow> ob_key x = key \<and> ob_version x \<notin> {[], str ''null''} \<and> ob_etag x \<noteq> []"
  by (auto simp: numbered_def in_set_conv_nth digits_not_null)

lemma mem_inv_numbered: "mem_inv st \<Longrightarrow> numbered key (versions st key)"
  by (auto simp: mem_inv_def versions_def numbered_def split: option.splits)

lemma mem_inv_key: "mem_inv st \<Longrightarrow> versions st key \<noteq> [] \<Longrightarrow> validate_object_key key = Inr ()"
  by (auto simp: mem_inv_def versions_def split: option.splits)

lemma mem_inv_sound: "mem_inv st \<Longrightarrow> sound_history (versions st)"
  using mem_inv_numbered numbered_distinct numbered_mem unfolding sound_history_def by blast

lemma versions_set: "versions (dict_set key vs st) = (versions st)(key := vs)"
  by (auto simp: versions_def update_conv' fun_eq_iff)

lemma mem_append_effect:
  assumes "mem_inv st" "validate_object_key key = Inr ()" "mem_append sha256 key c st = (r, st')"
  shows "\<exists>x. r = Inr x \<and> mem_inv st' \<and> appends (versions st) key c x (versions st')"
proof -
  define x where "x = \<lparr>ob_key = key, ob_version = digits (int (length (versions st key)) + 1),
    ob_etag = drop 7 (digest_bytes sha256 c) @ str ''-'' @ digits (int (length (versions st key)) + 1),
    ob_contents = c\<rparr>"
  have r: "r = Inr x" "st' = dict_set key (versions st key @ [x]) st"
    using assms(3) by (simp_all add: mem_append_def Let_def x_def)
  have "numbered key (versions st key @ [x])"
    using mem_inv_numbered [OF assms(1)] by (rule numbered_append) (simp_all add: x_def)
  then have "mem_inv st'"
    using assms(1,2) by (auto simp: r(2) mem_inv_def update_conv')
  moreover have "appends (versions st) key c x (versions st')"
    by (simp add: appends_def r(2) versions_set) (simp add: x_def)
  ultimately show ?thesis using r(1) by blast
qed

lemma mem_create_effect:
  assumes "mem_inv st" "mem_create sha256 key c st = (r, st')"
  shows "mem_inv st'"
    and "r = Inr x \<Longrightarrow> versions st key = [] \<and> appends (versions st) key c x (versions st')"
    and "r = Inl e \<Longrightarrow> st' = st"
proof -
  have "(\<exists>e. r = Inl e \<and> st' = st)
      \<or> (\<exists>x. r = Inr x \<and> versions st key = [] \<and> mem_inv st' \<and> appends (versions st) key c x (versions st'))"
    using assms mem_append_effect [OF assms(1), of key sha256 c r st']
    by (auto simp: mem_create_def ethen_eq_Inr_iff versions_def split: sum.splits if_splits)
  then show "mem_inv st'" "r = Inr x \<Longrightarrow> versions st key = [] \<and> appends (versions st) key c x (versions st')"
    "r = Inl e \<Longrightarrow> st' = st"
    using assms(1) by auto
qed

lemma mem_cas_effect:
  assumes "mem_inv st" "mem_cas sha256 key t c st = (r, st')"
  shows "mem_inv st'"
    and "r = Inr x \<Longrightarrow> versions st key \<noteq> [] \<and> ob_etag (last (versions st key)) = t
      \<and> appends (versions st) key c x (versions st')"
    and "r = Inl e \<Longrightarrow> st' = st"
proof -
  have "(\<exists>e. r = Inl e \<and> st' = st)
      \<or> (\<exists>x. r = Inr x \<and> versions st key \<noteq> [] \<and> ob_etag (last (versions st key)) = t
          \<and> mem_inv st' \<and> appends (versions st) key c x (versions st'))"
    using assms mem_append_effect [OF assms(1), of key sha256 c r st']
    by (auto simp: mem_cas_def ethen_eq_Inr_iff split: sum.splits if_splits)
  then show "mem_inv st'" "r = Inr x \<Longrightarrow> versions st key \<noteq> [] \<and> ob_etag (last (versions st key)) = t
      \<and> appends (versions st) key c x (versions st')" "r = Inl e \<Longrightarrow> st' = st"
    using assms(1) by auto
qed

lemma find_SomeD: "find p xs = Some x \<Longrightarrow> x \<in> set xs \<and> p x"
  by (induction xs) (auto split: if_splits)

lemma find_rev_head: "vs \<noteq> [] \<Longrightarrow> find (\<lambda>x. True) (rev vs) = Some (last vs)"
  by (cases vs rule: rev_cases) auto

lemma mem_read_head:
  "mem_inv st \<Longrightarrow> versions st key \<noteq> [] \<Longrightarrow> mem_read key [] st = (Inr (last (versions st key)), st)"
  by (simp add: mem_read_def mem_inv_key find_rev_head)

lemma mem_read_Inr:
  assumes "mem_read key v st = (Inr x, st')"
  shows "x \<in> set (versions st key)" "v \<noteq> [] \<Longrightarrow> ob_version x = v"
    "v = [] \<Longrightarrow> versions st key \<noteq> [] \<and> x = last (versions st key)"
proof -
  have f: "find (\<lambda>y. v = [] \<or> ob_version y = v) (rev (versions st key)) = Some x"
    using assms by (auto simp: mem_read_def ethen_eq_Inr_iff split: option.splits)
  then show "x \<in> set (versions st key)" "v \<noteq> [] \<Longrightarrow> ob_version x = v"
    by (auto dest: find_SomeD)
  then show "versions st key \<noteq> [] \<and> x = last (versions st key)" if "v = []"
    using f that find_rev_head [of "versions st key"] by fastforce
qed

lemma mem_read_version:
  assumes "mem_inv st" "x \<in> set (versions st key)"
  shows "mem_read key (ob_version x) st = (Inr x, st)"
proof -
  have k: "validate_object_key key = Inr ()" using assms mem_inv_key by (metis empty_iff list.set(1))
  have "find (\<lambda>y. ob_version x = [] \<or> ob_version y = ob_version x) (rev (versions st key)) \<noteq> None"
    using assms(2) by (auto simp: find_None_iff)
  then obtain y where y: "find (\<lambda>y. ob_version x = [] \<or> ob_version y = ob_version x) (rev (versions st key)) = Some y"
    by blast
  then have r: "mem_read key (ob_version x) st = (Inr y, st)" by (simp add: mem_read_def k)
  have "ob_version x \<noteq> []" using numbered_mem [OF mem_inv_numbered [OF assms(1)] assms(2)] by simp
  then have "y = x"
    using mem_read_Inr [OF r] sound_history_unique [OF mem_inv_sound [OF assms(1)]] assms(2) by blast
  with r show ?thesis by simp
qed

interpretation memory: definite_store "memory_store sha256" versions mem_inv
proof
  fix st st' :: memory
  and key v t c x e
  and r :: "exc + obj"
  assume i: "mem_inv st"
  show "sound_history (versions st)" by (rule mem_inv_sound [OF i])
  show "mem_inv st' \<and> versions st' = versions st" if "read_object (memory_store sha256) key v st = (r, st')"
    using that i by (simp add: memory_store_def mem_read_def)
  show "versions st key \<noteq> [] \<and> x = last (versions st key)"
    if "read_object (memory_store sha256) key [] st = (Inr x, st')"
    using that mem_read_Inr(3) by (simp add: memory_store_def)
  show "x \<in> set (versions st key) \<and> ob_version x = v" if "v \<noteq> []" "read_object (memory_store sha256) key v st = (Inr x, st')"
    using that mem_read_Inr(1,2) by (simp add: memory_store_def)
  show "mem_inv st' \<and> versions st key = [] \<and> appends (versions st) key c x (versions st')"
    if "create_object (memory_store sha256) key c st = (Inr x, st')"
    using that mem_create_effect [OF i, of sha256 key c "Inr x" st'] by (simp add: memory_store_def)
  show "mem_inv st' \<and> (versions st' = versions st \<or> (\<exists>x. is_unknown e \<and> versions st key = []
      \<and> appends (versions st) key c x (versions st')))"
    if "create_object (memory_store sha256) key c st = (Inl e, st')"
    using that i mem_create_effect(3) [OF i, of sha256 key c "Inl e" st'] by (simp add: memory_store_def)
  show "mem_inv st' \<and> versions st key \<noteq> [] \<and> ob_etag (last (versions st key)) = t
      \<and> appends (versions st) key c x (versions st')"
    if "compare_and_swap_object (memory_store sha256) key t c st = (Inr x, st')"
    using that mem_cas_effect [OF i, of sha256 key t c "Inr x" st'] by (simp add: memory_store_def)
  show "mem_inv st' \<and> (versions st' = versions st \<or> (\<exists>x. is_unknown e \<and> versions st key \<noteq> []
      \<and> ob_etag (last (versions st key)) = t \<and> appends (versions st) key c x (versions st')))"
    if "compare_and_swap_object (memory_store sha256) key t c st = (Inl e, st')"
    using that i mem_cas_effect(3) [OF i, of sha256 key t c "Inl e" st'] by (simp add: memory_store_def)
  show "versions st key = []" if "read_object (memory_store sha256) key [] st = (Inl ObjectNotFoundError, st')"
    using that mem_read_head [OF i, of key] by (auto simp: memory_store_def)
  show "versions st' = versions st" if "create_object (memory_store sha256) key c st = (Inl e, st')"
    using that mem_create_effect(3) [OF i, of sha256 key c "Inl e" st'] by (simp add: memory_store_def)
  show "versions st' = versions st" if "compare_and_swap_object (memory_store sha256) key t c st = (Inl e, st')"
    using that mem_cas_effect(3) [OF i, of sha256 key t c "Inl e" st'] by (simp add: memory_store_def)
  show "\<exists>w'. read_object (memory_store sha256) key [] st = (Inr (last (versions st key)), w')"
    if "versions st key \<noteq> []"
    using mem_read_head [OF i that] by (simp add: memory_store_def)
  show "\<exists>w'. read_object (memory_store sha256) key (ob_version x) st = (Inr x, w')"
    if "x \<in> set (versions st key)"
    using mem_read_version [OF i that] by (simp add: memory_store_def)
qed

end
