(* ===== verification/IsoDatetime.thy ===== *)
theory IsoDatetime
  imports Timestamps
begin

text \<open>
  The parts of the standard library's \<open>datetime\<close> that the credential stores use:
  \<open>datetime.fromisoformat\<close> with the forms CPython accepts (calendar and week dates, optional
  separators, fractions beyond microseconds truncated), the date of an ordinal day, and
  \<open>now + timedelta\<close>.  The lemmas show that \<open>fromisoformat\<close> reads every canonical timestamp a
  \<open>datetime\<close> can hold, and that the date of an instant is the date its fields denote.
\<close>

section \<open>Dates of ordinal days\<close>

lemma leap_count:
  fixes y a4 a100 a400 b4 b100 b400 :: int
  assumes "b4 = a4 + (if p then 1 else 0)" "b100 = a100 + (if q then 1 else 0)" "b400 = a400 + (if r then 1 else 0)"
    and "q \<longrightarrow> p" "r \<longrightarrow> q"
  shows "365 * y + b4 - b100 + b400 = 365 * (y - 1) + a4 - a100 + a400 + (if p \<and> (\<not> q \<or> r) then 366 else 365)"
  using assms by (cases p; cases q; cases r; simp)

lemma days_before_year_step: "days_before_year (y + 1) = days_before_year y + (if is_leap y then 366 else 365)"
proof -
  have s: "y div k = (y - 1) div k + (if y mod k = 0 then 1 else 0)" if "0 < k" for k :: int
  proof (cases "y mod k = 0")
    case True
    then obtain q where "y = k * q" by auto
    moreover have "(k * q - 1) div k = q - 1"
      using that by (intro int_div_pos_eq [of _ _ _ "k - 1"]) (auto simp: algebra_simps)
    ultimately show ?thesis using that True by simp
  next
    case False
    then have m: "0 < y mod k" using that by (simp add: less_le)
    have "y mod k < k" using that by simp
    moreover have "y - 1 = k * (y div k) + (y mod k - 1)" using mult_div_mod_eq [of k y] by simp
    ultimately have "(y - 1) div k = y div k" using m by (intro int_div_pos_eq [of _ _ _ "y mod k - 1"]) auto
    then show ?thesis using False by simp
  qed
  have m: "y mod 100 = 0 \<longrightarrow> y mod 4 = 0" "y mod 400 = 0 \<longrightarrow> y mod 100 = 0"
    using dvd_trans [of 4 100 y] dvd_trans [of 100 400 y] by (simp_all add: mod_eq_0_iff_dvd)
  have "days_before_year (y + 1) = 365 * y + y div 4 - y div 100 + y div 400"
    by (simp add: days_before_year_def)
  also have "\<dots> = 365 * (y - 1) + (y - 1) div 4 - (y - 1) div 100 + (y - 1) div 400
      + (if y mod 4 = 0 \<and> (y mod 100 \<noteq> 0 \<or> y mod 400 = 0) then 366 else 365)"
    by (rule leap_count [OF s [OF zero_less_numeral] s [OF zero_less_numeral] s [OF zero_less_numeral] m])
  finally show ?thesis unfolding is_leap_def days_before_year_def [of y] .
qed

function year_of :: "int \<Rightarrow> int \<Rightarrow> int" where
  "year_of y n = (if days_before_year (y + 1) \<le> n then year_of (y + 1) n else y)"
  by pat_completeness auto
termination
  by (relation "measure (\<lambda>(y, n). nat (n - days_before_year y))") (auto simp: days_before_year_step split: if_splits)

declare year_of.simps [simp del]

fun month_of :: "int list \<Rightarrow> int \<Rightarrow> int \<Rightarrow> int \<times> int" where
  "month_of [] m d = (m, d)"
| "month_of (n # ns) m d = (if d < n then (m, d) else month_of ns (m + 1) (d - n))"

text \<open>Year, month and day of the day number \<open>n\<close>, counted from 0 at the first of January of year 1.\<close>

definition date_of_ordinal :: "int \<Rightarrow> int \<times> int \<times> int" where
  "date_of_ordinal n =
     (let y = year_of (n div 366 + 1) n; (m, d) = month_of (map (days_in_month y) [1..11]) 1 (n - days_before_year y)
      in (y, m, d + 1))"

definition utc_datetime :: "instant \<Rightarrow> datetime" where
  "utc_datetime i =
     (let (y, m, d) = date_of_ordinal (i div 86400000000); r = i mod 86400000000
      in \<lparr>dt_year = y, dt_month = m, dt_day = d, dt_hour = r div 3600000000, dt_minute = r div 60000000 mod 60,
          dt_second = r div 1000000 mod 60, dt_micro = r mod 1000000, dt_offset = Some 0\<rparr>)"

text \<open>The first instant after year 9999.\<close>

definition datetime_end :: instant where
  "datetime_end = days_before_year 10000 * 86400000000"

section \<open>Parsing\<close>

definition read_digits :: "nat \<Rightarrow> pystr \<Rightarrow> (int \<times> pystr) option" where
  "read_digits n s = map_option (\<lambda>(ds, r). (digits_value ds, r)) (take_digits n s)"

definition peek :: "nat \<Rightarrow> pystr \<Rightarrow> nat" where
  "peek after s = (case s of [] \<Rightarrow> after | c # _ \<Rightarrow> c)"

definition read_fraction :: "nat \<Rightarrow> pystr \<Rightarrow> (bool \<times> int) option" where
  "read_fraction after s =
     (let k = min 6 (length s) in
      if k = 0 then None
      else map_option (\<lambda>(v, r). (peek after (dropWhile is_digit r) \<noteq> 0, v * 10 ^ (6 - k))) (read_digits k s))"

text \<open>
  \<open>HH[:MM[:SS[.ffffff]]]\<close> with or without separators: up to \<open>n\<close> two-digit units and a
  fraction.  \<open>after\<close> is the character behind the section, 0 at the end of the text; the flag of
  the result says that something is left over.
\<close>

fun read_units :: "nat \<Rightarrow> bool option \<Rightarrow> nat \<Rightarrow> pystr \<Rightarrow> (bool \<times> int list \<times> int) option" where
  "read_units 0 sep after s = map_option (\<lambda>(t, us). (t, [], us)) (read_fraction after s)"
| "read_units (Suc n) sep after s =
     (case read_digits 2 s of
        None \<Rightarrow> None
      | Some (v, r) \<Rightarrow>
        let c = peek after r; sep' = (case sep of None \<Rightarrow> c = 58 | Some b \<Rightarrow> b) in
        if length r \<le> 1 then Some (c \<noteq> 0, [v], 0)
        else if sep' \<and> c = 58
        then map_option (\<lambda>(t, vs, us). (t, v # vs, us)) (read_units n (Some sep') after (drop 1 r))
        else if c = 46 \<or> c = 44 then map_option (\<lambda>(t, us). (t, [v], us)) (read_fraction after (drop 1 r))
        else if \<not> sep' then map_option (\<lambda>(t, vs, us). (t, v # vs, us)) (read_units n (Some sep') after r)
        else None)"

definition unit_at :: "nat \<Rightarrow> int list \<Rightarrow> int" where
  "unit_at i vs = (if i < length vs then vs ! i else 0)"

record iso_time =
  it_units :: "int list"
  it_micro :: int
  it_offset :: "int option"

definition is_zone_start :: "nat \<Rightarrow> bool" where
  "is_zone_start c \<longleftrightarrow> c = 43 \<or> c = 45 \<or> c = 90"

definition read_time :: "pystr \<Rightarrow> iso_time option" where
  "read_time s =
     (let clock = takeWhile (\<lambda>c. \<not> is_zone_start c) s; zone = dropWhile (\<lambda>c. \<not> is_zone_start c) s
      in case read_units 3 None (peek 0 zone) clock of
           None \<Rightarrow> None
         | Some (left, vs, us) \<Rightarrow>
           case zone of
             [] \<Rightarrow> if left then None else Some \<lparr>it_units = vs, it_micro = us, it_offset = None\<rparr>
           | c # z \<Rightarrow>
             if c = 90
             then if peek 0 z = 0 then Some \<lparr>it_units = vs, it_micro = us, it_offset = Some 0\<rparr> else None
             else case read_units 3 None 0 z of
                 None \<Rightarrow> None
               | Some (zleft, zs, zus) \<Rightarrow>
                 let seconds = unit_at 0 zs * 3600 + unit_at 1 zs * 60 + unit_at 2 zs in
                 if zleft then None
                 else Some \<lparr>it_units = vs, it_micro = us,
                        it_offset = Some (if seconds = 0 then 0
                          else (if c = 45 then - 1 else 1) * (seconds * 1000000 + zus))\<rparr>)"

text \<open>\<open>date.fromisocalendar\<close>.\<close>

definition week_date :: "int \<Rightarrow> int \<Rightarrow> int \<Rightarrow> (int \<times> int \<times> int) option" where
  "week_date y w d =
     (let first = days_before_year y + 1; weekday = (first + 6) mod 7;
          n = first - weekday + (if weekday > 3 then 7 else 0) + (w - 1) * 7 + d - 1 in
      if \<not> (1 \<le> y \<and> y \<le> 9999) \<or> \<not> (1 \<le> d \<and> d \<le> 7) \<or> n < 1
         \<or> \<not> (1 \<le> w \<and> w \<le> 52 \<or> w = 53 \<and> (first mod 7 = 4 \<or> first mod 7 = 3 \<and> is_leap y))
      then None else Some (date_of_ordinal (n - 1)))"

definition read_week :: "int \<Rightarrow> bool \<Rightarrow> pystr \<Rightarrow> (int \<times> int \<times> int) option" where
  "read_week y sep s =
     (case read_digits 2 s of
        None \<Rightarrow> None
      | Some (w, r) \<Rightarrow>
        if r = [] then week_date y w 1
        else if sep \<and> peek 0 r \<noteq> 45 then None
        else case read_digits 1 (if sep then drop 1 r else r) of
            None \<Rightarrow> None | Some (d, _) \<Rightarrow> week_date y w d)"

definition read_date :: "pystr \<Rightarrow> (int \<times> int \<times> int) option" where
  "read_date s =
     (case read_digits 4 s of
        None \<Rightarrow> None
      | Some (y, r) \<Rightarrow>
        let sep = (peek 0 r = 45); r = (if sep then drop 1 r else r) in
        if peek 0 r = 87 then read_week y sep (drop 1 r)
        else case read_digits 2 r of
            None \<Rightarrow> None
          | Some (m, r) \<Rightarrow>
            if sep \<and> peek 0 r \<noteq> 45 then None
            else case read_digits 2 (if sep then drop 1 r else r) of
                None \<Rightarrow> None
              | Some (d, r) \<Rightarrow> if r = [] then Some (y, m, d) else None)"

definition separator_position :: "pystr \<Rightarrow> nat option" where
  "separator_position s =
     (let n = length s in
      if n = 7 then Some 7
      else if s ! 4 = 45
      then if s ! 5 = 87
           then if n > 8 \<and> s ! 8 = 45
                then if n = 9 then None else if n > 10 \<and> is_digit (s ! 10) then Some 8 else Some 10
                else Some 8
           else Some 10
      else if s ! 4 = 87
      then let i = 7 + length (takeWhile is_digit (drop 7 s))
           in Some (if i < 9 then i else if i mod 2 = 0 then 7 else 8)
      else Some 8)"

definition is_surrogate :: "nat \<Rightarrow> bool" where
  "is_surrogate c \<longleftrightarrow> 0xD800 \<le> c \<and> c < 0xE000"

definition iso_datetime :: "pystr \<Rightarrow> datetime option" where
  "iso_datetime s =
     (if length s < 7 then None
      else case separator_position s of
          None \<Rightarrow> None
        | Some i \<Rightarrow>
          if list_ex is_surrogate (take i s @ drop (i + 1) s) then None
          else case (read_date (take i s),
                if length s \<le> i then Some \<lparr>it_units = [], it_micro = 0, it_offset = None\<rparr>
                else read_time (drop (i + 1) s)) of
              (Some (y, m, d), Some t) \<Rightarrow>
                let r = \<lparr>dt_year = y, dt_month = m, dt_day = d, dt_hour = unit_at 0 (it_units t),
                         dt_minute = unit_at 1 (it_units t), dt_second = unit_at 2 (it_units t),
                         dt_micro = it_micro t, dt_offset = it_offset t\<rparr>
                in if datetime_ok r then Some r else None
            | _ \<Rightarrow> None)"

definition fromisoformat :: "pystr \<Rightarrow> exc + datetime" where
  "fromisoformat s =
     (case iso_datetime s of
        None \<Rightarrow> raise (ValueError (str ''Invalid isoformat string: '' @ str_repr s))
      | Some t \<Rightarrow> ret t)"

text \<open>\<open>value.replace("Z", "+00:00")\<close> before parsing, as every caller writes it.\<close>

definition parse_utc_text :: "pystr \<Rightarrow> exc + datetime" where
  "parse_utc_text s = fromisoformat (replace_char 90 (str ''+00:00'') s)"

text \<open>\<open>a < b\<close> on datetimes: comparing a naive with an aware one is an error.\<close>

definition dt_less :: "datetime \<Rightarrow> datetime \<Rightarrow> exc + bool" where
  "dt_less a b =
     (if (dt_offset a = None) \<noteq> (dt_offset b = None)
      then raise (TypeError (str ''can't compare offset-naive and offset-aware datetimes''))
      else ret (dt_instant a < dt_instant b))"

section \<open>Properties\<close>

lemma year_of_bounds:
  "days_before_year y \<le> n \<Longrightarrow> days_before_year (year_of y n) \<le> n \<and> n < days_before_year (year_of y n + 1)"
proof (induction y n rule: year_of.induct)
  case (1 y n)
  then show ?case by (subst (1 2) year_of.simps) (auto simp: not_le)
qed

lemma days_before_year_mono: "x \<le> y \<Longrightarrow> days_before_year x \<le> days_before_year y"
proof (induction "nat (y - x)" arbitrary: y)
  case (Suc k)
  then have "days_before_year x \<le> days_before_year (y - 1)" by simp
  then show ?case using days_before_year_step [of "y - 1"] by (simp split: if_splits)
qed simp

lemma year_estimate:
  assumes "0 \<le> n"
  shows "days_before_year (n div 366 + 1) \<le> n"
proof -
  define q where "q = n div 366"
  have q: "0 \<le> q" "366 * q \<le> n" using assms by (auto simp: q_def)
  have "4 * (q div 4) \<le> q" "q div 400 \<le> q div 100"
    by (simp_all add: zdiv_mono2 q(1) mult.commute [of 4])
  then have "q div 4 \<le> q" using q(1) by linarith
  with \<open>q div 400 \<le> q div 100\<close> q show ?thesis by (simp add: days_before_year_def q_def [symmetric])
qed

lemma month_of_sum:
  assumes "0 \<le> d" "month_of ns m d = (m', d')"
  shows "\<exists>k. m' = m + int k \<and> k \<le> length ns \<and> d = sum_list (take k ns) + d' \<and> 0 \<le> d' \<and> (k < length ns \<longrightarrow> d' < ns ! k)"
  using assms
proof (induction ns arbitrary: m d)
  case (Cons n ns)
  show ?case
  proof (cases "d < n")
    case True
    with Cons.prems show ?thesis by (intro exI [of _ 0]) auto
  next
    case False
    then have "0 \<le> d - n" "month_of ns (m + 1) (d - n) = (m', d')" using Cons.prems by auto
    from Cons.IH [OF this] obtain k where "m' = m + 1 + int k" "k \<le> length ns" "d - n = sum_list (take k ns) + d'"
      "0 \<le> d'" "k < length ns \<longrightarrow> d' < ns ! k"
      by blast
    then show ?thesis by (intro exI [of _ "Suc k"]) auto
  qed
qed auto

lemma days_of_year: "sum_list (map (days_in_month y) [1..12]) = (if is_leap y then 366 else 365)"
  by (simp add: upto_rec1 days_in_month_def)

lemma take_upto: "int k \<le> n \<Longrightarrow> take k [1..n] = [1..int k]"
proof (induction k)
  case (Suc k)
  then have "take k [1..n] = [1..int k]" by simp
  moreover have "[1..n] ! k = int k + 1" using Suc.prems by (simp add: nth_upto)
  moreover have "k < length [1..n]" using Suc.prems by simp
  ultimately have "take (Suc k) [1..n] = [1..int k] @ [int k + 1]"
    by (simp only: take_Suc_conv_app_nth)
  then show ?case by (simp add: upto_rec2 [of 1 "1 + int k"] add.commute)
qed simp

lemma date_of_ordinal_sound:
  assumes "0 \<le> n" "n < days_before_year 10000" "date_of_ordinal n = (y, m, d)"
  shows "date_ok y m d" "days_before_year y + days_before_month y m + d - 1 = n"
proof -
  have y: "y = year_of (n div 366 + 1) n" and md: "month_of (map (days_in_month y) [1..11]) 1 (n - days_before_year y) = (m, d - 1)"
    using assms(3) by (auto simp: date_of_ordinal_def Let_def split: prod.splits)
  have b: "days_before_year y \<le> n" "n < days_before_year (y + 1)"
    using year_of_bounds [OF year_estimate [OF assms(1)]] y by auto
  have "days_before_year 1 = 0" by (simp add: days_before_year_def)
  have "1 \<le> y" "y \<le> 9999"
    using days_before_year_mono [of "y + 1" 1] days_before_year_mono [of 10000 y] b assms(1,2) \<open>days_before_year 1 = 0\<close>
    by linarith+
  obtain k where k: "m = 1 + int k" "k \<le> 11" "n - days_before_year y = sum_list (take k (map (days_in_month y) [1..11])) + (d - 1)"
      "0 \<le> d - 1" "k < 11 \<longrightarrow> d - 1 < map (days_in_month y) [1..11] ! k"
    using month_of_sum [OF _ md] b(1) by auto
  have s: "sum_list (take k (map (days_in_month y) [1..11])) = days_before_month y m"
    using k(1,2) by (simp add: take_map take_upto days_before_month_def)
  show "days_before_year y + days_before_month y m + d - 1 = n" using k(3) s by simp
  have "d \<le> days_in_month y m"
  proof (cases "k < 11")
    case True
    then show ?thesis using k(1,5) by (simp add: nth_upto)
  next
    case False
    then have m: "m = 12" using k(1,2) by simp
    have "days_before_month y 12 + days_in_month y 12 = (if is_leap y then 366 else 365)"
      using days_of_year [of y] by (simp add: days_before_month_def upto_rec2 [of 1 12])
    then show ?thesis using b(2) days_before_year_step [of y] k(3) s m by (simp split: if_splits)
  qed
  with k(1,2,4) \<open>1 \<le> y\<close> \<open>y \<le> 9999\<close> show "date_ok y m d" by (simp add: date_ok_def)
qed

lemma utc_datetime_instant:
  assumes "0 \<le> i" "i < datetime_end"
  shows "dt_instant (utc_datetime i) = i" "datetime_ok (utc_datetime i)"
proof -
  define n where "n = i div 86400000000"
  define r where "r = i mod 86400000000"
  have n: "0 \<le> n" "n < days_before_year 10000"
    using assms by (auto simp: n_def datetime_end_def div_less_iff_less_mult pos_imp_zdiv_nonneg_iff)
  have r: "0 \<le> r" "r < 86400000000" by (auto simp: r_def)
  have i: "i = n * 86400000000 + r" by (simp add: n_def r_def)
  obtain y m d where ymd: "date_of_ordinal n = (y, m, d)" by (cases "date_of_ordinal n") auto
  note sound = date_of_ordinal_sound [OF n ymd]
  have u: "utc_datetime i = \<lparr>dt_year = y, dt_month = m, dt_day = d, dt_hour = r div 3600000000,
      dt_minute = r div 60000000 mod 60, dt_second = r div 1000000 mod 60, dt_micro = r mod 1000000, dt_offset = Some 0\<rparr>"
    using ymd by (simp add: utc_datetime_def n_def r_def Let_def)
  have h: "r div 3600000000 = r div 60000000 div 60" "r div 60000000 = r div 1000000 div 60"
    by (simp_all add: zdiv_zmult2_eq [symmetric])
  have c: "((r div 3600000000 * 60 + r div 60000000 mod 60) * 60 + r div 1000000 mod 60) * 1000000 + r mod 1000000 = r"
    using div_mult_mod_eq [of "r div 60000000" 60] div_mult_mod_eq [of "r div 1000000" 60] div_mult_mod_eq [of r 1000000]
    by (simp only: h)
  have "dt_instant (utc_datetime i) = (days_before_year y + days_before_month y m + d - 1) * 86400000000
      + (((r div 3600000000 * 60 + r div 60000000 mod 60) * 60 + r div 1000000 mod 60) * 1000000 + r mod 1000000)"
    unfolding u by (simp add: dt_instant_def ring_distribs)
  then show "dt_instant (utc_datetime i) = i" unfolding sound(2) c i [symmetric] .
  show "datetime_ok (utc_datetime i)"
    using sound(1) r by (auto simp: datetime_ok_def u pos_imp_zdiv_nonneg_iff div_less_iff_less_mult)
qed

text \<open>Reading a timestamp in canonical form.\<close>

lemma digits_value_append_zeros: "digits_value (ds @ replicate n 48) = digits_value ds * 10 ^ n"
proof (induction n)
  case (Suc n)
  have "digits_value (ds @ replicate (Suc n) 48) = digits_value ((ds @ replicate n 48) @ [48])"
    by (simp add: replicate_append_same)
  then show ?case using Suc by (simp only: digits_value_append_digit) simp
qed simp

lemma dropWhile_all: "list_all p xs \<Longrightarrow> dropWhile p xs = []"
  by (induction xs) auto

lemma span_until:
  "list_all p xs \<Longrightarrow> \<not> p c \<Longrightarrow> takeWhile p (xs @ c # r) = xs \<and> dropWhile p (xs @ c # r) = c # r"
  by (induction xs) auto

lemma read_digits_append:
  "length ds = n \<Longrightarrow> list_all is_digit ds \<Longrightarrow> read_digits n (ds @ r) = Some (digits_value ds, r)"
  by (simp add: read_digits_def take_digits_append)

lemma read_fraction_digits:
  assumes "f \<noteq> []" "list_all is_digit f" "after \<noteq> 0"
  shows "read_fraction after f = Some (True, digits_value (take 6 (f @ replicate 6 48)))"
proof -
  let ?k = "min 6 (length f)"
  have "read_digits ?k (take ?k f @ drop ?k f) = Some (digits_value (take ?k f), drop ?k f)"
    using assms(2) by (intro read_digits_append) (auto simp: list_all_iff dest: in_set_takeD)
  moreover have "peek after (dropWhile is_digit (drop ?k f)) = after"
  proof -
    have "list_all is_digit (drop ?k f)" using assms(2) by (auto simp: list_all_iff dest: in_set_dropD)
    then show ?thesis by (simp only: dropWhile_all peek_def list.case)
  qed
  moreover have "digits_value (take ?k f) * 10 ^ (6 - ?k) = digits_value (take 6 (f @ replicate 6 48))"
    by (cases "length f \<le> 6") (auto simp: digits_value_append_zeros [symmetric] min_def)
  ultimately show ?thesis using assms(1,3) by (simp add: read_fraction_def Let_def)
qed

lemma read_units_clock:
  assumes "list_all (\<lambda>ds. length ds = 2 \<and> list_all is_digit ds) [h, m, s]" "after \<noteq> 0"
    and "f \<noteq> Some []" "list_all is_digit (opt_str f)"
  shows "read_units 3 None after (h @ [58] @ m @ [58] @ s @ (case f of None \<Rightarrow> [] | Some g \<Rightarrow> 46 # g)) =
    Some (True, [digits_value h, digits_value m, digits_value s], digits_value (take 6 (opt_str f @ replicate 6 48)))"
proof -
  have z: "digits_value (replicate 6 48) = 0" using digits_value_append_zeros [of "[]" 6] by (simp add: digits_value_def)
  have d: "read_digits 2 (h @ r) = Some (digits_value h, r)" "read_digits 2 (m @ r) = Some (digits_value m, r)"
    "read_digits 2 (s @ r) = Some (digits_value s, r)" "read_digits 2 s = Some (digits_value s, [])" for r
    using assms(1) read_digits_append [of s 2 "[]"] by (simp_all add: read_digits_append)
  show ?thesis
    using assms d z read_fraction_digits [of "opt_str f" after]
    by (cases f) (simp_all add: numeral_3_eq_3 peek_def opt_str_def Let_def)
qed

lemma read_units_zone:
  assumes "list_all (\<lambda>ds. length ds = 2 \<and> list_all is_digit ds) [h, m]"
  shows "read_units 3 None 0 (h @ [58] @ m) = Some (False, [digits_value h, digits_value m], 0)"
proof -
  have "read_digits 2 (h @ r) = Some (digits_value h, r)" "read_digits 2 m = Some (digits_value m, [])" for r
    using assms read_digits_append [of m 2 "[]"] by (simp_all add: read_digits_append)
  then show ?thesis using assms by (auto simp: numeral_3_eq_3 peek_def Let_def)
qed

lemma is_offset_cases:
  assumes "is_offset z" "z \<noteq> [90]"
  obtains c h m where "z = c # h @ [58] @ m" "c = 43 \<or> c = 45" "length h = 2" "length m = 2"
    "list_all is_digit h" "list_all is_digit m" "offset_hours z = digits_value h" "offset_minutes z = digits_value m"
proof -
  obtain c a b e d f where z: "z = [c, a, b, e, d, f]"
    using assms by (auto simp: is_offset_def length_Suc_conv eval_nat_numeral)
  show thesis
    by (rule that [of c "[a, b]" "[d, f]"]) (use assms z in \<open>auto simp: is_offset_def offset_hours_def offset_minutes_def\<close>)
qed

lemma read_time_canonical:
  assumes "list_all (\<lambda>ds. length ds = 2 \<and> list_all is_digit ds) [h, m, s]"
    and "f \<noteq> Some []" "list_all is_digit (opt_str f)" "is_offset z" "z \<noteq> [90]"
  shows "read_time (h @ [58] @ m @ [58] @ s @ (case f of None \<Rightarrow> [] | Some g \<Rightarrow> 46 # g) @ z) =
    Some \<lparr>it_units = [digits_value h, digits_value m, digits_value s],
      it_micro = digits_value (take 6 (opt_str f @ replicate 6 48)),
      it_offset = Some ((if hd z = 45 then - 1 else 1) * (offset_hours z * 3600 + offset_minutes z * 60) * 1000000)\<rparr>"
  using assms(4,5)
proof (rule is_offset_cases)
  fix c zh zm
  assume z: "z = c # zh @ [58] @ zm" and c: "c = 43 \<or> c = 45" and l: "length zh = 2" "length zm = 2"
    and dg: "list_all is_digit zh" "list_all is_digit zm"
    and v: "offset_hours z = digits_value zh" "offset_minutes z = digits_value zm"
  define t where "t = h @ [58] @ m @ [58] @ s @ (case f of None \<Rightarrow> [] | Some g \<Rightarrow> 46 # g)"
  have n: "list_all (\<lambda>c. \<not> is_zone_start c) t"
  proof -
    have d: "\<not> is_zone_start d" if "is_digit d" for d using that by (auto simp: is_zone_start_def is_digit_def)
    have "\<not> is_zone_start 58" "\<not> is_zone_start 46" by (simp_all add: is_zone_start_def)
    then show ?thesis
      using assms(1,3) d by (cases f) (auto simp: t_def list_all_iff opt_str_def)
  qed
  have zc: "\<not> \<not> is_zone_start c" using c by (auto simp: is_zone_start_def)
  have "takeWhile (\<lambda>c. \<not> is_zone_start c) (t @ z) = t" "dropWhile (\<lambda>c. \<not> is_zone_start c) (t @ z) = z"
    using span_until [of "\<lambda>c. \<not> is_zone_start c" t c, OF n zc] by (simp_all add: z)
  moreover have "read_units 3 None c t = Some (True, [digits_value h, digits_value m, digits_value s],
      digits_value (take 6 (opt_str f @ replicate 6 48)))"
    unfolding t_def using c by (intro read_units_clock assms(1-3)) auto
  moreover have "read_units 3 None 0 (zh @ [58] @ zm) = Some (False, [digits_value zh, digits_value zm], 0)"
    using l dg by (intro read_units_zone) simp
  moreover have "digits_value zh * 3600 + digits_value zm * 60 = 0 \<Longrightarrow>
      (if hd z = 45 then - 1 else 1) * (offset_hours z * 3600 + offset_minutes z * 60) * 1000000 = 0"
    by (simp add: v)
  ultimately have "read_time (t @ z) = Some \<lparr>it_units = [digits_value h, digits_value m, digits_value s],
      it_micro = digits_value (take 6 (opt_str f @ replicate 6 48)),
      it_offset = Some ((if hd z = 45 then - 1 else 1) * (offset_hours z * 3600 + offset_minutes z * 60) * 1000000)\<rparr>"
    using c v by (cases "digits_value zh * 3600 + digits_value zm * 60 = 0")
      (auto simp: read_time_def z peek_def unit_at_def Let_def)
  then show ?thesis by (simp add: t_def)
qed

lemma read_date_canonical:
  assumes "length y = 4" "length m = 2" "length d = 2" "list_all (list_all is_digit) [y, m, d]"
  shows "read_date (y @ [45] @ m @ [45] @ d) = Some (digits_value y, digits_value m, digits_value d)"
proof -
  have "m ! 0 \<noteq> 87" using assms(2,4) by (cases m) (auto simp: is_digit_def)
  then have "peek 0 (m @ r) \<noteq> 87" for r using assms(2) by (cases m) (auto simp: peek_def)
  moreover have "read_digits 4 (y @ r) = Some (digits_value y, r)" "read_digits 2 (m @ r) = Some (digits_value m, r)"
    "read_digits 2 d = Some (digits_value d, [])" for r
    using assms read_digits_append [of d 2 "[]"] by (simp_all add: read_digits_append)
  ultimately show ?thesis by (simp add: read_date_def Let_def peek_def [of 0 "45 # _"])
qed

lemma separator_canonical:
  assumes "length y = 4" "length m = 2" "length d = 2" "list_all is_digit m" "t \<noteq> []"
  shows "separator_position (y @ [45] @ m @ [45] @ d @ [84] @ t) = Some 10"
proof -
  obtain a b c e where y: "y = [a, b, c, e]" using assms(1) by (auto simp: length_Suc_conv eval_nat_numeral)
  obtain f g where m: "m = [f, g]" using assms(2) by (auto simp: length_Suc_conv eval_nat_numeral)
  obtain h i where d: "d = [h, i]" using assms(3) by (auto simp: length_Suc_conv eval_nat_numeral)
  have "f \<noteq> 87" using assms(4) m by (simp add: is_digit_def)
  then show ?thesis by (simp add: separator_position_def y m d)
qed

lemma render_parts_ascii:
  assumes "parts_ok p"
  shows "list_all (\<lambda>c. c < 128) (render_parts p)"
proof -
  have d: "c < 128" if "is_digit c" for c using that by (simp add: is_digit_def)
  have "list_all (\<lambda>c. c < 128) (tp_offset p)"
  proof (cases "tp_offset p = [90]")
    case False
    have "is_offset (tp_offset p)" using assms by (simp add: parts_ok_def)
    then show ?thesis using False by (rule is_offset_cases) (auto simp: list_all_iff d)
  qed simp
  then show ?thesis
    using assms d by (auto simp: render_parts_def parts_ok_def list_all_iff opt_str_def split: option.splits)
qed

lemma iso_datetime_split:
  assumes "separator_position s = Some i" "i < length s" "6 < i" "\<not> list_ex is_surrogate (take i s @ drop (i + 1) s)"
    and "read_date (take i s) = Some (y, m, d)" "read_time (drop (i + 1) s) = Some t"
    and "dt_year r = y" "dt_month r = m" "dt_day r = d" "dt_hour r = unit_at 0 (it_units t)"
    and "dt_minute r = unit_at 1 (it_units t)" "dt_second r = unit_at 2 (it_units t)"
    and "dt_micro r = it_micro t" "dt_offset r = it_offset t" "datetime_ok r"
  shows "iso_datetime s = Some r"
  using assms by (cases r) (simp add: iso_datetime_def Let_def)

text \<open>Every canonical timestamp that a \<open>datetime\<close> can hold is read as its fields, with the
  fraction cut at microseconds.\<close>

lemma fromisoformat_canonical:
  assumes "parts_ok p" "length (tp_hour p) = 2" "tp_offset p \<noteq> [90]" "datetime_ok (datetime_of_parts p)"
  shows "fromisoformat (render_parts p) = Inr (datetime_of_parts p)"
proof -
  define date where "date = tp_year p @ [45] @ tp_month p @ [45] @ tp_day p"
  define time where "time = tp_hour p @ [58] @ tp_minute p @ [58] @ tp_second p
    @ (case tp_fraction p of None \<Rightarrow> [] | Some g \<Rightarrow> 46 # g) @ tp_offset p"
  have r: "render_parts p = date @ [84] @ time" by (simp add: render_parts_def date_def time_def)
  have l: "length date = 10" using assms(1) by (simp add: date_def parts_ok_def)
  have tne: "time \<noteq> []" by (simp add: time_def)
  have cut: "take 10 (render_parts p) = date" "drop (10 + 1) (render_parts p) = time" "10 < length (render_parts p)"
    using l tne by (simp_all add: r)
  have sep: "separator_position (render_parts p) = Some 10"
    unfolding r date_def append_assoc using assms(1) tne by (intro separator_canonical) (auto simp: parts_ok_def)
  have date: "read_date (take 10 (render_parts p)) = Some (digits_value (tp_year p), digits_value (tp_month p), digits_value (tp_day p))"
    unfolding cut date_def using assms(1) by (intro read_date_canonical) (auto simp: parts_ok_def)
  have time: "read_time (drop (10 + 1) (render_parts p)) =
    Some \<lparr>it_units = [digits_value (tp_hour p), digits_value (tp_minute p), digits_value (tp_second p)],
      it_micro = digits_value (take 6 (opt_str (tp_fraction p) @ replicate 6 48)),
      it_offset = Some ((if hd (tp_offset p) = 45 then - 1 else 1)
        * (offset_hours (tp_offset p) * 3600 + offset_minutes (tp_offset p) * 60) * 1000000)\<rparr>"
    unfolding cut time_def using assms(1-3) by (intro read_time_canonical) (auto simp: parts_ok_def)
  have surrogates: "\<not> list_ex is_surrogate (take 10 (render_parts p) @ drop (10 + 1) (render_parts p))"
    using render_parts_ascii [OF assms(1)]
    by (auto simp: list_all_iff list_ex_iff is_surrogate_def dest!: in_set_takeD in_set_dropD)
  have "iso_datetime (render_parts p) = Some (datetime_of_parts p)"
    by (rule iso_datetime_split [OF sep cut(3) _ surrogates date time])
      (use assms(3,4) in \<open>simp_all add: datetime_of_parts_def unit_at_def split del: if_split\<close>)
  then show ?thesis by (simp add: fromisoformat_def)
qed

lemma replace_char_render:
  assumes "parts_ok p"
  shows "replace_char 90 (str ''+00:00'') (render_parts p) =
    render_parts (if tp_offset p = [90] then p\<lparr>tp_offset := str ''+00:00''\<rparr> else p)"
proof -
  define t where "t = render_parts (p\<lparr>tp_offset := []\<rparr>)"
  have r: "render_parts q = t @ tp_offset q" if "q = p \<or> q = p\<lparr>tp_offset := z\<rparr>" for q z
    using that by (auto simp: t_def render_parts_def split: option.splits)
  have d: "90 \<notin> set ds" if "list_all is_digit ds" for ds using that by (auto simp: list_all_iff is_digit_def)
  have "90 \<notin> set t"
    using assms by (auto simp: t_def render_parts_def parts_ok_def opt_str_def d split: option.splits)
  then have t: "replace_char 90 w t = t" for w by (rule replace_char_absent)
  show ?thesis
  proof (cases "tp_offset p = [90]")
    case True
    then show ?thesis
      using r [of p] r [of "p\<lparr>tp_offset := str ''+00:00''\<rparr>" "str ''+00:00''"] t
      by (simp add: replace_char_append) (simp add: replace_char_def)
  next
    case False
    have "is_offset (tp_offset p)" using assms by (simp add: parts_ok_def)
    then have "90 \<notin> set (tp_offset p)" using False by (rule is_offset_cases) (auto simp: d)
    then show ?thesis using False r [of p] t by (simp add: replace_char_append)
  qed
qed

lemma parse_utc_canonical:
  assumes "parts_ok p" "length (tp_hour p) = 2" "datetime_ok (datetime_of_parts p)"
  shows "parse_utc_text (render_parts p) = Inr (datetime_of_parts p)"
proof -
  let ?q = "if tp_offset p = [90] then p\<lparr>tp_offset := str ''+00:00''\<rparr> else p"
  have o: "is_offset (str ''+00:00'')" "str ''+00:00'' \<noteq> [90]" by (simp_all add: is_offset_def str_def is_digit_def)
  have d: "datetime_of_parts ?q = datetime_of_parts p"
    by (simp add: datetime_of_parts_def offset_hours_def offset_minutes_def str_def digits_value_def)
  have "fromisoformat (render_parts ?q) = Inr (datetime_of_parts ?q)"
    using assms d o by (intro fromisoformat_canonical) (auto simp: parts_ok_def)
  then show ?thesis using replace_char_render [OF assms(1)] d by (simp add: parse_utc_text_def)
qed

text \<open>An aware datetime with a whole-minute offset is written and read back.\<close>

lemma parse_utc_formatted:
  assumes "datetime_ok t" "dt_offset t = Some z" "minute_offset z"
  shows "\<exists>w. nano_from_datetime t = Inr w \<and> nano_from_wire w = Inr w \<and> parse_utc_text w = Inr t"
proof -
  define p where "p = canonical_parts (datetime_parts t z)"
  obtain w where w: "nano_from_datetime t = Inr w" using datetime_roundtrip [OF assms] by blast
  have ok: "parts_ok (datetime_parts t z)" by (rule datetime_parts_ok [OF assms(1,3)])
  have "w = render_parts p"
    using w match_render [OF ok] assms
    by (auto simp: nano_from_datetime_def replace_zero_offset_render nano_from_wire_def ebind_eq_Inr_iff
        go_time_parts_eq_Inr_iff p_def)
  moreover have "nano_from_wire w = Inr w"
    using w nano_from_wire_canonical assms(2) by (simp add: nano_from_datetime_def)
  moreover have "parse_utc_text (render_parts p) = Inr (datetime_of_parts p)"
  proof (rule parse_utc_canonical)
    show "parts_ok p" unfolding p_def by (rule canonical_parts_ok [OF ok])
    show "length (tp_hour p) = 2"
      using ok by (simp add: p_def canonical_parts_def Let_def pad_hour_two parts_ok_def)
    show "datetime_ok (datetime_of_parts p)" using canonical_datetime [OF assms] assms(1) by (simp add: p_def)
  qed
  ultimately show ?thesis using w canonical_datetime [OF assms] by (simp add: p_def)
qed

end
