(* ===== verification/Connections.thy ===== *)
theory Connections
  imports ObjectStorage IsoDatetime
begin

text \<open>
  \<^verbatim>\<open>projectconfig/connections.py\<close>: the head record of a connection, the immutable
  credential envelopes it refers to, and \<open>ConnectionStore\<close>.  A head that \<open>read_record\<close> returns
  has passed \<open>check_record\<close>; the lemmas show that keys of different connections never share a
  path, that a replaced credential is the one read back, and that a replacement moves the
  revision and the fence by one.
\<close>

definition CONNECTION_SCHEMA_VERSION :: pystr where
  "CONNECTION_SCHEMA_VERSION = str ''connectors.dex.dev/project-connection/v1alpha2''"

section \<open>Connection keys\<close>

record connection_key =
  ck_connector_id :: pystr
  ck_connection_name :: pystr

definition key_to_wire :: "connection_key \<Rightarrow> jobj" where
  "key_to_wire k =
     [(str ''connectorId'', JStr (ck_connector_id k)), (str ''connectionName'', JStr (ck_connection_name k))]"

text \<open>\<open>base64.urlsafe_b64encode\<close> with the padding stripped.\<close>

fun base64_units :: "bytes \<Rightarrow> nat list" where
  "base64_units [] = []"
| "base64_units [a] = [a div 4, a mod 4 * 16]"
| "base64_units [a, b] = [a div 4, a mod 4 * 16 + b div 16, b mod 16 * 4]"
| "base64_units (a # b # c # r) =
     [a div 4, a mod 4 * 16 + b div 16, b mod 16 * 4 + c div 64, c mod 64] @ base64_units r"

definition base64_char :: "nat \<Rightarrow> nat" where
  "base64_char v =
     (if v < 26 then 65 + v else if v < 52 then 71 + v else if v < 62 then v - 4 else if v = 62 then 45 else 95)"

definition base64_text :: "bytes \<Rightarrow> pystr" where
  "base64_text b = map base64_char (base64_units b)"

definition key_path :: "connection_key \<Rightarrow> scope \<Rightarrow> exc + pystr" where
  "key_path k s =
     (let name = ck_connection_name k in
      if \<not> is_connector_id (ck_connector_id k) \<or> name = [] \<or> strip name \<noteq> name \<or> length name > 256
         \<or> \<not> list_all (\<lambda>c. c \<notin> {0, 13, 10}) name
      then raise (ValueError (str ''invalid project connection key''))
      else case utf8_encode name of
          None \<Rightarrow> raise UnicodeError
        | Some b \<Rightarrow> ebind (scope_prefix s) (\<lambda>p.
            ret (p @ str ''/connections/'' @ ck_connector_id k @ str ''/'' @ base64_text b)))"

section \<open>Wire forms\<close>

record credential_material =
  cm_credentials :: jobj
  cm_expires_at :: "time_value option"
  cm_auth_method :: pystr

definition material_repr :: "credential_material \<Rightarrow> pystr" where
  "material_repr m = str ''CredentialMaterial([REDACTED])''"

definition material_reduce :: "credential_material \<Rightarrow> exc + unit" where
  "material_reduce m = raise (TypeError (str ''credential material cannot be serialized''))"

record connection =
  cn_key :: connection_key
  cn_scope :: scope
  cn_revision :: int
  cn_fence :: int
  cn_status :: pystr
  cn_expires_at :: "datetime option"
  cn_auth_method :: pystr

definition expiry_member :: "time_value option \<Rightarrow> exc + jobj" where
  "expiry_member t =
     (case t of None \<Rightarrow> ret []
      | Some v \<Rightarrow> ebind (format_rfc3339_nano v) (\<lambda>w. ret [(str ''expiresAt'', JStr w)]))"

definition credential_envelope_wire ::
  "scope \<Rightarrow> connection_key \<Rightarrow> int \<Rightarrow> jobj \<Rightarrow> time_value option \<Rightarrow> pystr \<Rightarrow> pystr \<Rightarrow> exc + jobj" where
  "credential_envelope_wire s k fence credentials expires_at auth_method attempt_id =
     ebind (scope_to_wire s) (\<lambda>sw.
     ebind (expiry_member expires_at) (\<lambda>expiry.
       ret ([(str ''schemaVersion'', JStr CONNECTION_SCHEMA_VERSION), (str ''scope'', JObj sw),
             (str ''connection'', JObj (key_to_wire k)), (str ''fence'', JInt fence)]
         @ (if attempt_id \<noteq> [] then [(str ''attemptId'', JStr attempt_id)] else [])
         @ [(str ''credentials'', JObj credentials)] @ expiry @ [(str ''authMethod'', JStr auth_method)])))"

text \<open>\<open>d[name]\<close>\<close>

definition item_of :: "jobj \<Rightarrow> string \<Rightarrow> exc + json" where
  "item_of d name = (case dict_get d (str name) of None \<Rightarrow> raise KeyError | Some v \<Rightarrow> ret v)"

definition reference_wire :: "jobj \<Rightarrow> exc + jobj" where
  "reference_wire r =
     ebind (item_of r ''key'') (\<lambda>k. ebind (item_of r ''version'') (\<lambda>v. ebind (item_of r ''digest'') (\<lambda>d.
       ret [(str ''key'', k), (str ''version'', v), (str ''digest'', d)])))"

definition mutation_wire :: "jobj \<Rightarrow> exc + jobj" where
  "mutation_wire m =
     ebind (item_of m ''kind'') (\<lambda>kind. ebind (item_of m ''invocationId'') (\<lambda>invocation.
     ebind (item_of m ''id'') (\<lambda>id. ebind (item_of m ''fence'') (\<lambda>fence.
     ebind (item_of m ''baseRevision'') (\<lambda>base. ebind (item_of m ''deadline'') (\<lambda>deadline.
     ebind (nano_from_wire (py_str deadline)) (\<lambda>t. ebind (item_of m ''resultKey'') (\<lambda>result_key.
       ret [(str ''kind'', kind), (str ''invocationId'', invocation), (str ''id'', id), (str ''fence'', fence),
            (str ''baseRevision'', base), (str ''deadline'', JStr t), (str ''resultKey'', result_key)]))))))))"

definition connection_record_wire ::
  "scope \<Rightarrow> connection_key \<Rightarrow> int \<Rightarrow> int \<Rightarrow> pystr \<Rightarrow> time_value option \<Rightarrow> json \<Rightarrow> jobj option
     \<Rightarrow> jobj option \<Rightarrow> exc + jobj" where
  "connection_record_wire s k revision fence status expires_at auth_method credential_reference mutation =
     ebind (scope_to_wire s) (\<lambda>sw.
     ebind (expiry_member expires_at) (\<lambda>expiry.
     ebind (case credential_reference of None \<Rightarrow> ret []
       | Some r \<Rightarrow> ebind (reference_wire r) (\<lambda>w. ret [(str ''credential'', JObj w)])) (\<lambda>reference.
     ebind (case mutation of None \<Rightarrow> ret []
       | Some m \<Rightarrow> ebind (mutation_wire m) (\<lambda>w. ret [(str ''mutation'', JObj w)])) (\<lambda>mutation_member.
       ret ([(str ''schemaVersion'', JStr CONNECTION_SCHEMA_VERSION), (str ''connection'', JObj (key_to_wire k)),
             (str ''scope'', JObj sw), (str ''revision'', JInt revision), (str ''fence'', JInt fence),
             (str ''status'', JStr status)]
         @ expiry @ [(str ''authMethod'', auth_method)] @ reference @ mutation_member)))))"

section \<open>Reading heads\<close>

definition parse_time :: "json \<Rightarrow> exc + datetime option" where
  "parse_time value =
     (case value of
        JNull \<Rightarrow> ret None
      | JStr s \<Rightarrow> ebind (parse_utc_text s) (\<lambda>t. ret (Some t))
      | _ \<Rightarrow> raise (ValueError (str ''invalid credential expiry'')))"

definition connection_of :: "scope \<Rightarrow> connection_key \<Rightarrow> jobj \<Rightarrow> exc + connection" where
  "connection_of s k d =
     ebind (item_of d ''revision'') (\<lambda>revision. ebind (item_of d ''fence'') (\<lambda>fence.
     ebind (item_of d ''status'') (\<lambda>status.
     ebind (parse_time (get_or d (str ''expiresAt'') JNull)) (\<lambda>expires_at.
       ret \<lparr>cn_key = k, cn_scope = s, cn_revision = int_value revision, cn_fence = int_value fence,
            cn_status = py_str status, cn_expires_at = expires_at, cn_auth_method = text_member d ''authMethod''\<rparr>))))"

definition record_fields :: "string list" where
  "record_fields = [''schemaVersion'', ''connection'', ''scope'', ''revision'', ''fence'', ''status'',
     ''expiresAt'', ''authMethod'', ''credential'', ''mutation'']"

definition statuses :: "string list" where
  "statuses = [''READY'', ''REFRESHING'', ''AUTHORIZING'', ''REAUTHORIZATION_REQUIRED'', ''REVOKED'']"

definition positive_int :: "json \<Rightarrow> bool" where
  "positive_int j \<longleftrightarrow> is_int j \<and> 0 < int_value j"

definition status_is :: "jobj \<Rightarrow> string \<Rightarrow> bool" where
  "status_is d name \<longleftrightarrow> get_or d (str ''status'') JNull = JStr (str name)"

text \<open>The status is looked up in a set, so an unhashable value is a \<open>TypeError\<close>.\<close>

definition check_identity :: "scope \<Rightarrow> connection_key \<Rightarrow> obj \<Rightarrow> jobj \<Rightarrow> exc + unit" where
  "check_identity s k stored d =
     ebind (scope_to_wire s) (\<lambda>sw.
       let invalid = ValueError (str ''project connection identity is invalid'');
           status = get_or d (str ''status'') JNull in
       if ob_version stored = [] \<or> ob_etag stored = []
          \<or> \<not> set (dict_keys d) \<subseteq> set (map str record_fields)
          \<or> \<not> json_eq (get_or d (str ''schemaVersion'') JNull) (JStr CONNECTION_SCHEMA_VERSION)
          \<or> \<not> json_eq (get_or d (str ''scope'') JNull) (JObj sw)
          \<or> \<not> json_eq (get_or d (str ''connection'') JNull) (JObj (key_to_wire k))
          \<or> \<not> positive_int (get_or d (str ''revision'') JNull) \<or> \<not> positive_int (get_or d (str ''fence'') JNull)
       then raise invalid
       else case status of
           JArr _ \<Rightarrow> raise (TypeError (str ''unhashable type''))
         | JObj _ \<Rightarrow> raise (TypeError (str ''unhashable type''))
         | _ \<Rightarrow> ensure (list_ex (status_is d) statuses) invalid)"

definition check_reference :: "pystr \<Rightarrow> jobj \<Rightarrow> exc + unit" where
  "check_reference path d =
     (case get_or d (str ''credential'') JNull of
        JNull \<Rightarrow> ensure (\<not> (status_is d ''READY'' \<or> status_is d ''REFRESHING''))
          (ValueError (str ''project credential reference is absent''))
      | reference \<Rightarrow>
        ebind (require_object reference ''credential reference'') (\<lambda>r.
          ensure (prefix (path @ str ''/'') (text_member r ''key'')
              \<and> is_str (get_or r (str ''version'') JNull) \<and> get_or r (str ''version'') JNull \<noteq> JStr []
              \<and> is_str (get_or r (str ''digest'') JNull) \<and> is_hex_text 64 (str_value (get_or r (str ''digest'') JNull)))
            (ValueError (str ''project credential reference is invalid''))))"

definition is_attempt_id :: "pystr \<Rightarrow> bool" where
  "is_attempt_id t \<longleftrightarrow> 1 \<le> length t \<and> length t \<le> 128 \<and> list_all (\<lambda>c. is_alnum c \<or> c = 95 \<or> c = 45) t"

definition check_admission :: "pystr \<Rightarrow> jobj \<Rightarrow> exc + unit" where
  "check_admission path d =
     (let mutation = get_or d (str ''mutation'') JNull in
      if status_is d ''REFRESHING'' \<or> status_is d ''AUTHORIZING''
      then case mutation of
          JObj m \<Rightarrow>
            (let attempt = get_or m (str ''id'') JNull; invalid = ValueError (str ''credential exchange admission is invalid'') in
             if \<not> is_str attempt \<or> \<not> is_attempt_id (str_value attempt)
                \<or> \<not> json_eq (get_or m (str ''kind'') JNull) (get_or d (str ''status'') JNull)
                \<or> \<not> is_str (get_or m (str ''invocationId'') JNull) \<or> get_or m (str ''invocationId'') JNull = JStr []
                \<or> \<not> json_eq (get_or m (str ''fence'') JNull) (get_or d (str ''fence'') JNull)
                \<or> \<not> json_eq (get_or m (str ''baseRevision'') JNull) (JInt (int_value (get_or d (str ''revision'') JNull) - 1))
                \<or> \<not> json_eq (get_or m (str ''resultKey'') JNull) (JStr (path @ str ''/exchange-results/'' @ str_value attempt))
             then raise invalid
             else ebind (parse_time (get_or m (str ''deadline'') JNull)) (\<lambda>t. ensure (t \<noteq> None) invalid))
        | _ \<Rightarrow> raise (ValueError (str ''credential exchange admission is absent''))
      else ensure (mutation = JNull) (ValueError (str ''inactive credential exchange admission is invalid'')))"

text \<open>A revoked head holds neither a credential nor an admission.\<close>

definition check_revoked :: "jobj \<Rightarrow> exc + unit" where
  "check_revoked d =
     ensure (\<not> (status_is d ''REVOKED'' \<and> (get_or d (str ''credential'') JNull \<noteq> JNull
         \<or> get_or d (str ''mutation'') JNull \<noteq> JNull)))
       (ValueError (str ''revoked connection retains active material''))"

definition check_record :: "scope \<Rightarrow> connection_key \<Rightarrow> pystr \<Rightarrow> obj \<Rightarrow> jobj \<Rightarrow> exc + unit" where
  "check_record s k path stored d =
     ethen (check_identity s k stored d) (ethen (check_revoked d) (ethen (check_reference path d) (check_admission path d)))"

section \<open>The store\<close>

text \<open>A shared connection as its clients see it; the broker that answers is modelled elsewhere.\<close>

record 'w shared_connection =
  sh_resolve :: "pystr \<Rightarrow> (jobj, 'w) action"
  sh_resolve_after_rejection :: "pystr \<Rightarrow> (jobj, 'w) action"

record 'w connection_store =
  cst_objects :: "'w object_store"
  cst_scope :: scope
  cst_shared :: "(connection_key, 'w shared_connection) dict"

definition shared_connection_of :: "'w connection_store \<Rightarrow> connection_key \<Rightarrow> 'w shared_connection option" where
  "shared_connection_of st k = dict_get (cst_shared st) k"

definition head_key :: "pystr \<Rightarrow> pystr" where
  "head_key path = path @ str ''/head''"

definition read_record :: "'w connection_store \<Rightarrow> connection_key \<Rightarrow> (jobj \<times> obj, 'w) action" where
  "read_record st k =
     sbind (slift (key_path k (cst_scope st))) (\<lambda>path.
     sbind (read_object (cst_objects st) (head_key path) []) (\<lambda>stored.
     slift (ebind (loads_bytes (ob_contents stored)) (\<lambda>j. ebind (require_object j ''connection head'') (\<lambda>d.
       ethen (check_record (cst_scope st) k path stored d) (ret (d, stored)))))))"

definition read_connection :: "'w connection_store \<Rightarrow> connection_key \<Rightarrow> (connection, 'w) action" where
  "read_connection st k =
     sbind (read_record st k) (\<lambda>(d, _). slift (connection_of (cst_scope st) k d))"

text \<open>The envelope must name the scope, the connection, the method and the expiry of the head.\<close>

definition check_envelope :: "scope \<Rightarrow> connection_key \<Rightarrow> json \<Rightarrow> jobj \<Rightarrow> jobj \<Rightarrow> exc + unit" where
  "check_envelope s k auth_method d envelope =
     ebind (scope_to_wire s) (\<lambda>sw.
       ensure (json_eq (get_or envelope (str ''schemaVersion'') JNull) (JStr CONNECTION_SCHEMA_VERSION)
           \<and> json_eq (get_or envelope (str ''scope'') JNull) (JObj sw)
           \<and> json_eq (get_or envelope (str ''connection'') JNull) (JObj (key_to_wire k))
           \<and> json_eq (get_or envelope (str ''authMethod'') JNull) auth_method
           \<and> json_eq (get_or envelope (str ''expiresAt'') JNull) (get_or d (str ''expiresAt'') JNull))
         (ValueError (str ''project credential identity differs'')))"

text \<open>Reading the envelope a head refers to, common to the store and the providers.\<close>

definition read_envelope ::
  "(bytes \<Rightarrow> pystr) \<Rightarrow> 'w object_store \<Rightarrow> jobj \<Rightarrow> (jobj, 'w) action" where
  "read_envelope sha256 objects d =
     sbind (slift (require_object (get_or d (str ''credential'') JNull) ''credential reference'')) (\<lambda>reference.
     sbind (slift (ebind (item_of reference ''key'') (\<lambda>k. ebind (item_of reference ''version'') (\<lambda>v.
       ret (py_str k, py_str v))))) (\<lambda>(key, version).
     sbind (read_object objects key version) (\<lambda>stored.
     sbind (slift (item_of reference ''digest'')) (\<lambda>digest.
       if \<not> json_eq (JStr (drop 7 (digest_bytes sha256 (ob_contents stored)))) digest
       then sraise (ValueError (str ''project credential integrity differs''))
       else slift (ebind (loads_bytes (ob_contents stored)) (\<lambda>j. require_object j ''credential envelope''))))))"

definition read_credential_material ::
  "(bytes \<Rightarrow> pystr) \<Rightarrow> 'w connection_store \<Rightarrow> connection_key \<Rightarrow> (credential_material \<times> connection, 'w) action" where
  "read_credential_material sha256 st k =
     sbind (read_record st k) (\<lambda>(d, _).
     sbind (slift (connection_of (cst_scope st) k d)) (\<lambda>c.
     if cn_status c \<noteq> str ''READY'' then sraise (ValueError (str ''project credential is unavailable''))
     else
       sbind (read_envelope sha256 (cst_objects st) d) (\<lambda>envelope.
       slift (ethen (check_envelope (cst_scope st) k (JStr (cn_auth_method c)) d envelope)
         (ebind (require_object (get_or envelope (str ''credentials'') JNull) ''credentials'') (\<lambda>credentials.
          ebind (case get_or envelope (str ''expiresAt'') JNull of
              JNull \<Rightarrow> ret None
            | e \<Rightarrow> ebind (nano_from_wire (py_str e)) (\<lambda>t. ret (Some (NanoTime t)))) (\<lambda>expires_at.
            ret (\<lparr>cm_credentials = credentials, cm_expires_at = expires_at,
                  cm_auth_method = cn_auth_method c\<rparr>, c))))))))"

definition replace_credential ::
  "(bytes \<Rightarrow> pystr) \<Rightarrow> 'w connection_store \<Rightarrow> connection_key \<Rightarrow> int \<Rightarrow> credential_material \<Rightarrow> (connection, 'w) action" where
  "replace_credential sha256 st k expected_revision m =
     (if cm_auth_method m = [] then sraise (ValueError (str ''invalid credential material''))
      else
        sbind (slift (key_path k (cst_scope st))) (\<lambda>path.
        sbind (scatch (sbind (read_record st k) (\<lambda>(d, stored).
            sret (int_value (get_or d (str ''revision'') JNull), int_value (get_or d (str ''fence'') JNull), Some stored)))
          (\<lambda>e. if e = ObjectNotFoundError \<and> expected_revision = 0 then sret (0, 0, None) else sraise e))
          (\<lambda>(revision, prior_fence, head).
        if revision \<noteq> expected_revision then sraise (ObjectConflictError (str ''connection revision conflict''))
        else
          let fence = prior_fence + 1 in
          sbind (slift (ebind (credential_envelope_wire (cst_scope st) k fence (cm_credentials m) (cm_expires_at m)
            (cm_auth_method m) []) (\<lambda>w. go_canonical_json_bytes (JObj w)))) (\<lambda>contents.
          let digest = drop 7 (digest_bytes sha256 contents); immutable_key = path @ str ''/credentials/'' @ digest in
          sbind (create_immutable (cst_objects st) immutable_key contents (str ''immutable credential content differs''))
            (\<lambda>candidate.
          let reference = [(str ''key'', JStr immutable_key), (str ''version'', JStr (ob_version candidate)),
                           (str ''digest'', JStr digest)] in
          sbind (slift (connection_record_wire (cst_scope st) k (expected_revision + 1) fence (str ''READY'')
            (cm_expires_at m) (JStr (cm_auth_method m)) (Some reference) None)) (\<lambda>new_record.
          sbind (slift (go_canonical_json_bytes (JObj new_record))) (\<lambda>head_contents.
          sbind (reconciled_write (cst_objects st) (head_key path) head head_contents) (\<lambda>_.
          slift (connection_of (cst_scope st) k new_record)))))))))"

section \<open>Paths\<close>

fun base64_bytes :: "nat list \<Rightarrow> bytes" where
  "base64_bytes [p, q] = [p * 4 + q div 16]"
| "base64_bytes [p, q, r] = [p * 4 + q div 16, q mod 16 * 16 + r div 4]"
| "base64_bytes (p # q # r # t # rest) =
     [p * 4 + q div 16, q mod 16 * 16 + r div 4, r mod 4 * 64 + t] @ base64_bytes rest"
| "base64_bytes _ = []"

lemma base64_group:
  fixes a b c :: nat
  assumes "b < 256" "c < 256"
  shows "a div 4 * 4 + (a mod 4 * 16 + b div 16) div 16 = a
    \<and> (a mod 4 * 16 + b div 16) mod 16 * 16 + (b mod 16 * 4 + c div 64) div 4 = b
    \<and> (b mod 16 * 4 + c div 64) mod 4 * 64 + c mod 64 = c"
proof -
  have "b div 16 < 16" "c div 64 < 4" using assms by auto
  then show ?thesis by (simp add: mult.commute)
qed

lemma base64_units_bytes: "list_all (\<lambda>b. b < 256) bs \<Longrightarrow> base64_bytes (base64_units bs) = bs"
proof (induction bs rule: base64_units.induct)
  case (2 a)
  then show ?case using base64_group [of 0 0 a] by simp
next
  case (3 a b)
  then show ?case using base64_group [of b 0 a] by (simp add: mult.commute)
next
  case (4 a b c r)
  then show ?case using base64_group [of b c a] by (cases "base64_units r") auto
qed simp

lemma base64_unit_bound:
  fixes x y m n :: nat
  shows "x < m \<Longrightarrow> y < n \<Longrightarrow> 64 = m * n \<Longrightarrow> x * n + y < 64"
  by (metis mult_Suc Suc_leI add.commute add_less_le_mono le_less_trans less_le_trans mult.commute mult_le_mono1 nat_add_left_cancel_less)

lemma base64_units_range: "list_all (\<lambda>b. b < 256) bs \<Longrightarrow> list_all (\<lambda>v. v < 64) (base64_units bs)"
proof (induction bs rule: base64_units.induct)
  case (4 a b c r)
  have d: "b div 16 < 16" "c div 64 < 4" "a div 4 < 64" "c mod 64 < 64" using 4 by auto
  have m: "a mod 4 < 4" "b mod 16 < 16" by simp_all
  have u: "a mod 4 * 16 + b div 16 < 64" "b mod 16 * 4 + c div 64 < 64"
    by (rule base64_unit_bound, rule m, rule d, simp)+
  have r: "list_all (\<lambda>v. v < 64) (base64_units r)" using 4 by simp
  show ?case
    unfolding base64_units.simps append_Cons append_Nil list.pred_inject(2) by (intro conjI d u r)
next
  case (3 a b)
  have d: "b div 16 < 16" "a div 4 < 64" using 3 by auto
  have u: "a mod 4 * 16 + b div 16 < 64" by (rule base64_unit_bound [OF _ d(1)]) simp_all
  have "b mod 16 < 16" by simp
  then have "b mod 16 * 4 < 64" by simp
  with d u show ?case by simp
next
  case (2 a)
  have "a mod 4 < 4" by simp
  then have "a mod 4 * 16 < 64" by simp
  with 2 show ?case by auto
qed simp

lemma base64_char_inj: "inj_on base64_char {v. v < 64}"
  by (rule inj_onI) (auto simp: base64_char_def split: if_splits)

lemma base64_text_inj:
  assumes "list_all (\<lambda>b. b < 256) a" "list_all (\<lambda>b. b < 256) b" "base64_text a = base64_text b"
  shows "a = b"
proof -
  have "base64_units a = base64_units b"
    using assms(3) unfolding base64_text_def
    by (rule map_inj_on) (use assms base64_units_range [of a] base64_units_range [of b]
      in \<open>auto simp: list_all_iff intro: inj_on_subset [OF base64_char_inj]\<close>)
  then show ?thesis using base64_units_bytes assms(1,2) by metis
qed

lemma base64_no_slash: "47 \<notin> set (base64_text b)"
  by (auto simp: base64_text_def base64_char_def split: if_splits)

lemma key_path_Inr:
  assumes "key_path k s = Inr path"
  obtains p b where "scope_prefix s = Inr p" "utf8_encode (ck_connection_name k) = Some b" "is_connector_id (ck_connector_id k)"
    "path = p @ str ''/connections/'' @ ck_connector_id k @ str ''/'' @ base64_text b"
  using assms by (auto simp: key_path_def Let_def ebind_eq_Inr_iff split: if_splits option.splits)

text \<open>Distinct connections never share a path, so neither a head nor an envelope.\<close>

lemma key_path_inj:
  assumes "key_path k s = Inr path" "key_path k' s' = Inr path"
  shows "k = k' \<and> s = s'"
proof -
  obtain p b where p: "scope_prefix s = Inr p" "utf8_encode (ck_connection_name k) = Some b" "is_connector_id (ck_connector_id k)"
      "path = p @ str ''/connections/'' @ ck_connector_id k @ str ''/'' @ base64_text b"
    using assms(1) by (rule key_path_Inr)
  obtain p' b' where p': "scope_prefix s' = Inr p'" "utf8_encode (ck_connection_name k') = Some b'" "is_connector_id (ck_connector_id k')"
      "path = p' @ str ''/connections/'' @ ck_connector_id k' @ str ''/'' @ base64_text b'"
    using assms(2) by (rule key_path_Inr)
  have id: "47 \<notin> set t" if "is_connector_id t" for t
    using that by (cases t) (auto simp: is_connector_id_def char_class_defs list_all_iff)
  have segs: "split_on 47 (q @ str ''/connections/'' @ c @ str ''/'' @ base64_text d) =
      [str ''projects'', project_id x, scope_kind x, str ''connections'', c, base64_text d]"
    if "scope_prefix x = Inr q" "is_connector_id c" for x q c d
  proof -
    have "is_scope_id (project_id x)" "scope_kind x \<in> {str ''live'', str ''preview''}"
        "q = str ''projects'' @ 47 # project_id x @ 47 # scope_kind x"
      using that(1) by (auto simp: scope_prefix_def str_def split: if_splits)
    moreover have "str ''/connections/'' = 47 # str ''connections'' @ [47]" "str ''/'' = [47]"
      "47 \<notin> set (str ''projects'')" "47 \<notin> set (str ''connections'')" "47 \<notin> set (str ''live'')" "47 \<notin> set (str ''preview'')"
      by (simp_all add: str_def)
    ultimately show ?thesis
      using scope_id_no_slash [of "project_id x"] id [OF that(2)] base64_no_slash [of d]
      by (auto simp: split_on_append_delim split_on_no_delim)
  qed
  have eq: "project_id s = project_id s'" "scope_kind s = scope_kind s'" "ck_connector_id k = ck_connector_id k'"
      "base64_text b = base64_text b'"
    using segs [OF p(1,3), of b] segs [OF p'(1,3), of b'] p(4) p'(4) by auto
  have "list_all (\<lambda>x. x < 256) b" "list_all (\<lambda>x. x < 256) b'"
    using utf8_encode_bytes [OF p(2)] utf8_encode_bytes [OF p'(2)] by (auto simp: list_all_iff)
  then have "b = b'" using eq(4) by (rule base64_text_inj)
  then have "ck_connection_name k = ck_connection_name k'" using utf8_encode_inj p(2) p'(2) by blast
  with eq show ?thesis by (cases s; cases s'; cases k; cases k') simp
qed

section \<open>A replaced credential is read back\<close>

lemma expiry_member_cases:
  assumes "expiry_member t = Inr e"
  obtains "t = None" "e = []" | v w where "t = Some v" "format_rfc3339_nano v = Inr w" "e = [(str ''expiresAt'', JStr w)]"
  using assms by (auto simp: expiry_member_def ebind_eq_Inr_iff split: option.splits)

lemma connection_record_ready:
  assumes "connection_record_wire s k revision fence (str ''READY'') t (JStr auth)
      (Some [(str ''key'', JStr ik), (str ''version'', JStr v), (str ''digest'', JStr dg)]) None = Inr d"
    and "0 < revision" "0 < fence" "prefix (path @ str ''/'') ik" "v \<noteq> []" "is_hex_text 64 dg"
    and "ob_version x \<noteq> []" "ob_etag x \<noteq> []"
  shows "json_plain (JObj d)" "check_record s k path x d = Inr ()"
    "get_or d (str ''credential'') JNull = JObj [(str ''key'', JStr ik), (str ''version'', JStr v), (str ''digest'', JStr dg)]"
    "get_or d (str ''revision'') JNull = JInt revision" "get_or d (str ''fence'') JNull = JInt fence"
    "get_or d (str ''status'') JNull = JStr (str ''READY'')" "get_or d (str ''authMethod'') JNull = JStr auth"
    "text_member d ''authMethod'' = auth"
    "expiry_member t = Inr [] \<and> get_or d (str ''expiresAt'') JNull = JNull
     \<or> (\<exists>w. expiry_member t = Inr [(str ''expiresAt'', JStr w)] \<and> get_or d (str ''expiresAt'') JNull = JStr w)"
proof -
  obtain sw e where sw: "scope_to_wire s = Inr sw" and e: "expiry_member t = Inr e"
    and d: "d = [(str ''schemaVersion'', JStr CONNECTION_SCHEMA_VERSION), (str ''connection'', JObj (key_to_wire k)),
             (str ''scope'', JObj sw), (str ''revision'', JInt revision), (str ''fence'', JInt fence),
             (str ''status'', JStr (str ''READY''))]
         @ e @ [(str ''authMethod'', JStr auth), (str ''credential'',
              JObj [(str ''key'', JStr ik), (str ''version'', JStr v), (str ''digest'', JStr dg)])]"
    using assms(1) by (auto simp: connection_record_wire_def ebind_eq_Inr_iff reference_wire_def item_of_def)
  have ok: "json_plain (JObj sw)" "json_ok (JObj sw)"
    using sw by (auto simp: scope_to_wire_def ebind_eq_Inr_iff dict_ok_def dict_keys_def)
  have kw: "json_plain (JObj (key_to_wire k))" "json_ok (JObj (key_to_wire k))"
    by (simp_all add: key_to_wire_def dict_ok_def dict_keys_def)
  note eqs = json_eq_refl [OF ok(2)] json_eq_refl [OF kw(2)]
  have main: "json_plain (JObj d) \<and> check_record s k path x d = Inr ()
    \<and> get_or d (str ''credential'') JNull = JObj [(str ''key'', JStr ik), (str ''version'', JStr v), (str ''digest'', JStr dg)]
    \<and> get_or d (str ''revision'') JNull = JInt revision \<and> get_or d (str ''fence'') JNull = JInt fence
    \<and> get_or d (str ''status'') JNull = JStr (str ''READY'') \<and> get_or d (str ''authMethod'') JNull = JStr auth
    \<and> text_member d ''authMethod'' = auth"
    if "e = [] \<or> e = [(str ''expiresAt'', JStr w)]" for w
    using that assms(2-) ok kw eqs sw
    by (elim disjE)
      (simp_all add: d check_record_def check_identity_def check_revoked_def check_reference_def check_admission_def
        positive_int_def status_is_def statuses_def record_fields_def get_or_def dict_ok_def dict_keys_def
        text_member_def Let_def del: json_eq.simps)
  show "json_plain (JObj d)" "check_record s k path x d = Inr ()"
    "get_or d (str ''credential'') JNull = JObj [(str ''key'', JStr ik), (str ''version'', JStr v), (str ''digest'', JStr dg)]"
    "get_or d (str ''revision'') JNull = JInt revision" "get_or d (str ''fence'') JNull = JInt fence"
    "get_or d (str ''status'') JNull = JStr (str ''READY'')" "get_or d (str ''authMethod'') JNull = JStr auth"
    "text_member d ''authMethod'' = auth"
    using e main by (auto elim!: expiry_member_cases)
  show "expiry_member t = Inr [] \<and> get_or d (str ''expiresAt'') JNull = JNull
     \<or> (\<exists>w. expiry_member t = Inr [(str ''expiresAt'', JStr w)] \<and> get_or d (str ''expiresAt'') JNull = JStr w)"
    using e by (auto simp: d get_or_def elim!: expiry_member_cases)
qed

lemma envelope_wire:
  assumes "credential_envelope_wire s k fence credentials t auth attempt_id = Inr e" "json_plain (JObj credentials)"
  shows "json_plain (JObj e)" "get_or e (str ''credentials'') JNull = JObj credentials"
    "get_or e (str ''authMethod'') JNull = JStr auth"
    "get_or e (str ''expiresAt'') JNull = get_or d (str ''expiresAt'') JNull \<Longrightarrow> check_envelope s k (JStr auth) d e = Inr ()"
    "expiry_member t = Inr [] \<Longrightarrow> get_or e (str ''expiresAt'') JNull = JNull"
    "expiry_member t = Inr [(str ''expiresAt'', JStr w)] \<Longrightarrow> get_or e (str ''expiresAt'') JNull = JStr w"
proof -
  obtain sw x where sw: "scope_to_wire s = Inr sw" and x: "expiry_member t = Inr x"
    and e: "e = [(str ''schemaVersion'', JStr CONNECTION_SCHEMA_VERSION), (str ''scope'', JObj sw),
             (str ''connection'', JObj (key_to_wire k)), (str ''fence'', JInt fence)]
         @ (if attempt_id \<noteq> [] then [(str ''attemptId'', JStr attempt_id)] else [])
         @ [(str ''credentials'', JObj credentials)] @ x @ [(str ''authMethod'', JStr auth)]"
    using assms(1) by (auto simp: credential_envelope_wire_def ebind_eq_Inr_iff)
  have ok: "json_plain (JObj sw)" "json_ok (JObj sw)"
    using sw by (auto simp: scope_to_wire_def ebind_eq_Inr_iff dict_ok_def dict_keys_def)
  have kw: "json_plain (JObj (key_to_wire k))" "json_ok (JObj (key_to_wire k))"
    by (simp_all add: key_to_wire_def dict_ok_def dict_keys_def)
  note eqs = json_eq_refl [OF ok(2)] json_eq_refl [OF kw(2)]
  have "\<exists>w. x = [] \<or> x = [(str ''expiresAt'', JStr w)]" using x by (auto elim!: expiry_member_cases)
  then obtain w0 where w0: "x = [] \<or> x = [(str ''expiresAt'', JStr w0)]" by blast
  have mem: "get_or e (str ''authMethod'') JNull = JStr auth" "get_or e (str ''scope'') JNull = JObj sw"
    "get_or e (str ''schemaVersion'') JNull = JStr CONNECTION_SCHEMA_VERSION"
    "get_or e (str ''connection'') JNull = JObj (key_to_wire k)"
    using w0 by (auto simp: e get_or_def)
  show "json_plain (JObj e)" "get_or e (str ''credentials'') JNull = JObj credentials"
    "get_or e (str ''authMethod'') JNull = JStr auth"
    using w0 assms(2) ok kw by (auto simp: e get_or_def dict_ok_def dict_keys_def)
  show "check_envelope s k (JStr auth) d e = Inr ()"
    if "get_or e (str ''expiresAt'') JNull = get_or d (str ''expiresAt'') JNull"
  proof -
    have ej: "json_eq (get_or e (str ''expiresAt'') JNull) (get_or d (str ''expiresAt'') JNull)"
      unfolding that [symmetric] using w0 by (auto simp: e get_or_def)
    show ?thesis
      unfolding check_envelope_def sw ebind_simps mem using ej eqs by (simp del: json_eq.simps add: json_eq.simps(5))
  qed
  show "expiry_member t = Inr [] \<Longrightarrow> get_or e (str ''expiresAt'') JNull = JNull"
    "expiry_member t = Inr [(str ''expiresAt'', JStr w)] \<Longrightarrow> get_or e (str ''expiresAt'') JNull = JStr w"
    using x by (auto simp: e get_or_def)
qed

text \<open>The text of a formatted expiry is canonical.\<close>

lemma expiry_canonical:
  assumes "expiry_member t = Inr [(str ''expiresAt'', JStr w)]" "\<And>v. t = Some (NanoTime v) \<Longrightarrow> nano_from_wire v = Inr v"
  shows "nano_from_wire w = Inr w"
  using assms nano_from_wire_canonical
  by (auto simp: expiry_member_def ebind_eq_Inr_iff format_rfc3339_nano_def nano_from_datetime_def
      split: option.splits time_value.splits if_splits)

lemma loads_bytes_errors: "loads_bytes b = Inl e \<Longrightarrow> e = UnicodeError \<or> e = JSONDecodeError"
  by (auto simp: loads_bytes_def loads_bytes_with_def loads_text_with_def split: option.splits prod.splits if_splits)

lemma check_record_positive:
  assumes "check_record s k path x d = Inr ()"
  shows "0 < int_value (get_or d (str ''revision'') JNull)" "0 < int_value (get_or d (str ''fence'') JNull)"
  using assms by (auto simp: check_record_def ethen_eq_Inr_iff check_identity_def ebind_eq_Inr_iff Let_def
      positive_int_def split: if_splits)

lemma data_only_time [simp]: "data_only (parse_time j)"
  by (cases j) (auto simp: parse_time_def parse_utc_text_def fromisoformat_def split: option.splits intro!: data_only_rules)

lemma data_only_record [simp]: "data_only (check_record s k path x d)"
proof -
  have "data_only (check_identity s k x d)"
    by (auto simp: check_identity_def Let_def split: json.splits intro!: data_only_rules)
  moreover have "data_only (check_reference path d)"
    by (auto simp: check_reference_def split: json.splits intro!: data_only_rules)
  moreover have "data_only (check_admission path d)"
    by (auto simp: check_admission_def Let_def split: json.splits intro!: data_only_rules)
  ultimately show ?thesis
    by (auto simp: check_record_def check_revoked_def intro!: data_only_rules)
qed

context versioned_store
begin

lemma read_record_Inr:
  assumes "inv w" "cst_objects st = store" "read_record st k w = (Inr (d, x), w')"
  obtains path where "key_path k (cst_scope st) = Inr path" "inv w'" "hist w' = hist w"
    "hist w (head_key path) \<noteq> []" "x = last (hist w (head_key path))" "loads_bytes (ob_contents x) = Inr (JObj d)"
    "check_record (cst_scope st) k path x d = Inr ()"
proof -
  obtain path where p: "key_path k (cst_scope st) = Inr path" "read_object store (head_key path) [] w = (Inr x, w')"
      "loads_bytes (ob_contents x) = Inr (JObj d)" "check_record (cst_scope st) k path x d = Inr ()"
    using assms(2,3)
    by (auto simp: read_record_def sbind_eq_Inr_iff ebind_eq_Inr_iff ethen_eq_Inr_iff require_object_eq_Inr)
  show thesis
    using that p read_keeps [OF assms(1) p(2)] read_head [OF assms(1) p(2)] by blast
qed

lemma read_record_error:
  assumes "inv w" "cst_objects st = store" "read_record st k w = (Inl e, w')"
  shows "inv w'" "hist w' = hist w"
    "key_path k (cst_scope st) = Inr path \<Longrightarrow> e = ObjectNotFoundError \<Longrightarrow> hist w (head_key path) = []"
proof -
  have "inv w' \<and> hist w' = hist w \<and>
    (key_path k (cst_scope st) = Inr path \<longrightarrow> e = ObjectNotFoundError \<longrightarrow> hist w (head_key path) = [])"
  proof (cases "key_path k (cst_scope st)")
    case (Inl e1)
    with assms show ?thesis by (simp add: read_record_def)
  next
    case (Inr p)
    obtain r where r: "read_object store (head_key p) [] w = (r, w')"
        "r = Inl e \<or> (\<exists>x. r = Inr x \<and> ebind (loads_bytes (ob_contents x)) (\<lambda>j. ebind (require_object j ''connection head'') (\<lambda>d.
           ethen (check_record (cst_scope st) k p x d) (ret (d, x)))) = Inl e)"
      using assms(2,3) Inr by (auto simp: read_record_def sbind_eq_Inl_iff)
    have "\<not> (\<exists>x. ebind (loads_bytes (ob_contents x)) (\<lambda>j. ebind (require_object j ''connection head'') (\<lambda>d.
           ethen (check_record (cst_scope st) k p x d) (ret (d, x)))) = Inl ObjectNotFoundError)"
      using data_only_record data_only_objects(1)
      by (auto simp: ebind_eq_Inl_iff ethen_eq_Inl_iff data_only_def dest!: loads_bytes_errors) force+
    with r read_keeps [OF assms(1) r(1)] read_missing [OF assms(1)] Inr show ?thesis by auto
  qed
  then show "inv w'" "hist w' = hist w"
    "key_path k (cst_scope st) = Inr path \<Longrightarrow> e = ObjectNotFoundError \<Longrightarrow> hist w (head_key path) = []"
    by auto
qed

text \<open>What a head records: revision and fence, both 0 before the first head.\<close>

definition head_counters :: "scope \<Rightarrow> connection_key \<Rightarrow> pystr \<Rightarrow> 'w \<Rightarrow> int \<Rightarrow> int \<Rightarrow> bool" where
  "head_counters s k path w revision fence \<longleftrightarrow>
     (if hist w (head_key path) = [] then revision = 0 \<and> fence = 0
      else \<exists>d. loads_bytes (ob_contents (last (hist w (head_key path)))) = Inr (JObj d)
        \<and> check_record s k path (last (hist w (head_key path))) d = Inr ()
        \<and> revision = int_value (get_or d (str ''revision'') JNull) \<and> fence = int_value (get_or d (str ''fence'') JNull))"

lemma read_counters:
  assumes "inv w" "cst_objects st = store" "key_path k (cst_scope st) = Inr path"
    and "scatch (sbind (read_record st k) (\<lambda>(d, stored).
            sret (int_value (get_or d (str ''revision'') JNull), int_value (get_or d (str ''fence'') JNull), Some stored)))
          (\<lambda>e. if e = ObjectNotFoundError \<and> n = (0::int) then sret (0, 0, None) else sraise e) w = (Inr (revision, fence, head), w')"
  shows "inv w'" "hist w' = hist w" "head_counters (cst_scope st) k path w revision fence" "0 \<le> revision" "0 \<le> fence"
proof -
  have "inv w' \<and> hist w' = hist w \<and> head_counters (cst_scope st) k path w revision fence \<and> 0 \<le> revision \<and> 0 \<le> fence"
  proof (cases "read_record st k w")
    case (Pair q v)
    show ?thesis
    proof (cases q)
      case (Inl e)
      with Pair assms(4) read_record_error(1,2) [OF assms(1,2), of k e v]
        read_record_error(3) [OF assms(1,2), of k e v path] assms(3) show ?thesis
        by (auto simp: scatch_def sbind_def head_counters_def split: if_splits)
    next
      case (Inr dx)
      obtain d x where dx: "dx = (d, x)" by fastforce
      have eq: "revision = int_value (get_or d (str ''revision'') JNull)" "fence = int_value (get_or d (str ''fence'') JNull)" "w' = v"
        using Inr Pair assms(4) dx by (simp_all add: scatch_def sbind_def)
      have "read_record st k w = (Inr (d, x), v)" using Pair Inr dx by simp
      with assms(1,2) show ?thesis
      proof (rule read_record_Inr)
        fix path' assume "key_path k (cst_scope st) = Inr path'" "inv v" "hist v = hist w" "hist w (head_key path') \<noteq> []"
          "x = last (hist w (head_key path'))" "loads_bytes (ob_contents x) = Inr (JObj d)"
          "check_record (cst_scope st) k path' x d = Inr ()"
        with assms(3) eq check_record_positive [of "cst_scope st" k path x d] show ?thesis
          by (auto simp: head_counters_def)
      qed
    qed
  qed
  then show "inv w'" "hist w' = hist w" "head_counters (cst_scope st) k path w revision fence" "0 \<le> revision" "0 \<le> fence"
    by auto
qed

lemma replace_credential_Inr:
  assumes "inv w" "cst_objects st = store" "replace_credential sha256 st k n m w = (Inr c, w')"
  obtains path fence x e d hx where "key_path k (cst_scope st) = Inr path" "inv w'" "grows (hist w) (hist w')"
    "head_counters (cst_scope st) k path w n fence" "0 \<le> n" "0 \<le> fence"
    "credential_envelope_wire (cst_scope st) k (fence + 1) (cm_credentials m) (cm_expires_at m) (cm_auth_method m) [] = Inr e"
    "go_canonical_json_bytes (JObj e) = Inr (ob_contents x)"
    "x \<in> set (hist w' (path @ str ''/credentials/'' @ sha256 (ob_contents x)))"
    "connection_record_wire (cst_scope st) k (n + 1) (fence + 1) (str ''READY'') (cm_expires_at m) (JStr (cm_auth_method m))
      (Some [(str ''key'', JStr (path @ str ''/credentials/'' @ sha256 (ob_contents x))), (str ''version'', JStr (ob_version x)),
             (str ''digest'', JStr (sha256 (ob_contents x)))]) None = Inr d"
    "hist w' (head_key path) \<noteq> []" "hx = last (hist w' (head_key path))" "go_canonical_json_bytes (JObj d) = Inr (ob_contents hx)"
    "connection_of (cst_scope st) k d = Inr c"
proof -
  have dg: "drop 7 (digest_bytes sha256 b) = sha256 b" for b by (simp add: digest_bytes_def)
  obtain path w1 revision fence head contents e x w2 d hc hx w3 where
    p: "key_path k (cst_scope st) = Inr path"
    and rd: "scatch (sbind (read_record st k) (\<lambda>(d, stored).
            sret (int_value (get_or d (str ''revision'') JNull), int_value (get_or d (str ''fence'') JNull), Some stored)))
          (\<lambda>e. if e = ObjectNotFoundError \<and> n = 0 then sret (0, 0, None) else sraise e) w = (Inr (revision, fence, head), w1)"
    and n: "revision = n"
    and e: "credential_envelope_wire (cst_scope st) k (fence + 1) (cm_credentials m) (cm_expires_at m) (cm_auth_method m) [] = Inr e"
      "go_canonical_json_bytes (JObj e) = Inr contents"
    and x: "create_immutable store (path @ str ''/credentials/'' @ sha256 contents) contents
      (str ''immutable credential content differs'') w1 = (Inr x, w2)"
    and d: "connection_record_wire (cst_scope st) k (n + 1) (fence + 1) (str ''READY'') (cm_expires_at m) (JStr (cm_auth_method m))
      (Some [(str ''key'', JStr (path @ str ''/credentials/'' @ sha256 contents)), (str ''version'', JStr (ob_version x)),
             (str ''digest'', JStr (sha256 contents))]) None = Inr d" "go_canonical_json_bytes (JObj d) = Inr hc"
    and h: "reconciled_write store (head_key path) head hc w2 = (Inr hx, w')"
    and c: "connection_of (cst_scope st) k d = Inr c"
    using assms(2,3)
    by (auto simp: replace_credential_def Let_def sbind_eq_Inr_iff ebind_eq_Inr_iff dg split: if_splits)
  note r = read_counters [OF assms(1,2) p rd]
  note im = create_immutable_effect [OF r(1) x]
  note hd = reconciled_write_effect [OF im(1) h]
  have g1: "grows (hist w) (hist w2)" using im(2) r(2) appends_grows by auto
  have g2: "grows (hist w2) (hist w')" using hd(2) appends_grows by auto
  have "x \<in> set (hist w' (path @ str ''/credentials/'' @ sha256 contents))" "ob_contents x = contents"
    using im(3) grows_mem [OF g2] by auto
  then show thesis
    using p hd(1) grows_trans [OF g1 g2] r(3-5) n e d hd(3) c by (intro that [of path fence e x d hx]) auto
qed

end

text \<open>The material that was written is the material that is read, as long as the head stays.\<close>

context available_store
begin

lemma read_replaced_credential:
  assumes "inv w" "cst_objects st = store" "is_sha256 sha256" "json_plain (JObj (cm_credentials m))"
    and "replace_credential sha256 st k n m w = (Inr c, w')" "inv w1" "grows (hist w') (hist w1)"
    and "\<And>path. key_path k (cst_scope st) = Inr path \<Longrightarrow> hist w1 (head_key path) = hist w' (head_key path)"
    and "\<And>v. cm_expires_at m = Some (NanoTime v) \<Longrightarrow> nano_from_wire v = Inr v"
  shows "\<exists>m' w2. read_credential_material sha256 st k w1 = (Inr (m', c), w2)
    \<and> cm_credentials m' = cm_credentials m \<and> cm_auth_method m' = cm_auth_method m"
  using assms(1,2,5)
proof (rule replace_credential_Inr)
  fix path fence e d and x hx :: obj
  let ?ik = "path @ str ''/credentials/'' @ sha256 (ob_contents x)"
  assume p: "key_path k (cst_scope st) = Inr path" and i: "inv w'" and nn: "0 \<le> n" "0 \<le> fence"
    and e: "credential_envelope_wire (cst_scope st) k (fence + 1) (cm_credentials m) (cm_expires_at m) (cm_auth_method m) [] = Inr e"
      "go_canonical_json_bytes (JObj e) = Inr (ob_contents x)"
    and x: "x \<in> set (hist w' ?ik)"
    and d: "connection_record_wire (cst_scope st) k (n + 1) (fence + 1) (str ''READY'') (cm_expires_at m) (JStr (cm_auth_method m))
      (Some [(str ''key'', JStr ?ik), (str ''version'', JStr (ob_version x)), (str ''digest'', JStr (sha256 (ob_contents x)))]) None = Inr d"
    and hd: "hist w' (head_key path) \<noteq> []" "hx = last (hist w' (head_key path))"
      "go_canonical_json_bytes (JObj d) = Inr (ob_contents hx)"
    and c: "connection_of (cst_scope st) k d = Inr c"
  have "hx \<in> set (hist w' (head_key path))" using hd by simp
  note hid = hist_identity [OF i this] and xid = hist_identity [OF i x]
  have pre: "prefix (path @ str ''/'') ?ik" by (simp add: str_def)
  have rec: "json_plain (JObj d)" "check_record (cst_scope st) k path hx d = Inr ()"
    "get_or d (str ''credential'') JNull = JObj [(str ''key'', JStr ?ik), (str ''version'', JStr (ob_version x)),
       (str ''digest'', JStr (sha256 (ob_contents x)))]"
    "get_or d (str ''status'') JNull = JStr (str ''READY'')" "text_member d ''authMethod'' = cm_auth_method m"
    "expiry_member (cm_expires_at m) = Inr [] \<and> get_or d (str ''expiresAt'') JNull = JNull
     \<or> (\<exists>w. expiry_member (cm_expires_at m) = Inr [(str ''expiresAt'', JStr w)] \<and> get_or d (str ''expiresAt'') JNull = JStr w)"
    using connection_record_ready [OF d _ _ pre, of hx] nn xid hid assms(3) by (simp_all add: is_sha256_def)
  obtain w2 where w2: "read_object store (head_key path) [] w1 = (Inr hx, w2)"
    using head_available [OF assms(6), of "head_key path"] hd assms(8) [OF p] by auto
  note k2 = read_keeps [OF assms(6) w2]
  have "x \<in> set (hist w2 ?ik)" using grows_mem [OF assms(7) x] k2 by simp
  then obtain w3 where w3: "read_object store ?ik (ob_version x) w2 = (Inr x, w3)"
    using version_available [of w2] k2 by blast
  have lh: "loads_bytes (ob_contents hx) = Inr (JObj d)" by (rule loads_canonical [OF rec(1) hd(3)])
  have le: "loads_bytes (ob_contents x) = Inr (JObj e)" by (rule loads_canonical [OF envelope_wire(1) [OF e(1) assms(4)] e(2)])
  have rr: "read_record st k w1 = (Inr (d, hx), w2)"
    using p w2 lh rec(2) assms(2) by (simp add: read_record_def sbind_def)
  have cf: "cn_status c = str ''READY''" "cn_auth_method c = cm_auth_method m"
    using c rec(4,5) by (auto simp: connection_of_def ebind_eq_Inr_iff item_of_def get_or_def split: option.splits)
  have re: "read_envelope sha256 store d w2 = (Inr e, w3)"
    using rec(3) w3 le by (simp add: read_envelope_def sbind_def item_of_def digest_bytes_def)
  have ex: "get_or e (str ''expiresAt'') JNull = get_or d (str ''expiresAt'') JNull"
    using rec(6) envelope_wire(5,6) [OF e(1) assms(4)] by auto
  have t: "\<exists>t. (case get_or e (str ''expiresAt'') JNull of JNull \<Rightarrow> ret None
      | j \<Rightarrow> ebind (nano_from_wire (py_str j)) (\<lambda>t. ret (Some (NanoTime t)))) = Inr t"
    using rec(6) ex expiry_canonical [OF _ assms(9)] by fastforce
  obtain t where t: "(case get_or e (str ''expiresAt'') JNull of JNull \<Rightarrow> ret None
      | j \<Rightarrow> ebind (nano_from_wire (py_str j)) (\<lambda>t. ret (Some (NanoTime t)))) = Inr t"
    using t by blast
  have "read_credential_material sha256 st k w1 =
      (Inr (\<lparr>cm_credentials = cm_credentials m, cm_expires_at = t, cm_auth_method = cm_auth_method m\<rparr>, c), w3)"
    using rr c cf re assms(2) t envelope_wire(2) [OF e(1) assms(4)] envelope_wire(4) [OF e(1) assms(4) ex]
    by (simp add: read_credential_material_def sbind_def)
  then show ?thesis by auto
qed

end

end
