(* ===== verification/Broker.thy ===== *)
theory Broker
  imports ConfigurationWire StateExc IsoDatetime
begin

text \<open>
  \<^verbatim>\<open>projectconfig/broker.py\<close>: the scope-token client of the credential broker and the
  cache of one shared connection.  The HTTP client is outside the repository and is the argument
  \<open>post\<close>, which answers a request with a status, chunks and whether the stream broke; the
  readers of the scope token are arguments too.  The state of the client and of a shared
  connection is the first part of the world.  A method body runs while it holds its lock, so
  calls are sequential.  Clock readings are taken to leave room for the spans the code adds.

  The lemmas show that a read sends at most two requests, that only an unexpired credential is
  returned, that a rejected revision is never returned again, and that the record of issued
  revisions is bounded.
\<close>

section \<open>Answers\<close>

definition MAXIMUM_BROKER_RESPONSE_BYTES :: nat where
  "MAXIMUM_BROKER_RESPONSE_BYTES = 1048576"

definition MAXIMUM_BROKER_CREDENTIAL_BYTES :: nat where
  "MAXIMUM_BROKER_CREDENTIAL_BYTES = 65536"

record broker_credential =
  bk_credential :: jobj
  bk_revision :: int
  bk_issued_at :: "datetime option"
  bk_expires_at :: "datetime option"
  bk_read_at :: datetime

definition broker_credential_repr :: "broker_credential \<Rightarrow> pystr" where
  "broker_credential_repr b =
     str ''BrokerCredential(revision='' @ int_text (bk_revision b) @ str '', credential=[REDACTED])''"

text \<open>\<open>json.dumps\<close> with its default separators and \<open>ensure_ascii\<close>.\<close>

definition escape_ascii :: "nat \<Rightarrow> pystr" where
  "escape_ascii c =
     (if c < 127 then escape_char c
      else if c < 0x10000 then [92, 117] @ hex4_text c
      else [92, 117] @ hex4_text (0xD800 + (c - 0x10000) div 1024) @ [92, 117] @ hex4_text (0xDC00 + (c - 0x10000) mod 1024))"

fun print_spaced :: "json \<Rightarrow> pystr" where
  "print_spaced (JArr xs) = [91] @ join_with (str '', '') (map print_spaced xs) @ [93]"
| "print_spaced (JObj d) =
     [123] @ join_with (str '', '') (map (\<lambda>(k, v). quote_with escape_ascii k @ str '': '' @ print_spaced v) d) @ [125]"
| "print_spaced j = print_with escape_ascii j"

definition unavailable :: "pystr \<Rightarrow> exc" where
  "unavailable m = CredentialBrokerUnavailableError m"

definition rejected :: "string \<Rightarrow> exc" where
  "rejected m = CredentialBrokerRejectedError (str m)"

definition parse_stamp :: "json \<Rightarrow> exc + datetime option" where
  "parse_stamp j =
     (if \<not> truthy j then ret None
      else case j of
          JStr s \<Rightarrow> (case parse_utc_text s of
              Inl _ \<Rightarrow> raise (rejected ''credential broker timestamps are invalid'')
            | Inr t \<Rightarrow> ret (Some t))
        | _ \<Rightarrow> raise (rejected ''credential broker timestamps are invalid''))"

text \<open>\<open>_decode\<close>: the status, then the document, then its fields; the time of reading comes last.\<close>

definition decode_ready :: "jobj \<Rightarrow> exc + (datetime \<Rightarrow> broker_credential)" where
  "decode_ready answer =
     (case get_or answer (str ''credential'') JNull of
        JObj credential \<Rightarrow>
          (let revision = get_or answer (str ''revision'') JNull in
           if \<not> is_int revision \<or> int_value revision \<le> 0
              \<or> length (print_spaced (JObj credential)) > MAXIMUM_BROKER_CREDENTIAL_BYTES
           then raise (rejected ''credential broker READY answer is invalid'')
           else ebind (parse_stamp (get_or answer (str ''issuedAt'') JNull)) (\<lambda>issued_at.
             ebind (parse_stamp (get_or answer (str ''expiresAt'') JNull)) (\<lambda>expires_at.
               ret (\<lambda>now. \<lparr>bk_credential = credential, bk_revision = int_value revision, bk_issued_at = issued_at,
                    bk_expires_at = expires_at, bk_read_at = now\<rparr>))))
      | _ \<Rightarrow> raise (rejected ''credential broker READY answer is invalid''))"

definition decode_answer :: "int \<Rightarrow> bytes \<Rightarrow> exc + (datetime \<Rightarrow> broker_credential)" where
  "decode_answer status_code content =
     (if status_code \<in> {408, 425, 429} \<or> status_code \<ge> 500
      then raise (unavailable (str ''credential broker HTTP '' @ int_text status_code))
      else if status_code \<noteq> 200
      then raise (CredentialBrokerRejectedError (str ''credential broker HTTP '' @ int_text status_code))
      else if length content > MAXIMUM_BROKER_RESPONSE_BYTES
      then raise (rejected ''credential broker response is too large'')
      else case ebind (loads_bytes content) (\<lambda>j. require_object j ''broker answer'') of
          Inl _ \<Rightarrow> raise (rejected ''credential broker answer is invalid'')
        | Inr answer \<Rightarrow>
          (let status = get_or answer (str ''status'') JNull in
           if status = JStr (str ''REAUTHORIZATION_REQUIRED'') then raise ReauthorizationRequiredError
           else if status = JStr (str ''CONNECTION_NOT_SELECTED'')
           then raise (ConnectionNotSelectedError (str ''project connection is not selected by this scope''))
           else if status \<noteq> JStr (str ''READY'') then raise (rejected ''credential broker status is unknown'')
           else decode_ready answer))"

section \<open>The client\<close>

record broker_client =
  bcl_endpoint :: pystr
  bcl_token_reference :: secret_ref
  bcl_token :: pystr

definition new_broker_client :: "unicode_data \<Rightarrow> broker_configuration \<Rightarrow> exc + broker_client" where
  "new_broker_client u conf =
     ethen (validate_broker_endpoint u (bc_endpoint conf))
       (ret \<lparr>bcl_endpoint = bc_endpoint conf, bcl_token_reference = bc_token_secret_ref conf, bcl_token = []\<rparr>)"

record broker_request =
  brq_endpoint :: pystr
  brq_body :: jobj
  brq_headers :: "(pystr \<times> pystr) list"

datatype broker_outcome = Unreachable | Streamed int "bytes list" bool

record 'w broker_host =
  bh_post :: "broker_request \<Rightarrow> 'w \<Rightarrow> broker_outcome \<times> 'w"
  bh_read_token :: "secret_ref \<Rightarrow> (pystr, 'w) action"
  bh_current_reference :: "(secret_ref, 'w) action"
  bh_now :: "'w \<Rightarrow> instant \<times> 'w"

definition on_host :: "('a, 'w) action \<Rightarrow> ('a, broker_client \<times> 'w) action" where
  "on_host = frame_action snd (\<lambda>w c. (fst c, w))"

fun read_stream :: "nat \<Rightarrow> bytes \<Rightarrow> bytes list \<Rightarrow> bool \<Rightarrow> exc + bytes" where
  "read_stream seen acc [] broken =
     (if broken then raise (unavailable (str ''credential broker is unavailable'')) else ret acc)"
| "read_stream seen acc (c # cs) broken =
     (if seen + length c > MAXIMUM_BROKER_RESPONSE_BYTES then raise (rejected ''credential broker response is too large'')
      else read_stream (seen + length c) (acc @ c) cs broken)"

definition broker_headers :: "pystr \<Rightarrow> (pystr \<times> pystr) list" where
  "broker_headers token =
     [(str ''Authorization'', str ''Bearer '' @ token), (str ''Content-Type'', str ''application/json''),
      (str ''Accept'', str ''application/json'')]"

text \<open>A status other than 200 is answered without its body.\<close>

definition broker_post ::
  "'w broker_host \<Rightarrow> pystr \<Rightarrow> jobj \<Rightarrow> (int \<times> bytes, broker_client \<times> 'w) action" where
  "broker_post h token body c =
     (case bh_post h \<lparr>brq_endpoint = bcl_endpoint (fst c), brq_body = body, brq_headers = broker_headers token\<rparr> (snd c) of
        (Unreachable, w) \<Rightarrow> (raise (unavailable (str ''credential broker is unavailable'')), fst c, w)
      | (Streamed status chunks broken, w) \<Rightarrow>
          (if status \<noteq> 200 then ret (status, [])
           else ebind (read_stream 0 [] chunks broken) (\<lambda>content. ret (status, content)), fst c, w))"

definition set_token :: "pystr \<Rightarrow> (unit, broker_client \<times> 'w) action" where
  "set_token token c = (ret (), (fst c)\<lparr>bcl_token := token\<rparr>, snd c)"

definition set_reference :: "secret_ref \<Rightarrow> (unit, broker_client \<times> 'w) action" where
  "set_reference r c = (ret (), (fst c)\<lparr>bcl_token_reference := r\<rparr>, snd c)"

definition get_client :: "(broker_client, broker_client \<times> 'w) action" where
  "get_client c = (ret (fst c), c)"

definition load_token :: "'w broker_host \<Rightarrow> (pystr, broker_client \<times> 'w) action" where
  "load_token h =
     sbind get_client (\<lambda>cl.
     sbind (on_host (bh_read_token h (bcl_token_reference cl))) (\<lambda>token.
     sbind (set_token token) (\<lambda>_. sret token)))"

definition get_token :: "'w broker_host \<Rightarrow> (pystr, broker_client \<times> 'w) action" where
  "get_token h = sbind get_client (\<lambda>cl. if bcl_token cl = [] then load_token h else sret (bcl_token cl))"

definition renew_token :: "'w broker_host \<Rightarrow> pystr \<Rightarrow> (pystr, broker_client \<times> 'w) action" where
  "renew_token h refused =
     sbind get_client (\<lambda>cl.
     if bcl_token cl \<noteq> [] \<and> bcl_token cl \<noteq> refused then sret (bcl_token cl)
     else
       sbind (set_token []) (\<lambda>_.
       sbind (on_host (bh_current_reference h)) (\<lambda>r.
       sbind (set_reference r) (\<lambda>_. load_token h))))"

definition read_request :: "pystr \<Rightarrow> int \<Rightarrow> jobj" where
  "read_request shared_connection_id rejected_revision =
     [(str ''sharedConnectionId'', JStr shared_connection_id)]
     @ (if rejected_revision \<noteq> 0 then [(str ''rejectedRevision'', JInt rejected_revision)] else [])"

definition broker_now :: "'w broker_host \<Rightarrow> (datetime, broker_client \<times> 'w) action" where
  "broker_now h = on_host (\<lambda>w. case bh_now h w of (i, w') \<Rightarrow> (ret (utc_datetime i), w'))"

definition broker_read ::
  "'w broker_host \<Rightarrow> pystr \<Rightarrow> int \<Rightarrow> (broker_credential, broker_client \<times> 'w) action" where
  "broker_read h shared_connection_id rejected_revision =
     (if shared_connection_id = [] \<or> rejected_revision < 0
      then sraise (ValueError (str ''invalid shared credential read''))
      else
        let request = read_request shared_connection_id rejected_revision in
        sbind (get_token h) (\<lambda>token.
        sbind (broker_post h token request) (\<lambda>response.
        sbind (if fst response = 401
               then sbind (renew_token h token) (\<lambda>renewed.
                 if renewed = token then sraise (rejected ''credential broker refused scope token'')
                 else broker_post h renewed request)
               else sret response) (\<lambda>(status, content).
        sbind (slift (decode_answer status content)) (\<lambda>answer.
        sbind (broker_now h) (\<lambda>now. sret (answer now)))))))"

section \<open>Shared connections\<close>

record shared_state =
  sc_credential :: "broker_credential option"
  sc_issued :: "(pystr, int \<times> instant) dict"
  sc_next_read_after :: instant

definition new_shared_connection :: "pystr \<Rightarrow> exc + shared_state" where
  "new_shared_connection shared_connection_id =
     (if shared_connection_id = [] then raise (ValueError (str ''shared connection ID is required''))
      else ret \<lparr>sc_credential = None, sc_issued = [], sc_next_read_after = datetime_min\<rparr>)"

definition naive_mix :: exc where
  "naive_mix = TypeError (str ''can't compare offset-naive and offset-aware datetimes'')"

definition is_expired :: "broker_credential \<Rightarrow> instant \<Rightarrow> exc + bool" where
  "is_expired b now =
     (case bk_expires_at b of
        None \<Rightarrow> ret False
      | Some t \<Rightarrow> if dt_offset t = None then raise naive_mix else ret (dt_instant t \<le> now))"

definition is_stale :: "broker_credential \<Rightarrow> instant \<Rightarrow> exc + bool" where
  "is_stale b now =
     (case bk_expires_at b of
        None \<Rightarrow> ret (now - dt_instant (bk_read_at b) \<ge> minutes 15)
      | Some t \<Rightarrow>
        let start = (case bk_issued_at b of None \<Rightarrow> bk_read_at b | Some i \<Rightarrow> i) in
        if (dt_offset t = None) \<noteq> (dt_offset start = None) then raise naive_mix
        else
          let lifetime = dt_instant t - dt_instant start;
              skew = (if lifetime > 0 then min (minutes 5) (round_half_even (of_int lifetime / 4)) else 0)
          in if dt_offset t = None then raise naive_mix else ret (now \<ge> dt_instant t - skew))"

definition ISSUED_LIMIT :: nat where
  "ISSUED_LIMIT = 4096"

definition record_issued :: "pystr \<Rightarrow> int \<Rightarrow> instant \<Rightarrow> shared_state \<Rightarrow> shared_state" where
  "record_issued cid revision now st =
     (if cid = [] then st
      else
        let issued = dict_set cid (revision, now) (sc_issued st);
            kept = (if length issued > ISSUED_LIMIT then filter (\<lambda>(_, v). snd v > now - minutes 10) issued else issued)
        in st\<lparr>sc_issued := (if length kept > ISSUED_LIMIT then drop 1 kept else kept)\<rparr>)"

text \<open>The shared connection is the first part of the world, its broker client is in the rest.\<close>

record 'b broker_access =
  ba_read :: "pystr \<Rightarrow> int \<Rightarrow> (broker_credential, 'b) action"
  ba_now :: "'b \<Rightarrow> instant \<times> 'b"

definition in_broker :: "('a, 'b) action \<Rightarrow> ('a, shared_state \<times> 'b) action" where
  "in_broker = frame_action snd (\<lambda>b s. (fst s, b))"

definition shared_now :: "'b broker_access \<Rightarrow> (instant, shared_state \<times> 'b) action" where
  "shared_now br = in_broker (\<lambda>b. case ba_now br b of (i, b') \<Rightarrow> (ret i, b'))"

definition get_shared :: "(shared_state, shared_state \<times> 'b) action" where
  "get_shared s = (ret (fst s), s)"

definition update_shared :: "(shared_state \<Rightarrow> shared_state) \<Rightarrow> (unit, shared_state \<times> 'b) action" where
  "update_shared f s = (ret (), f (fst s), snd s)"

definition issue :: "pystr \<Rightarrow> broker_credential \<Rightarrow> instant \<Rightarrow> (jobj, shared_state \<times> 'b) action" where
  "issue cid b now =
     sbind (update_shared (record_issued cid (bk_revision b) now)) (\<lambda>_. sret (bk_credential b))"

fun is_unavailable :: "exc \<Rightarrow> bool" where
  "is_unavailable (CredentialBrokerUnavailableError _) \<longleftrightarrow> True"
| "is_unavailable _ \<longleftrightarrow> False"

text \<open>Usable without the lock: inside the back-off and unexpired, or not stale.\<close>

definition cached :: "shared_state \<Rightarrow> instant \<Rightarrow> exc + broker_credential option" where
  "cached st now =
     (case sc_credential st of
        None \<Rightarrow> ret None
      | Some b \<Rightarrow>
        ebind (is_expired b now) (\<lambda>expired.
          if \<not> expired \<and> now < sc_next_read_after st then ret (Some b)
          else ebind (is_stale b now) (\<lambda>stale. ret (if stale then None else Some b))))"

definition read_shared ::
  "'b broker_access \<Rightarrow> pystr \<Rightarrow> int \<Rightarrow> (broker_credential, shared_state \<times> 'b) action" where
  "read_shared br shared_connection_id rejected_revision =
     sbind (in_broker (ba_read br shared_connection_id rejected_revision)) (\<lambda>b.
     sbind (update_shared (\<lambda>st. st\<lparr>sc_credential := Some b\<rparr>)) (\<lambda>_. sret b))"

definition expired_or_absent :: "broker_credential option \<Rightarrow> instant \<Rightarrow> exc + bool" where
  "expired_or_absent current now = (case current of None \<Rightarrow> ret True | Some b \<Rightarrow> is_expired b now)"

text \<open>The body under the lock, with the credential found there.\<close>

definition needs_read :: "shared_state \<Rightarrow> instant \<Rightarrow> exc + bool" where
  "needs_read st now =
     (case sc_credential st of
        None \<Rightarrow> ret True
      | Some b \<Rightarrow> ebind (is_stale b now) (\<lambda>stale. ret (stale \<and> now \<ge> sc_next_read_after st)))"

definition resolve_locked ::
  "'b broker_access \<Rightarrow> pystr \<Rightarrow> pystr \<Rightarrow> (jobj, shared_state \<times> 'b) action" where
  "resolve_locked br shared_connection_id cid =
     sbind get_shared (\<lambda>st.
     sbind (shared_now br) (\<lambda>now.
     sbind (slift (needs_read st now)) (\<lambda>needed.
     sbind (if needed
            then scatch (sbind (read_shared br shared_connection_id 0) (\<lambda>b. sret (Some b))) (\<lambda>e.
              if is_unavailable e
              then sbind (update_shared (\<lambda>st. st\<lparr>sc_next_read_after := now + seconds 10\<rparr>)) (\<lambda>_.
                   sbind (slift (expired_or_absent (sc_credential st) now)) (\<lambda>gone.
                     if gone then sraise e else sret (sc_credential st)))
              else sraise e)
            else sret (sc_credential st)) (\<lambda>current.
     sbind (slift (expired_or_absent current now)) (\<lambda>gone.
     if gone then sraise (unavailable (str ''shared credential is expired''))
     else issue cid (the current) now)))))"

definition shared_resolve ::
  "'b broker_access \<Rightarrow> pystr \<Rightarrow> pystr \<Rightarrow> (jobj, shared_state \<times> 'b) action" where
  "shared_resolve br shared_connection_id cid =
     sbind (shared_now br) (\<lambda>now.
     sbind get_shared (\<lambda>st.
     sbind (slift (cached st now)) (\<lambda>found.
     case found of
       Some b \<Rightarrow> issue cid b now
     | None \<Rightarrow> resolve_locked br shared_connection_id cid)))"

definition rejected_revision_of :: "shared_state \<Rightarrow> pystr \<Rightarrow> int" where
  "rejected_revision_of st cid =
     (case dict_get (sc_issued st) cid of
        Some (revision, _) \<Rightarrow> revision
      | None \<Rightarrow> (case sc_credential st of Some b \<Rightarrow> bk_revision b | None \<Rightarrow> 0))"

definition shared_resolve_after_rejection ::
  "'b broker_access \<Rightarrow> pystr \<Rightarrow> pystr \<Rightarrow> (jobj, shared_state \<times> 'b) action" where
  "shared_resolve_after_rejection br shared_connection_id cid =
     sbind (shared_now br) (\<lambda>now.
     sbind get_shared (\<lambda>st.
     let rejected_revision = rejected_revision_of st cid in
     sbind (case sc_credential st of
         Some b \<Rightarrow> if bk_revision b \<noteq> rejected_revision then sret b
                   else read_shared br shared_connection_id rejected_revision
       | None \<Rightarrow> read_shared br shared_connection_id rejected_revision) (\<lambda>current.
     if bk_revision current = rejected_revision
     then sraise (RejectedCredentialNotRefreshedError (str ''the rejected credential was not refreshed''))
     else issue cid current now)))"

section \<open>Properties\<close>

lemma record_issued_bounded:
  assumes "length (sc_issued st) \<le> ISSUED_LIMIT"
  shows "length (sc_issued (record_issued cid revision now st)) \<le> ISSUED_LIMIT"
proof -
  have "length (dict_set cid (revision, now) (sc_issued st)) \<le> Suc (length (sc_issued st))"
    by (simp add: length_dict_set)
  then have "length (filter p (dict_set cid (revision, now) (sc_issued st))) \<le> Suc ISSUED_LIMIT" for p
    using assms length_filter_le [of p "dict_set cid (revision, now) (sc_issued st)"] by linarith
  then have "length (filter p (dict_set cid (revision, now) (sc_issued st))) - Suc 0 \<le> ISSUED_LIMIT" for p
    by (simp add: le_diff_conv)
  then show ?thesis using assms by (auto simp: record_issued_def Let_def)
qed

lemma read_stream_bounded:
  assumes "read_stream n acc cs broken = Inr content" "length acc = n" "n \<le> MAXIMUM_BROKER_RESPONSE_BYTES"
  shows "content = acc @ concat cs \<and> length content \<le> MAXIMUM_BROKER_RESPONSE_BYTES \<and> \<not> broken"
  using assms
  by (induction n acc cs broken rule: read_stream.induct) (auto split: if_splits)

text \<open>
  What \<open>shared_resolve\<close> promises: the issued record stays bounded, and what it returns is the
  credential that was not expired when the decision was taken.
\<close>

definition bounded :: "('a, shared_state \<times> 'b) action \<Rightarrow> bool" where
  "bounded m \<longleftrightarrow> (\<forall>s r s'. m s = (r, s') \<longrightarrow> length (sc_issued (fst s)) \<le> ISSUED_LIMIT
     \<longrightarrow> length (sc_issued (fst s')) \<le> ISSUED_LIMIT)"

lemma bounded_slift: "bounded (slift r)"
  by (simp add: bounded_def)

lemma bounded_sbind: "bounded m \<Longrightarrow> (\<And>x. bounded (f x)) \<Longrightarrow> bounded (sbind m f)"
  unfolding bounded_def by (auto simp: sbind_def split: prod.splits sum.splits) blast+

lemma bounded_scatch: "bounded m \<Longrightarrow> (\<And>e. bounded (h e)) \<Longrightarrow> bounded (scatch m h)"
  unfolding bounded_def by (auto simp: scatch_def split: prod.splits sum.splits) blast+

lemma bounded_if: "bounded a \<Longrightarrow> bounded b \<Longrightarrow> bounded (if c then a else b)"
  by simp

lemma bounded_option: "bounded a \<Longrightarrow> (\<And>x. bounded (f x)) \<Longrightarrow> bounded (case y of None \<Rightarrow> a | Some x \<Rightarrow> f x)"
  by (cases y) auto

lemma bounded_broker: "bounded (in_broker m)"
  by (auto simp: bounded_def in_broker_def frame_action_def split: prod.splits)

lemma bounded_basic: "bounded get_shared" "bounded (shared_now br)" "bounded (issue cid b now)"
  "bounded (update_shared (\<lambda>st. st\<lparr>sc_credential := c\<rparr>))" "bounded (update_shared (\<lambda>st. st\<lparr>sc_next_read_after := t\<rparr>))"
proof -
  show "bounded (issue cid b now)"
    unfolding issue_def
    by (rule bounded_sbind) (auto simp: bounded_def update_shared_def record_issued_bounded)
qed (auto simp: bounded_def get_shared_def update_shared_def shared_now_def bounded_broker [unfolded bounded_def, rule_format])

lemmas bounded_rules = bounded_slift bounded_sbind bounded_scatch bounded_if bounded_option bounded_broker bounded_basic

lemma shared_resolve_bounded: "bounded (shared_resolve br sid cid)" "bounded (shared_resolve_after_rejection br sid cid)"
  unfolding shared_resolve_def resolve_locked_def shared_resolve_after_rejection_def read_shared_def Let_def
  by (intro bounded_rules)+

lemma issue_Inr:
  "issue cid b now s = (r, s') \<longleftrightarrow> r = Inr (bk_credential b) \<and> s' = (record_issued cid (bk_revision b) now (fst s), snd s)"
  by (auto simp: issue_def sbind_def update_shared_def)

lemma cached_valid:
  assumes "cached st now = Inr (Some b)"
  shows "sc_credential st = Some b" "is_expired b now = Inr False \<or> is_stale b now = Inr False"
  using assms by (auto simp: cached_def ebind_eq_Inr_iff split: option.splits if_splits)

text \<open>A credential that is not stale is not expired either, as soon as its lifetime is not negative.\<close>

lemma round_half_even_nonneg: "0 \<le> x \<Longrightarrow> 0 \<le> round_half_even x"
proof -
  assume "0 \<le> x"
  then have "0 \<le> \<lfloor>x\<rfloor>" by simp
  then show ?thesis by (simp add: round_half_even_def Let_def)
qed

lemma not_stale_not_expired:
  assumes "is_stale b now = Inr False"
  shows "is_expired b now = Inr False"
proof (cases "bk_expires_at b")
  case (Some t)
  define start where "start = (case bk_issued_at b of None \<Rightarrow> bk_read_at b | Some i \<Rightarrow> i)"
  define lifetime where "lifetime = dt_instant t - dt_instant start"
  define skew where "skew = (if lifetime > 0 then min (minutes 5) (round_half_even (of_int lifetime / 4)) else 0)"
  have "0 \<le> skew"
    using round_half_even_nonneg [of "of_int lifetime / 4"] by (simp add: skew_def minutes_def)
  moreover have "dt_offset t \<noteq> None" "now < dt_instant t - skew"
    using assms Some unfolding is_stale_def Let_def
    by (auto simp: start_def [symmetric] lifetime_def [symmetric] skew_def split: if_splits)
  ultimately show ?thesis using Some by (simp add: is_expired_def)
qed (simp add: is_expired_def)

lemma record_issued_credential [simp]: "sc_credential (record_issued cid revision now st) = sc_credential st"
  by (simp add: record_issued_def Let_def)

lemma shared_now_eq: "shared_now br s = (r, s') \<longleftrightarrow>
    (\<exists>now t. ba_now br (snd s) = (now, t) \<and> r = Inr now \<and> s' = (fst s, t))"
  by (auto simp: shared_now_def in_broker_def frame_action_def split: prod.splits)

lemma read_shared_Inr: "read_shared br sid revision s = (Inr b, s') \<longleftrightarrow>
    (\<exists>t. ba_read br sid revision (snd s) = (Inr b, t) \<and> s' = ((fst s)\<lparr>sc_credential := Some b\<rparr>, t))"
  by (auto simp: read_shared_def in_broker_def frame_action_def sbind_def update_shared_def split: prod.splits sum.splits)

lemma read_shared_Inl: "read_shared br sid revision s = (Inl e, s') \<Longrightarrow> fst s' = fst s"
  by (auto simp: read_shared_def in_broker_def frame_action_def sbind_def update_shared_def split: prod.splits sum.splits)

text \<open>
  The returned material is the credential the connection then holds, and that credential was
  not expired at an instant the clock gave during the call.
\<close>

lemma resolve_locked_unexpired:
  assumes "resolve_locked br sid cid s = (Inr m, s')"
  shows "\<exists>b now t t'. sc_credential (fst s') = Some b \<and> m = bk_credential b
    \<and> ba_now br t = (now, t') \<and> is_expired b now = Inr False"
proof -
  obtain now t where t: "ba_now br (snd s) = (now, t)" by fastforce
  have "\<exists>b. sc_credential (fst s') = Some b \<and> m = bk_credential b \<and> is_expired b now = Inr False"
    using assms t
    by (auto simp: resolve_locked_def state_iffs get_shared_def shared_now_eq update_shared_def read_shared_Inr
        issue_Inr expired_or_absent_def dest!: read_shared_Inl split: if_splits option.splits)
  then show ?thesis using t by blast
qed

lemma shared_resolve_unexpired:
  assumes "shared_resolve br sid cid s = (Inr m, s')"
  shows "\<exists>b now t t'. sc_credential (fst s') = Some b \<and> m = bk_credential b
    \<and> ba_now br t = (now, t') \<and> is_expired b now = Inr False"
proof -
  obtain now t where clock: "ba_now br (snd s) = (now, t)" by fastforce
  obtain found where c: "cached (fst s) now = Inr found"
    and rest: "(case found of Some b \<Rightarrow> issue cid b now | None \<Rightarrow> resolve_locked br sid cid) (fst s, t) = (Inr m, s')"
    using assms clock by (auto simp: shared_resolve_def sbind_eq_Inr_iff get_shared_def shared_now_eq)
  show ?thesis
  proof (cases found)
    case (Some b)
    with rest c clock cached_valid [of "fst s" now b] not_stale_not_expired show ?thesis by (auto simp: issue_Inr)
  next
    case None
    with rest show ?thesis by (intro resolve_locked_unexpired) simp
  qed
qed

text \<open>A rejected revision is never returned to the call that had it rejected.\<close>

lemma rejected_never_returned:
  assumes "shared_resolve_after_rejection br sid cid s = (Inr m, s')"
  shows "\<exists>b. sc_credential (fst s') = Some b \<and> m = bk_credential b \<and> bk_revision b \<noteq> rejected_revision_of (fst s) cid"
proof -
  obtain now t where t: "ba_now br (snd s) = (now, t)" by fastforce
  obtain current s2 where cur: "(case sc_credential (fst s) of
         Some b \<Rightarrow> if bk_revision b \<noteq> rejected_revision_of (fst s) cid then sret b
                   else read_shared br sid (rejected_revision_of (fst s) cid)
       | None \<Rightarrow> read_shared br sid (rejected_revision_of (fst s) cid)) (fst s, t) = (Inr current, s2)"
    and out: "bk_revision current \<noteq> rejected_revision_of (fst s) cid" "issue cid current now s2 = (Inr m, s')"
    using assms t unfolding shared_resolve_after_rejection_def sbind_eq_Inr_iff get_shared_def shared_now_eq Let_def
    by (auto simp: sbind_eq_Inr_iff split: if_splits cong: option.case_cong if_cong)
  have "sc_credential (fst s2) = Some current"
    using cur by (auto simp: read_shared_Inr split: option.splits if_splits)
  with out show ?thesis by (auto simp: issue_Inr)
qed

text \<open>Inside the back-off an unexpired credential is served without the broker.\<close>

lemma backoff_serves_cache:
  assumes "ba_now br b = (now, b')" "sc_credential st = Some c" "is_expired c now = Inr False" "now < sc_next_read_after st"
  shows "shared_resolve br sid cid (st, b) = (Inr (bk_credential c), record_issued cid (bk_revision c) now st, b')"
  using assms
  by (simp add: shared_resolve_def sbind_def shared_now_def in_broker_def frame_action_def get_shared_def cached_def issue_def
      update_shared_def)

text \<open>A host that counts the requests it is given; an action that sends at most \<open>n\<close> of them.\<close>

definition counts_requests :: "'w broker_host \<Rightarrow> ('w \<Rightarrow> nat) \<Rightarrow> bool" where
  "counts_requests h count \<longleftrightarrow> (\<forall>q w. count (snd (bh_post h q w)) = Suc (count w))
     \<and> (\<forall>r w. count (snd (bh_read_token h r w)) = count w) \<and> (\<forall>w. count (snd (bh_current_reference h w)) = count w)
     \<and> (\<forall>w. count (snd (bh_now h w)) = count w)"

definition sends :: "('w \<Rightarrow> nat) \<Rightarrow> nat \<Rightarrow> ('a, broker_client \<times> 'w) action \<Rightarrow> bool" where
  "sends count n m \<longleftrightarrow> (\<forall>s. count (snd (snd (m s))) \<le> count (snd s) + n)"

lemma sends_then:
  assumes "sends count a m" "\<And>x. sends count b (f x)"
  shows "sends count (a + b) (sbind m f)"
  unfolding sends_def
proof
  fix s
  obtain q s1 where m: "m s = (q, s1)" by (cases "m s")
  have a: "count (snd s1) \<le> count (snd s) + a" using assms(1) m unfolding sends_def by (metis snd_conv)
  show "count (snd (snd (sbind m f s))) \<le> count (snd s) + (a + b)"
  proof (cases q)
    case (Inr x)
    have "count (snd (snd (f x s1))) \<le> count (snd s1) + b" using assms(2) unfolding sends_def by blast
    then show ?thesis using a m Inr by (simp add: sbind_def)
  qed (use a m in \<open>simp add: sbind_def\<close>)
qed

lemma sends_more: "sends count a m \<Longrightarrow> a \<le> b \<Longrightarrow> sends count b m"
  unfolding sends_def by (meson add_left_mono le_trans)

lemma sends_none: "sends count 0 (slift r)" "sends count 0 get_client" "sends count 0 (set_token t)" "sends count 0 (set_reference r')"
  by (simp_all add: sends_def get_client_def set_token_def set_reference_def)

lemma sends_on_host: "(\<And>w. count (snd (m w)) = count w) \<Longrightarrow> sends count 0 (on_host m)"
  by (simp add: sends_def on_host_def frame_action_def split: prod.splits) (metis order_refl snd_conv)

lemma sends_if: "sends count n a \<Longrightarrow> sends count n b \<Longrightarrow> sends count n (if c then a else b)"
  by simp

lemma sends_post: "counts_requests h count \<Longrightarrow> sends count 1 (broker_post h token body)"
  unfolding sends_def counts_requests_def broker_post_def
  by (auto split: prod.splits broker_outcome.splits) (metis order_refl snd_conv)+

lemma sends_token:
  assumes "counts_requests h count"
  shows "sends count 0 (load_token h)" "sends count 0 (get_token h)" "sends count 0 (renew_token h t)"
proof -
  note z = sends_then [where a = 0 and b = 0, simplified]
  show l: "sends count 0 (load_token h)"
    unfolding load_token_def using assms by (intro z sends_none sends_on_host) (auto simp: counts_requests_def)
  show "sends count 0 (get_token h)" unfolding get_token_def by (intro z sends_if sends_none l)
  show "sends count 0 (renew_token h t)"
    unfolding renew_token_def using assms by (intro z sends_if sends_none l sends_on_host) (auto simp: counts_requests_def)
qed

lemma broker_read_sends_two:
  assumes "counts_requests h count"
  shows "sends count 2 (broker_read h sid revision)"
proof -
  note z = sends_then [where a = 0, simplified]
  have now: "sends count 0 (broker_now h)"
  proof -
    have "count w' = count w" if "bh_now h w = (i, w')" for i w w'
      using assms that unfolding counts_requests_def by (metis snd_conv)
    then show ?thesis unfolding broker_now_def by (intro sends_on_host) (auto split: prod.splits)
  qed
  have tail: "sends count 0 (sbind (slift q) (\<lambda>answer. sbind (broker_now h) (\<lambda>now. sret (answer now))))" for q
    by (intro z sends_none now)
  have second: "sends count 1 (if fst response = 401
      then sbind (renew_token h token) (\<lambda>renewed.
        if renewed = token then sraise (rejected ''credential broker refused scope token'')
        else broker_post h renewed request)
      else sret response)" for response token request
    by (intro z sends_if sends_token sends_post assms sends_more [OF sends_none(1), of 1]) simp_all
  have decoded: "sends count 1 (sbind m (\<lambda>(status, content).
        sbind (slift (decode_answer status content)) (\<lambda>answer.
        sbind (broker_now h) (\<lambda>now. sret (answer now)))))" if "sends count 1 m" for m
  proof -
    have "sends count (1 + 0) (sbind m (\<lambda>(status, content).
        sbind (slift (decode_answer status content)) (\<lambda>answer.
        sbind (broker_now h) (\<lambda>now. sret (answer now)))))"
      using that by (rule sends_then) (auto intro: tail split: prod.splits)
    then show ?thesis by (simp only: add_0_right)
  qed
  have body: "sends count (1 + 1) (sbind (broker_post h token request) (\<lambda>response.
        sbind (if fst response = 401
               then sbind (renew_token h token) (\<lambda>renewed.
                 if renewed = token then sraise (rejected ''credential broker refused scope token'')
                 else broker_post h renewed request)
               else sret response) (\<lambda>(status, content).
        sbind (slift (decode_answer status content)) (\<lambda>answer.
        sbind (broker_now h) (\<lambda>now. sret (answer now))))))" for token request
    by (intro sends_then [where a = 1 and b = 1] sends_post assms decoded second)
  show ?thesis
    unfolding broker_read_def Let_def
    by (rule sends_if, rule sends_more [OF sends_none(1)], simp, rule z, rule sends_token(2) [OF assms],
        rule body [unfolded one_add_one])
qed

end
