(* ===== verification/OAuthToken.thy ===== *)
theory OAuthToken
  imports ProviderHttp Connections Broker RetryPolicy
begin

text \<open>
  OAuth token exchanges (\<open>oauthtoken/__init__.py\<close>): refresh decisions, scope checks, client
  authentication, the token request and the checks on its response, and JWT-bearer assertions.

  The HTTP client is a parameter that answers a request; so is the RSA signature.  A secret
  string is its text: the redacted representation is in \<open>Credentials\<close>.
\<close>

section \<open>Refresh decisions\<close>

definition MAX_TOKEN_RESPONSE_BYTES :: int where
  "MAX_TOKEN_RESPONSE_BYTES = 1048576"

definition REFRESH_SKEW :: timedelta where
  "REFRESH_SKEW = minutes 5"

datatype missing_expiry_rule = REFRESH_WHEN_EXPIRY_MISSING | KEEP_WHEN_EXPIRY_MISSING

text \<open>The smaller of a bound and one quarter of the lifetime, or the bound alone.\<close>

definition quarter_lifetime :: "timedelta \<Rightarrow> datetime option \<Rightarrow> datetime option \<Rightarrow> exc + timedelta" where
  "quarter_lifetime bound issued_at expires_at =
     (case (issued_at, expires_at) of
        (Some i, Some e) \<Rightarrow>
          ebind (dt_less i e) (\<lambda>lives.
            ret (if lives then min bound (round_half_even (of_int (dt_instant e - dt_instant i) / 4)) else bound))
      | _ \<Rightarrow> ret bound)"

definition proportional_refresh_skew :: "datetime option \<Rightarrow> datetime option \<Rightarrow> exc + timedelta" where
  "proportional_refresh_skew = quarter_lifetime REFRESH_SKEW"

definition forced_refresh_floor :: "datetime option \<Rightarrow> datetime option \<Rightarrow> exc + timedelta" where
  "forced_refresh_floor = quarter_lifetime (minutes 1)"

text \<open>\<open>now >= expires_at - skew\<close>; the subtraction leaves the range of \<open>datetime\<close> near its ends.\<close>

definition local_micros :: "datetime \<Rightarrow> instant" where
  "local_micros t = dt_instant t + (case dt_offset t of None \<Rightarrow> 0 | Some z \<Rightarrow> z)"

definition reached :: "datetime \<Rightarrow> datetime \<Rightarrow> timedelta \<Rightarrow> exc + bool" where
  "reached now t skew =
     (if local_micros t - skew < 0 then raise OverflowError
      else if (dt_offset now = None) \<noteq> (dt_offset t = None) then raise naive_mix
      else ret (dt_instant t - skew \<le> dt_instant now))"

definition is_refresh_required ::
  "bool \<Rightarrow> datetime option \<Rightarrow> datetime \<Rightarrow> missing_expiry_rule \<Rightarrow> datetime option \<Rightarrow> exc + bool" where
  "is_refresh_required has_access_token expires_at now rule issued_at =
     (if \<not> has_access_token then ret True
      else case expires_at of
          None \<Rightarrow> ret (rule \<noteq> KEEP_WHEN_EXPIRY_MISSING)
        | Some t \<Rightarrow> ebind (proportional_refresh_skew issued_at expires_at) (reached now t))"

text \<open>\<open>filter(None, re.split(r"[ ,]+", text))\<close>\<close>

definition scope_names :: "pystr \<Rightarrow> pystr list" where
  "scope_names s = filter (\<lambda>w. w \<noteq> []) (concat (map (split_on 44) (split_on 32 s)))"

definition has_all_scopes :: "pystr \<Rightarrow> pystr list \<Rightarrow> bool" where
  "has_all_scopes returned required \<longleftrightarrow> set required \<subseteq> set (scope_names returned)"

definition has_exact_scopes :: "pystr \<Rightarrow> pystr list \<Rightarrow> bool" where
  "has_exact_scopes returned required \<longleftrightarrow> set required = set (scope_names returned)"

section \<open>Clients, responses and endpoints\<close>

datatype authentication_method = CLIENT_SECRET_POST | CLIENT_SECRET_BASIC | PUBLIC_CLIENT

record client_credentials =
  cl_id :: pystr
  cl_secret :: pystr
  cl_method :: authentication_method

record token_response =
  tr_access_token :: pystr
  tr_refresh_token :: pystr
  tr_expires_in :: timedelta
  tr_refresh_token_expires_in :: timedelta
  tr_scope :: pystr
  tr_token_type :: pystr
  tr_retained_fields :: jobj
  tr_response_fields :: "(pystr, pystr) dict"

definition next_refresh_token :: "token_response \<Rightarrow> pystr \<Rightarrow> pystr" where
  "next_refresh_token r prior = (if tr_refresh_token r \<noteq> [] then tr_refresh_token r else prior)"

definition mapped_response_string :: "token_response \<Rightarrow> pystr \<Rightarrow> pystr option" where
  "mapped_response_string r path = dict_get (tr_response_fields r) path"

record token_endpoint =
  te_provider_name :: pystr
  te_url :: pystr
  te_terminal_error_codes :: "pystr list"
  te_accepted_token_types :: "pystr list"
  te_accepts_missing_token_type :: bool
  te_accepts_missing_expires_in :: bool
  te_retained_response_fields :: "pystr list"
  te_uses_json_request_body :: bool
  te_allows_plain_http :: bool
  te_additional_request_parameters :: "(pystr, pystr) dict"

definition standard_response_fields :: "pystr list" where
  "standard_response_fields =
     [str ''access_token'', str ''refresh_token'', str ''expires_in'', str ''refresh_token_expires_in'', str ''scope'',
      str ''token_type'', str ''error'', str ''error_description'', str ''error_uri'', str ''id_token'']"

definition grant_request_fields :: "pystr list" where
  "grant_request_fields =
     [str ''grant_type'', str ''refresh_token'', str ''client_id'', str ''client_secret'', str ''assertion'',
      str ''client_assertion'', str ''client_assertion_type'']"

definition apply_client_authentication ::
  "(pystr, pystr) dict \<Rightarrow> client_credentials \<Rightarrow> bool \<Rightarrow> exc + ((pystr, pystr) dict \<times> client_credentials option)" where
  "apply_client_authentication parameters client allow_public =
     (if cl_method client = PUBLIC_CLIENT \<and> allow_public
      then ret (dict_set (str ''client_id'') (cl_id client) parameters, None)
      else if cl_method client \<notin> {CLIENT_SECRET_POST, CLIENT_SECRET_BASIC}
      then raise (ValueError (str ''OAuth client authentication method is not supported''))
      else if cl_secret client = [] then raise ReauthorizationRequiredError
      else if cl_method client = CLIENT_SECRET_POST
      then ret (dict_set (str ''client_secret'') (cl_secret client) (dict_set (str ''client_id'') (cl_id client) parameters), None)
      else ret (parameters, Some client))"

section \<open>The request\<close>

datatype token_body = JsonBody "(pystr, pystr) dict" | FormBody pystr

text \<open>The credentials of the Authorization header are kept as a pair; its encoding is httpx's.\<close>

record token_request =
  tq_url :: pystr
  tq_body :: token_body
  tq_headers :: "(pystr \<times> pystr) list"
  tq_basic :: "(pystr \<times> pystr) option"

definition valid_endpoint_url :: "unicode_data \<Rightarrow> token_endpoint \<Rightarrow> exc + bool" where
  "valid_endpoint_url u te =
     ebind (urlsplit u (te_url te)) (\<lambda>parsed.
       ret ((lower u (take 8 (te_url te)) = str ''https://''
             \<or> te_allows_plain_http te \<and> lower u (take 7 (te_url te)) = str ''http://'')
         \<and> (url_scheme parsed = str ''https'' \<or> te_allows_plain_http te \<and> url_scheme parsed = str ''http'')
         \<and> opt_text (url_hostname u parsed) \<noteq> [] \<and> url_username parsed = None \<and> url_password parsed = None))"

text \<open>\<open>urlencode(sorted(parameters.items()))\<close>\<close>

definition form_text :: "(pystr, pystr) dict \<Rightarrow> exc + pystr" where
  "form_text parameters =
     ebind (emap (\<lambda>(k, v). ebind (quote_plus k) (\<lambda>a. ebind (quote_plus v) (\<lambda>b. ret (a @ [61] @ b)))) (sort_key fst parameters))
       (\<lambda>ts. ret (join_with [38] ts))"

definition token_request_of ::
  "unicode_data \<Rightarrow> token_endpoint \<Rightarrow> (pystr, pystr) dict \<Rightarrow> client_credentials option \<Rightarrow> exc + token_request" where
  "token_request_of u te parameters basic_client =
     ebind (valid_endpoint_url u te) (\<lambda>ok.
     ethen (ensure ok (ValueError (str ''OAuth token endpoint URL is invalid'')))
     (ethen (ensure (list_all (\<lambda>n. n \<notin> set standard_response_fields) (te_retained_response_fields te))
       (ValueError (str ''OAuth token endpoint cannot retain standard token fields'')))
     (ethen (ensure (list_all (\<lambda>n. n \<notin> set grant_request_fields) (dict_keys (te_additional_request_parameters te)))
       (ValueError (str ''OAuth token endpoint cannot replace grant parameters'')))
     (let all_parameters = fold (\<lambda>(k, v). dict_set k v) (te_additional_request_parameters te) parameters in
      ebind (if te_uses_json_request_body te then ret (JsonBody all_parameters)
             else ebind (form_text all_parameters) (\<lambda>t. ret (FormBody t))) (\<lambda>body.
        ret \<lparr>tq_url = te_url te, tq_body = body,
             tq_headers = (str ''Accept'', str ''application/json'')
               # (if te_uses_json_request_body te then [] else [(str ''Content-Type'', str ''application/x-www-form-urlencoded'')]),
             tq_basic = map_option (\<lambda>c. (cl_id c, cl_secret c)) basic_client\<rparr>)))))"

section \<open>The response\<close>

definition endpoint_error :: "token_endpoint \<Rightarrow> pystr \<Rightarrow> pystr" where
  "endpoint_error te m = te_provider_name te @ str '' token '' @ m"

definition http_failure :: "token_endpoint \<Rightarrow> int \<Rightarrow> exc" where
  "http_failure te status = OSError (endpoint_error te (str ''endpoint returned HTTP '' @ int_text status))"

definition is_success :: "int \<Rightarrow> bool" where
  "is_success status \<longleftrightarrow> 200 \<le> status \<and> status < 300"

definition decode_token_body :: "token_endpoint \<Rightarrow> int \<Rightarrow> bytes \<Rightarrow> exc + jobj" where
  "decode_token_body te status contents =
     ethen (ensure (is_success status \<or> contents \<noteq> []) (http_failure te status))
     (case loads_bytes contents of
        Inr (JObj d) \<Rightarrow> ret d
      | _ \<Rightarrow> raise (ValueError (endpoint_error te (str ''response is invalid''))))"

definition check_error_code :: "token_endpoint \<Rightarrow> int \<Rightarrow> jobj \<Rightarrow> exc + unit" where
  "check_error_code te status d =
     (let error_code = (case get_or d (str ''error'') JNull of JStr e \<Rightarrow> e | _ \<Rightarrow> []) in
      if is_success status \<and> error_code = [] then ret ()
      else if status < 500 \<and> error_code \<in> set (te_terminal_error_codes te) then raise ReauthorizationRequiredError
      else raise (http_failure te status))"

definition accepted_token_type :: "unicode_data \<Rightarrow> token_endpoint \<Rightarrow> pystr \<Rightarrow> bool" where
  "accepted_token_type u te token_type \<longleftrightarrow>
     (if token_type = [] then te_accepts_missing_token_type te
      else lower u token_type \<in> lower u ` set (if te_accepted_token_types te \<noteq> [] then te_accepted_token_types te
        else [str ''Bearer'']))"

definition token_members :: "unicode_data \<Rightarrow> token_endpoint \<Rightarrow> jobj \<Rightarrow> exc + (pystr \<times> int \<times> pystr)" where
  "token_members u te d =
     (case (get_or d (str ''access_token'') JNull, get_or d (str ''expires_in'') (JInt 0), get_or d (str ''token_type'') (JStr [])) of
        (JStr access_token, JInt expires_in, JStr token_type) \<Rightarrow>
          ethen (ensure (access_token \<noteq> [] \<and> (0 < expires_in \<or> expires_in = 0 \<and> te_accepts_missing_expires_in te)
              \<and> accepted_token_type u te token_type)
            (ValueError (endpoint_error te (str ''response omitted required fields''))))
          (ret (access_token, expires_in, token_type))
      | _ \<Rightarrow> raise (ValueError (endpoint_error te (str ''response omitted required fields''))))"

text \<open>\<open>isinstance(value, int)\<close>, of which the booleans are instances.\<close>

definition int_like :: "json \<Rightarrow> int option" where
  "int_like j = (case j of JInt n \<Rightarrow> Some n | JBool b \<Rightarrow> Some (if b then 1 else 0) | _ \<Rightarrow> None)"

definition timedelta_seconds :: "int \<Rightarrow> exc + timedelta" where
  "timedelta_seconds n = (if timedelta_in_range (seconds n) then ret (seconds n) else raise OverflowError)"

text \<open>\<open>_redact_response_strings\<close>: a stack of paths and values, its top first.\<close>

definition member_path :: "pystr \<Rightarrow> pystr \<Rightarrow> pystr" where
  "member_path path member = (if path \<noteq> [] then path @ [46] @ member else member)"

function redact :: "(pystr \<times> json) list \<Rightarrow> (pystr, pystr) dict \<Rightarrow> (pystr, pystr) dict" where
  "redact [] redacted = redacted"
| "redact ((path, v) # pending) redacted =
     (case v of
        JStr s \<Rightarrow> redact pending (dict_set path s redacted)
      | JObj d \<Rightarrow> redact (rev (map (\<lambda>(member, nested). (member_path path member, nested)) d) @ pending) redacted
      | _ \<Rightarrow> redact pending redacted)"
  by pat_completeness auto

fun json_weight :: "json \<Rightarrow> nat" where
  "json_weight (JObj d) = Suc (sum_list (map (\<lambda>(k, v). json_weight v) d))"
| "json_weight _ = 1"

termination redact
proof (relation "measure (\<lambda>(pending, _). sum_list (map (json_weight o snd) pending))")
  fix path v and pending :: "(pystr \<times> json) list" and redacted :: "(pystr, pystr) dict" and d
  assume v: "v = JObj d"
  have "sum_list (map (json_weight o snd) (rev (map (\<lambda>(member, nested). (member_path path member, nested)) d)))
      = sum_list (map (\<lambda>(k, v). json_weight v) d)"
    by (simp add: rev_map [symmetric] comp_def split_def sum_list_rev)
  with v show "((rev (map (\<lambda>(member, nested). (member_path path member, nested)) d) @ pending, redacted),
      (path, v) # pending, redacted) \<in> measure (\<lambda>(pending, _). sum_list (map (json_weight o snd) pending))"
    by simp
qed auto

definition redact_response_strings :: "jobj \<Rightarrow> (pystr, pystr) dict" where
  "redact_response_strings d = redact [([], JObj d)] []"

definition retained_fields :: "token_endpoint \<Rightarrow> jobj \<Rightarrow> jobj" where
  "retained_fields te d =
     fold (\<lambda>name acc. case dict_get d name of None \<Rightarrow> acc | Some v \<Rightarrow> dict_set name v acc) (te_retained_response_fields te) []"

definition decode_token :: "unicode_data \<Rightarrow> token_endpoint \<Rightarrow> jobj \<Rightarrow> exc + token_response" where
  "decode_token u te d =
     ebind (token_members u te d) (\<lambda>(access_token, expires_in, token_type).
     case (get_or d (str ''refresh_token'') (JStr []), int_like (get_or d (str ''refresh_token_expires_in'') (JInt 0)),
           get_or d (str ''scope'') (JStr [])) of
       (JStr refresh_token, Some refresh_expiry, JStr scope_text) \<Rightarrow>
         ebind (timedelta_seconds expires_in) (\<lambda>lifetime.
         ebind (timedelta_seconds (max 0 refresh_expiry)) (\<lambda>refresh_lifetime.
           ret \<lparr>tr_access_token = access_token, tr_refresh_token = refresh_token, tr_expires_in = lifetime,
                tr_refresh_token_expires_in = refresh_lifetime, tr_scope = scope_text, tr_token_type = token_type,
                tr_retained_fields = retained_fields te d, tr_response_fields = redact_response_strings d\<rparr>))
     | _ \<Rightarrow> raise (ValueError (endpoint_error te (str ''response is invalid''))))"

section \<open>Exchanges\<close>

datatype token_transport = HttpxFailed | TransportRaised exc | Responded "body_item response"

definition unavailable_endpoint :: "token_endpoint \<Rightarrow> exc" where
  "unavailable_endpoint te = OSError (endpoint_error te (str ''endpoint is unavailable''))"

definition transport_failure :: "token_endpoint \<Rightarrow> exc \<Rightarrow> exc" where
  "transport_failure te e =
     (case e of AddressRefusal _ \<Rightarrow> e | _ \<Rightarrow> if is_OSError e \<or> is_ValueError e then unavailable_endpoint te else e)"

definition read_answer :: "token_endpoint \<Rightarrow> token_transport \<Rightarrow> exc + (int \<times> bytes)" where
  "read_answer te outcome =
     (case outcome of
        HttpxFailed \<Rightarrow> raise (unavailable_endpoint te)
      | TransportRaised e \<Rightarrow> raise (transport_failure te e)
      | Responded resp \<Rightarrow>
        (case fst (read_bounded_body MAX_TOKEN_RESPONSE_BYTES resp) of
           Inl e \<Rightarrow> raise (transport_failure te e)
         | Inr contents \<Rightarrow> ret (status_code resp, contents)))"

type_synonym 'w token_client = "token_request \<Rightarrow> 'w \<Rightarrow> token_transport \<times> 'w"

definition exchange ::
  "unicode_data \<Rightarrow> 'w token_client \<Rightarrow> token_endpoint \<Rightarrow> (pystr, pystr) dict \<Rightarrow> client_credentials option \<Rightarrow> (token_response, 'w) action" where
  "exchange u client te parameters basic_client =
     sbind (slift (token_request_of u te parameters basic_client)) (\<lambda>request w.
       case client request w of (outcome, w') \<Rightarrow>
         (ebind (read_answer te outcome) (\<lambda>(status, contents).
          ebind (decode_token_body te status contents) (\<lambda>d.
          ethen (check_error_code te status d) (decode_token u te d))), w'))"

definition exchange_refresh_token ::
  "unicode_data \<Rightarrow> 'w token_client \<Rightarrow> token_endpoint \<Rightarrow> client_credentials \<Rightarrow> pystr \<Rightarrow> (token_response, 'w) action" where
  "exchange_refresh_token u http te client refresh_token =
     (if cl_id client = [] \<or> refresh_token = [] then sraise ReauthorizationRequiredError
      else
        sbind (slift (apply_client_authentication
          [(str ''grant_type'', str ''refresh_token''), (str ''refresh_token'', refresh_token)] client True)) (\<lambda>(parameters, basic).
        exchange u http te parameters basic))"

definition exchange_client_credentials ::
  "unicode_data \<Rightarrow> 'w token_client \<Rightarrow> token_endpoint \<Rightarrow> client_credentials \<Rightarrow> pystr list \<Rightarrow> (token_response, 'w) action" where
  "exchange_client_credentials u http te client scopes =
     (if cl_id client = [] \<or> cl_secret client = [] then sraise ReauthorizationRequiredError
      else
        sbind (slift (apply_client_authentication
          ([(str ''grant_type'', str ''client_credentials'')]
           @ (if scopes \<noteq> [] then [(str ''scope'', join_with [32] scopes)] else [])) client False)) (\<lambda>(parameters, basic).
        exchange u http te parameters basic))"

definition exchange_jwt_bearer_assertion ::
  "unicode_data \<Rightarrow> 'w token_client \<Rightarrow> token_endpoint \<Rightarrow> pystr \<Rightarrow> (token_response, 'w) action" where
  "exchange_jwt_bearer_assertion u http te assertion =
     (if assertion = [] then sraise ReauthorizationRequiredError
      else exchange u http te
        [(str ''grant_type'', str ''urn:ietf:params:oauth:grant-type:jwt-bearer''), (str ''assertion'', assertion)] None)"

section \<open>JWT-bearer assertions\<close>

record jwt_assertion =
  ja_issuer :: pystr
  ja_audience :: pystr
  ja_issued_at :: datetime
  ja_lifetime :: timedelta
  ja_subject :: pystr
  ja_scope :: pystr

text \<open>\<open>int(t.timestamp())\<close> of the instant with the given microseconds since year 1.\<close>

definition unix_seconds :: "instant \<Rightarrow> int" where
  "unix_seconds i = (case float_to_int (total_seconds (i - 719162 * 86400000000)) of Some n \<Rightarrow> n | None \<Rightarrow> 0)"

definition jwt_claims :: "jwt_assertion \<Rightarrow> exc + jobj" where
  "jwt_claims a =
     (let issued = dt_instant (ja_issued_at a); expiry = issued + ja_lifetime a in
      ethen (ensure (0 \<le> expiry \<and> expiry < datetime_end) OverflowError)
      (ret ([(str ''aud'', JStr (ja_audience a)), (str ''exp'', JInt (unix_seconds expiry)),
             (str ''iat'', JInt (unix_seconds issued)), (str ''iss'', JStr (ja_issuer a))]
            @ (if ja_scope a \<noteq> [] then [(str ''scope'', JStr (ja_scope a))] else [])
            @ (if ja_subject a \<noteq> [] then [(str ''sub'', JStr (ja_subject a))] else []))))"

text \<open>Compact \<open>json.dumps\<close> with sorted keys and ASCII escapes, then base64url without padding.\<close>

definition encode_segment :: "jobj \<Rightarrow> pystr" where
  "encode_segment d = base64_text (print_with escape_ascii (JObj d))"

text \<open>What \<open>load_pem_private_key\<close> makes of a PEM text: an RSA key, by its signature, or another key.\<close>

datatype private_key = RsaKey "bytes \<Rightarrow> bytes" | OtherKey

definition parse_rsa_private_key_pem :: "(bytes \<Rightarrow> private_key option) \<Rightarrow> pystr \<Rightarrow> exc + (bytes \<Rightarrow> bytes)" where
  "parse_rsa_private_key_pem load_pem pem_text =
     (case Option.bind (utf8_encode pem_text) load_pem of
        None \<Rightarrow> raise (ValueError (str ''private key is invalid''))
      | Some OtherKey \<Rightarrow> raise (ValueError (str ''private key must use RSA''))
      | Some (RsaKey sign) \<Rightarrow> ret sign)"

definition sign_jwt_bearer_assertion :: "(bytes \<Rightarrow> bytes) \<Rightarrow> jwt_assertion \<Rightarrow> exc + pystr" where
  "sign_jwt_bearer_assertion sign a =
     (if ja_issuer a = [] \<or> ja_audience a = [] \<or> ja_lifetime a \<le> 0
      then raise (ValueError (str ''JWT-bearer assertion claims are incomplete''))
      else ebind (jwt_claims a) (\<lambda>claims.
        let unsigned = encode_segment [(str ''alg'', JStr (str ''RS256'')), (str ''typ'', JStr (str ''JWT''))]
              @ [46] @ encode_segment claims
        in ret (unsigned @ [46] @ base64_text (sign unsigned))))"

section \<open>Properties\<close>

lemma quarter_lifetime_range:
  assumes "quarter_lifetime bound i e = Inr s" "0 \<le> bound"
  shows "0 \<le> s \<and> s \<le> bound"
proof -
  have "0 \<le> round_half_even ((of_int a - of_int b) / 4)" if "b < a" for a b :: int
    using that by (intro round_half_even_nonneg) simp
  then show ?thesis
    using assms by (auto simp: quarter_lifetime_def dt_less_def ebind_eq_Inr_iff split: option.splits if_splits)
qed

text \<open>A token that needs no refresh has not expired.\<close>

lemma not_required_not_expired:
  assumes "is_refresh_required has_token (Some t) now rule issued = Inr False"
  shows "has_token \<and> dt_instant now < dt_instant t"
proof -
  obtain skew where s: "proportional_refresh_skew issued (Some t) = Inr skew" "reached now t skew = Inr False" "has_token"
    using assms by (auto simp: is_refresh_required_def ebind_eq_Inr_iff split: if_splits)
  have "0 \<le> skew"
    using quarter_lifetime_range [of REFRESH_SKEW issued "Some t" skew] s(1)
    by (simp add: proportional_refresh_skew_def REFRESH_SKEW_def minutes_def)
  then show ?thesis using s(2,3) by (auto simp: reached_def split: if_splits)
qed

text \<open>The grant's own parameters reach the request whatever the endpoint adds.\<close>

lemma fold_additional:
  assumes "k \<notin> set (dict_keys extra)"
  shows "dict_get (fold (\<lambda>(a, b). dict_set a b) extra ps) k = dict_get ps k"
  using assms
proof (induction extra arbitrary: ps)
  case (Cons x extra)
  then show ?case by (cases x) (auto simp: dict_keys_def dict_get_set)
qed simp

lemma token_request_Inr:
  assumes "token_request_of u te ps basic = Inr request"
  obtains all_parameters where "valid_endpoint_url u te = Inr True" "tq_url request = te_url te"
    "tq_basic request = map_option (\<lambda>c. (cl_id c, cl_secret c)) basic"
    "\<And>k. k \<in> set grant_request_fields \<Longrightarrow> dict_get all_parameters k = dict_get ps k"
    "tq_body request = JsonBody all_parameters \<or> (\<exists>t. form_text all_parameters = Inr t \<and> tq_body request = FormBody t)"
proof -
  let ?all = "fold (\<lambda>(k, v). dict_set k v) (te_additional_request_parameters te) ps"
  obtain body where b: "valid_endpoint_url u te = Inr True"
    "list_all (\<lambda>n. n \<notin> set grant_request_fields) (dict_keys (te_additional_request_parameters te))"
    "(if te_uses_json_request_body te then ret (JsonBody ?all) else ebind (form_text ?all) (\<lambda>t. ret (FormBody t))) = Inr body"
    "tq_url request = te_url te" "tq_basic request = map_option (\<lambda>c. (cl_id c, cl_secret c)) basic" "tq_body request = body"
    using assms by (auto simp: token_request_of_def Let_def ebind_eq_Inr_iff ethen_eq_Inr_iff)
  show thesis
  proof (rule that [of ?all])
    show "dict_get ?all k = dict_get ps k" if "k \<in> set grant_request_fields" for k
      using that b(2) by (intro fold_additional) (auto simp: list_all_iff)
  qed (use b in \<open>auto simp: ebind_eq_Inr_iff split: if_splits\<close>)
qed

text \<open>What a returned token satisfies.\<close>

definition token_sound :: "unicode_data \<Rightarrow> token_endpoint \<Rightarrow> token_response \<Rightarrow> bool" where
  "token_sound u te r \<longleftrightarrow> tr_access_token r \<noteq> [] \<and> accepted_token_type u te (tr_token_type r)
     \<and> (0 < tr_expires_in r \<or> tr_expires_in r = 0 \<and> te_accepts_missing_expires_in te) \<and> 0 \<le> tr_refresh_token_expires_in r"

lemma decode_token_sound: "decode_token u te d = Inr r \<Longrightarrow> token_sound u te r"
  by (auto simp: decode_token_def token_members_def token_sound_def ebind_eq_Inr_iff ethen_eq_Inr_iff timedelta_seconds_def
      seconds_def split: prod.splits json.splits option.splits if_splits)

text \<open>A client that keeps the requests it is given.\<close>

definition recording_client :: "(token_request \<Rightarrow> token_transport) \<Rightarrow> token_request list token_client" where
  "recording_client answer request sent = (answer request, sent @ [request])"

lemma exchange_sends:
  assumes "exchange u (recording_client answer) te ps basic sent = (r, sent')"
  shows "(sent' = sent \<and> (\<exists>e. r = Inl e \<and> token_request_of u te ps basic = Inl e))
    \<or> (\<exists>request. token_request_of u te ps basic = Inr request \<and> sent' = sent @ [request]
         \<and> (\<forall>token. r = Inr token \<longrightarrow> token_sound u te token))"
proof (cases "token_request_of u te ps basic")
  case (Inl e)
  then show ?thesis using assms by (simp add: exchange_def)
next
  case (Inr request)
  then show ?thesis
    using assms decode_token_sound
    by (auto simp: exchange_def recording_client_def ebind_eq_Inr_iff ethen_eq_Inr_iff)
qed

text \<open>Which answers ask for a new authorization.\<close>

definition terminal_answer :: "token_endpoint \<Rightarrow> token_transport \<Rightarrow> bool" where
  "terminal_answer te outcome \<longleftrightarrow> (\<exists>status contents d code. read_answer te outcome = Inr (status, contents) \<and> status < 500
     \<and> loads_bytes contents = Inr (JObj d) \<and> get_or d (str ''error'') JNull = JStr code \<and> code \<in> set (te_terminal_error_codes te))"

lemma data_errors_not_reauthorization:
  "decode_token_body te status contents \<noteq> Inl ReauthorizationRequiredError"
  "decode_token u te d \<noteq> Inl ReauthorizationRequiredError"
  by (auto simp: decode_token_body_def http_failure_def ethen_eq_Inl_iff decode_token_def token_members_def timedelta_seconds_def
      ebind_eq_Inl_iff split: sum.splits json.splits prod.splits option.splits if_splits)

lemma check_error_terminal:
  assumes "check_error_code te status d = Inl ReauthorizationRequiredError" "[] \<notin> set (te_terminal_error_codes te)"
  shows "status < 500 \<and> (\<exists>code. get_or d (str ''error'') JNull = JStr code \<and> code \<in> set (te_terminal_error_codes te))"
  using assms by (auto simp: check_error_code_def http_failure_def Let_def split: if_splits json.splits)

lemma token_request_errors: "data_only (token_request_of u te ps basic)"
proof -
  have q: "data_only (quote_plus t)" for t by (simp add: quote_plus_def split: option.splits)
  have f: "data_only (form_text p)" for p
    unfolding form_text_def by (intro data_only_rules) (auto intro!: data_only_rules q split: prod.splits)
  show ?thesis
    unfolding token_request_of_def valid_endpoint_url_def Let_def
    by (intro data_only_rules) (auto intro!: data_only_rules f)
qed

text \<open>
  Only a terminal error code in an answer below 500 asks for a new authorization: transport
  failures, server errors and malformed answers never do.
\<close>

lemma exchange_reauthorization:
  assumes "exchange u client te ps basic w = (Inl ReauthorizationRequiredError, w')" "[] \<notin> set (te_terminal_error_codes te)"
    and "\<And>q v. read_answer te (fst (client q v)) \<noteq> Inl ReauthorizationRequiredError"
  shows "\<exists>request. token_request_of u te ps basic = Inr request \<and> terminal_answer te (fst (client request w))"
proof (cases "token_request_of u te ps basic")
  case (Inl e)
  with assms(1) token_request_errors [of u te ps basic] show ?thesis by (simp add: exchange_def)
next
  case (Inr request)
  obtain outcome v where c: "client request w = (outcome, v)" by fastforce
  have "ebind (read_answer te outcome) (\<lambda>(status, contents).
          ebind (decode_token_body te status contents) (\<lambda>d.
          ethen (check_error_code te status d) (decode_token u te d))) = Inl ReauthorizationRequiredError"
    using assms(1) Inr c by (simp add: exchange_def)
  then obtain status contents d where a: "read_answer te outcome = Inr (status, contents)"
    "decode_token_body te status contents = Inr d" "check_error_code te status d = Inl ReauthorizationRequiredError"
    using assms(3) [of request w] c data_errors_not_reauthorization by (auto simp: ebind_eq_Inl_iff ethen_eq_Inl_iff)
  have "loads_bytes contents = Inr (JObj d)"
    using a(2) by (auto simp: decode_token_body_def ethen_eq_Inr_iff split: sum.splits json.splits)
  with a(1) check_error_terminal [OF a(3) assms(2)] Inr c show ?thesis by (auto simp: terminal_answer_def)
qed

text \<open>The refresh grant: one request to the checked endpoint, the secret where the method wants it.\<close>

lemma refresh_exchange_sound:
  assumes "exchange_refresh_token u (recording_client answer) te client refresh_token [] = (Inr token, sent)"
  shows "token_sound u te token \<and> (\<exists>request all_parameters. sent = [request] \<and> valid_endpoint_url u te = Inr True
    \<and> tq_url request = te_url te
    \<and> tq_basic request = (if cl_method client = CLIENT_SECRET_BASIC then Some (cl_id client, cl_secret client) else None)
    \<and> (tq_body request = JsonBody all_parameters \<or> (\<exists>t. form_text all_parameters = Inr t \<and> tq_body request = FormBody t))
    \<and> dict_get all_parameters (str ''grant_type'') = Some (str ''refresh_token'')
    \<and> dict_get all_parameters (str ''refresh_token'') = Some refresh_token
    \<and> dict_get all_parameters (str ''client_secret'') =
        (if cl_method client = CLIENT_SECRET_POST then Some (cl_secret client) else None))"
proof -
  let ?grant = "[(str ''grant_type'', str ''refresh_token''), (str ''refresh_token'', refresh_token)]"
  obtain ps basic where auth: "apply_client_authentication ?grant client True = Inr (ps, basic)"
    and ex: "exchange u (recording_client answer) te ps basic [] = (Inr token, sent)"
    using assms by (auto simp: exchange_refresh_token_def sbind_eq_Inr_iff split: if_splits)
  obtain request where r: "token_request_of u te ps basic = Inr request" "sent = [request]" "token_sound u te token"
    using exchange_sends [OF ex] by auto
  have ps: "dict_get ps (str ''grant_type'') = Some (str ''refresh_token'')" "dict_get ps (str ''refresh_token'') = Some refresh_token"
    "dict_get ps (str ''client_secret'') = (if cl_method client = CLIENT_SECRET_POST then Some (cl_secret client) else None)"
    "map_option (\<lambda>c. (cl_id c, cl_secret c)) basic
      = (if cl_method client = CLIENT_SECRET_BASIC then Some (cl_id client, cl_secret client) else None)"
    using auth by (auto simp: apply_client_authentication_def dict_get_set split: if_splits)
  have f: "str ''grant_type'' \<in> set grant_request_fields" "str ''refresh_token'' \<in> set grant_request_fields"
    "str ''client_secret'' \<in> set grant_request_fields"
    by (simp_all add: grant_request_fields_def)
  from r(1) show ?thesis
    by (rule token_request_Inr) (use r(2,3) ps f in \<open>auto intro!: exI\<close>)
qed

end
