(* ===== verification/GrantRules.thy ===== *)
theory GrantRules
  imports OAuthToken
begin

text \<open>
  The rules a manifest declares for token grants (\<open>oauthtoken/manifest_refresh.py\<close>): Go durations,
  Go white space, mail addresses, the expiry claim of a JWT access token, the nesting bound on its
  payload, provider URLs in token responses, exchange timeouts and scope lists.
  \<open>decimal\<close> is the value of a Unicode decimal digit, which \<open>\\d\<close> and \<open>int()\<close> accept.
\<close>

section \<open>Durations\<close>

type_synonym decimal_table = "nat \<Rightarrow> int option"

definition ascii_decimal :: decimal_table where
  "ascii_decimal c = (if is_digit c then Some (int c - 48) else None)"

definition unit_table :: "(pystr \<times> int) list" where
  "unit_table =
     [(str ''ns'', 1), (str ''us'', 1000), ([181, 115], 1000), ([956, 115], 1000), (str ''ms'', 1000000),
      (str ''s'', 1000000000), (str ''m'', 60000000000), (str ''h'', 3600000000000)]"

definition take_unit :: "pystr \<Rightarrow> (int \<times> pystr) option" where
  "take_unit s =
     map_option (\<lambda>(name, ns). (ns, drop (length name) s)) (find (\<lambda>(name, _). prefix name s) unit_table)"

text \<open>\<open>\\d+(\\.\\d*)?|\\.\\d+\<close>: whole digits, fraction digits and the rest.\<close>

definition take_decimal :: "decimal_table \<Rightarrow> pystr \<Rightarrow> (pystr \<times> pystr \<times> pystr) option" where
  "take_decimal decimal s =
     (let is_dec = (\<lambda>c. decimal c \<noteq> None); whole = takeWhile is_dec s; rest = dropWhile is_dec s in
      if whole \<noteq> []
      then (case rest of
          [] \<Rightarrow> Some (whole, [], [])
        | c # r \<Rightarrow> if c = 46 then Some (whole, takeWhile is_dec r, dropWhile is_dec r) else Some (whole, [], rest))
      else (case rest of
          [] \<Rightarrow> None
        | c # r \<Rightarrow> if c = 46 \<and> takeWhile is_dec r \<noteq> [] then Some ([], takeWhile is_dec r, dropWhile is_dec r) else None))"

definition decimal_value :: "decimal_table \<Rightarrow> pystr \<Rightarrow> exc + int" where
  "decimal_value decimal s =
     (if length s \<le> 4300 then ret (foldl (\<lambda>n c. n * 10 + the (decimal c)) 0 s)
      else raise (ValueError (str ''Exceeds the limit (4300 digits) for integer string conversion'')))"

definition take_part :: "decimal_table \<Rightarrow> pystr \<Rightarrow> (pystr \<times> pystr \<times> int \<times> pystr) option" where
  "take_part decimal s =
     (case take_decimal decimal s of
        None \<Rightarrow> None
      | Some (whole, fraction, rest) \<Rightarrow> map_option (\<lambda>(ns, r). (whole, fraction, ns, r)) (take_unit rest))"

lemma take_unit_shorter: "take_unit s = Some (ns, r) \<Longrightarrow> length r < length s"
  by (auto simp: take_unit_def unit_table_def find_Some_iff nth_Cons' split: if_splits dest: prefix_length_le)

lemma take_decimal_le: "take_decimal decimal s = Some (a, b, r) \<Longrightarrow> length r \<le> length s"
proof -
  have "length (dropWhile p t) \<le> length t" for p and t :: pystr by (rule length_dropWhile_le)
  then show "take_decimal decimal s = Some (a, b, r) \<Longrightarrow> length r \<le> length s"
    by (auto simp: take_decimal_def Let_def split: if_splits list.splits)
      (metis (no_types, lifting) length_Cons le_SucI le_trans)+
qed

lemma take_part_shorter: "take_part decimal s = Some (a, b, ns, r) \<Longrightarrow> length r < length s"
  by (auto simp: take_part_def split: option.splits dest!: take_decimal_le take_unit_shorter)

definition bad_duration :: exc where
  "bad_duration = ValueError (str ''manifest grant duration is invalid'')"

function parse_parts :: "decimal_table \<Rightarrow> int \<Rightarrow> pystr \<Rightarrow> exc + int" where
  "parse_parts decimal total_ns s =
     (if s = [] then ret total_ns
      else case take_part decimal s of
          None \<Rightarrow> raise bad_duration
        | Some (whole, fraction, unit_ns, rest) \<Rightarrow>
          ebind (decimal_value decimal whole) (\<lambda>w.
          ebind (decimal_value decimal fraction) (\<lambda>f.
            parse_parts decimal (total_ns + w * unit_ns + f * unit_ns div 10 ^ length fraction) rest)))"
  by pat_completeness auto
termination
  by (relation "measure (\<lambda>(_, _, s). length s)") (auto dest: take_part_shorter)

declare parse_parts.simps [simp del]

definition parse_duration :: "decimal_table \<Rightarrow> pystr \<Rightarrow> exc + timedelta" where
  "parse_duration decimal s =
     (if s \<in> {[], str ''0'', str ''+0'', str ''-0''} then ret 0
      else
        let negative = (hd s = 45); body = (if hd s \<in> {43, 45} then tl s else s) in
        ebind (parse_parts decimal 0 body) (\<lambda>total_ns.
          if total_ns > (if negative then 2 ^ 63 else 2 ^ 63 - 1) then raise bad_duration
          else ret ((if negative then - 1 else 1) * (total_ns div 1000))))"

section \<open>Text rules\<close>

definition is_go_space :: "nat \<Rightarrow> bool" where
  "is_go_space c \<longleftrightarrow> c = 0x20 \<or> (0x09 \<le> c \<and> c \<le> 0x0D) \<or> c \<in> {0x85, 0xA0, 0x1680} \<or> (0x2000 \<le> c \<and> c \<le> 0x200A)
     \<or> c \<in> {0x2028, 0x2029, 0x202F, 0x205F, 0x3000}"

definition trim_go_space :: "pystr \<Rightarrow> pystr" where
  "trim_go_space = strip_by is_go_space"

definition is_atom_char :: "nat \<Rightarrow> bool" where
  "is_atom_char c \<longleftrightarrow> \<not> (0xD800 \<le> c \<and> c \<le> 0xDFFF)
     \<and> (0x80 \<le> c \<or> (0x21 \<le> c \<and> c \<le> 0x7E \<and> c \<notin> set (str ''()<>[]:;@'') \<and> c \<notin> {92, 44, 34}))"

definition is_atom :: "pystr \<Rightarrow> bool" where
  "is_atom s \<longleftrightarrow> s \<noteq> [] \<and> hd s \<noteq> 46 \<and> last s \<noteq> 46 \<and> \<not> contains (str ''..'') s \<and> list_all is_atom_char s"

definition is_go_mail_address :: "pystr \<Rightarrow> bool" where
  "is_go_mail_address s =
     (case split_on 64 s of
        [local_part, domain] \<Rightarrow>
          is_atom local_part
          \<and> (if take 1 domain = [91] \<and> domain \<noteq> [] \<and> last domain = 93
             then 37 \<notin> set domain \<and> ip_address (butlast (tl domain)) \<noteq> None
             else is_atom domain)
      | _ \<Rightarrow> False)"

section \<open>The expiry of a JWT access token\<close>

text \<open>Depth and string state of the scan; \<open>None\<close> is an early refusal.\<close>

fun depth_step :: "nat \<Rightarrow> (nat \<times> bool \<times> bool) option \<Rightarrow> (nat \<times> bool \<times> bool) option" where
  "depth_step b None = None"
| "depth_step b (Some (depth, in_string, escaped)) =
     (if in_string
      then Some (depth, escaped \<or> b = 0x5C \<or> b \<noteq> 0x22, \<not> escaped \<and> b = 0x5C)
      else if b = 0x22 then Some (depth, True, escaped)
      else if b \<in> {0x7B, 0x5B} then if 128 \<le> depth then None else Some (Suc depth, False, escaped)
      else if b \<in> {0x7D, 0x5D} then if depth = 0 then None else Some (depth - 1, False, escaped)
      else Some (depth, False, escaped))"

definition has_bounded_json_depth :: "bytes \<Rightarrow> bool" where
  "has_bounded_json_depth payload \<longleftrightarrow> length payload \<le> 16384
     \<and> (case fold depth_step payload (Some (0, False, False)) of
          Some (depth, in_string, _) \<Rightarrow> depth = 0 \<and> \<not> in_string
        | None \<Rightarrow> False)"

definition base64_value :: "nat \<Rightarrow> nat" where
  "base64_value c =
     (if is_upper c then c - 65 else if is_lower c then c - 71 else if is_digit c then c + 4 else if c = 45 then 62 else 63)"

definition is_base64_char :: "nat \<Rightarrow> bool" where
  "is_base64_char c \<longleftrightarrow> is_alnum c \<or> c = 95 \<or> c = 45"

text \<open>\<open>base64.urlsafe_b64decode\<close> of unpadded text over its alphabet; one leftover character is an error.\<close>

definition base64_decode :: "pystr \<Rightarrow> bytes option" where
  "base64_decode s = (if length s mod 4 = 1 then None else Some (base64_bytes (map base64_value s)))"

definition jwt_payload :: "pystr \<Rightarrow> bytes option" where
  "jwt_payload segment =
     (let unpadded = rstrip_by (\<lambda>c. c = 61) segment in
      if \<not> list_all (\<lambda>c. is_base64_char c \<or> c = 13 \<or> c = 10) unpadded then None
      else base64_decode (filter (\<lambda>c. c \<noteq> 13 \<and> c \<noteq> 10) unpadded))"

definition expiry_claim :: "json \<Rightarrow> int option" where
  "expiry_claim claims =
     (case claims of
        JObj d \<Rightarrow>
          (case get_or d (str ''exp'') JNull of
             JInt n \<Rightarrow> if 0 < n \<and> n \<le> 0x7FFFFFFF * 4 then Some n else None
           | JFloat x \<Rightarrow> if float_lt (Fin 0) x \<and> \<not> float_lt (Fin (0x7FFFFFFF * 4)) x then float_to_int x else None
           | _ \<Rightarrow> None)
      | _ \<Rightarrow> None)"

definition read_jwt_expiry_seconds :: "pystr \<Rightarrow> exc + int option" where
  "read_jwt_expiry_seconds token =
     (if token = [] then ret None
      else case utf8_encode token of
          None \<Rightarrow> raise UnicodeError
        | Some encoded \<Rightarrow>
          if 16384 < length encoded then ret None
          else (case split_on 46 token of
              [header, payload_segment, signature] \<Rightarrow>
                (case jwt_payload payload_segment of
                   None \<Rightarrow> ret None
                 | Some payload \<Rightarrow>
                   if \<not> has_bounded_json_depth payload then ret None
                   else (case loads_bytes payload of Inl _ \<Rightarrow> ret None | Inr claims \<Rightarrow> ret (expiry_claim claims)))
            | _ \<Rightarrow> ret None))"

section \<open>Provider URLs in responses\<close>

definition bad_response_url :: exc where
  "bad_response_url = ValueError (str ''response URL is invalid'')"

definition rule_flag :: "jobj \<Rightarrow> string \<Rightarrow> bool" where
  "rule_flag rule name \<longleftrightarrow> truthy (get_or rule (str name) JNull)"

text \<open>\<open>netloc in rule.get("allowedHosts", [])\<close>\<close>

definition host_listed :: "pystr \<Rightarrow> json \<Rightarrow> exc + bool" where
  "host_listed netloc hosts =
     (case hosts of
        JArr xs \<Rightarrow> ret (JStr netloc \<in> set xs)
      | JStr s \<Rightarrow> ret (contains netloc s)
      | JObj d \<Rightarrow> ret (netloc \<in> set (dict_keys d))
      | _ \<Rightarrow> raise (TypeError (str ''argument is not iterable'')))"

definition suffix_matches :: "pystr \<Rightarrow> json \<Rightarrow> exc + bool" where
  "suffix_matches netloc suffix_rule =
     (if \<not> truthy suffix_rule then ret False
      else case suffix_rule of
          JStr s \<Rightarrow> ret (netloc = s \<or> suffix (46 # s) netloc)
        | _ \<Rightarrow> raise (TypeError (str ''can only concatenate str'')))"

definition check_origin :: "jobj \<Rightarrow> split_url \<Rightarrow> pystr \<Rightarrow> int option \<Rightarrow> bool \<Rightarrow> bool" where
  "check_origin rule parsed host port loopback \<longleftrightarrow>
     host \<noteq> [] \<and> url_username parsed = None \<and> url_password parsed = None \<and> url_path parsed \<in> {[], str ''/''}
     \<and> url_query parsed = [] \<and> url_fragment parsed = []
     \<and> (url_scheme parsed = str ''https'' \<or> rule_flag rule ''allowLoopback'' \<and> loopback \<and> url_scheme parsed = str ''http'')
     \<and> \<not> (rule_flag rule ''forbidPort'' \<and> port \<noteq> None)"

definition origin_allowed :: "jobj \<Rightarrow> split_url \<Rightarrow> bool \<Rightarrow> exc + bool" where
  "origin_allowed rule parsed loopback =
     (if rule_flag rule ''allowAnyHTTPS'' \<and> url_scheme parsed = str ''https'' \<or> rule_flag rule ''allowLoopback'' \<and> loopback
      then ret True
      else ebind (host_listed (url_netloc parsed) (get_or rule (str ''allowedHosts'') (JArr []))) (\<lambda>listed.
        if listed then ret True
        else suffix_matches (url_netloc parsed) (get_or rule (str ''allowedHostSuffix'') (JStr []))))"

definition validate_response_url :: "pystr \<Rightarrow> jobj \<Rightarrow> exc + pystr" where
  "validate_response_url text_value rule =
     (if \<not> (prefix (str ''https://'') text_value \<or> prefix (str ''http://'') text_value)
         \<or> \<not> list_all is_printable text_value \<or> 63 \<in> set text_value \<or> 35 \<in> set text_value
      then raise bad_response_url
      else
        (case ebind (urlsplit ascii_unicode text_value) (\<lambda>parsed. ebind (url_port parsed) (\<lambda>port. ret (parsed, port))) of
           Inl e \<Rightarrow> if is_ValueError e then raise bad_response_url else raise e
         | Inr (parsed, port) \<Rightarrow>
           let host = opt_text (url_hostname ascii_unicode parsed); loopback = host_is_loopback host in
           if \<not> check_origin rule parsed host port loopback then raise bad_response_url
           else ebind (origin_allowed rule parsed loopback) (\<lambda>allowed.
             if allowed then ret (rstrip_by (\<lambda>c. c = 47) text_value) else raise bad_response_url)))"

definition is_valid_response_url :: "pystr \<Rightarrow> jobj \<Rightarrow> exc + bool" where
  "is_valid_response_url text_value rule =
     (case validate_response_url text_value rule of
        Inr _ \<Rightarrow> ret True
      | Inl e \<Rightarrow> if is_ValueError e then ret False else raise e)"

section \<open>Settings\<close>

datatype setting = TextSetting pystr | IntSetting int

type_synonym settings = "(pystr, setting) dict"

text \<open>\<open>self._settings.get(key)\<close>: a list or a dict is no key.\<close>

definition setting_at :: "settings \<Rightarrow> json \<Rightarrow> exc + setting option" where
  "setting_at st key =
     (case key of
        JStr s \<Rightarrow> ret (dict_get st s)
      | JArr _ \<Rightarrow> raise (TypeError (str ''unhashable type''))
      | JObj _ \<Rightarrow> raise (TypeError (str ''unhashable type''))
      | _ \<Rightarrow> ret None)"

definition setting_text :: "setting option \<Rightarrow> pystr" where
  "setting_text v = (case v of Some (TextSetting s) \<Rightarrow> s | Some (IntSetting n) \<Rightarrow> int_text n | None \<Rightarrow> [])"

definition setting_json :: "setting option \<Rightarrow> json" where
  "setting_json v = (case v of Some (TextSetting s) \<Rightarrow> JStr s | Some (IntSetting n) \<Rightarrow> JInt n | None \<Rightarrow> JNull)"

definition bad_timeout :: exc where
  "bad_timeout = ValueError (str ''manifest tokenExchangeTimeout must resolve to a positive duration at most 1h'')"

text \<open>\<open>declaration / 1_000_000_000\<close> of an int overflows beyond the largest float.\<close>

definition declared_seconds :: "decimal_table \<Rightarrow> json \<Rightarrow> exc + pyfloat" where
  "declared_seconds decimal declaration =
     (case declaration of
        JInt n \<Rightarrow> (case fl (of_int n / 1000000000) of Fin x \<Rightarrow> ret (Fin x) | _ \<Rightarrow> raise OverflowError)
      | JStr s \<Rightarrow> ebind (parse_duration decimal s) (\<lambda>d. ret (total_seconds d))
      | _ \<Rightarrow> ret (Fin 0))"

definition token_exchange_timeout_seconds :: "decimal_table \<Rightarrow> settings \<Rightarrow> json \<Rightarrow> exc + pyfloat option" where
  "token_exchange_timeout_seconds decimal st declaration =
     (if declaration \<in> {JNull, JStr []} then ret None
      else
        ebind (case declaration of
            JObj d \<Rightarrow>
              if set (dict_keys d) = {str ''fromSetting''}
              then ebind (setting_at st (get_or d (str ''fromSetting'') JNull)) (\<lambda>v. ret (setting_json v))
              else ret declaration
          | _ \<Rightarrow> ret declaration) (\<lambda>resolved.
        ebind (declared_seconds decimal resolved) (\<lambda>t.
          if \<not> is_finite t \<or> \<not> float_lt (Fin 0) t \<or> float_lt (Fin 3600) t then raise bad_timeout else ret (Some t))))"

definition split_space :: "pystr \<Rightarrow> pystr list" where
  "split_space s = filter (\<lambda>w. w \<noteq> []) (split_on 32 (map (\<lambda>c. if is_space c then 32 else c) s))"

definition scopes_of :: "settings \<Rightarrow> json \<Rightarrow> exc + pystr list" where
  "scopes_of st source =
     (case source of
        JArr xs \<Rightarrow> ret (map py_str xs)
      | JObj d \<Rightarrow> (case dict_get d (str ''fromSetting'') of
            Some name \<Rightarrow> ebind (setting_at st name) (\<lambda>v. ret (split_space (setting_text v)))
          | None \<Rightarrow> ret [])
      | _ \<Rightarrow> ret [])"

section \<open>Properties\<close>

subsection \<open>Durations\<close>

text \<open>A table of decimal digits gives each digit a value below ten.\<close>

definition decimal_ok :: "decimal_table \<Rightarrow> bool" where
  "decimal_ok decimal \<longleftrightarrow> (\<forall>c n. decimal c = Some n \<longrightarrow> 0 \<le> n \<and> n \<le> 9)"

lemma ascii_decimal_ok: "decimal_ok ascii_decimal"
  by (auto simp: decimal_ok_def ascii_decimal_def is_digit_def)

lemma decimal_value_nonneg:
  assumes "decimal_ok decimal" "list_all (\<lambda>c. decimal c \<noteq> None) s" "decimal_value decimal s = Inr n"
  shows "0 \<le> n"
proof -
  have "0 \<le> foldl (\<lambda>n c. n * 10 + the (decimal c)) a s" if "0 \<le> a" for a
    using assms(1,2) that
  proof (induction s arbitrary: a)
    case (Cons c s)
    then have "0 \<le> the (decimal c)" by (auto simp: decimal_ok_def)
    with Cons show ?case by simp
  qed simp
  then show ?thesis using assms(3) by (auto simp: decimal_value_def split: if_splits)
qed

lemma take_decimal_digits:
  "take_decimal decimal s = Some (whole, fraction, rest) \<Longrightarrow>
     list_all (\<lambda>c. decimal c \<noteq> None) whole \<and> list_all (\<lambda>c. decimal c \<noteq> None) fraction"
  by (auto simp: take_decimal_def Let_def list_all_iff split: list.splits if_splits dest: set_takeWhileD)

lemma take_part_sound:
  assumes "take_part decimal s = Some (whole, fraction, ns, rest)"
  shows "list_all (\<lambda>c. decimal c \<noteq> None) whole" "list_all (\<lambda>c. decimal c \<noteq> None) fraction" "0 < ns"
  using assms take_decimal_digits [of decimal s]
  by (auto simp: take_part_def take_unit_def unit_table_def split: option.splits if_splits)

lemma parse_parts_mono:
  "decimal_ok decimal \<Longrightarrow> parse_parts decimal acc s = Inr n \<Longrightarrow> acc \<le> n"
proof (induction decimal acc s rule: parse_parts.induct)
  case (1 decimal acc s)
  show ?case
  proof (cases "s = []")
    case True
    with 1(3) show ?thesis by (simp add: parse_parts.simps)
  next
    case False
    obtain whole fraction ns rest w f where p: "take_part decimal s = Some (whole, fraction, ns, rest)"
      "decimal_value decimal whole = Inr w" "decimal_value decimal fraction = Inr f"
      "parse_parts decimal (acc + w * ns + f * ns div 10 ^ length fraction) rest = Inr n"
      using 1(3) False by (subst (asm) parse_parts.simps) (auto simp: ebind_eq_Inr_iff split: option.splits)
    have "acc + w * ns + f * ns div 10 ^ length fraction \<le> n"
      using 1(1) [OF False p(1) refl refl refl 1(2) p(4)] .
    moreover have "0 \<le> w * ns" "0 \<le> f * ns div 10 ^ length fraction"
      using take_part_sound [OF p(1)] decimal_value_nonneg [OF 1(2) _ p(2)] decimal_value_nonneg [OF 1(2) _ p(3)]
      by (simp_all add: pos_imp_zdiv_nonneg_iff)
    ultimately show ?thesis by linarith
  qed
qed

text \<open>A duration is a signed number of nanoseconds in 64 bits, cut to microseconds.\<close>

lemma parse_duration_range:
  assumes "decimal_ok decimal" "parse_duration decimal s = Inr d"
  shows "- (2 ^ 63 div 1000) \<le> d \<and> d \<le> (2 ^ 63 - 1) div 1000"
proof (cases "s \<in> {[], str ''0'', str ''+0'', str ''-0''}")
  case True
  with assms(2) show ?thesis by (auto simp: parse_duration_def)
next
  case False
  define negative where "negative = (hd s = 45)"
  obtain acc where t: "parse_parts decimal 0 (if hd s \<in> {43, 45} then tl s else s) = Inr acc"
    "\<not> (if negative then 2 ^ 63 else 2 ^ 63 - 1) < acc" "d = (if negative then - 1 else 1) * (acc div 1000)"
    using assms(2) False by (auto simp: parse_duration_def ebind_eq_Inr_iff Let_def negative_def split: if_splits)
  have "0 \<le> acc" by (rule parse_parts_mono [OF assms(1) t(1)])
  then have "0 \<le> acc div 1000" by (simp add: pos_imp_zdiv_nonneg_iff)
  moreover have "acc div 1000 \<le> (if negative then 2 ^ 63 else 2 ^ 63 - 1) div 1000"
    using t(2) by (intro zdiv_mono1) (auto split: if_splits)
  ultimately show ?thesis using t(3) by (auto split: if_splits)
qed

lemma ascii_foldl: "list_all is_digit s \<Longrightarrow>
  foldl (\<lambda>n c. n * 10 + the (ascii_decimal c)) a s = foldl (\<lambda>n c. 10 * n + int (c - 48)) a s"
  by (induction s arbitrary: a) (auto simp: ascii_decimal_def is_digit_def of_nat_diff mult.commute)

lemma decimal_value_digits:
  assumes "0 \<le> n" "n < 10 ^ 20"
  shows "decimal_value ascii_decimal (digits n) = Inr n"
proof -
  have "length (digits n) \<le> Suc 19" using assms by (intro length_digits) simp_all
  then show ?thesis
    using ascii_foldl [OF digits_is_digit [OF assms(1)]] digits_value_digits [OF assms(1)]
    by (simp add: decimal_value_def digits_value_def)
qed

text \<open>One printed component.\<close>

lemma unit_table_codes:
  "unit_table = [([110, 115], 1), ([117, 115], 1000), ([181, 115], 1000), ([956, 115], 1000), ([109, 115], 1000000),
     ([115], 1000000000), ([109], 60000000000), ([104], 3600000000000)]"
  by (simp add: unit_table_def str_def)

lemma take_unit_printed:
  "take_unit (str ''h'' @ rest) = Some (3600000000000, rest)"
  "rest = [] \<or> is_digit (hd rest) \<Longrightarrow> take_unit (str ''m'' @ rest) = Some (60000000000, rest)"
  "take_unit (str ''s'' @ rest) = Some (1000000000, rest)"
proof -
  show "take_unit (str ''m'' @ rest) = Some (60000000000, rest)" if "rest = [] \<or> is_digit (hd rest)"
    using that by (cases rest) (simp_all add: take_unit_def unit_table_codes str_def is_digit_def)
qed (simp_all add: take_unit_def unit_table_codes str_def)

lemma take_part_digits:
  assumes "0 \<le> n" "(u, ns) \<in> set [(str ''h'', 3600000000000), (str ''m'', 60000000000), (str ''s'', 1000000000)]"
    and "rest = [] \<or> is_digit (hd rest)"
  shows "take_part ascii_decimal (digits n @ u @ rest) = Some (digits n, [], ns, rest)"
proof -
  have d: "list_all (\<lambda>c. ascii_decimal c \<noteq> None) (digits n)"
    using digits_is_digit [OF assms(1)] by (simp add: ascii_decimal_def list_all_iff)
  obtain c t where u: "u @ rest = c # t" "ascii_decimal c = None" "c \<noteq> 46"
    using assms(2) by (auto simp: ascii_decimal_def is_digit_def str_def)
  have span: "takeWhile (\<lambda>c. ascii_decimal c \<noteq> None) (digits n @ c # t) = digits n"
    "dropWhile (\<lambda>c. ascii_decimal c \<noteq> None) (digits n @ c # t) = c # t"
    using d u(2) by (auto simp: list_all_iff takeWhile_append dropWhile_append)
  have "take_decimal ascii_decimal (digits n @ u @ rest) = Some (digits n, [], u @ rest)"
    unfolding u(1) using span u(3) by (simp add: take_decimal_def Let_def)
  moreover have "take_unit (u @ rest) = Some (ns, rest)"
    using assms(2,3) take_unit_printed [of rest] by auto
  ultimately show ?thesis by (simp add: take_part_def)
qed

lemma parse_parts_digits:
  assumes "0 \<le> n" "n < 10 ^ 20"
    and "(u, ns) \<in> set [(str ''h'', 3600000000000), (str ''m'', 60000000000), (str ''s'', 1000000000)]"
    and "rest = [] \<or> is_digit (hd rest)"
  shows "parse_parts ascii_decimal acc (digits n @ u @ rest) = parse_parts ascii_decimal (acc + n * ns) rest"
proof -
  have empty: "decimal_value ascii_decimal [] = Inr 0" by (simp add: decimal_value_def)
  have "u \<noteq> []" using assms(3) by auto
  then show ?thesis
    using take_part_digits [OF assms(1,3,4)] decimal_value_digits [OF assms(1,2)] empty
    by (subst parse_parts.simps) simp
qed

text \<open>The text Go gives a whole number of seconds reads back.\<close>

definition go_duration_text :: "int \<Rightarrow> int \<Rightarrow> int \<Rightarrow> pystr" where
  "go_duration_text hours mins secs = digits hours @ str ''h'' @ digits mins @ str ''m'' @ digits secs @ str ''s''"

lemma digits_not_sign: "0 \<le> n \<Longrightarrow> hd (digits n @ s) \<notin> {43, 45}"
  using digits_is_digit [of n] by (cases "digits n") (auto simp: is_digit_def)

lemma hd_digits_digit: "0 \<le> n \<Longrightarrow> is_digit (hd (digits n))"
  using digits_is_digit [of n] by (cases "digits n") auto

lemma go_duration_parses:
  assumes "0 \<le> hours" "0 \<le> mins" "mins < 60" "0 \<le> secs" "secs < 60" "hours < 2562047"
  shows "parse_duration ascii_decimal (go_duration_text hours mins secs) = Inr (seconds (3600 * hours + 60 * mins + secs))"
proof -
  let ?s = "go_duration_text hours mins secs"
  have "parse_parts ascii_decimal 0 ?s
      = Inr (hours * 3600000000000 + mins * 60000000000 + secs * 1000000000)"
    using assms parse_parts_digits [of hours "str ''h''" 3600000000000 "digits mins @ str ''m'' @ digits secs @ str ''s''" 0]
      parse_parts_digits [of mins "str ''m''" 60000000000 "digits secs @ str ''s''" "hours * 3600000000000"]
      parse_parts_digits [of secs "str ''s''" 1000000000 "[]" "hours * 3600000000000 + mins * 60000000000"]
    by (simp add: go_duration_text_def hd_digits_digit parse_parts.simps [of _ _ "[]"])
  moreover have "hd ?s \<notin> {43, 45}" unfolding go_duration_text_def by (rule digits_not_sign [OF assms(1)])
  moreover have "2 \<le> length ?s" by (simp add: go_duration_text_def)
  moreover have "?s \<noteq> str ''+0''" "?s \<noteq> str ''-0''" using calculation(2) by (auto simp: str_def)
  ultimately show ?thesis
    using assms by (auto simp: parse_duration_def Let_def seconds_def)
qed

subsection \<open>The nesting bound\<close>

text \<open>The nesting of a JSON value, which the scan of its text must find.\<close>

fun json_depth :: "json \<Rightarrow> nat" where
  "json_depth (JArr xs) = Suc (foldr (\<lambda>x n. max (json_depth x) n) xs 0)"
| "json_depth (JObj d) = Suc (foldr (\<lambda>(k, v) n. max (json_depth v) n) d 0)"
| "json_depth _ = 0"

definition at_depth :: "nat \<Rightarrow> (nat \<times> bool \<times> bool) option" where
  "at_depth depth = Some (depth, False, False)"

definition is_neutral :: "nat \<Rightarrow> bool" where
  "is_neutral b \<longleftrightarrow> b \<notin> {0x22, 0x7B, 0x5B, 0x7D, 0x5D}"

lemma scan_neutral: "list_all is_neutral t \<Longrightarrow> fold depth_step t (at_depth depth) = at_depth depth"
  by (induction t) (auto simp: at_depth_def is_neutral_def)

lemma scan_refused [simp]: "fold depth_step t None = None"
  by (induction t) auto

lemma scan_hex: "fold depth_step (hex4_text c) (Some (depth, True, False)) = Some (depth, True, False)"
proof -
  have "fold depth_step (map (\<lambda>d. if d < 10 then 48 + d else 87 + d) ds) (Some (depth, True, False)) = Some (depth, True, False)"
    if "list_all (\<lambda>d. d < 16) ds" for ds :: "nat list"
    using that by (induction ds) auto
  then show ?thesis by (simp add: hex4_text_def)
qed

lemma scan_escape: "fold depth_step (escape_ascii c) (Some (depth, True, False)) = Some (depth, True, False)"
  by (auto simp: escape_ascii_def escape_char_def scan_hex Let_def)

lemma scan_quoted: "fold depth_step (quote_with escape_ascii s) (at_depth depth) = at_depth depth"
proof -
  have "fold depth_step (concat (map escape_ascii s)) (Some (depth, True, False)) = Some (depth, True, False)"
    by (induction s) (simp_all add: scan_escape)
  then show ?thesis by (simp add: quote_with_def at_depth_def)
qed

lemma digits_neutral: "list_all is_neutral (digits n)"
proof (induction n rule: digits.induct)
  case (1 n)
  have "is_neutral (48 + nat k)" if "k < 10" for k using that by (auto simp: is_neutral_def nat_eq_iff)
  then show ?case using 1 by (subst digits.simps) auto
qed

lemma int_text_neutral: "list_all is_neutral (int_text n)"
  by (simp add: int_text_def digits_neutral is_neutral_def [of "numeral _"])

lemma shortest_digits_neutral: "list_all is_neutral (shortest_digits a e m k)"
  by (induction a e m k rule: shortest_digits.induct) (simp_all add: digits_neutral Let_def)

lemma float_text_neutral: "list_all is_neutral (float_text x)"
proof -
  have part: "list_all is_neutral (take n ds)" "list_all is_neutral (drop n ds)" if "list_all is_neutral ds" for n and ds :: pystr
    using that by (auto simp: list_all_iff dest: in_set_takeD in_set_dropD)
  have strip: "list_all is_neutral (rstrip_by p ds)" if "list_all is_neutral ds" for p and ds :: pystr
    using that by (auto simp: list_all_iff rstrip_by_def dest: set_dropWhileD)
  have zeros: "list_all is_neutral (replicate n 48)" for n by (auto simp: list_all_iff is_neutral_def)
  have text_neutral: "list_all is_neutral (str ''e'')" "list_all is_neutral (str ''-'')" "list_all is_neutral (str ''+'')"
    "list_all is_neutral (str ''0'')" "list_all is_neutral (str ''0.'')" "list_all is_neutral (str ''.0'')"
    "list_all is_neutral (str ''0.0'')" "list_all is_neutral (str ''NaN'')" "list_all is_neutral (str ''Infinity'')"
    "list_all is_neutral (str ''-Infinity'')" "is_neutral 46"
    by (simp_all add: str_def is_neutral_def)
  show ?thesis
    by (cases x) (simp_all add: float_text_def float_repr_def Let_def part strip zeros text_neutral shortest_digits_neutral digits_neutral)
qed

definition bounded_scan :: "nat \<Rightarrow> pystr \<Rightarrow> nat \<Rightarrow> bool" where
  "bounded_scan depth t n \<longleftrightarrow> fold depth_step t (at_depth depth) = (if depth + n \<le> 128 then at_depth depth else None)"

lemma scan_comma:
  assumes "bounded_scan depth t n" "bounded_scan depth r m"
  shows "bounded_scan depth (t @ 44 # r) (max n m)"
proof -
  have "depth + max n m \<le> 128 \<longleftrightarrow> depth + n \<le> 128 \<and> depth + m \<le> 128" by auto
  moreover have "depth_step 44 (at_depth depth) = at_depth depth" by (simp add: at_depth_def)
  ultimately show ?thesis using assms by (auto simp: bounded_scan_def)
qed

lemma scan_join:
  assumes "list_all (\<lambda>(t, n). bounded_scan depth t n) items" "depth \<le> 128"
  shows "bounded_scan depth (join_with [44] (map fst items)) (foldr (\<lambda>(t, n). max n) items 0)"
  using assms(1)
proof (induction items rule: induct_list012)
  case 1
  then show ?case using assms(2) by (simp add: bounded_scan_def)
next
  case (2 x)
  then show ?case by (cases x) (simp add: bounded_scan_def)
next
  case (3 x y items)
  obtain t n where x: "x = (t, n)" by fastforce
  have "bounded_scan depth (join_with [44] (map fst (y # items))) (foldr (\<lambda>(t, n). max n) (y # items) 0)"
    using 3 by simp
  with 3(3) x have "bounded_scan depth (t @ 44 # join_with [44] (map fst (y # items)))
      (max n (foldr (\<lambda>(t, n). max n) (y # items) 0))"
    by (intro scan_comma) simp_all
  then show ?case by (simp add: x)
qed

lemma scan_bracket:
  assumes "bounded_scan (Suc depth) t n" "depth \<le> 128" "opening \<in> {0x7B, 0x5B}" "closing \<in> {0x7D, 0x5D}"
  shows "bounded_scan depth ([opening] @ t @ [closing]) (Suc n)"
  using assms by (auto simp: bounded_scan_def at_depth_def)

lemma constants_neutral:
  "list_all is_neutral (str ''null'')" "list_all is_neutral (str ''true'')" "list_all is_neutral (str ''false'')"
  by (simp_all add: str_def is_neutral_def)

lemma scan_print: "depth \<le> 128 \<Longrightarrow> bounded_scan depth (print_with escape_ascii j) (json_depth j)"
proof (induction j arbitrary: depth rule: json_depth.induct)
  case (1 xs)
  show ?case
  proof (cases "depth = 128")
    case True
    then show ?thesis by (simp add: bounded_scan_def at_depth_def)
  next
    case False
    with 1(2) have d: "Suc depth \<le> 128" by simp
    let ?items = "map (\<lambda>x. (print_with escape_ascii x, json_depth x)) xs"
    have "list_all (\<lambda>(t, n). bounded_scan (Suc depth) t n) ?items"
      using 1(1) [OF _ d] by (auto simp: list_all_iff)
    from scan_join [OF this d]
    have "bounded_scan (Suc depth) (join_with [44] (map (print_with escape_ascii) xs)) (foldr (\<lambda>x n. max (json_depth x) n) xs 0)"
      by (simp add: comp_def foldr_map)
    from scan_bracket [OF this 1(2), of 91 93] show ?thesis by simp
  qed
next
  case (2 d)
  show ?case
  proof (cases "depth = 128")
    case True
    then show ?thesis by (simp add: bounded_scan_def at_depth_def)
  next
    case False
    with 2(2) have e: "Suc depth \<le> 128" by simp
    let ?items = "map (\<lambda>(k, v). (quote_with escape_ascii k @ [58] @ print_with escape_ascii v, json_depth v)) d"
    have colon: "depth_step 58 (at_depth n) = at_depth n" for n by (simp add: at_depth_def)
    have "list_all (\<lambda>(t, n). bounded_scan (Suc depth) t n) ?items"
      using 2(1) [OF _ refl e] colon scan_quoted by (auto simp: list_all_iff bounded_scan_def)
    from scan_join [OF this e]
    have "bounded_scan (Suc depth) (join_with [44] (map (\<lambda>(k, v). quote_with escape_ascii k @ [58] @ print_with escape_ascii v) d))
        (foldr (\<lambda>(k, v) n. max (json_depth v) n) d 0)"
      by (simp add: comp_def foldr_map split_def)
    from scan_bracket [OF this 2(2), of 123 125] show ?thesis by simp
  qed
qed (simp_all add: bounded_scan_def scan_quoted scan_neutral float_text_neutral int_text_neutral constants_neutral)

text \<open>The scan accepts a printed value exactly when it is short enough and nested at most 128 deep.\<close>

lemma bounded_depth_printed:
  "has_bounded_json_depth (print_with escape_ascii j)
     \<longleftrightarrow> length (print_with escape_ascii j) \<le> 16384 \<and> json_depth j \<le> 128"
  using scan_print [of 0 j] by (auto simp: has_bounded_json_depth_def bounded_scan_def at_depth_def split: if_splits)

subsection \<open>Reading a signed assertion\<close>

text \<open>Values whose strings have no lone surrogate: what \<open>ensure_ascii\<close> prints reads back.\<close>

fun json_scalar :: "json \<Rightarrow> bool" where
  "json_scalar (JStr s) \<longleftrightarrow> list_all is_scalar s"
| "json_scalar (JArr xs) \<longleftrightarrow> list_all json_scalar xs"
| "json_scalar (JObj d) \<longleftrightarrow> list_all (\<lambda>(k, v). list_all is_scalar k \<and> json_scalar v) d"
| "json_scalar _ \<longleftrightarrow> True"

definition scalar_escape :: "nat \<Rightarrow> pystr" where
  "scalar_escape c = (if is_scalar c then escape_ascii c else escape_char c)"

lemma quote_scalar: "list_all is_scalar s \<Longrightarrow> quote_with escape_ascii s = quote_with scalar_escape s"
proof -
  assume "list_all is_scalar s"
  then have "map escape_ascii s = map scalar_escape s" by (auto simp: scalar_escape_def list_all_iff)
  then show ?thesis by (simp only: quote_with_def)
qed

lemma print_scalar: "json_scalar j \<Longrightarrow> print_with escape_ascii j = print_with scalar_escape j"
proof (induction j)
  case (JArr xs)
  then have "map (print_with escape_ascii) xs = map (print_with scalar_escape) xs" by (auto simp: list_all_iff)
  then show ?case by (simp only: print_with.simps)
next
  case (JObj d)
  then have "map (\<lambda>(k, v). quote_with escape_ascii k @ [58] @ print_with escape_ascii v) d
      = map (\<lambda>(k, v). quote_with scalar_escape k @ [58] @ print_with scalar_escape v) d"
    by (intro map_cong refl) (force simp: list_all_iff quote_scalar)
  then show ?case by (simp only: print_with.simps)
qed (simp_all add: quote_scalar)

lemma parse_surrogates:
  assumes "0x10000 \<le> c" "c < 0x110000"
  shows "parse_string (escape_ascii c @ r) = map_option (\<lambda>(s, t). (c # s, t)) (parse_string r)"
proof -
  define h l where "h = 0xD800 + (c - 0x10000) div 1024" and "l = 0xDC00 + (c - 0x10000) mod 1024"
  have r: "h < 65536" "l < 65536" "is_high h" "is_low l" "0x10000 + (h - 0xD800) * 1024 + (l - 0xDC00) = c"
    using assms by (auto simp: h_def l_def is_high_def is_low_def)
  have e: "escape_ascii c = [92, 117] @ hex4_text h @ [92, 117] @ hex4_text l"
    using assms by (simp add: escape_ascii_def h_def l_def)
  have "unicode_escape (hex4_text h @ [92, 117] @ hex4_text l @ r) = Some (c, r)"
    using r by (simp add: unicode_escape_def hex4_of_text)
  then show ?thesis by (simp add: e)
qed

lemma escape_ok_scalar: "escape_ok scalar_escape"
proof -
  have "parse_string (scalar_escape c @ r) = map_option (\<lambda>(s, t). (c # s, t)) (parse_string r)" for c r
  proof (cases "is_scalar c \<and> 127 \<le> c")
    case True
    then show ?thesis
      using parse_unicode_escape [of c r] parse_surrogates [of c r]
      by (cases "c < 0x10000") (auto simp: scalar_escape_def escape_ascii_def is_scalar_def is_high_def)
  next
    case False
    then have "scalar_escape c = escape_char c" by (auto simp: scalar_escape_def escape_ascii_def)
    then show ?thesis using escape_ok_escape_char by (simp add: escape_ok_def)
  qed
  then show ?thesis by (simp add: escape_ok_def)
qed

lemma escape_ascii_range: "x \<in> set (escape_ascii c) \<Longrightarrow> 0 < x \<and> x < 128"
  using hex4_text_range by (fastforce simp: escape_ascii_def escape_char_def split: if_splits)

lemma scalar_escape_nonzero: "0 \<notin> set (scalar_escape c)"
  using escape_ascii_range [of 0 c] hex4_text_range [of 0 c] by (auto simp: scalar_escape_def escape_char_def)

lemma print_ascii: "json_plain j \<Longrightarrow> list_all (\<lambda>c. c < 128) (print_with escape_ascii j)"
proof -
  assume "json_plain j"
  then have "x \<notin> set (print_with escape_ascii j)" if "128 \<le> x" for x
    by (rule print_notin) (use that escape_ascii_range [of x] in \<open>auto simp: is_digit_def is_lower_def\<close>)
  then show ?thesis unfolding list_all_iff using not_le by blast
qed

lemma loads_print_ascii:
  assumes "json_plain j" "json_scalar j"
  shows "loads_bytes (print_with escape_ascii j) = Inr j"
  using utf8_encode_ascii [OF print_ascii [OF assms(1)]] unfolding print_scalar [OF assms(2)]
  by (rule loads_bytes_print [OF escape_ok_scalar assms(1) scalar_escape_nonzero])

lemma base64_value_char: "v < 64 \<Longrightarrow> base64_value (base64_char v) = v"
  by (auto simp: base64_value_def base64_char_def is_upper_def is_lower_def is_digit_def)

lemma base64_char_class: "is_base64_char (base64_char v)"
  by (auto simp: is_base64_char_def base64_char_def is_alnum_def is_alpha_def is_upper_def is_lower_def is_digit_def)

lemma base64_units_length: "length (base64_units b) mod 4 \<noteq> 1"
  by (induction b rule: base64_units.induct) auto

lemma base64_units_longer: "length b \<le> length (base64_units b)"
  by (induction b rule: base64_units.induct) auto

lemma base64_text_chars: "list_all is_base64_char (base64_text b)"
  by (simp add: base64_text_def list_all_iff base64_char_class)

lemma base64_decode_text:
  assumes "list_all (\<lambda>c. c < 256) b"
  shows "base64_decode (base64_text b) = Some b"
proof -
  have "map base64_value (base64_text b) = base64_units b"
    using base64_units_range [OF assms] by (simp add: base64_text_def list_all_iff base64_value_char map_idI)
  then show ?thesis
    using base64_units_bytes [OF assms] base64_units_length [of b] by (simp add: base64_decode_def base64_text_def)
qed

lemma rstrip_by_none: "list_all (\<lambda>c. \<not> p c) s \<Longrightarrow> rstrip_by p s = s"
  by (cases s rule: rev_cases) (auto simp: rstrip_by_def list_all_iff)

lemma jwt_payload_text:
  assumes "list_all (\<lambda>c. c < 256) b"
  shows "jwt_payload (base64_text b) = Some b"
proof -
  have c: "is_base64_char x \<Longrightarrow> x \<noteq> 61 \<and> x \<noteq> 13 \<and> x \<noteq> 10" for x
    by (auto simp: is_base64_char_def is_alnum_def is_alpha_def is_upper_def is_lower_def is_digit_def)
  have "rstrip_by (\<lambda>c. c = 61) (base64_text b) = base64_text b"
    using base64_text_chars [of b] c by (intro rstrip_by_none) (auto simp: list_all_iff)
  moreover have "filter (\<lambda>c. c \<noteq> 13 \<and> c \<noteq> 10) (base64_text b) = base64_text b"
    using base64_text_chars [of b] c by (auto simp: list_all_iff filter_id_conv)
  ultimately show ?thesis
    using base64_text_chars [of b] base64_decode_text [OF assms] by (simp add: jwt_payload_def list_all_iff)
qed

text \<open>
  The expiry read from the middle segment of an assertion is the claim that was signed, if the
  token and its payload are within the bounds.
\<close>

lemma base64_text_ascii: "list_all (\<lambda>c. c < 128 \<and> c \<noteq> 46) (base64_text b)"
  using base64_text_chars [of b]
  by (auto simp: list_all_iff is_base64_char_def is_alnum_def is_alpha_def is_upper_def is_lower_def is_digit_def)

lemma jwt_claims_exp:
  assumes "jwt_claims a = Inr d" "list_all is_scalar (ja_issuer a)" "list_all is_scalar (ja_audience a)"
    and "list_all is_scalar (ja_subject a)" "list_all is_scalar (ja_scope a)"
  shows "get_or d (str ''exp'') JNull = JInt (unix_seconds (dt_instant (ja_issued_at a) + ja_lifetime a))"
    "json_plain (JObj d)" "json_scalar (JObj d)" "json_depth (JObj d) \<le> 128"
proof -
  let ?e = "unix_seconds (dt_instant (ja_issued_at a) + ja_lifetime a)"
  have k: "list_all is_scalar (str ''aud'')" "list_all is_scalar (str ''exp'')" "list_all is_scalar (str ''iat'')"
    "list_all is_scalar (str ''iss'')" "list_all is_scalar (str ''scope'')" "list_all is_scalar (str ''sub'')"
    by (simp_all add: str_def is_scalar_def)
  have d: "d = [(str ''aud'', JStr (ja_audience a)), (str ''exp'', JInt ?e),
      (str ''iat'', JInt (unix_seconds (dt_instant (ja_issued_at a)))), (str ''iss'', JStr (ja_issuer a))]
      @ (if ja_scope a \<noteq> [] then [(str ''scope'', JStr (ja_scope a))] else [])
      @ (if ja_subject a \<noteq> [] then [(str ''sub'', JStr (ja_subject a))] else [])"
    using assms(1) by (simp add: jwt_claims_def Let_def ethen_eq_Inr_iff)
  show "get_or d (str ''exp'') JNull = JInt ?e" by (simp add: d get_or_def)
  show "json_plain (JObj d)" by (simp add: d dict_ok_def dict_keys_def)
  show "json_scalar (JObj d)" using assms(2-5) k by (simp add: d)
  show "json_depth (JObj d) \<le> 128" by (simp add: d)
qed

lemma signed_expiry_read:
  assumes "sign_jwt_bearer_assertion sign a = Inr token" "length token \<le> 16384"
    and "list_all is_scalar (ja_issuer a)" "list_all is_scalar (ja_audience a)"
    and "list_all is_scalar (ja_subject a)" "list_all is_scalar (ja_scope a)"
    and "0 < unix_seconds (dt_instant (ja_issued_at a) + ja_lifetime a)"
    and "unix_seconds (dt_instant (ja_issued_at a) + ja_lifetime a) \<le> 0x7FFFFFFF * 4"
  shows "read_jwt_expiry_seconds token = Inr (Some (unix_seconds (dt_instant (ja_issued_at a) + ja_lifetime a)))"
proof -
  let ?e = "unix_seconds (dt_instant (ja_issued_at a) + ja_lifetime a)"
  obtain d h g where d: "jwt_claims a = Inr d" and t: "token = base64_text h @ [46] @ encode_segment d @ [46] @ base64_text g"
    using assms(1)
    by (auto simp: sign_jwt_bearer_assertion_def ebind_eq_Inr_iff Let_def encode_segment_def split: if_splits)
  let ?p = "print_with escape_ascii (JObj d)"
  note c = jwt_claims_exp [OF d assms(3-6)]
  have p: "list_all (\<lambda>c. c < 128) ?p" by (rule print_ascii [OF c(2)])
  have "list_all (\<lambda>c. c < 128) token"
    using base64_text_ascii unfolding t encode_segment_def by (auto simp: list_all_iff)
  then have enc: "utf8_encode token = Some token" by (rule utf8_encode_ascii)
  have segs: "split_on 46 token = [base64_text h, encode_segment d, base64_text g]"
  proof -
    have n: "46 \<notin> set (base64_text b)" for b using base64_text_ascii [of b] by (auto simp: list_all_iff)
    show ?thesis using n by (simp add: t encode_segment_def split_on_append_delim split_on_no_delim)
  qed
  have payload: "jwt_payload (encode_segment d) = Some ?p"
    unfolding encode_segment_def by (rule jwt_payload_text) (use p in \<open>auto simp: list_all_iff\<close>)
  have "length ?p \<le> length (base64_text ?p)"
    unfolding base64_text_def length_map by (rule base64_units_longer)
  then have "length ?p \<le> 16384" using assms(2) by (simp add: t encode_segment_def)
  then have bounded: "has_bounded_json_depth ?p" using c(4) by (simp add: bounded_depth_printed del: print_with.simps json_depth.simps)
  have "token \<noteq> []" by (simp add: t)
  then show ?thesis
    using enc segs payload bounded loads_print_ascii [OF c(2,3)] c(1) assms(2,7,8)
    by (simp add: read_jwt_expiry_seconds_def expiry_claim_def del: print_with.simps)
qed

end
