(* ===== verification/Grants.thy ===== *)
theory Grants
  imports GrantRules
begin

text \<open>
  The grants of a connector manifest (\<open>oauthtoken/manifest_refresh.py\<close>): the declarations under
  \<open>oauth2\<close>, \<open>clientCredentials\<close> and \<open>serviceAccount.jwtBearer\<close> read into one record each, and the
  checks of the driver's constructor and of \<open>_validate_grant\<close>.

  A manifest value is JSON; what the source does with a value of another shape (a missing key, a
  \<open>get\<close> on a string) is the exception Python raises.  \<open>rx_compiles\<close> and \<open>rx_fullmatch\<close> stand for
  the regular expressions a manifest may carry.
\<close>

section \<open>Reading JSON\<close>

definition attribute_error :: exc where
  "attribute_error = AttributeError"

text \<open>\<open>j.get(name, default)\<close>\<close>

definition jget :: "json \<Rightarrow> string \<Rightarrow> json \<Rightarrow> exc + json" where
  "jget j name fallback = (case j of JObj d \<Rightarrow> ret (get_or d (str name) fallback) | _ \<Rightarrow> raise attribute_error)"

text \<open>\<open>j[name]\<close>\<close>

definition jitem :: "json \<Rightarrow> string \<Rightarrow> exc + json" where
  "jitem j name =
     (case j of
        JObj d \<Rightarrow> (case dict_get d (str name) of Some v \<Rightarrow> ret v | None \<Rightarrow> raise KeyError)
      | _ \<Rightarrow> raise (TypeError (str ''value is not subscriptable by a name'')))"

text \<open>\<open>for x in j\<close>\<close>

definition jiter :: "json \<Rightarrow> exc + json list" where
  "jiter j =
     (case j of
        JArr xs \<Rightarrow> ret xs
      | JObj d \<Rightarrow> ret (map JStr (dict_keys d))
      | JStr s \<Rightarrow> ret (map (\<lambda>c. JStr [c]) s)
      | _ \<Rightarrow> raise (TypeError (str ''object is not iterable'')))"

text \<open>\<open>a or b\<close>, and \<open>any\<close> and \<open>all\<close> with their short circuits.\<close>

definition or_else :: "json \<Rightarrow> json \<Rightarrow> json" where
  "or_else a b = (if truthy a then a else b)"

fun eany :: "('a \<Rightarrow> exc + bool) \<Rightarrow> 'a list \<Rightarrow> exc + bool" where
  "eany p [] = ret False"
| "eany p (x # xs) = ebind (p x) (\<lambda>b. if b then ret True else eany p xs)"

fun eevery :: "('a \<Rightarrow> exc + bool) \<Rightarrow> 'a list \<Rightarrow> exc + bool" where
  "eevery p [] = ret True"
| "eevery p (x # xs) = ebind (p x) (\<lambda>b. if b then eevery p xs else ret False)"

text \<open>\<open>j in self._fields\<close>: a list or a dict is no key.\<close>

definition field_known :: "(pystr, pystr) dict \<Rightarrow> json \<Rightarrow> exc + bool" where
  "field_known attrs j =
     (case j of
        JStr s \<Rightarrow> ret (s \<in> set (dict_keys attrs))
      | JArr _ \<Rightarrow> raise (TypeError (str ''unhashable type''))
      | JObj _ \<Rightarrow> raise (TypeError (str ''unhashable type''))
      | _ \<Rightarrow> ret False)"

text \<open>\<open>_parse_duration\<close> of a manifest value.\<close>

definition duration_of :: "decimal_table \<Rightarrow> json \<Rightarrow> exc + timedelta" where
  "duration_of decimal j =
     (if \<not> truthy j then ret 0 else case j of JStr s \<Rightarrow> parse_duration decimal s | _ \<Rightarrow> raise attribute_error)"

section \<open>Grants\<close>

datatype grant_kind = RefreshGrant | ClientCredentialsGrant | JwtBearerGrant

text \<open>A member that a kind of grant does not have is \<open>JNull\<close> and is not read for that kind.\<close>

record grant =
  g_kind :: grant_kind
  g_endpoint :: json
  g_network_policy :: json
  g_authentication :: json
  g_encoding :: json
  g_client_id :: json
  g_trim_client_id :: json
  g_client_secret :: json
  g_allows_public_client :: json
  g_refresh_field :: json
  g_key_credential :: json
  g_assertion :: json
  g_mappings :: json
  g_copies :: json
  g_scopes :: json
  g_request_scopes :: json
  g_accepted_scope_sets :: json
  g_response_url_validation :: json
  g_response_scopes :: json
  g_response_scope_field :: json
  g_scope_resource_prefix :: json
  g_case_insensitive_scopes :: json
  g_prefix_case_insensitive :: json
  g_refresh_when_blank :: json
  g_expiry_cap :: json
  g_token_exchange_timeout :: json
  g_jwt_expiry_fallback :: json
  g_declares_accepted_scope_sets :: bool
  g_terminal_codes :: json
  g_accepted_token_types :: json
  g_exact_scopes :: json
  g_scope_separators :: json
  g_accepts_missing_token_type :: json
  g_accepts_missing_expires_in :: bool
  g_missing_expiry_policy :: json
  g_declares_missing_expiry :: bool
  g_stored_missing_expiry :: json
  g_missing_expiry :: json
  g_additional :: json

abbreviation jtext :: "string \<Rightarrow> json" where
  "jtext s \<equiv> JStr (str s)"

definition accepts_missing_expiry :: "jobj \<Rightarrow> bool" where
  "accepts_missing_expiry d \<longleftrightarrow> get_or d (str ''missingExpiry'') JNull \<notin> {JNull, jtext ''reject''}"

definition missing_expiry_lifetime :: "jobj \<Rightarrow> json" where
  "missing_expiry_lifetime d =
     (case get_or d (str ''missingExpiry'') JNull of JObj m \<Rightarrow> get_or m (str ''lifetime'') (JStr []) | _ \<Rightarrow> JStr [])"

definition declares :: "jobj \<Rightarrow> string \<Rightarrow> bool" where
  "declares d name \<longleftrightarrow> str name \<in> set (dict_keys d)"

subsection \<open>Refresh-token grants\<close>

fun mapped_refresh_field :: "json list \<Rightarrow> exc + json" where
  "mapped_refresh_field [] = ret (JStr [])"
| "mapped_refresh_field (m # items) =
     ebind (jget m ''source'' JNull) (\<lambda>source.
       if source = jtext ''refresh_token'' then jitem m ''credential'' else mapped_refresh_field items)"

definition declared_grants :: "jobj \<Rightarrow> json \<Rightarrow> exc + json list" where
  "declared_grants oauth refresh =
     ebind (jget refresh ''grants'' JNull) (\<lambda>declared.
       if truthy declared then jiter declared
       else
         let mappings = get_or oauth (str ''credentialMappings'') (JArr []) in
         ebind (jiter mappings) (\<lambda>items.
         ebind (mapped_refresh_field items) (\<lambda>mapped.
           ret (if truthy mapped
             then [JObj [(str ''refreshTokenCredential'', mapped), (str ''credentialMappings'', mappings)]] else []))))"

definition refresh_grant :: "jobj \<Rightarrow> jobj \<Rightarrow> json \<Rightarrow> exc + grant" where
  "refresh_grant oauth refresh declared =
     ebind (jitem (JObj oauth) ''tokenEndpoint'') (\<lambda>endpoint.
     ebind (jitem (JObj oauth) ''clientIDCredential'') (\<lambda>client_id.
     ebind (jitem (JObj oauth) ''clientSecretCredential'') (\<lambda>client_secret.
     ebind (jitem declared ''refreshTokenCredential'') (\<lambda>refresh_field.
     ebind (jitem declared ''credentialMappings'') (\<lambda>mappings.
     ebind (jget declared ''grantedScopes'' JNull) (\<lambda>granted.
     ebind (jget declared ''acceptedTokenTypes'' JNull) (\<lambda>token_types.
     ebind (jget declared ''exactScopes'' (get_or refresh (str ''exactScopes'') (JBool False))) (\<lambda>exact.
     ebind (jget declared ''acceptsMissingTokenType'' (get_or refresh (str ''acceptsMissingTokenType'') (JBool False))) (\<lambda>missing_type.
       ret \<lparr>g_kind = RefreshGrant,
         g_endpoint = endpoint,
         g_network_policy = get_or oauth (str ''tokenEndpointNetworkPolicy'') (JStr []),
         g_authentication = get_or oauth (str ''tokenEndpointAuthMethod'') (jtext ''client_secret_post''),
         g_encoding = get_or oauth (str ''tokenRequestEncoding'') (jtext ''form''),
         g_client_id = client_id,
         g_trim_client_id = get_or refresh (str ''trimClientID'') (JBool False),
         g_client_secret = client_secret,
         g_allows_public_client = get_or refresh (str ''allowsPublicClient'') (JBool False),
         g_refresh_field = refresh_field,
         g_key_credential = JNull,
         g_assertion = JNull,
         g_mappings = mappings,
         g_copies = JArr [],
         g_scopes = (if granted = jtext ''userScopes'' then get_or oauth (str ''userScopes'') (JArr [])
           else get_or refresh (str ''requiredScopes'') (get_or oauth (str ''scopes'') (JArr []))),
         g_request_scopes = JNull,
         g_accepted_scope_sets = get_or refresh (str ''acceptedScopeSets'') JNull,
         g_response_url_validation = or_else (get_or refresh (str ''responseURLValidation'') JNull) (JObj []),
         g_response_scopes = get_or refresh (str ''responseScopes'') (jtext ''check''),
         g_response_scope_field = get_or refresh (str ''responseScopeField'') (jtext ''scope''),
         g_scope_resource_prefix = get_or refresh (str ''scopeResourcePrefix'') (JStr []),
         g_case_insensitive_scopes = get_or refresh (str ''caseInsensitiveScopes'') (JBool False),
         g_prefix_case_insensitive = get_or refresh (str ''scopeResourcePrefixCaseInsensitive'') (JBool False),
         g_refresh_when_blank = get_or refresh (str ''refreshWhenCredentialBlank'') (JStr []),
         g_expiry_cap = get_or refresh (str ''expiryCap'') (JStr []),
         g_token_exchange_timeout = get_or refresh (str ''tokenExchangeTimeout'') (JStr []),
         g_jwt_expiry_fallback = get_or refresh (str ''accessTokenJWTExpiryFallback'') (JStr []),
         g_declares_accepted_scope_sets = declares refresh ''acceptedScopeSets'',
         g_terminal_codes = or_else (get_or refresh (str ''terminalErrorCodes'') JNull) (JArr [jtext ''invalid_grant'']),
         g_accepted_token_types = or_else token_types
           (or_else (get_or refresh (str ''acceptedTokenTypes'') JNull) (JArr [jtext ''Bearer''])),
         g_exact_scopes = exact,
         g_scope_separators = get_or refresh (str ''scopeSeparators'') (jtext ''whitespace''),
         g_accepts_missing_token_type = missing_type,
         g_accepts_missing_expires_in = accepts_missing_expiry refresh,
         g_missing_expiry_policy = get_or refresh (str ''missingExpiry'') JNull,
         g_declares_missing_expiry = declares refresh ''missingExpiry'',
         g_stored_missing_expiry = get_or refresh (str ''storedMissingExpiry'') (jtext ''keep''),
         g_missing_expiry = missing_expiry_lifetime refresh,
         g_additional = or_else (get_or refresh (str ''additionalParameters'') JNull) (JObj [])\<rparr>)))))))))"

subsection \<open>Client-credentials and JWT-bearer grants\<close>

definition client_grant :: "json \<Rightarrow> exc + grant" where
  "client_grant declared =
     ebind (jitem declared ''tokenEndpoint'') (\<lambda>endpoint.
     ebind (jitem declared ''clientIDCredential'') (\<lambda>client_id.
     ebind (jitem declared ''clientSecretCredential'') (\<lambda>client_secret.
     ebind (jitem declared ''credentialMappings'') (\<lambda>mappings.
       let client = (case declared of JObj d \<Rightarrow> d | _ \<Rightarrow> []) in
       ret \<lparr>g_kind = ClientCredentialsGrant,
         g_endpoint = endpoint,
         g_network_policy = JStr [],
         g_authentication = get_or client (str ''tokenEndpointAuthMethod'') (jtext ''client_secret_post''),
         g_encoding = get_or client (str ''tokenRequestEncoding'') (jtext ''form''),
         g_client_id = client_id,
         g_trim_client_id = get_or client (str ''trimClientID'') (JBool False),
         g_client_secret = client_secret,
         g_allows_public_client = JNull,
         g_refresh_field = JStr [],
         g_key_credential = JNull,
         g_assertion = JNull,
         g_mappings = mappings,
         g_copies = JArr [],
         g_scopes = get_or client (str ''scopes'') (JArr []),
         g_request_scopes = get_or client (str ''scopes'') (JArr []),
         g_accepted_scope_sets = get_or client (str ''acceptedScopeSets'') JNull,
         g_response_url_validation = JObj [],
         g_response_scopes = get_or client (str ''responseScopes'') (jtext ''check''),
         g_response_scope_field = jtext ''scope'',
         g_scope_resource_prefix = JStr [],
         g_case_insensitive_scopes = JBool False,
         g_prefix_case_insensitive = JBool False,
         g_refresh_when_blank = JStr [],
         g_expiry_cap = JStr [],
         g_token_exchange_timeout = get_or client (str ''tokenExchangeTimeout'') (JStr []),
         g_jwt_expiry_fallback = JStr [],
         g_declares_accepted_scope_sets = declares client ''acceptedScopeSets'',
         g_terminal_codes = or_else (get_or client (str ''terminalErrorCodes'') JNull) (JArr [jtext ''invalid_client'']),
         g_accepted_token_types = or_else (get_or client (str ''acceptedTokenTypes'') JNull) (JArr [jtext ''Bearer'']),
         g_exact_scopes = JBool False,
         g_scope_separators = get_or client (str ''scopeSeparators'') (jtext ''whitespace''),
         g_accepts_missing_token_type = get_or client (str ''acceptsMissingTokenType'') (JBool False),
         g_accepts_missing_expires_in = accepts_missing_expiry client,
         g_missing_expiry_policy = get_or client (str ''missingExpiry'') JNull,
         g_declares_missing_expiry = declares client ''missingExpiry'',
         g_stored_missing_expiry = get_or client (str ''storedMissingExpiry'') (jtext ''keep''),
         g_missing_expiry = missing_expiry_lifetime client,
         g_additional = or_else (get_or client (str ''additionalParameters'') JNull) (JObj [])\<rparr>))))"

definition bearer_grant :: "json \<Rightarrow> exc + grant" where
  "bearer_grant declared =
     ebind (jitem declared ''tokenEndpoint'') (\<lambda>endpoint.
     ebind (jitem declared ''credentialMappings'') (\<lambda>mappings.
       let bearer = (case declared of JObj d \<Rightarrow> d | _ \<Rightarrow> []) in
       ret \<lparr>g_kind = JwtBearerGrant,
         g_endpoint = endpoint,
         g_network_policy = JStr [],
         g_authentication = JNull,
         g_encoding = jtext ''form'',
         g_client_id = JNull,
         g_trim_client_id = JNull,
         g_client_secret = JNull,
         g_allows_public_client = JNull,
         g_refresh_field = JStr [],
         g_key_credential = get_or bearer (str ''keyCredential'') (JStr []),
         g_assertion = declared,
         g_mappings = mappings,
         g_copies = get_or bearer (str ''credentialCopies'') (JArr []),
         g_scopes = get_or bearer (str ''scopes'') (JArr []),
         g_request_scopes = JNull,
         g_accepted_scope_sets = get_or bearer (str ''acceptedScopeSets'') JNull,
         g_response_url_validation = or_else (get_or bearer (str ''responseURLValidation'') JNull) (JObj []),
         g_response_scopes = get_or bearer (str ''responseScopes'') (jtext ''check''),
         g_response_scope_field = jtext ''scope'',
         g_scope_resource_prefix = JStr [],
         g_case_insensitive_scopes = JBool False,
         g_prefix_case_insensitive = JBool False,
         g_refresh_when_blank = get_or bearer (str ''refreshWhenCredentialBlank'') (JStr []),
         g_expiry_cap = JStr [],
         g_token_exchange_timeout = JNull,
         g_jwt_expiry_fallback = JStr [],
         g_declares_accepted_scope_sets = declares bearer ''acceptedScopeSets'',
         g_terminal_codes = or_else (get_or bearer (str ''terminalErrorCodes'') JNull) (JArr [jtext ''invalid_grant'']),
         g_accepted_token_types = or_else (get_or bearer (str ''acceptedTokenTypes'') JNull) (JArr [jtext ''Bearer'']),
         g_exact_scopes = JBool False,
         g_scope_separators = get_or bearer (str ''scopeSeparators'') (jtext ''whitespace''),
         g_accepts_missing_token_type = get_or bearer (str ''acceptsMissingTokenType'') (JBool False),
         g_accepts_missing_expires_in = accepts_missing_expiry bearer,
         g_missing_expiry_policy = get_or bearer (str ''missingExpiry'') JNull,
         g_declares_missing_expiry = declares bearer ''missingExpiry'',
         g_stored_missing_expiry = get_or bearer (str ''storedMissingExpiry'') (jtext ''keep''),
         g_missing_expiry = missing_expiry_lifetime bearer,
         g_additional = JObj []\<rparr>))"

definition oauth_grants :: "json \<Rightarrow> exc + grant list" where
  "oauth_grants j =
     (case j of
        JObj oauth \<Rightarrow>
          let refresh = or_else (get_or oauth (str ''refresh'') JNull) (JObj []) in
          ebind (declared_grants oauth refresh) (\<lambda>declared.
            emap (refresh_grant oauth (case refresh of JObj d \<Rightarrow> d | _ \<Rightarrow> [])) declared)
      | _ \<Rightarrow> raise attribute_error)"

definition grants_of :: "json \<Rightarrow> exc + grant list" where
  "grants_of auth_method =
     ebind (jget auth_method ''oauth2'' JNull) (\<lambda>oauth.
       if truthy oauth then oauth_grants oauth
       else ebind (jget auth_method ''clientCredentials'' JNull) (\<lambda>client.
         if truthy client then ebind (client_grant client) (\<lambda>g. ret [g])
         else ebind (jget auth_method ''serviceAccount'' JNull) (\<lambda>account.
           ebind (jget (or_else account (JObj [])) ''jwtBearer'' JNull) (\<lambda>bearer.
             if truthy bearer then ebind (bearer_grant bearer) (\<lambda>g. ret [g]) else ret []))))"

section \<open>Template value rules\<close>

record regex =
  rx_compiles :: "pystr \<Rightarrow> bool"
  rx_fullmatch :: "pystr \<Rightarrow> pystr \<Rightarrow> bool"

definition bad_pattern :: exc where
  "bad_pattern = ValueError (str ''manifest template value pattern is invalid'')"

text \<open>\<open>_validate_portable_template_value_pattern\<close>; the flag is \<open>is_character_class\<close>.\<close>

fun portable_pattern :: "bool \<Rightarrow> pystr \<Rightarrow> bool" where
  "portable_pattern in_class [] \<longleftrightarrow> True"
| "portable_pattern in_class (c # s) \<longleftrightarrow>
     (if c = 92
      then (case s of [] \<Rightarrow> True | e # r \<Rightarrow> e \<notin> set (str ''123456789pPQEk'') \<and> portable_pattern in_class r)
      else if c = 91 then \<not> (in_class \<and> take 1 s = [58]) \<and> portable_pattern True s
      else if c = 93 then portable_pattern False s
      else \<not> (\<not> in_class \<and> c = 40 \<and> take 1 s = [63] \<and> take 1 (drop 1 s) \<noteq> [58]) \<and> portable_pattern in_class s)"

definition validate_portable_pattern :: "regex \<Rightarrow> pystr \<Rightarrow> exc + unit" where
  "validate_portable_pattern rx pattern = ensure (portable_pattern False pattern \<and> rx_compiles rx pattern) bad_pattern"

definition bad_rule :: exc where
  "bad_rule = ValueError (str ''manifest template value rule is invalid'')"

fun all_strings :: "json \<Rightarrow> bool" where
  "all_strings (JArr xs) \<longleftrightarrow> list_all is_str xs"
| "all_strings _ \<longleftrightarrow> False"

definition strings_of :: "json \<Rightarrow> pystr list" where
  "strings_of j = (case j of JArr xs \<Rightarrow> map str_value xs | _ \<Rightarrow> [])"

definition rule_members_ok :: "jobj \<Rightarrow> bool" where
  "rule_members_ok rule \<longleftrightarrow>
     set (dict_keys rule) \<subseteq> str ` {''trimSpace'', ''maxBytes'', ''patterns'', ''reject'', ''lowercase''}
     \<and> (declares rule ''trimSpace'' \<longrightarrow> is_bool (get_or rule (str ''trimSpace'') JNull))
     \<and> (declares rule ''lowercase'' \<longrightarrow> is_bool (get_or rule (str ''lowercase'') JNull))
     \<and> (declares rule ''maxBytes'' \<longrightarrow> (case get_or rule (str ''maxBytes'') JNull of JInt n \<Rightarrow> 0 \<le> n | _ \<Rightarrow> False))
     \<and> (declares rule ''reject'' \<longrightarrow> all_strings (get_or rule (str ''reject'') JNull))
     \<and> (declares rule ''patterns'' \<longrightarrow> all_strings (get_or rule (str ''patterns'') JNull))"

definition validate_template_value_rule :: "regex \<Rightarrow> json \<Rightarrow> exc + unit" where
  "validate_template_value_rule rx j =
     (case j of
        JObj rule \<Rightarrow>
          ethen (ensure (rule_members_ok rule) bad_rule)
            (eall (validate_portable_pattern rx) (strings_of (get_or rule (str ''patterns'') (JArr []))))
      | _ \<Rightarrow> raise bad_rule)"

definition apply_template_value_rule :: "regex \<Rightarrow> unicode_data \<Rightarrow> pystr \<Rightarrow> json \<Rightarrow> exc + pystr" where
  "apply_template_value_rule rx u raw j =
     ethen (validate_template_value_rule rx j)
     (let rule = (case j of JObj d \<Rightarrow> d | _ \<Rightarrow> []);
          v = (if get_or rule (str ''trimSpace'') JNull = JBool True then trim_go_space raw else raw);
          patterns = strings_of (get_or rule (str ''patterns'') (JArr []))
      in
      ethen (if declares rule ''maxBytes''
        then (case utf8_encode v of
            None \<Rightarrow> raise UnicodeError
          | Some b \<Rightarrow> ensure (int (length b) \<le> int_value (get_or rule (str ''maxBytes'') JNull)) ReauthorizationRequiredError)
        else ret ())
      (ethen (ensure (lower u v \<notin> lower u ` set (strings_of (get_or rule (str ''reject'') (JArr [])))) ReauthorizationRequiredError)
      (ethen (ensure (patterns = [] \<or> list_ex (\<lambda>p. rx_fullmatch rx p v) patterns) ReauthorizationRequiredError)
      (ret (if get_or rule (str ''lowercase'') JNull = JBool True then lower u v else v)))))"

section \<open>Validation\<close>

definition validate_stored_missing_expiry :: "grant \<Rightarrow> exc + unit" where
  "validate_stored_missing_expiry g =
     ensure (g_stored_missing_expiry g \<in> jtext ` {''refresh'', ''keep'', ''refreshIfRefreshTokenPresent''})
       (ValueError (str ''manifest storedMissingExpiry must be refresh or keep''))"

definition url_rule_keys :: "pystr list" where
  "url_rule_keys =
     [str ''credential'', str ''allowedHosts'', str ''allowedHostSuffix'', str ''allowAnyHTTPS'', str ''allowLoopback'',
      str ''forbidPort'', str ''requireResponse'', str ''refreshWhenInvalid'', str ''defaultURL'']"

definition validate_endpoint_rules :: "regex \<Rightarrow> json \<Rightarrow> exc + unit" where
  "validate_endpoint_rules rx endpoint =
     (case endpoint of
        JObj d \<Rightarrow>
          (case dict_get d (str ''templateValueRules'') of
             None \<Rightarrow> ret ()
           | Some (JObj rules) \<Rightarrow> eall (\<lambda>(_, rule). validate_template_value_rule rx rule) rules
           | Some _ \<Rightarrow> raise (ValueError (str ''manifest template value rules are invalid'')))
      | _ \<Rightarrow> ret ())"

text \<open>\<open>any(mapping.get("credential") == name for mapping in mappings)\<close>\<close>

definition is_mapped :: "json \<Rightarrow> json \<Rightarrow> exc + bool" where
  "is_mapped mappings name =
     ebind (jiter mappings) (eany (\<lambda>m. ebind (jget m ''credential'' JNull) (\<lambda>c. ret (c = name))))"

definition validate_url_rule :: "(pystr, pystr) dict \<Rightarrow> grant \<Rightarrow> exc + unit" where
  "validate_url_rule attrs g =
     (case g_response_url_validation g of
        JObj rule \<Rightarrow>
          ethen (ensure (set (dict_keys rule) \<subseteq> set url_rule_keys)
            (ValueError (str ''manifest responseURLValidation field is invalid'')))
          (ethen (if truthy (g_refresh_when_blank g)
             then ebind (field_known attrs (g_refresh_when_blank g)) (\<lambda>known.
               ensure known (ValueError (str ''manifest refreshWhenCredentialBlank field is not mapped'')))
             else ret ())
          (if rule = [] then ret ()
           else ebind (case get_or rule (str ''credential'') JNull of
               JStr name \<Rightarrow>
                 if name \<in> set (dict_keys attrs) then is_mapped (g_mappings g) (JStr name) else ret False
             | _ \<Rightarrow> ret False) (\<lambda>ok.
             ensure ok (ValueError (str ''manifest responseURLValidation credential is not mapped'')))))
      | _ \<Rightarrow> raise (ValueError (str ''manifest responseURLValidation field is invalid'')))"

definition require_positive :: "decimal_table \<Rightarrow> json \<Rightarrow> string \<Rightarrow> exc + unit" where
  "require_positive decimal j message =
     (if truthy j then ebind (duration_of decimal j) (\<lambda>d. ensure (0 < d) (ValueError (str message))) else ret ())"

definition missing_expiry_ok :: "decimal_table \<Rightarrow> json \<Rightarrow> exc + bool" where
  "missing_expiry_ok decimal policy =
     (case policy of
        JStr s \<Rightarrow> ret (s \<in> {str ''reject'', str ''keep''})
      | JObj d \<Rightarrow>
          if set (dict_keys d) = {str ''lifetime''}
          then (case get_or d (str ''lifetime'') JNull of
              JStr t \<Rightarrow> ebind (parse_duration decimal t) (\<lambda>x. ret (0 < x)) | _ \<Rightarrow> ret False)
          else ret False
      | _ \<Rightarrow> ret False)"

definition scope_sets_ok :: "json \<Rightarrow> bool" where
  "scope_sets_ok j =
     (case j of
        JArr xs \<Rightarrow> xs \<noteq> [] \<and> list_all (\<lambda>x. case x of
            JArr ys \<Rightarrow> ys \<noteq> [] \<and> list_all (\<lambda>y. is_str y \<and> truthy y) ys | _ \<Rightarrow> False) xs
      | _ \<Rightarrow> False)"

definition validate_subject :: "grant \<Rightarrow> exc + unit" where
  "validate_subject g =
     (case g_assertion g of
        JObj a \<Rightarrow>
          ethen (ensure (\<not> declares a ''subjectValidation''
              \<or> get_or a (str ''subjectValidation'') JNull = jtext ''goMailAddress'')
            (ValueError (str ''manifest subjectValidation is invalid'')))
          (ensure (\<not> declares a ''subjectValidation'' \<or> truthy (get_or a (str ''subject'') JNull))
            (ValueError (str ''manifest subjectValidation requires a subject'')))
      | _ \<Rightarrow> ret ())"

text \<open>\<open>_validate_new_declarations\<close>; a JWT-bearer declaration is always a dictionary.\<close>

definition validate_new_declarations ::
  "regex \<Rightarrow> decimal_table \<Rightarrow> (pystr, pystr) dict \<Rightarrow> settings \<Rightarrow> grant \<Rightarrow> exc + unit" where
  "validate_new_declarations rx decimal attrs st g =
     ethen (validate_endpoint_rules rx (g_endpoint g))
     (ethen (validate_url_rule attrs g)
     (ethen (ensure (g_network_policy g \<in> {JStr [], jtext ''privateNetworkHTTP''})
       (ValueError (str ''manifest tokenEndpointNetworkPolicy is invalid'')))
     (ethen (ensure (g_response_scope_field g \<in> {jtext ''scope'', jtext ''scopesArray''})
       (ValueError (str ''manifest responseScopeField is invalid'')))
     (ethen (ensure (g_scope_resource_prefix g \<in> {JStr [], jtext ''https://graph.microsoft.com/''})
       (ValueError (str ''manifest scopeResourcePrefix is invalid'')))
     (ethen (require_positive decimal (g_jwt_expiry_fallback g) ''manifest accessTokenJWTExpiryFallback must be positive'')
     (ethen (require_positive decimal (g_expiry_cap g) ''manifest expiryCap must be positive'')
     (ebind (token_exchange_timeout_seconds decimal st (g_token_exchange_timeout g)) (\<lambda>_.
     ethen (ensure (g_response_scopes g \<in> {jtext ''check'', jtext ''ignore''})
       (ValueError (str ''manifest responseScopes must be check or ignore'')))
     (ethen (if g_declares_missing_expiry g
        then ebind (missing_expiry_ok decimal (g_missing_expiry_policy g)) (\<lambda>ok.
          ensure ok (ValueError (str ''manifest missingExpiry must be reject, keep, or a positive lifetime'')))
        else ret ())
     (ethen (ensure (g_scope_separators g \<in> {jtext ''whitespace'', jtext ''whitespaceAndComma''})
       (ValueError (str ''manifest scopeSeparators is invalid'')))
     (ethen (ensure (\<not> (g_kind g = ClientCredentialsGrant \<and> g_declares_accepted_scope_sets g))
       (ValueError (str ''manifest clientCredentials does not support acceptedScopeSets'')))
     (ethen (ensure (\<not> g_declares_accepted_scope_sets g \<or> scope_sets_ok (g_accepted_scope_sets g))
       (ValueError (str ''manifest acceptedScopeSets is invalid'')))
     (if g_kind g = JwtBearerGrant then validate_subject g else ret ())))))))))))))"

definition not_mapped :: exc where
  "not_mapped = ValueError (str ''manifest credential field is not mapped'')"

definition validate_mapping :: "(pystr, pystr) dict \<Rightarrow> json \<Rightarrow> exc + unit" where
  "validate_mapping attrs m =
     ebind (jget m ''source'' JNull) (\<lambda>source.
       if \<not> truthy source then raise not_mapped
       else ebind (jget m ''credential'' JNull) (\<lambda>c.
         ebind (field_known attrs c) (\<lambda>known. ensure known not_mapped)))"

definition validate_copy :: "(pystr, pystr) dict \<Rightarrow> json \<Rightarrow> exc + unit" where
  "validate_copy attrs c =
     ebind (jget c ''credential'' JNull) (\<lambda>destination.
     ebind (field_known attrs destination) (\<lambda>known.
       if \<not> known then raise not_mapped
       else ebind (jget c ''fromCredential'' JNull) (\<lambda>source.
         ebind (field_known attrs source) (\<lambda>known. ensure known not_mapped))))"

definition milliseconds :: "int \<Rightarrow> timedelta" where
  "milliseconds n = n * 1000"

definition validate_grant :: "decimal_table \<Rightarrow> (pystr, pystr) dict \<Rightarrow> grant \<Rightarrow> exc + unit" where
  "validate_grant decimal attrs g =
     ethen (validate_stored_missing_expiry g)
     (ebind (jiter (g_mappings g)) (\<lambda>mappings.
     ethen (eall (validate_mapping attrs) mappings)
     (ebind (jiter (g_copies g)) (\<lambda>copies.
     ethen (eall (validate_copy attrs) copies)
     (ethen (require_positive decimal (g_missing_expiry g) ''manifest grant duration must be positive'')
     (if g_kind g = JwtBearerGrant
      then ebind (jitem (g_assertion g) ''lifetime'') (\<lambda>j.
        ebind (duration_of decimal j) (\<lambda>d.
          ensure (milliseconds 1 \<le> d) (ValueError (str ''manifest JWT assertion lifetime must be at least one millisecond''))))
      else ret ()))))))"

end
