(* ===== verification/Credentials.thy ===== *)
theory Credentials
  imports Identities Timestamps
begin

text \<open>
  \<^verbatim>\<open>sdkpython/src/dex_connectors/sdk/credentials.py\<close>: the redacted secret wrapper, the
  refresh state a driver sees, the two credential look-ups every connector calls and the static
  provider.  A provider is a record of its methods over a world \<open>'w\<close>; the \<open>isinstance\<close> tests
  against runtime-checkable protocols ask whether the optional method is there.
\<close>

section \<open>Secrets\<close>

definition reauthorization_text :: pystr where
  "reauthorization_text = str ''connector reauthorization is required''"

record secret_string =
  secret_value :: pystr

definition reveal :: "secret_string \<Rightarrow> pystr" where
  "reveal s = secret_value s"

definition secret_str :: "secret_string \<Rightarrow> pystr" where
  "secret_str s = str ''[REDACTED]''"

definition secret_repr :: "secret_string \<Rightarrow> pystr" where
  "secret_repr s = str ''SecretString([REDACTED])''"

definition secret_reduce :: "secret_string \<Rightarrow> exc + pystr" where
  "secret_reduce s = raise (TypeError (str ''connector secrets cannot be serialized''))"

text \<open>Everything but \<open>reveal\<close> is independent of the secret: no rendering can leak it.\<close>

lemma secret_rendering_independent:
  "secret_str s = secret_str t" "secret_repr s = secret_repr t" "secret_reduce s = secret_reduce t"
  by (simp_all add: secret_str_def secret_repr_def secret_reduce_def)

section \<open>Providers and drivers\<close>

record 'c refresh_state =
  rs_credentials :: 'c
  rs_expires_at :: "datetime option"
  rs_now :: datetime

record 'c refresh_result =
  rr_credentials :: 'c
  rr_expires_at :: datetime

record ('c, 'w) refresh_driver =
  refresh_required :: "'c refresh_state \<Rightarrow> exc + bool"
  driver_refresh :: "'c refresh_state \<Rightarrow> 'w \<Rightarrow> (exc + 'c refresh_result) \<times> 'w"

record ('c, 'w) credential_provider =
  cp_resolve :: "call \<Rightarrow> 'w \<Rightarrow> (exc + 'c) \<times> 'w"
  cp_resolve_with_refresh :: "(call \<Rightarrow> ('c, 'w) refresh_driver \<Rightarrow> 'w \<Rightarrow> (exc + 'c) \<times> 'w) option"
  cp_resolve_after_rejection :: "(call \<Rightarrow> ('c, 'w) refresh_driver \<Rightarrow> 'w \<Rightarrow> (exc + 'c) \<times> 'w) option"

definition provider_required :: exc where
  "provider_required = ValueError (str ''credential provider and refresh driver are required'')"

definition resolve_credential ::
  "('c, 'w) credential_provider option \<Rightarrow> call \<Rightarrow> ('c, 'w) refresh_driver option \<Rightarrow> 'w \<Rightarrow> (exc + 'c) \<times> 'w" where
  "resolve_credential provider c driver w =
     (case (provider, driver) of
        (Some p, Some d) \<Rightarrow>
          (case cp_resolve_with_refresh p of
             Some resolve \<Rightarrow> resolve c d w
           | None \<Rightarrow> cp_resolve p c w)
      | _ \<Rightarrow> (raise provider_required, w))"

definition resolve_credential_after_rejection ::
  "('c, 'w) credential_provider option \<Rightarrow> call \<Rightarrow> ('c, 'w) refresh_driver option \<Rightarrow> 'w \<Rightarrow> (exc + 'c) \<times> 'w" where
  "resolve_credential_after_rejection provider c driver w =
     (case (provider, driver) of
        (Some p, Some d) \<Rightarrow>
          (case cp_resolve_after_rejection p of
             Some resolve \<Rightarrow> resolve c d w
           | None \<Rightarrow>
             (raise (ValueError (str ''credential provider does not support refresh after rejection'')), w))
      | _ \<Rightarrow> (raise provider_required, w))"

section \<open>Static credentials\<close>

definition static_resolve :: "(connection_ref, 'c) dict \<Rightarrow> call \<Rightarrow> exc + 'c" where
  "static_resolve credentials c =
     (case dict_get credentials (call_connection c) of
        Some v \<Rightarrow> ret v | None \<Rightarrow> raise (ValueError (str ''connection is not configured'')))"

definition static_provider :: "(connection_ref, 'c) dict \<Rightarrow> ('c, 'w) credential_provider" where
  "static_provider credentials =
     \<lparr>cp_resolve = (\<lambda>c w. (static_resolve credentials c, w)),
      cp_resolve_with_refresh = Some (\<lambda>c _ w. (static_resolve credentials c, w)),
      cp_resolve_after_rejection = None\<rparr>"

text \<open>
  A static provider answers the configured credential of the call's connection and never a
  rejected one again: the look-up after a rejection is always an error.
\<close>

lemma static_resolve_credential:
  "resolve_credential (Some (static_provider cs)) c (Some d) w = (static_resolve cs c, w)"
  by (simp add: resolve_credential_def static_provider_def)

lemma static_after_rejection_fails:
  "\<exists>m. resolve_credential_after_rejection (Some (static_provider cs)) c driver w = (Inl (ValueError m), w)"
  by (auto simp: resolve_credential_after_rejection_def static_provider_def provider_required_def
      split: option.splits)

text \<open>The world changes only through the provider's own method, on every branch.\<close>

lemma resolve_credential_missing:
  "provider = None \<or> driver = None \<Longrightarrow> resolve_credential provider c driver w = (Inl provider_required, w)
     \<and> resolve_credential_after_rejection provider c driver w = (Inl provider_required, w)"
  by (auto simp: resolve_credential_def resolve_credential_after_rejection_def split: option.splits)

end
