(* ===== verification/RefreshProvider.thy ===== *)
theory RefreshProvider
  imports Connections Credentials
begin

text \<open>
  \<^verbatim>\<open>projectconfig/provider.py\<close>: project credential providers and the durable refresh
  admission.  The clock, the random tokens and \<open>asyncio.sleep\<close> are the record \<open>runtime\<close> over the
  world; the refresh driver and the shared connection are arguments.  The loop of
  \<open>resolve_with_refresh\<close> is \<open>refresh_rounds\<close>, whose fuel counts rounds: one \<open>refresh_round\<close>
  returns a credential, raises, or asks for another round.
\<close>

section \<open>Providers\<close>

record 'w runtime =
  rt_now :: "'w \<Rightarrow> instant \<times> 'w"
  rt_token_hex :: "'w \<Rightarrow> pystr \<times> 'w"
  rt_sleep :: "'w \<Rightarrow> 'w"

definition utc_now :: "'w runtime \<Rightarrow> (datetime, 'w) action" where
  "utc_now rt w = (case rt_now rt w of (i, w') \<Rightarrow> (ret (utc_datetime i), w'))"

definition token_hex :: "'w runtime \<Rightarrow> (pystr, 'w) action" where
  "token_hex rt w = (case rt_token_hex rt w of (t, w') \<Rightarrow> (ret t, w'))"

definition async_sleep :: "'w runtime \<Rightarrow> (unit, 'w) action" where
  "async_sleep rt w = (ret (), rt_sleep rt w)"

record ('c, 'w) project_provider =
  pv_store :: "'w connection_store"
  pv_key :: connection_key
  pv_decode :: "jobj \<Rightarrow> exc + 'c"
  pv_decode_shared :: "(jobj \<Rightarrow> exc + 'c) option"
  pv_encode :: "'c \<Rightarrow> exc + json"
  pv_shared :: "'w shared_connection option"

definition new_provider ::
  "'w connection_store \<Rightarrow> connection_key \<Rightarrow> (jobj \<Rightarrow> exc + 'c) \<Rightarrow> ('c \<Rightarrow> exc + json) \<Rightarrow> (jobj \<Rightarrow> exc + 'c) option
     \<Rightarrow> exc + ('c, 'w) project_provider" where
  "new_provider st k decode encode decode_shared =
     ebind (key_path k (cst_scope st)) (\<lambda>_.
       ret \<lparr>pv_store = st, pv_key = k, pv_decode = decode, pv_decode_shared = decode_shared, pv_encode = encode,
            pv_shared = shared_connection_of st k\<rparr>)"

definition validate_provider_call :: "('c, 'w) project_provider \<Rightarrow> call \<Rightarrow> exc + unit" where
  "validate_provider_call pv c =
     (if connector_id (call_operation c) \<noteq> ck_connector_id (pv_key pv)
         \<or> cr_name (call_connection c) \<noteq> ck_connection_name (pv_key pv)
      then raise (ValueError (str ''connector call differs from configured project connection''))
      else operation_ref_validate (call_operation c))"

fun is_decode_error :: "exc \<Rightarrow> bool" where
  "is_decode_error KeyError \<longleftrightarrow> True"
| "is_decode_error (TypeError _) \<longleftrightarrow> True"
| "is_decode_error e \<longleftrightarrow> is_ValueError e"

definition guarded_decode :: "(jobj \<Rightarrow> exc + 'c) \<Rightarrow> string \<Rightarrow> jobj \<Rightarrow> exc + 'c" where
  "guarded_decode decode message d =
     (case decode d of
        Inl e \<Rightarrow> if is_decode_error e then raise (ValueError (str message)) else raise e
      | Inr c \<Rightarrow> ret c)"

definition decode_material :: "('c, 'w) project_provider \<Rightarrow> jobj \<Rightarrow> exc + 'c" where
  "decode_material pv = guarded_decode (pv_decode pv) ''project credential decoding failed''"

definition decode_shared_material :: "('c, 'w) project_provider \<Rightarrow> jobj \<Rightarrow> exc + 'c" where
  "decode_shared_material pv =
     guarded_decode (case pv_decode_shared pv of None \<Rightarrow> pv_decode pv | Some d \<Rightarrow> d)
       ''shared project credential decoding failed''"

definition provider_resolve ::
  "(bytes \<Rightarrow> pystr) \<Rightarrow> 'w runtime \<Rightarrow> ('c, 'w) project_provider \<Rightarrow> call \<Rightarrow> ('c, 'w) action" where
  "provider_resolve sha256 rt pv c =
     sbind (slift (validate_provider_call pv c)) (\<lambda>_.
     case pv_shared pv of
       Some sh \<Rightarrow> sbind (sh_resolve sh (call_id c)) (\<lambda>m. slift (decode_shared_material pv m))
     | None \<Rightarrow>
       sbind (read_credential_material sha256 (pv_store pv) (pv_key pv)) (\<lambda>(m, cn).
       sbind (case cn_expires_at cn of
           None \<Rightarrow> sret False
         | Some t \<Rightarrow> sbind (utc_now rt) (\<lambda>now. slift (ebind (dt_less now t) (\<lambda>later. ret (\<not> later))))) (\<lambda>expired.
         if expired then sraise (ValueError (str ''expired project credential requires refresh''))
         else slift (decode_material pv (cm_credentials m)))))"

section \<open>Admissions\<close>

record admission =
  ad_kind :: pystr
  ad_attempt_id :: pystr
  ad_fence :: int
  ad_deadline :: datetime
  ad_result_key :: pystr

definition ADMISSION_TIMEOUT :: timedelta where
  "ADMISSION_TIMEOUT = seconds 40"

text \<open>\<open>now + timedelta\<close> of a UTC datetime.\<close>

definition dt_plus :: "datetime \<Rightarrow> timedelta \<Rightarrow> exc + datetime" where
  "dt_plus t d =
     (let i = dt_instant t + d in if 0 \<le> i \<and> i < datetime_end then ret (utc_datetime i) else raise OverflowError)"

definition require_admission :: "jobj \<Rightarrow> admission \<Rightarrow> exc + unit" where
  "require_admission d ad =
     ensure (json_eq (get_or d (str ''status'') JNull) (JStr (ad_kind ad))
         \<and> json_eq (get_or d (str ''fence'') JNull) (JInt (ad_fence ad))
         \<and> (case get_or d (str ''mutation'') JNull of
              JObj m \<Rightarrow> json_eq (get_or m (str ''id'') JNull) (JStr (ad_attempt_id ad))
                \<and> json_eq (get_or m (str ''kind'') JNull) (JStr (ad_kind ad))
            | _ \<Rightarrow> False))
       (ObjectConflictError (str ''credential exchange admission was superseded''))"

definition parse_expiry :: "json \<Rightarrow> exc + time_value option" where
  "parse_expiry value = ebind (parse_time value) (\<lambda>t. ret (map_option PyTime t))"

definition write_head :: "('c, 'w) project_provider \<Rightarrow> jobj \<Rightarrow> jobj \<Rightarrow> (unit, 'w) action" where
  "write_head pv prior updated =
     sbind (slift (key_path (pv_key pv) (cst_scope (pv_store pv)))) (\<lambda>path.
     sbind (read_record (pv_store pv) (pv_key pv)) (\<lambda>(d, head).
       if \<not> json_eq (JObj d) (JObj prior)
       then sraise (ObjectConflictError (str ''connection revision conflict''))
       else
         sbind (slift (go_canonical_json_bytes (JObj updated))) (\<lambda>contents.
         sbind (reconciled_write (cst_objects (pv_store pv)) (head_key path) (Some head) contents) (\<lambda>_. sret ()))))"

text \<open>The material a head refers to, checked against the head.\<close>

definition read_material :: "(bytes \<Rightarrow> pystr) \<Rightarrow> ('c, 'w) project_provider \<Rightarrow> jobj \<Rightarrow> (credential_material, 'w) action" where
  "read_material sha256 pv d =
     sbind (read_envelope sha256 (cst_objects (pv_store pv)) d) (\<lambda>e.
     slift (ethen (check_envelope (cst_scope (pv_store pv)) (pv_key pv) (get_or d (str ''authMethod'') JNull) d e)
       (ebind (require_object (get_or e (str ''credentials'') JNull) ''credentials'') (\<lambda>credentials.
        ebind (parse_expiry (get_or e (str ''expiresAt'') JNull)) (\<lambda>expires_at.
        ebind (item_of e ''authMethod'') (\<lambda>auth.
          ret \<lparr>cm_credentials = credentials, cm_expires_at = expires_at, cm_auth_method = py_str auth\<rparr>))))))"

definition admit_refresh ::
  "'w runtime \<Rightarrow> ('c, 'w) project_provider \<Rightarrow> jobj \<Rightarrow> datetime \<Rightarrow> (admission, 'w) action" where
  "admit_refresh rt pv d now =
     sbind (token_hex rt) (\<lambda>attempt_id.
     sbind (slift (key_path (pv_key pv) (cst_scope (pv_store pv)))) (\<lambda>path.
     sbind (slift (dt_plus now ADMISSION_TIMEOUT)) (\<lambda>deadline.
     sbind (token_hex rt) (\<lambda>invocation_id.
     let fence = int_value (get_or d (str ''fence'') JNull) + 1; revision = int_value (get_or d (str ''revision'') JNull);
         result_key = path @ str ''/exchange-results/'' @ attempt_id in
     sbind (slift (ebind (format_rfc3339_nano (PyTime deadline)) (\<lambda>deadline_text.
       ebind (parse_expiry (get_or d (str ''expiresAt'') JNull)) (\<lambda>expires_at.
       ebind (item_of d ''authMethod'') (\<lambda>auth.
       ebind (item_of d ''credential'') (\<lambda>credential.
       ebind (require_object credential ''credential reference'') (\<lambda>reference.
         connection_record_wire (cst_scope (pv_store pv)) (pv_key pv) (revision + 1) fence (str ''REFRESHING'')
           expires_at auth (Some reference)
           (Some [(str ''kind'', JStr (str ''REFRESHING'')), (str ''invocationId'', JStr invocation_id),
                  (str ''id'', JStr attempt_id), (str ''fence'', JInt fence), (str ''baseRevision'', JInt revision),
                  (str ''deadline'', JStr deadline_text), (str ''resultKey'', JStr result_key)])))))))) (\<lambda>updated.
     sbind (write_head pv d updated) (\<lambda>_.
       sret \<lparr>ad_kind = str ''REFRESHING'', ad_attempt_id = attempt_id, ad_fence = fence,
             ad_deadline = deadline, ad_result_key = result_key\<rparr>))))))"

definition finish_exchange :: "('c, 'w) project_provider \<Rightarrow> admission \<Rightarrow> pystr \<Rightarrow> (unit, 'w) action" where
  "finish_exchange pv ad status =
     sbind (read_record (pv_store pv) (pv_key pv)) (\<lambda>(d, _).
     sbind (slift (require_admission d ad)) (\<lambda>_.
     sbind (slift (ebind (parse_expiry (get_or d (str ''expiresAt'') JNull)) (\<lambda>expires_at.
       ebind (item_of d ''authMethod'') (\<lambda>auth.
       ebind (case get_or d (str ''credential'') JNull of JNull \<Rightarrow> ret None
         | j \<Rightarrow> ebind (require_object j ''credential reference'') (\<lambda>r. ret (Some r))) (\<lambda>reference.
         connection_record_wire (cst_scope (pv_store pv)) (pv_key pv)
           (int_value (get_or d (str ''revision'') JNull) + 1) (int_value (get_or d (str ''fence'') JNull) + 1)
           status expires_at (JStr (py_str auth)) reference None))))) (\<lambda>updated.
     write_head pv d updated)))"

text \<open>\<open>record.get("credential", {}).get("key") == key\<close>; a credential that is \<open>null\<close> has no \<open>get\<close>.\<close>

definition credential_key_is :: "jobj \<Rightarrow> pystr \<Rightarrow> exc + bool" where
  "credential_key_is d key =
     (case get_or d (str ''credential'') (JObj []) of
        JObj r \<Rightarrow> ret (json_eq (get_or r (str ''key'') JNull) (JStr key))
      | _ \<Rightarrow> raise AttributeError)"

definition publishes :: "jobj \<Rightarrow> obj \<Rightarrow> exc + bool" where
  "publishes d result =
     (if status_is d ''READY'' then credential_key_is d (ob_key result) else ret False)"

definition check_result :: "('c, 'w) project_provider \<Rightarrow> admission \<Rightarrow> jobj \<Rightarrow> exc + unit" where
  "check_result pv ad e =
     ebind (scope_to_wire (cst_scope (pv_store pv))) (\<lambda>sw.
       ensure (json_eq (get_or e (str ''schemaVersion'') JNull) (JStr CONNECTION_SCHEMA_VERSION)
           \<and> json_eq (get_or e (str ''scope'') JNull) (JObj sw)
           \<and> json_eq (get_or e (str ''connection'') JNull) (JObj (key_to_wire (pv_key pv)))
           \<and> json_eq (get_or e (str ''fence'') JNull) (JInt (ad_fence ad))
           \<and> json_eq (get_or e (str ''attemptId'') JNull) (JStr (ad_attempt_id ad)))
         (ValueError (str ''credential exchange result identity is invalid'')))"

definition publish_result :: "(bytes \<Rightarrow> pystr) \<Rightarrow> ('c, 'w) project_provider \<Rightarrow> admission \<Rightarrow> obj \<Rightarrow> (unit, 'w) action" where
  "publish_result sha256 pv ad result =
     sbind (read_record (pv_store pv) (pv_key pv)) (\<lambda>(d, _).
     sbind (slift (publishes d result)) (\<lambda>done.
     if done then sret ()
     else
       sbind (slift (ethen (require_admission d ad) (ebind (loads_bytes (ob_contents result)) (\<lambda>j.
         ebind (require_object j ''credential result'') (\<lambda>e. ethen (check_result pv ad e)
         (ebind (parse_expiry (get_or e (str ''expiresAt'') JNull)) (\<lambda>expires_at.
          ebind (item_of e ''authMethod'') (\<lambda>auth.
          connection_record_wire (cst_scope (pv_store pv)) (pv_key pv)
            (int_value (get_or d (str ''revision'') JNull) + 1) (int_value (get_or d (str ''fence'') JNull)) (str ''READY'')
            expires_at (JStr (py_str auth))
            (Some [(str ''key'', JStr (ob_key result)), (str ''version'', JStr (ob_version result)),
                   (str ''digest'', JStr (drop 7 (digest_bytes sha256 (ob_contents result))))]) None)))))))) (\<lambda>updated.
       scatch (write_head pv d updated) (\<lambda>e.
         if is_conflict e
         then sbind (read_record (pv_store pv) (pv_key pv)) (\<lambda>(observed, _).
              sbind (slift (publishes observed result)) (\<lambda>same. if same then sret () else sraise e))
         else sraise e))))"

definition commit_refresh ::
  "(bytes \<Rightarrow> pystr) \<Rightarrow> ('c, 'w) project_provider \<Rightarrow> admission \<Rightarrow> credential_material \<Rightarrow> (unit, 'w) action" where
  "commit_refresh sha256 pv ad m =
     sbind (slift (ebind (credential_envelope_wire (cst_scope (pv_store pv)) (pv_key pv) (ad_fence ad)
       (cm_credentials m) (cm_expires_at m) (cm_auth_method m) (ad_attempt_id ad))
       (\<lambda>w. go_canonical_json_bytes (JObj w)))) (\<lambda>contents.
     sbind (create_immutable (cst_objects (pv_store pv)) (ad_result_key ad) contents
       (str ''immutable credential result differs'')) (\<lambda>result.
     publish_result sha256 pv ad result))"

definition recover_or_wait ::
  "(bytes \<Rightarrow> pystr) \<Rightarrow> 'w runtime \<Rightarrow> ('c, 'w) project_provider \<Rightarrow> jobj \<Rightarrow> (unit, 'w) action" where
  "recover_or_wait sha256 rt pv d =
     sbind (slift (ebind (require_object (get_or d (str ''mutation'') JNull) ''credential mutation'') (\<lambda>m.
       ebind (item_of d ''status'') (\<lambda>status. ebind (item_of m ''id'') (\<lambda>attempt_id.
       ebind (item_of m ''deadline'') (\<lambda>deadline. ebind (parse_time deadline) (\<lambda>t.
       ebind (item_of m ''resultKey'') (\<lambda>result_key.
         ret \<lparr>ad_kind = py_str status, ad_attempt_id = py_str attempt_id,
              ad_fence = int_value (get_or d (str ''fence'') JNull),
              ad_deadline = (case t of Some x \<Rightarrow> x | None \<Rightarrow> utc_datetime datetime_min),
              ad_result_key = py_str result_key\<rparr>)))))))) (\<lambda>ad.
     sbind (scatch (sbind (read_object (cst_objects (pv_store pv)) (ad_result_key ad) []) (\<lambda>x. sret (Some x)))
       (\<lambda>e. if e = ObjectNotFoundError then sret None else sraise e)) (\<lambda>result.
     case result of
       Some x \<Rightarrow> publish_result sha256 pv ad x
     | None \<Rightarrow>
       sbind (utc_now rt) (\<lambda>now.
       sbind (slift (dt_less now (ad_deadline ad))) (\<lambda>pending.
         if pending then async_sleep rt
         else finish_exchange pv ad
           (if ad_kind ad = str ''AUTHORIZING'' then str ''REAUTHORIZATION_REQUIRED'' else str ''READY'')))))"

section \<open>Refreshing\<close>

definition encode_credential :: "('c, 'w) project_provider \<Rightarrow> 'c \<Rightarrow> exc + jobj" where
  "encode_credential pv c =
     ebind (pv_encode pv c) (\<lambda>j. case j of
         JObj d \<Rightarrow> if d = [] then raise (ValueError (str ''invalid private credential material'')) else ret d
       | _ \<Rightarrow> raise (ValueError (str ''invalid private credential material'')))"

fun is_encode_error :: "exc \<Rightarrow> bool" where
  "is_encode_error (TypeError _) \<longleftrightarrow> True"
| "is_encode_error e \<longleftrightarrow> is_ValueError e"

fun is_address_refusal :: "exc \<Rightarrow> bool" where
  "is_address_refusal (AddressRefusal _) \<longleftrightarrow> True"
| "is_address_refusal _ \<longleftrightarrow> False"

definition refresh_failed :: "string \<Rightarrow> exc" where
  "refresh_failed m = RefreshFailedError (str m)"

text \<open>
  The driver runs under \<open>asyncio.wait_for\<close>: a timeout is one of its failures.  A cancellation is
  not an \<open>Exception\<close> and leaves the admission in place for an observer to restore.
\<close>

definition refresh_admitted ::
  "(bytes \<Rightarrow> pystr) \<Rightarrow> 'w runtime \<Rightarrow> ('c, 'w) project_provider \<Rightarrow> admission \<Rightarrow> pystr \<Rightarrow> 'c refresh_state
     \<Rightarrow> ('c, 'w) refresh_driver \<Rightarrow> ('c, 'w) action" where
  "refresh_admitted sha256 rt pv ad auth_method state driver =
     sbind (scatch (driver_refresh driver state) (\<lambda>e.
         if e = ReauthorizationRequiredError
         then sbind (finish_exchange pv ad (str ''REAUTHORIZATION_REQUIRED'')) (\<lambda>_. sraise e)
         else if e = CancelledError then sraise e
         else sbind (finish_exchange pv ad (str ''READY'')) (\<lambda>_.
           if is_address_refusal e then sraise e
           else sraise (refresh_failed ''project credential refresh failed; current authorization is kept'')))) (\<lambda>result.
     sbind (utc_now rt) (\<lambda>now.
     sbind (slift (dt_less now (rr_expires_at result))) (\<lambda>future.
     if \<not> future
     then sbind (finish_exchange pv ad (str ''READY'')) (\<lambda>_. sraise (refresh_failed ''refreshed credential has no future expiry''))
     else
       sbind (case encode_credential pv (rr_credentials result) of
           Inr d \<Rightarrow> sret d
         | Inl e \<Rightarrow> if is_encode_error e
             then sbind (finish_exchange pv ad (str ''READY'')) (\<lambda>_. sraise (refresh_failed ''refreshed credential encoding failed''))
             else sraise e) (\<lambda>encoded.
       sbind (commit_refresh sha256 pv ad
         \<lparr>cm_credentials = encoded, cm_expires_at = Some (PyTime (rr_expires_at result)), cm_auth_method = auth_method\<rparr>) (\<lambda>_.
       sret (rr_credentials result))))))"

text \<open>\<open>_as_datetime\<close> of a stored expiry.\<close>

definition as_datetime :: "time_value option \<Rightarrow> exc + datetime option" where
  "as_datetime v =
     (case v of None \<Rightarrow> ret None | Some (PyTime t) \<Rightarrow> ret (Some t)
      | Some (NanoTime w) \<Rightarrow> ebind (nano_parsed w) (\<lambda>t. ret (Some t)))"

definition again_on_conflict :: "(unit, 'w) action \<Rightarrow> ('c option, 'w) action" where
  "again_on_conflict m =
     scatch (sbind m (\<lambda>_. sret None)) (\<lambda>e. if is_conflict e then sret None else sraise e)"

text \<open>One turn of the loop: \<open>None\<close> is \<open>continue\<close>.\<close>

definition refresh_ready ::
  "(bytes \<Rightarrow> pystr) \<Rightarrow> 'w runtime \<Rightarrow> ('c, 'w) project_provider \<Rightarrow> ('c, 'w) refresh_driver \<Rightarrow> jobj \<Rightarrow> ('c option, 'w) action" where
  "refresh_ready sha256 rt pv driver d =
     sbind (read_material sha256 pv d) (\<lambda>m.
     sbind (slift (decode_material pv (cm_credentials m))) (\<lambda>credentials.
     sbind (utc_now rt) (\<lambda>now.
     sbind (slift (as_datetime (cm_expires_at m))) (\<lambda>expires_at.
     let state = \<lparr>rs_credentials = credentials, rs_expires_at = expires_at, rs_now = now\<rparr> in
     sbind (slift (ebind (case expires_at of None \<Rightarrow> ret True | Some t \<Rightarrow> dt_less now t) (\<lambda>valid.
       if valid then ebind (refresh_required driver state) (\<lambda>required. ret (\<not> required)) else ret False))) (\<lambda>keep.
     if keep then sret (Some credentials)
     else
       sbind (scatch (sbind (admit_refresh rt pv d now) (\<lambda>ad. sret (Some ad)))
         (\<lambda>e. if is_conflict e then sret None else sraise e)) (\<lambda>admitted.
       case admitted of
         None \<Rightarrow> sret None
       | Some ad \<Rightarrow> sbind (refresh_admitted sha256 rt pv ad (cm_auth_method m) state driver) (\<lambda>c. sret (Some c))))))))"

definition refresh_round ::
  "(bytes \<Rightarrow> pystr) \<Rightarrow> 'w runtime \<Rightarrow> ('c, 'w) project_provider \<Rightarrow> ('c, 'w) refresh_driver \<Rightarrow> ('c option, 'w) action" where
  "refresh_round sha256 rt pv driver =
     sbind (read_record (pv_store pv) (pv_key pv)) (\<lambda>(d, _).
     if status_is d ''REVOKED'' \<or> status_is d ''REAUTHORIZATION_REQUIRED'' then sraise ReauthorizationRequiredError
     else if status_is d ''AUTHORIZING''
     then
       sbind (slift (ebind (require_object (get_or d (str ''mutation'') JNull) ''credential mutation'') (\<lambda>m.
         ebind (item_of m ''deadline'') parse_time))) (\<lambda>deadline.
       sbind (case deadline of None \<Rightarrow> sret False
         | Some t \<Rightarrow> sbind (utc_now rt) (\<lambda>now. slift (dt_less now t))) (\<lambda>pending.
       if pending then sraise (ExchangePendingError (str ''credential authorization exchange is pending''))
       else again_on_conflict (recover_or_wait sha256 rt pv d)))
     else if status_is d ''REFRESHING'' then again_on_conflict (recover_or_wait sha256 rt pv d)
     else if \<not> status_is d ''READY'' then sraise (ValueError (str ''project credential status is invalid''))
     else refresh_ready sha256 rt pv driver d)"

fun refresh_rounds ::
  "(bytes \<Rightarrow> pystr) \<Rightarrow> 'w runtime \<Rightarrow> ('c, 'w) project_provider \<Rightarrow> ('c, 'w) refresh_driver \<Rightarrow> nat \<Rightarrow> 'w
     \<Rightarrow> ((exc + 'c) \<times> 'w) option" where
  "refresh_rounds sha256 rt pv driver 0 w = None"
| "refresh_rounds sha256 rt pv driver (Suc n) w =
     (case refresh_round sha256 rt pv driver w of
        (Inl e, w') \<Rightarrow> Some (Inl e, w')
      | (Inr (Some c), w') \<Rightarrow> Some (Inr c, w')
      | (Inr None, w') \<Rightarrow> refresh_rounds sha256 rt pv driver n w')"

definition resolve_with_refresh ::
  "(bytes \<Rightarrow> pystr) \<Rightarrow> 'w runtime \<Rightarrow> ('c, 'w) project_provider \<Rightarrow> nat \<Rightarrow> call \<Rightarrow> ('c, 'w) refresh_driver option \<Rightarrow> 'w
     \<Rightarrow> ((exc + 'c) \<times> 'w) option" where
  "resolve_with_refresh sha256 rt pv rounds c driver w =
     (case validate_provider_call pv c of
        Inl e \<Rightarrow> Some (Inl e, w)
      | Inr _ \<Rightarrow>
        (case driver of
           None \<Rightarrow> Some (Inl (ValueError (str ''credential refresh driver is required'')), w)
         | Some drv \<Rightarrow>
           (case pv_shared pv of
              Some sh \<Rightarrow> Some (sbind (sh_resolve sh (call_id c)) (\<lambda>m. slift (decode_shared_material pv m)) w)
            | None \<Rightarrow> refresh_rounds sha256 rt pv drv rounds w)))"

definition provider_resolve_after_rejection ::
  "(bytes \<Rightarrow> pystr) \<Rightarrow> 'w runtime \<Rightarrow> ('c, 'w) project_provider \<Rightarrow> nat \<Rightarrow> call \<Rightarrow> ('c, 'w) refresh_driver option \<Rightarrow> 'w
     \<Rightarrow> ((exc + 'c) \<times> 'w) option" where
  "provider_resolve_after_rejection sha256 rt pv rounds c driver w =
     (case validate_provider_call pv c of
        Inl e \<Rightarrow> Some (Inl e, w)
      | Inr _ \<Rightarrow>
        (case driver of
           None \<Rightarrow> Some (Inl (ValueError (str ''credential refresh driver is required'')), w)
         | Some drv \<Rightarrow>
           (case pv_shared pv of
              Some sh \<Rightarrow> Some (sbind (sh_resolve_after_rejection sh (call_id c)) (\<lambda>m. slift (decode_shared_material pv m)) w)
            | None \<Rightarrow>
              (case sbind (read_connection (pv_store pv) (pv_key pv)) (\<lambda>cn.
                   case cn_expires_at cn of
                     None \<Rightarrow> sret True
                   | Some t \<Rightarrow> sbind (utc_now rt) (\<lambda>now. slift (dt_less now t))) w of
                 (Inl e, w') \<Rightarrow> Some (Inl e, w')
               | (Inr True, w') \<Rightarrow> Some (Inl (RejectedCredentialNotRefreshedError
                    (str ''authentication rejection does not prove credential expiry'')), w')
               | (Inr False, w') \<Rightarrow> resolve_with_refresh sha256 rt pv rounds c driver w'))))"

section \<open>What a written head says\<close>

lemma record_wire_members:
  assumes "connection_record_wire s k revision fence status t auth ro mo = Inr d"
  obtains sw e rw mw where "scope_to_wire s = Inr sw" "expiry_member t = Inr e"
    "get_or d (str ''schemaVersion'') JNull = JStr CONNECTION_SCHEMA_VERSION"
    "get_or d (str ''connection'') JNull = JObj (key_to_wire k)" "get_or d (str ''scope'') JNull = JObj sw"
    "get_or d (str ''revision'') JNull = JInt revision" "get_or d (str ''fence'') JNull = JInt fence"
    "get_or d (str ''status'') JNull = JStr status" "get_or d (str ''authMethod'') JNull = auth"
    "get_or d (str ''expiresAt'') JNull = (if e = [] then JNull else snd (hd e))"
    "get_or d (str ''credential'') JNull = (case ro of None \<Rightarrow> JNull | Some _ \<Rightarrow> JObj rw)"
    "get_or d (str ''mutation'') JNull = (case mo of None \<Rightarrow> JNull | Some _ \<Rightarrow> JObj mw)"
    "ro = None \<or> (\<exists>r. ro = Some r \<and> reference_wire r = Inr rw)"
    "mo = None \<or> (\<exists>m. mo = Some m \<and> mutation_wire m = Inr mw)"
    "set (dict_keys d) \<subseteq> set (map str record_fields)"
    "json_plain auth \<Longrightarrow> (ro \<noteq> None \<Longrightarrow> json_plain (JObj rw)) \<Longrightarrow> (mo \<noteq> None \<Longrightarrow> json_plain (JObj mw)) \<Longrightarrow> json_plain (JObj d)"
proof -
  obtain sw e rp mp where sw: "scope_to_wire s = Inr sw" and e: "expiry_member t = Inr e"
    and rp: "(case ro of None \<Rightarrow> ret []
       | Some r \<Rightarrow> ebind (reference_wire r) (\<lambda>w. ret [(str ''credential'', JObj w)])) = Inr rp"
    and mp: "(case mo of None \<Rightarrow> ret []
       | Some m \<Rightarrow> ebind (mutation_wire m) (\<lambda>w. ret [(str ''mutation'', JObj w)])) = Inr mp"
    and d: "d = [(str ''schemaVersion'', JStr CONNECTION_SCHEMA_VERSION), (str ''connection'', JObj (key_to_wire k)),
             (str ''scope'', JObj sw), (str ''revision'', JInt revision), (str ''fence'', JInt fence),
             (str ''status'', JStr status)] @ e @ [(str ''authMethod'', auth)] @ rp @ mp"
    using assms by (auto simp: connection_record_wire_def ebind_eq_Inr_iff)
  obtain rw where rw: "rp = (case ro of None \<Rightarrow> [] | Some _ \<Rightarrow> [(str ''credential'', JObj rw)])"
      "ro = None \<or> (\<exists>r. ro = Some r \<and> reference_wire r = Inr rw)"
    using rp by (cases ro) (auto simp: ebind_eq_Inr_iff)
  obtain mw where mw: "mp = (case mo of None \<Rightarrow> [] | Some _ \<Rightarrow> [(str ''mutation'', JObj mw)])"
      "mo = None \<or> (\<exists>m. mo = Some m \<and> mutation_wire m = Inr mw)"
    using mp by (cases mo) (auto simp: ebind_eq_Inr_iff)
  have "\<exists>x. e = [] \<or> e = [(str ''expiresAt'', JStr x)]" using e by (auto elim!: expiry_member_cases)
  then obtain x where x: "e = [] \<or> e = [(str ''expiresAt'', JStr x)]" by blast
  have ok: "json_plain (JObj sw)" "json_plain (JObj (key_to_wire k))"
    using sw by (auto simp: scope_to_wire_def ebind_eq_Inr_iff dict_ok_def dict_keys_def key_to_wire_def)
  show thesis
    by (rule that [OF sw e _ _ _ _ _ _ _ _ _ _ rw(2) mw(2)])
      (use x ok in \<open>cases ro; cases mo; auto simp: d rw(1) mw(1) get_or_def dict_keys_def record_fields_def dict_ok_def\<close>)+
qed

lemma json_eq_member:
  assumes "json_eq (JObj a) (JObj b)" "dict_get a m = Some v"
  shows "json_eq v (get_or b m j)"
proof -
  have "(m, v) \<in> set a" using assms(2) by (rule map_of_SomeD)
  with assms(1) show ?thesis by (auto simp: list_all_iff get_or_def split: option.splits)
qed

lemma json_eq_int: "json_eq (JInt m) j \<Longrightarrow> is_int j \<Longrightarrow> int_value j = m"
  by (cases j) auto

lemma reference_plain: "json_plain (JObj r) \<Longrightarrow> reference_wire r = Inr rw \<Longrightarrow> json_plain (JObj rw)"
  by (auto simp: reference_wire_def item_of_def ebind_eq_Inr_iff dict_ok_def dict_keys_def list_all_iff
      dest!: map_of_SomeD split: option.splits)

text \<open>Between two histories the head got an admission with the given fence.\<close>

definition admitted_since :: "pystr \<Rightarrow> int \<Rightarrow> (pystr \<Rightarrow> obj list) \<Rightarrow> (pystr \<Rightarrow> obj list) \<Rightarrow> bool" where
  "admitted_since path n h h' \<longleftrightarrow> (\<exists>ys x d. h' (head_key path) = h (head_key path) @ ys \<and> x \<in> set ys
     \<and> loads_bytes (ob_contents x) = Inr (JObj d) \<and> status_is d ''REFRESHING'' \<and> get_or d (str ''fence'') JNull = JInt n)"

lemma admitted_since_grows:
  assumes "grows h0 h" "admitted_since path n h h'" "grows h' h1"
  shows "admitted_since path n h0 h1"
proof -
  obtain ys x d where y: "h' (head_key path) = h (head_key path) @ ys" "x \<in> set ys"
      "loads_bytes (ob_contents x) = Inr (JObj d)" "status_is d ''REFRESHING''" "get_or d (str ''fence'') JNull = JInt n"
    using assms(2) unfolding admitted_since_def by blast
  obtain us where "h (head_key path) = h0 (head_key path) @ us" using assms(1) unfolding grows_def prefix_def by blast
  moreover obtain vs where "h1 (head_key path) = h' (head_key path) @ vs" using assms(3) unfolding grows_def prefix_def by blast
  ultimately have "h1 (head_key path) = h0 (head_key path) @ (us @ ys @ vs)" "x \<in> set (us @ ys @ vs)"
    using y by simp_all
  then show ?thesis unfolding admitted_since_def using y(3-5) by blast
qed

section \<open>A world with a store, a clock and a provider\<close>

text \<open>
  \<open>calls\<close> counts the exchanges the refresh driver has sent to the provider; the store, the
  clock and the random source leave it alone.
\<close>

locale refresh_world = versioned_store store hist inv
  for store :: "'w object_store" and hist :: "'w \<Rightarrow> pystr \<Rightarrow> obj list" and inv :: "'w \<Rightarrow> bool" +
  fixes rt :: "'w runtime" and calls :: "'w \<Rightarrow> nat"
  assumes now_keeps: "inv w \<Longrightarrow> rt_now rt w = (i, w') \<Longrightarrow> inv w' \<and> hist w' = hist w \<and> calls w' = calls w"
    and token_keeps: "inv w \<Longrightarrow> rt_token_hex rt w = (t, w') \<Longrightarrow> inv w' \<and> hist w' = hist w \<and> calls w' = calls w"
    and sleep_keeps: "inv w \<Longrightarrow> inv (rt_sleep rt w) \<and> hist (rt_sleep rt w) = hist w \<and> calls (rt_sleep rt w) = calls w"
    and read_calls: "read_object store key v w = (r, w') \<Longrightarrow> calls w' = calls w"
    and create_calls: "create_object store key c w = (r, w') \<Longrightarrow> calls w' = calls w"
    and swap_calls: "compare_and_swap_object store key t c w = (r, w') \<Longrightarrow> calls w' = calls w"
begin

text \<open>An action that sends nothing to the provider and only adds to the histories.\<close>

definition quiet :: "('a, 'w) action \<Rightarrow> bool" where
  "quiet m \<longleftrightarrow> (\<forall>w r w'. inv w \<longrightarrow> m w = (r, w') \<longrightarrow> inv w' \<and> grows (hist w) (hist w') \<and> calls w' = calls w)"

lemma quietD: "quiet m \<Longrightarrow> inv w \<Longrightarrow> m w = (r, w') \<Longrightarrow> inv w' \<and> grows (hist w) (hist w') \<and> calls w' = calls w"
  by (simp add: quiet_def)

lemma quiet_slift: "quiet (slift r)"
  by (simp add: quiet_def)

lemma quiet_sbind:
  assumes "quiet m" "\<And>x. quiet (f x)"
  shows "quiet (sbind m f)"
  unfolding quiet_def
proof (intro allI impI)
  fix w r w'
  assume i: "inv w" and e: "sbind m f w = (r, w')"
  obtain q w1 where q: "m w = (q, w1)" by fastforce
  note k = quietD [OF assms(1) i q]
  show "inv w' \<and> grows (hist w) (hist w') \<and> calls w' = calls w"
  proof (cases q)
    case (Inl y)
    with e q k show ?thesis by (simp add: sbind_def)
  next
    case (Inr x)
    with e q have "f x w1 = (r, w')" by (simp add: sbind_def)
    with quietD [OF assms(2)] k grows_trans show ?thesis by metis
  qed
qed

lemma quiet_scatch:
  assumes "quiet m" "\<And>e. quiet (h e)"
  shows "quiet (scatch m h)"
  unfolding quiet_def
proof (intro allI impI)
  fix w r w'
  assume i: "inv w" and e: "scatch m h w = (r, w')"
  obtain q w1 where q: "m w = (q, w1)" by fastforce
  note k = quietD [OF assms(1) i q]
  show "inv w' \<and> grows (hist w) (hist w') \<and> calls w' = calls w"
  proof (cases q)
    case (Inr x)
    with e q k show ?thesis by (simp add: scatch_def)
  next
    case (Inl y)
    with e q have "h y w1 = (r, w')" by (simp add: scatch_def)
    with quietD [OF assms(2)] k grows_trans show ?thesis by metis
  qed
qed

lemma quiet_if: "quiet a \<Longrightarrow> quiet b \<Longrightarrow> quiet (if c then a else b)"
  by simp

lemma quiet_option: "quiet a \<Longrightarrow> (\<And>x. quiet (f x)) \<Longrightarrow> quiet (case y of None \<Rightarrow> a | Some x \<Rightarrow> f x)"
  by (cases y) auto

lemma quiet_prod: "(\<And>x y. quiet (f x y)) \<Longrightarrow> quiet (case p of (x, y) \<Rightarrow> f x y)"
  by (cases p) auto

lemma quiet_sum: "(\<And>x. quiet (f x)) \<Longrightarrow> (\<And>y. quiet (g y)) \<Longrightarrow> quiet (case s of Inl x \<Rightarrow> f x | Inr y \<Rightarrow> g y)"
  by (cases s) auto

lemma quiet_store: "quiet (read_object store key v)" "quiet (create_object store key c)"
  "quiet (compare_and_swap_object store key t c)"
proof -
  show "quiet (read_object store key v)"
    unfolding quiet_def by (intro allI impI conjI) (auto dest: read_grows read_calls)
  show "quiet (create_object store key c)"
    unfolding quiet_def by (intro allI impI conjI) (auto dest: create_grows create_calls)
  show "quiet (compare_and_swap_object store key t c)"
    unfolding quiet_def by (intro allI impI conjI) (auto dest: swap_grows swap_calls)
qed

lemma quiet_runtime: "quiet (utc_now rt)" "quiet (token_hex rt)" "quiet (async_sleep rt)"
proof -
  show "quiet (utc_now rt)"
    unfolding quiet_def utc_now_def using now_keeps by (auto split: prod.splits)
  show "quiet (token_hex rt)"
    unfolding quiet_def token_hex_def using token_keeps by (auto split: prod.splits)
  show "quiet (async_sleep rt)"
    unfolding quiet_def async_sleep_def using sleep_keeps by auto
qed

lemmas quiet_rules = quiet_slift quiet_sbind quiet_scatch quiet_if quiet_option quiet_prod quiet_sum quiet_store quiet_runtime

lemma quiet_read_record: "cst_objects st = store \<Longrightarrow> quiet (read_record st k)"
  unfolding read_record_def by (simp only:) (intro quiet_rules)

lemma quiet_writes: "quiet (create_immutable store key c m)" "quiet (reconciled_write store key head c)"
  unfolding create_immutable_def reconciled_write_def by (intro quiet_rules)+

lemma quiet_write_head: "cst_objects (pv_store pv) = store \<Longrightarrow> quiet (write_head pv prior updated)"
  unfolding write_head_def by (simp only:) (intro quiet_rules quiet_read_record quiet_writes)

lemma quiet_finish: "cst_objects (pv_store pv) = store \<Longrightarrow> quiet (finish_exchange pv ad status)"
  unfolding finish_exchange_def by (intro quiet_rules quiet_read_record quiet_write_head)

lemma quiet_publish: "cst_objects (pv_store pv) = store \<Longrightarrow> quiet (publish_result sha256 pv ad x)"
  unfolding publish_result_def by (intro quiet_rules quiet_read_record quiet_write_head)

lemma quiet_commit: "cst_objects (pv_store pv) = store \<Longrightarrow> quiet (commit_refresh sha256 pv ad m)"
  unfolding commit_refresh_def by (simp only:) (intro quiet_rules quiet_publish quiet_writes)

lemma quiet_recover: "cst_objects (pv_store pv) = store \<Longrightarrow> quiet (recover_or_wait sha256 rt pv d)"
  unfolding recover_or_wait_def by (simp only:) (intro quiet_rules quiet_publish quiet_finish, simp_all)

lemma quiet_admit: "cst_objects (pv_store pv) = store \<Longrightarrow> quiet (admit_refresh rt pv d now)"
  unfolding admit_refresh_def Let_def by (intro quiet_rules quiet_write_head)

lemma quiet_material: "cst_objects (pv_store pv) = store \<Longrightarrow> quiet (read_material sha256 pv d)"
  unfolding read_material_def read_envelope_def by (simp only:) (intro quiet_rules)

text \<open>A head write that returns has appended the new record to the record it was based on.\<close>

lemma write_head_Inr:
  assumes "inv w" "cst_objects (pv_store pv) = store" "key_path (pv_key pv) (cst_scope (pv_store pv)) = Inr path"
    and "write_head pv prior updated w = (Inr (), w')" "json_plain (JObj updated)"
    and "is_int (get_or prior (str ''revision'') JNull)"
    and "get_or updated (str ''revision'') JNull = JInt (int_value (get_or prior (str ''revision'') JNull) + 1)"
  shows "\<exists>x d. hist w (head_key path) \<noteq> [] \<and> loads_bytes (ob_contents (last (hist w (head_key path)))) = Inr (JObj d)
    \<and> json_eq (JObj d) (JObj prior) \<and> hist w' = (hist w)(head_key path := hist w (head_key path) @ [x])
    \<and> loads_bytes (ob_contents x) = Inr (JObj updated)"
proof -
  obtain d head w1 contents y where r: "read_record (pv_store pv) (pv_key pv) w = (Inr (d, head), w1)"
    and eq: "json_eq (JObj d) (JObj prior)" and c: "go_canonical_json_bytes (JObj updated) = Inr contents"
    and rw: "reconciled_write store (head_key path) (Some head) contents w1 = (Inr y, w')"
    using assms(2-4) by (auto simp: write_head_def sbind_eq_Inr_iff simp del: json_eq.simps split: if_splits)
  have lc: "loads_bytes contents = Inr (JObj updated)" by (rule loads_canonical [OF assms(5) c])
  from assms(1,2) r show ?thesis
  proof (rule read_record_Inr)
    fix path'
    assume p: "key_path (pv_key pv) (cst_scope (pv_store pv)) = Inr path'" and i: "inv w1" and h: "hist w1 = hist w"
      and ne: "hist w (head_key path') \<noteq> []" and hd: "head = last (hist w (head_key path'))"
      and ld: "loads_bytes (ob_contents head) = Inr (JObj d)"
    have pp: "path' = path" using p assms(3) by simp
    note eff = reconciled_write_effect [OF i rw]
    have "hist w' \<noteq> hist w1"
    proof
      assume same: "hist w' = hist w1"
      have "ob_contents (last (hist w' (head_key path))) = contents" using eff(3) [of y] by auto
      then have "ob_contents head = contents" using same h hd pp by simp
      then have "d = updated" using ld lc by simp
      moreover have "dict_get updated (str ''revision'') = Some (JInt (int_value (get_or prior (str ''revision'') JNull) + 1))"
        using assms(7) by (auto simp: get_or_def split: option.splits)
      ultimately have "json_eq (JInt (int_value (get_or prior (str ''revision'') JNull) + 1)) (get_or prior (str ''revision'') JNull)"
        using json_eq_member [of d prior "str ''revision''"] eq by blast
      then show False using json_eq_int [OF _ assms(6)] by fastforce
    qed
    then obtain x where x: "appends (hist w1) (head_key path) contents x (hist w')" using eff(2) by blast
    then have "hist w' = (hist w)(head_key path := hist w (head_key path) @ [x])" "loads_bytes (ob_contents x) = Inr (JObj updated)"
      using h lc by (auto simp: appends_def)
    then show ?thesis using ne ld eq hd pp by blast
  qed
qed

text \<open>
  An admission that is granted is the next head: revision and fence one further, and an
  admission other replicas can read, with a deadline 40 seconds after the decision.
\<close>

lemma admit_refresh_Inr:
  assumes "inv w" "cst_objects (pv_store pv) = store" "key_path (pv_key pv) (cst_scope (pv_store pv)) = Inr path"
    and "admit_refresh rt pv d now w = (Inr ad, w')" "json_plain (JObj d)"
    and "is_int (get_or d (str ''revision'') JNull)" "is_int (get_or d (str ''fence'') JNull)"
  shows "\<exists>x d' m. hist w' = (hist w)(head_key path := hist w (head_key path) @ [x])
    \<and> loads_bytes (ob_contents x) = Inr (JObj d') \<and> json_plain (JObj d') \<and> status_is d' ''REFRESHING''
    \<and> get_or d' (str ''revision'') JNull = JInt (int_value (get_or d (str ''revision'') JNull) + 1)
    \<and> get_or d' (str ''fence'') JNull = JInt (int_value (get_or d (str ''fence'') JNull) + 1)
    \<and> get_or d' (str ''mutation'') JNull = JObj m \<and> require_admission d' ad = Inr ()
    \<and> get_or m (str ''resultKey'') JNull = JStr (ad_result_key ad) \<and> ad_fence ad = int_value (get_or d (str ''fence'') JNull) + 1
    \<and> ad_result_key ad = path @ str ''/exchange-results/'' @ ad_attempt_id ad
    \<and> dt_plus now ADMISSION_TIMEOUT = Inr (ad_deadline ad)
    \<and> nano_from_datetime (ad_deadline ad) = Inr (str_value (get_or m (str ''deadline'') JNull))
    \<and> (\<exists>d0. loads_bytes (ob_contents (last (hist w (head_key path)))) = Inr (JObj d0) \<and> json_eq (JObj d0) (JObj d))"
proof -
  let ?fence = "int_value (get_or d (str ''fence'') JNull) + 1" and ?rev = "int_value (get_or d (str ''revision'') JNull)"
  obtain attempt w1 deadline invocation w2 dtext t auth credential ref updated where
    tok: "token_hex rt w = (Inr attempt, w1)" "token_hex rt w1 = (Inr invocation, w2)"
    and dl: "dt_plus now ADMISSION_TIMEOUT = Inr deadline" "nano_from_datetime deadline = Inr dtext"
    and mem: "item_of d ''authMethod'' = Inr auth" "item_of d ''credential'' = Inr (JObj ref)"
    and up: "connection_record_wire (cst_scope (pv_store pv)) (pv_key pv) (?rev + 1) ?fence (str ''REFRESHING'')
           t auth (Some ref)
           (Some [(str ''kind'', JStr (str ''REFRESHING'')), (str ''invocationId'', JStr invocation),
                  (str ''id'', JStr attempt), (str ''fence'', JInt ?fence), (str ''baseRevision'', JInt ?rev),
                  (str ''deadline'', JStr dtext), (str ''resultKey'', JStr (path @ str ''/exchange-results/'' @ attempt))]) = Inr updated"
    and wh: "write_head pv d updated w2 = (Inr (), w')"
    and ad: "ad = \<lparr>ad_kind = str ''REFRESHING'', ad_attempt_id = attempt, ad_fence = ?fence, ad_deadline = deadline,
         ad_result_key = path @ str ''/exchange-results/'' @ attempt\<rparr>"
    using assms(3,4)
    by (auto simp: admit_refresh_def Let_def sbind_eq_Inr_iff ebind_eq_Inr_iff require_object_eq_Inr format_rfc3339_nano_def)
  have tr: "rt_token_hex rt w = (attempt, w1)" "rt_token_hex rt w1 = (invocation, w2)"
    using tok by (auto simp: token_hex_def split: prod.splits)
  have w1: "inv w1" "hist w1 = hist w" using token_keeps [OF assms(1) tr(1)] by auto
  have w2: "inv w2" "hist w2 = hist w" using token_keeps [OF w1(1) tr(2)] w1(2) by auto
  have canon: "nano_from_wire dtext = Inr dtext"
    using dl(2) nano_from_wire_canonical by (auto simp: nano_from_datetime_def split: if_splits)
  define m where "m = [(str ''kind'', JStr (str ''REFRESHING'')), (str ''invocationId'', JStr invocation),
      (str ''id'', JStr attempt), (str ''fence'', JInt ?fence), (str ''baseRevision'', JInt ?rev),
      (str ''deadline'', JStr dtext), (str ''resultKey'', JStr (path @ str ''/exchange-results/'' @ attempt))]"
  have mw: "mutation_wire m = Inr m" using canon by (simp add: mutation_wire_def m_def item_of_def)
  have mp: "json_plain (JObj m)" by (simp add: m_def dict_ok_def dict_keys_def)
  have in_d: "(str ''authMethod'', auth) \<in> set d" "(str ''credential'', JObj ref) \<in> set d"
    using mem by (auto simp: item_of_def dest: map_of_SomeD split: option.splits)
  then have pl: "json_plain auth" "json_plain (JObj ref)" using assms(5) by (force simp: list_all_iff)+
  from up show ?thesis
    unfolding m_def [symmetric]
  proof (rule record_wire_members)
    fix rw mw'
    assume g: "get_or updated (str ''revision'') JNull = JInt (?rev + 1)" "get_or updated (str ''fence'') JNull = JInt ?fence"
      "get_or updated (str ''status'') JNull = JStr (str ''REFRESHING'')"
      and gm: "get_or updated (str ''mutation'') JNull = (case Some m of None \<Rightarrow> JNull | Some _ \<Rightarrow> JObj mw')"
      and mw': "Some m = None \<or> (\<exists>m'. Some m = Some m' \<and> mutation_wire m' = Inr mw')"
      and rw: "Some ref = None \<or> (\<exists>r. Some ref = Some r \<and> reference_wire r = Inr rw)"
      and plain: "json_plain auth \<Longrightarrow> (Some ref \<noteq> None \<Longrightarrow> json_plain (JObj rw)) \<Longrightarrow> (Some m \<noteq> None \<Longrightarrow> json_plain (JObj mw'))
        \<Longrightarrow> json_plain (JObj updated)"
    have mm: "mw' = m" using mw' mw by auto
    have "reference_wire ref = Inr rw" using rw by simp
    then have "json_plain (JObj rw)" by (rule reference_plain [OF pl(2)])
    then have up_plain: "json_plain (JObj updated)" using mp unfolding mm [symmetric] by (intro plain pl(1))
    obtain x d0 where x: "loads_bytes (ob_contents (last (hist w2 (head_key path)))) = Inr (JObj d0)"
        "json_eq (JObj d0) (JObj d)" "hist w' = (hist w2)(head_key path := hist w2 (head_key path) @ [x])"
        "loads_bytes (ob_contents x) = Inr (JObj updated)"
      using write_head_Inr [OF w2(1) assms(2,3) wh up_plain assms(6) g(1)] by blast
    have "require_admission updated ad = Inr ()"
      using g gm mm by (simp add: require_admission_def ad m_def get_or_def)
    moreover have "get_or m (str ''resultKey'') JNull = JStr (path @ str ''/exchange-results/'' @ attempt)"
      "get_or m (str ''deadline'') JNull = JStr dtext"
      by (simp_all add: m_def get_or_def)
    ultimately show ?thesis
      using x g gm mm up_plain w2 dl
      by (intro exI [of _ x] exI [of _ updated] exI [of _ m]) (auto simp: ad status_is_def simp del: json_eq.simps)
  qed
qed

text \<open>A driver whose every refresh sends at most \<open>most\<close> requests to the provider.\<close>

definition counted :: "nat \<Rightarrow> ('c, 'w) refresh_driver \<Rightarrow> bool" where
  "counted most driver \<longleftrightarrow> (\<forall>state w r w'. inv w \<longrightarrow> driver_refresh driver state w = (r, w') \<longrightarrow>
     inv w' \<and> hist w' = hist w \<and> calls w' \<le> calls w + most)"

lemma quiet_after:
  assumes "m w = (q, w1)" "inv w1" "\<And>e. quiet (h e)" "\<And>x. quiet (f x)" "sbind (scatch m h) f w = (r, w')"
  shows "inv w' \<and> grows (hist w1) (hist w') \<and> calls w' = calls w1"
proof (cases q)
  case (Inl e)
  have "sbind (h e) f w1 = (r, w')" using assms(1,5) Inl by (simp add: sbind_def scatch_def)
  moreover have "quiet (sbind (h e) f)" using assms(3,4) by (rule quiet_sbind)
  ultimately show ?thesis using quietD assms(2) by blast
next
  case (Inr x)
  have "f x w1 = (r, w')" using assms(1,5) Inr by (simp add: sbind_def scatch_def)
  then show ?thesis using quietD assms(2,4) by blast
qed

lemma refresh_admitted_dispatch:
  assumes "inv w" "cst_objects (pv_store pv) = store" "counted most driver"
    and "refresh_admitted sha256 rt pv ad auth state driver w = (r, w')"
  shows "inv w' \<and> grows (hist w) (hist w') \<and> calls w' \<le> calls w + most"
proof -
  obtain q w1 where q: "driver_refresh driver state w = (q, w1)" by fastforce
  have w1: "inv w1" "hist w1 = hist w" "calls w1 \<le> calls w + most"
    using assms(1,3) q by (auto simp: counted_def)
  have "inv w' \<and> grows (hist w1) (hist w') \<and> calls w' = calls w1"
    by (rule quiet_after [OF q w1(1) _ _ assms(4) [unfolded refresh_admitted_def]])
      (intro quiet_rules quiet_finish quiet_commit assms(2))+
  with w1 show ?thesis by simp
qed

definition paid :: "nat \<Rightarrow> pystr \<Rightarrow> int \<Rightarrow> ('a, 'w) action \<Rightarrow> bool" where
  "paid most path n m \<longleftrightarrow> (\<forall>w r w'. inv w \<longrightarrow> m w = (r, w') \<longrightarrow> inv w' \<and> grows (hist w) (hist w') \<and>
     (calls w' = calls w \<or> calls w' \<le> calls w + most \<and> admitted_since path n (hist w) (hist w')))"

lemma paid_quiet: "quiet m \<Longrightarrow> paid most path n m"
  by (simp add: quiet_def paid_def)

lemma paid_sbind:
  assumes "quiet m" "\<And>x. paid most path n (f x)"
  shows "paid most path n (sbind m f)"
  unfolding paid_def
proof (intro allI impI)
  fix w r w'
  assume i: "inv w" and e: "sbind m f w = (r, w')"
  obtain q w1 where q: "m w = (q, w1)" by fastforce
  note k = quietD [OF assms(1) i q]
  show "inv w' \<and> grows (hist w) (hist w') \<and>
     (calls w' = calls w \<or> calls w' \<le> calls w + most \<and> admitted_since path n (hist w) (hist w'))"
  proof (cases q)
    case (Inl y)
    with e q k show ?thesis by (simp add: sbind_def)
  next
    case (Inr x)
    with e q have "f x w1 = (r, w')" by (simp add: sbind_def)
    then have p: "inv w'" "grows (hist w1) (hist w')"
        "calls w' = calls w1 \<or> calls w' \<le> calls w1 + most \<and> admitted_since path n (hist w1) (hist w')"
      using assms(2) [unfolded paid_def] k by blast+
    have "grows (hist w) (hist w')" using k p(2) grows_trans by blast
    moreover have "admitted_since path n (hist w1) (hist w') \<Longrightarrow> admitted_since path n (hist w) (hist w')"
      using k admitted_since_grows grows_refl by blast
    ultimately show ?thesis using k p by auto
  qed
qed

text \<open>The admission and what follows it: the driver is called only when the admission was granted.\<close>

lemma admitted_refresh_paid:
  assumes "cst_objects (pv_store pv) = store" "key_path (pv_key pv) (cst_scope (pv_store pv)) = Inr path"
    and "counted most driver" "json_plain (JObj d)" "is_int (get_or d (str ''revision'') JNull)" "is_int (get_or d (str ''fence'') JNull)"
  shows "paid most path (int_value (get_or d (str ''fence'') JNull) + 1)
    (sbind (scatch (sbind (admit_refresh rt pv d now) (\<lambda>ad. sret (Some ad)))
         (\<lambda>e. if is_conflict e then sret None else sraise e)) (\<lambda>admitted.
       case admitted of
         None \<Rightarrow> sret None
       | Some ad \<Rightarrow> sbind (refresh_admitted sha256 rt pv ad auth state driver) (\<lambda>c. sret (Some c))))"
  unfolding paid_def
proof (intro allI impI)
  let ?n = "int_value (get_or d (str ''fence'') JNull) + 1"
  fix w r w'
  assume i: "inv w" and e: "sbind (scatch (sbind (admit_refresh rt pv d now) (\<lambda>ad. sret (Some ad)))
         (\<lambda>e. if is_conflict e then sret None else sraise e)) (\<lambda>admitted.
       case admitted of
         None \<Rightarrow> sret None
       | Some ad \<Rightarrow> sbind (refresh_admitted sha256 rt pv ad auth state driver) (\<lambda>c. sret (Some c))) w = (r, w')"
  obtain q w1 where q: "admit_refresh rt pv d now w = (q, w1)" by fastforce
  note k = quietD [OF quiet_admit [OF assms(1)] i q]
  show "inv w' \<and> grows (hist w) (hist w') \<and>
     (calls w' = calls w \<or> calls w' \<le> calls w + most \<and> admitted_since path ?n (hist w) (hist w'))"
  proof (cases q)
    case (Inl y)
    with e q have "w' = w1" by (auto simp: sbind_def scatch_def split: if_splits)
    with k show ?thesis by simp
  next
    case (Inr ad)
    obtain r2 w2 where r2: "refresh_admitted sha256 rt pv ad auth state driver w1 = (r2, w2)" by fastforce
    have "w' = w2" using e q r2 Inr by (cases r2) (auto simp: sbind_def scatch_def)
    moreover note dsp = refresh_admitted_dispatch [OF _ assms(1,3) r2]
    moreover have "admitted_since path ?n (hist w) (hist w1)"
      using admit_refresh_Inr [OF i assms(1,2) q [unfolded Inr] assms(4-6)]
      unfolding admitted_since_def by force
    ultimately show ?thesis
      using k admitted_since_grows [of "hist w" "hist w" path ?n "hist w1" "hist w2"] grows_trans [of "hist w" "hist w1" "hist w2"]
      by simp
  qed
qed

lemma refresh_ready_paid:
  assumes "cst_objects (pv_store pv) = store" "key_path (pv_key pv) (cst_scope (pv_store pv)) = Inr path"
    and "counted most driver" "json_plain (JObj d)" "is_int (get_or d (str ''revision'') JNull)" "is_int (get_or d (str ''fence'') JNull)"
  shows "paid most path (int_value (get_or d (str ''fence'') JNull) + 1) (refresh_ready sha256 rt pv driver d)"
  unfolding refresh_ready_def Let_def
  by (intro paid_sbind quiet_material quiet_rules assms(1))
    (auto intro!: admitted_refresh_paid [OF assms] paid_quiet quiet_rules)

lemma refresh_round_dispatch:
  fixes pv :: "('c, 'w) project_provider"
  assumes "inv w" "cst_objects (pv_store pv) = store" "key_path (pv_key pv) (cst_scope (pv_store pv)) = Inr path"
    and "counted most driver" "refresh_round sha256 rt pv driver w = (r, w')"
    and "\<And>d. loads_bytes (ob_contents (last (hist w (head_key path)))) = Inr (JObj d) \<Longrightarrow> json_plain (JObj d)"
  shows "inv w' \<and> grows (hist w) (hist w') \<and> (calls w' = calls w \<or> calls w' \<le> calls w + most \<and>
    (\<exists>d. loads_bytes (ob_contents (last (hist w (head_key path)))) = Inr (JObj d) \<and> status_is d ''READY''
       \<and> admitted_since path (int_value (get_or d (str ''fence'') JNull) + 1) (hist w) (hist w')))"
proof -
  obtain q w1 where q: "read_record (pv_store pv) (pv_key pv) w = (q, w1)" by fastforce
  note k = quietD [OF quiet_read_record [OF assms(2)] assms(1) q]
  show ?thesis
  proof (cases q)
    case (Inl e)
    with assms(5) q k show ?thesis by (simp add: refresh_round_def sbind_def)
  next
    case (Inr dx)
    obtain d x where dx: "dx = (d, x)" by fastforce
    have rd: "read_record (pv_store pv) (pv_key pv) w = (Inr (d, x), w1)" using q Inr dx by simp
    obtain hw: "hist w1 = hist w" and ld: "loads_bytes (ob_contents (last (hist w (head_key path)))) = Inr (JObj d)"
      and ck: "check_record (cst_scope (pv_store pv)) (pv_key pv) path x d = Inr ()"
      using assms(1,2) rd by (rule read_record_Inr) (use assms(3) in auto)
    have plain: "json_plain (JObj d)" by (rule assms(6) [OF ld])
    have ints: "is_int (get_or d (str ''revision'') JNull)" "is_int (get_or d (str ''fence'') JNull)"
      using ck by (auto simp: check_record_def ethen_eq_Inr_iff check_identity_def ebind_eq_Inr_iff Let_def
          positive_int_def split: if_splits)
    define rest :: "('c option, 'w) action" where "rest = (if status_is d ''REVOKED'' \<or> status_is d ''REAUTHORIZATION_REQUIRED''
      then sraise ReauthorizationRequiredError
      else if status_is d ''AUTHORIZING''
      then
       sbind (slift (ebind (require_object (get_or d (str ''mutation'') JNull) ''credential mutation'') (\<lambda>m.
         ebind (item_of m ''deadline'') parse_time))) (\<lambda>deadline.
       sbind (case deadline of None \<Rightarrow> sret False
         | Some t \<Rightarrow> sbind (utc_now rt) (\<lambda>now. slift (dt_less now t))) (\<lambda>pending.
       if pending then sraise (ExchangePendingError (str ''credential authorization exchange is pending''))
       else again_on_conflict (recover_or_wait sha256 rt pv d)))
      else if status_is d ''REFRESHING'' then again_on_conflict (recover_or_wait sha256 rt pv d)
      else sraise (ValueError (str ''project credential status is invalid'')))"
    have again: "quiet (again_on_conflict (recover_or_wait sha256 rt pv d))"
      unfolding again_on_conflict_def by (intro quiet_rules quiet_recover assms(2))
    have quiet_rest: "quiet rest" unfolding rest_def by (intro quiet_rules again)
    show ?thesis
    proof (cases "status_is d ''READY''")
      case True
      have "refresh_ready sha256 rt pv driver d w1 = (r, w')"
        using assms(5) True unfolding refresh_round_def sbind_Inr [where m = "read_record (pv_store pv) (pv_key pv)", OF rd] by (simp add: status_is_def)
      then have p: "inv w' \<and> grows (hist w1) (hist w') \<and> (calls w' = calls w1 \<or> calls w' \<le> calls w1 + most \<and>
          admitted_since path (int_value (get_or d (str ''fence'') JNull) + 1) (hist w1) (hist w'))"
        using refresh_ready_paid [OF assms(2,3,4) plain ints, of sha256] k unfolding paid_def by blast
      then show ?thesis using k hw ld True by auto
    next
      case False
      have "rest w1 = (r, w')"
        using assms(5) False unfolding refresh_round_def sbind_Inr [where m = "read_record (pv_store pv) (pv_key pv)", OF rd] rest_def by (simp cong: if_cong)
      then show ?thesis using quietD [OF quiet_rest] k grows_trans hw by metis
    qed
  qed
qed

end

section \<open>Re-encoding an expiry\<close>

text \<open>
  Every head a refresh writes re-encodes the stored expiry through a \<open>datetime\<close>.  An expiry
  with more than six fraction digits, as Go writes it, does not survive: the new head no longer
  agrees with the envelope it refers to, and \<open>check_envelope\<close> refuses the credential.
\<close>

lemma parse_expiry_canonical:
  assumes "parts_ok p" "length (tp_hour p) = 2" "datetime_ok (datetime_of_parts p)"
  shows "parse_expiry (JStr (render_parts p)) = Inr (Some (PyTime (datetime_of_parts p)))"
  using parse_utc_canonical [OF assms] by (simp add: parse_expiry_def parse_time_def)

lemma offset_of_parts:
  assumes "parts_ok p" "datetime_ok (datetime_of_parts p)"
  shows "\<exists>z. dt_offset (datetime_of_parts p) = Some z \<and> minute_offset z"
proof -
  obtain z where z: "dt_offset (datetime_of_parts p) = Some z" by (simp add: datetime_of_parts_def)
  have "\<bar>z\<bar> < 86400000000" using assms(2) z by (simp add: datetime_ok_def)
  moreover have "z = 60000000 * (if tp_offset p = [90] then 0 else (if hd (tp_offset p) = 45 then - 1 else 1)
      * (offset_hours (tp_offset p) * 60 + offset_minutes (tp_offset p)))"
    using z by (auto simp: datetime_of_parts_def algebra_simps)
  then have "60000000 dvd z" by (metis dvd_triv_left)
  ultimately show ?thesis using z by (auto simp: minute_offset_def)
qed

lemma reencoded_expiry_truncated:
  assumes "parts_ok p" "length (tp_hour p) = 2" "datetime_ok (datetime_of_parts p)" "tp_fraction p = Some f" "6 < length f"
  shows "\<exists>w. ebind (parse_expiry (JStr (render_parts p))) expiry_member = Inr [(str ''expiresAt'', JStr w)] \<and> w \<noteq> render_parts p"
proof -
  let ?t = "datetime_of_parts p"
  obtain z where z: "dt_offset ?t = Some z" "minute_offset z" using offset_of_parts [OF assms(1,3)] by blast
  obtain w where w: "nano_from_datetime ?t = Inr w" using parse_utc_formatted [OF assms(3) z] by blast
  have ok: "parts_ok (datetime_parts ?t z)" by (rule datetime_parts_ok [OF assms(3) z(2)])
  have wr: "w = render_parts (canonical_parts (datetime_parts ?t z))"
    using w match_render [OF ok] z
    by (auto simp: nano_from_datetime_def replace_zero_offset_render nano_from_wire_def ebind_eq_Inr_iff go_time_parts_eq_Inr_iff)
  have "w \<noteq> render_parts p"
  proof
    assume "w = render_parts p"
    then have "canonical_parts (datetime_parts ?t z) = p"
      using match_render [OF assms(1)] match_render [OF canonical_parts_ok [OF ok]] wr by simp
    then have "tp_fraction p = tp_fraction (canonical_parts (datetime_parts ?t z))" by simp
    then have "f = rstrip_by (\<lambda>c. c = 48) (pad 6 (dt_micro ?t))"
      using assms(4) by (simp add: canonical_parts_def datetime_parts_def Let_def opt_str_def split: if_splits)
    moreover have "length (rstrip_by q s) \<le> length s" for q :: "nat \<Rightarrow> bool" and s
      using rstrip_by_append [of q s] by (metis length_append le_add1)
    moreover have "length (pad 6 (dt_micro ?t)) = 6"
      using datetime_fields [OF assms(3)] by (intro pad_props) auto
    ultimately show False using assms(5) by (metis leD)
  qed
  then show ?thesis
    using parse_expiry_canonical [OF assms(1-3)] w by (simp add: expiry_member_def format_rfc3339_nano_def)
qed

lemma check_envelope_expiry:
  assumes "check_envelope s k auth d e = Inr ()" "get_or e (str ''expiresAt'') JNull = JStr w"
  shows "get_or d (str ''expiresAt'') JNull = JStr w"
  using assms by (auto simp: check_envelope_def ebind_eq_Inr_iff)

section \<open>A host with the in-memory store\<close>

text \<open>A store inside a larger world.\<close>

definition framed_store :: "('w \<Rightarrow> 'm) \<Rightarrow> ('m \<Rightarrow> 'w \<Rightarrow> 'w) \<Rightarrow> 'm object_store \<Rightarrow> 'w object_store" where
  "framed_store get_part put_part objects =
     \<lparr>read_object = (\<lambda>key v. frame_action get_part put_part (read_object objects key v)),
      create_object = (\<lambda>key c. frame_action get_part put_part (create_object objects key c)),
      compare_and_swap_object = (\<lambda>key t c. frame_action get_part put_part (compare_and_swap_object objects key t c))\<rparr>"

context versioned_store
begin

lemma framed:
  assumes "\<And>m w. get_part (put_part m w) = m"
  shows "versioned_store (framed_store get_part put_part store) (\<lambda>w. hist (get_part w)) (\<lambda>w. inv (get_part w))"
proof
  note fr = frame_action_eq [of get_part put_part, OF assms]
  show "inv (get_part w) \<Longrightarrow> sound_history (hist (get_part w))" for w by (rule sound)
  show "inv (get_part w') \<and> hist (get_part w') = hist (get_part w)"
    if "inv (get_part w)" "read_object (framed_store get_part put_part store) key v w = (r, w')" for w w' key v r
    using read_keeps [OF that(1)] that(2) fr(1) by (fastforce simp: framed_store_def)
  show "hist (get_part w) key \<noteq> [] \<and> x = last (hist (get_part w) key)"
    if "inv (get_part w)" "read_object (framed_store get_part put_part store) key [] w = (Inr x, w')" for w w' key x
    using read_head [OF that(1)] that(2) fr(1) by (fastforce simp: framed_store_def)
  show "x \<in> set (hist (get_part w) key) \<and> ob_version x = v"
    if "inv (get_part w)" "v \<noteq> []" "read_object (framed_store get_part put_part store) key v w = (Inr x, w')" for w w' key x v
    using read_version [OF that(1,2)] that(3) fr(1) by (fastforce simp: framed_store_def)
  show "hist (get_part w) key = []"
    if "inv (get_part w)" "read_object (framed_store get_part put_part store) key [] w = (Inl ObjectNotFoundError, w')" for w w' key
    using read_missing [OF that(1)] that(2) fr(1) by (fastforce simp: framed_store_def)
  show "inv (get_part w') \<and> hist (get_part w) key = [] \<and> appends (hist (get_part w)) key c x (hist (get_part w'))"
    if "inv (get_part w)" "create_object (framed_store get_part put_part store) key c w = (Inr x, w')" for w w' key c x
    using create_ok [OF that(1)] that(2) fr(1) by (fastforce simp: framed_store_def)
  show "inv (get_part w') \<and> (hist (get_part w') = hist (get_part w)
      \<or> (\<exists>x. is_unknown e \<and> hist (get_part w) key = [] \<and> appends (hist (get_part w)) key c x (hist (get_part w'))))"
    if "inv (get_part w)" "create_object (framed_store get_part put_part store) key c w = (Inl e, w')" for w w' key c e
    using create_error [OF that(1), of key c e "get_part w'"] that(2)
      fr(1) [of "create_object store key c" w "Inl e" w'] by (simp add: framed_store_def)
  show "inv (get_part w') \<and> hist (get_part w) key \<noteq> [] \<and> ob_etag (last (hist (get_part w) key)) = t
      \<and> appends (hist (get_part w)) key c x (hist (get_part w'))"
    if "inv (get_part w)" "compare_and_swap_object (framed_store get_part put_part store) key t c w = (Inr x, w')" for w w' key t c x
    using swap_ok [OF that(1), of key t c x "get_part w'"] that(2)
      fr(1) [of "compare_and_swap_object store key t c" w "Inr x" w'] by (simp add: framed_store_def)
  show "inv (get_part w') \<and> (hist (get_part w') = hist (get_part w)
      \<or> (\<exists>x. is_unknown e \<and> hist (get_part w) key \<noteq> [] \<and> ob_etag (last (hist (get_part w) key)) = t
          \<and> appends (hist (get_part w)) key c x (hist (get_part w'))))"
    if "inv (get_part w)" "compare_and_swap_object (framed_store get_part put_part store) key t c w = (Inl e, w')" for w w' key t c e
    using swap_error [OF that(1), of key t c e "get_part w'"] that(2)
      fr(1) [of "compare_and_swap_object store key t c" w "Inl e" w'] by (simp add: framed_store_def)
qed

end

record host =
  host_memory :: memory
  host_clock :: instant
  host_tokens :: nat
  host_calls :: nat

definition host_store :: "(bytes \<Rightarrow> pystr) \<Rightarrow> host object_store" where
  "host_store sha256 = framed_store host_memory (\<lambda>m w. w\<lparr>host_memory := m\<rparr>) (memory_store sha256)"

text \<open>The clock moves when the host sleeps, and tokens never repeat.\<close>

definition host_runtime :: "host runtime" where
  "host_runtime =
     \<lparr>rt_now = (\<lambda>w. (host_clock w, w)),
      rt_token_hex = (\<lambda>w. (pad 32 (int (host_tokens w)), w\<lparr>host_tokens := host_tokens w + 1\<rparr>)),
      rt_sleep = (\<lambda>w. w\<lparr>host_clock := host_clock w + 100000\<rparr>)\<rparr>"

interpretation host: refresh_world "host_store sha256" "\<lambda>w. versions (host_memory w)" "\<lambda>w. mem_inv (host_memory w)"
  host_runtime host_calls
proof (rule refresh_world.intro)
  show "versioned_store (host_store sha256) (\<lambda>w. versions (host_memory w)) (\<lambda>w. mem_inv (host_memory w))"
    unfolding host_store_def by (rule memory.framed) simp
  show "refresh_world_axioms (host_store sha256) (\<lambda>w. versions (host_memory w)) (\<lambda>w. mem_inv (host_memory w)) host_runtime host_calls"
    by unfold_locales
      (auto simp: host_runtime_def host_store_def framed_store_def frame_action_def split: prod.splits)
qed

end
