(* ===== verification/GrantDriver.thy ===== *)
theory GrantDriver
  imports Grants RefreshProvider
begin

text \<open>
  \<open>ManifestCredentialRefreshDriver\<close> (\<open>oauthtoken/manifest_refresh.py\<close>): the choice of the
  authentication method, value sources and URL templates, one exchange per active grant, the
  checks on the granted scopes, the mapping of response members to credential attributes, and the
  expiry of the replacement.

  A credential is the attributes of a frozen dataclass.  HTTP clients, the clock, PEM keys and
  regular expressions are parameters.  A declared list or object that should hold strings is
  read when the endpoint is built; one that holds anything else, which the manifest schema refuses, is
  an \<open>AttributeError\<close> there.
\<close>

section \<open>Credentials and the driver\<close>

datatype attribute = SecretAttr pystr | PlainAttr json

type_synonym credential = "(pystr, attribute) dict"

record 'w refresh_env =
  re_unicode :: unicode_data
  re_decimal :: decimal_table
  re_regex :: regex
  re_load_pem :: "bytes \<Rightarrow> private_key option"
  re_shared_http :: "pyfloat option \<Rightarrow> 'w token_client"
  re_is_mock :: bool
  re_private_http :: "pyfloat \<Rightarrow> pyfloat option \<Rightarrow> 'w token_client"
  re_now :: "'w \<Rightarrow> instant \<times> 'w"

record driver =
  dv_provider_name :: pystr
  dv_auth :: jobj
  dv_fields :: "(pystr, pystr) dict"
  dv_settings :: settings

definition auth_methods :: "jobj \<Rightarrow> json \<Rightarrow> json" where
  "auth_methods auth fallback = or_else (get_or auth (str ''methods'') JNull) fallback"

definition validate_method :: "'w refresh_env \<Rightarrow> driver \<Rightarrow> json \<Rightarrow> exc + unit" where
  "validate_method env dv auth_method =
     ebind (grants_of auth_method) (eall (\<lambda>g.
       ethen (validate_stored_missing_expiry g)
         (validate_new_declarations (re_regex env) (re_decimal env) (dv_fields dv) (dv_settings dv) g)))"

definition new_driver ::
  "'w refresh_env \<Rightarrow> pystr \<Rightarrow> jobj \<Rightarrow> (pystr, pystr) dict \<Rightarrow> bool \<Rightarrow> settings \<Rightarrow> exc + driver" where
  "new_driver env provider_name auth credential_fields has_client st =
     (if provider_name = [] \<or> auth = [] \<or> credential_fields = [] \<or> \<not> has_client
      then raise (ValueError (str ''manifest refresh configuration and HTTP client are required''))
      else
        let dv = \<lparr>dv_provider_name = provider_name, dv_auth = auth, dv_fields = credential_fields, dv_settings = st\<rparr> in
        ebind (jiter (auth_methods auth (JArr [JObj auth]))) (\<lambda>ms. ethen (eall (validate_method env dv) ms) (ret dv)))"

fun attribute_text :: "attribute option \<Rightarrow> pystr" where
  "attribute_text None = []"
| "attribute_text (Some (SecretAttr s)) = s"
| "attribute_text (Some (PlainAttr j)) = (if truthy j then py_str j else [])"

text \<open>\<open>self._fields[name]\<close>\<close>

definition field_attr :: "driver \<Rightarrow> json \<Rightarrow> exc + pystr" where
  "field_attr dv name =
     (case name of
        JStr s \<Rightarrow> (case dict_get (dv_fields dv) s of Some a \<Rightarrow> ret a | None \<Rightarrow> raise KeyError)
      | JArr _ \<Rightarrow> raise (TypeError (str ''unhashable type''))
      | JObj _ \<Rightarrow> raise (TypeError (str ''unhashable type''))
      | _ \<Rightarrow> raise KeyError)"

definition credential_value :: "driver \<Rightarrow> credential \<Rightarrow> json \<Rightarrow> exc + pystr" where
  "credential_value dv c name = ebind (field_attr dv name) (\<lambda>a. ret (attribute_text (dict_get c a)))"

fun secret_field :: "pystr \<Rightarrow> json list \<Rightarrow> exc + bool" where
  "secret_field name [] = ret False"
| "secret_field name (f # fs) =
     ebind (jget f ''name'' JNull) (\<lambda>n.
       if n = JStr name then ebind (jget f ''type'' JNull) (\<lambda>t. ret (py_str t = str ''secretString''))
       else secret_field name fs)"

definition is_secret :: "json \<Rightarrow> pystr \<Rightarrow> exc + bool" where
  "is_secret auth_method name =
     ebind (jget auth_method ''fields'' JNull) (\<lambda>fs. ebind (jiter (or_else fs (JArr []))) (secret_field name))"

fun find_method :: "(json \<Rightarrow> bool) \<Rightarrow> json list \<Rightarrow> exc + json" where
  "find_method is_id [] = raise ReauthorizationRequiredError"
| "find_method is_id (m # ms) =
     ebind (jget m ''id'' JNull) (\<lambda>i. if is_id i then ret m else find_method is_id ms)"

text \<open>A secret attribute equals no JSON value.\<close>

definition selected_method :: "driver \<Rightarrow> credential \<Rightarrow> exc + json" where
  "selected_method dv c =
     (let methods = get_or (dv_auth dv) (str ''methods'') JNull in
      if \<not> truthy methods then ret (JObj (dv_auth dv))
      else case dict_get c (str ''auth_method_id'') of
          None \<Rightarrow> raise (ValueError (str ''multi-method credentials require auth_method_id''))
        | Some (SecretAttr _) \<Rightarrow> ebind (jiter methods) (find_method (\<lambda>_. False))
        | Some (PlainAttr j) \<Rightarrow>
          ebind (jiter methods) (find_method (json_eq (or_else j (get_or (dv_auth dv) (str ''defaultMethod'') (JStr []))))))"

section \<open>Value sources\<close>

text \<open>\<open>x in container\<close>\<close>

definition jin :: "json \<Rightarrow> json \<Rightarrow> exc + bool" where
  "jin x container =
     (case container of
        JArr xs \<Rightarrow> ret (list_ex (json_eq x) xs)
      | JObj d \<Rightarrow> field_known (map (\<lambda>(k, _). (k, k)) d) x
      | JStr t \<Rightarrow> (case x of JStr s \<Rightarrow> ret (contains s t) | _ \<Rightarrow> raise (TypeError (str ''in <string> requires string'')))
      | _ \<Rightarrow> raise (TypeError (str ''argument is not iterable'')))"

text \<open>\<open>\\{([^{}]+)\\}\<close>: the names in braces.\<close>

fun placeholders :: "pystr \<Rightarrow> pystr list" where
  "placeholders [] = []"
| "placeholders (c # s) =
     (let name = takeWhile (\<lambda>x. x \<noteq> 123 \<and> x \<noteq> 125) s; rest = drop (length name) s in
      if c = 123 \<and> name \<noteq> [] \<and> take 1 rest = [125] then name # placeholders rest else placeholders s)"

function replace_text :: "pystr \<Rightarrow> pystr \<Rightarrow> pystr \<Rightarrow> pystr" where
  "replace_text old new s =
     (case s of
        [] \<Rightarrow> []
      | c # r \<Rightarrow>
        if old \<noteq> [] \<and> prefix old s then new @ replace_text old new (drop (length old) s) else c # replace_text old new r)"
  by pat_completeness auto
termination
  by (relation "measure (\<lambda>(_, _, s). length s)") auto

declare replace_text.simps [simp del]

definition quote_safe :: "pystr \<Rightarrow> pystr \<Rightarrow> exc + pystr" where
  "quote_safe safe s =
     (case utf8_encode s of
        None \<Rightarrow> raise UnicodeError
      | Some bs \<Rightarrow> ret (concat (map (\<lambda>b. if is_unreserved b \<or> b \<in> set safe then [b]
          else [37, hex_upper (b div 16), hex_upper (b mod 16)]) bs)))"

definition template_value :: "'w refresh_env \<Rightarrow> driver \<Rightarrow> credential \<Rightarrow> json \<Rightarrow> pystr \<Rightarrow> exc + pystr" where
  "template_value env dv c rules name =
     ebind (if name \<in> set (dict_keys (dv_fields dv)) then credential_value dv c (JStr name)
            else ret (setting_text (dict_get (dv_settings dv) name))) (\<lambda>raw.
     ebind (case rules of JObj d \<Rightarrow> ret (get_or d name (JObj [])) | _ \<Rightarrow> raise attribute_error) (\<lambda>rule.
     ebind (apply_template_value_rule (re_regex env) (re_unicode env) raw rule) (quote_safe (str '':@&=+$''))))"

fun fill_template :: "(pystr \<Rightarrow> exc + pystr) \<Rightarrow> pystr list \<Rightarrow> pystr \<Rightarrow> exc + pystr" where
  "fill_template f [] template = ret template"
| "fill_template f (name # names) template =
     ebind (f name) (\<lambda>v. fill_template f names (replace_text ([123] @ name @ [125]) v template))"

text \<open>The value a \<open>values\<close> table gives.\<close>

definition listed_value :: "json \<Rightarrow> json \<Rightarrow> exc + pystr" where
  "listed_value v values =
     ebind (jin v values) (\<lambda>found.
       if \<not> found then raise ReauthorizationRequiredError
       else case (values, v) of
           (JObj d, JStr s) \<Rightarrow> ret (py_str (get_or d s JNull))
         | _ \<Rightarrow> raise (TypeError (str ''value is not subscriptable by a name'')))"

definition key_value :: "jobj \<Rightarrow> json \<Rightarrow> exc + json" where
  "key_value key name =
     (case name of
        JStr s \<Rightarrow> ret (get_or key s (JStr []))
      | JArr _ \<Rightarrow> raise (TypeError (str ''unhashable type''))
      | JObj _ \<Rightarrow> raise (TypeError (str ''unhashable type''))
      | _ \<Rightarrow> ret (JStr []))"

definition source_value :: "driver \<Rightarrow> credential \<Rightarrow> jobj \<Rightarrow> jobj \<Rightarrow> exc + json" where
  "source_value dv c key source =
     (if declares source ''fromCredential''
      then ebind (credential_value dv c (get_or source (str ''fromCredential'') JNull)) (\<lambda>s. ret (JStr s))
      else if declares source ''fromSetting''
      then ebind (setting_at (dv_settings dv) (get_or source (str ''fromSetting'') JNull)) (\<lambda>v. ret (JStr (setting_text v)))
      else key_value key (get_or source (str ''fromKey'') JNull))"

definition resolve_object :: "'w refresh_env \<Rightarrow> driver \<Rightarrow> credential \<Rightarrow> jobj \<Rightarrow> jobj \<Rightarrow> exc + pystr" where
  "resolve_object env dv c key source =
     (if declares source ''value'' then ret (py_str (get_or source (str ''value'') JNull))
      else if declares source ''fromCredential'' \<or> declares source ''fromSetting'' \<or> declares source ''fromKey''
      then ebind (source_value dv c key source) (\<lambda>v.
        if declares source ''values'' then listed_value v (get_or source (str ''values'') JNull)
        else if \<not> truthy v then raise ReauthorizationRequiredError
        else ret (py_str v))
      else if declares source ''template''
      then
        let template = py_str (get_or source (str ''template'') JNull) in
        fill_template (template_value env dv c (get_or source (str ''templateValueRules'') (JObj []))) (placeholders template) template
      else raise ReauthorizationRequiredError)"

definition source_names :: "string list" where
  "source_names = [''value'', ''fromCredential'', ''fromSetting'', ''fromKey'', ''template'']"

definition resolve_source :: "'w refresh_env \<Rightarrow> driver \<Rightarrow> credential \<Rightarrow> jobj \<Rightarrow> json \<Rightarrow> exc + pystr" where
  "resolve_source env dv c key source =
     (case source of
        JStr s \<Rightarrow> ret s
      | JObj d \<Rightarrow> resolve_object env dv c key d
      | JArr xs \<Rightarrow>
        if list_ex (\<lambda>n. jtext n \<in> set xs) source_names then raise (TypeError (str ''list indices must be integers or slices''))
        else raise ReauthorizationRequiredError
      | _ \<Rightarrow> raise (TypeError (str ''argument is not iterable'')))"

definition resolve_assertion_source ::
  "'w refresh_env \<Rightarrow> driver \<Rightarrow> credential \<Rightarrow> jobj \<Rightarrow> jobj \<Rightarrow> json \<Rightarrow> exc + pystr" where
  "resolve_assertion_source env dv c key assertion source =
     ebind (resolve_source env dv c key source) (\<lambda>v.
       case source of
         JObj d \<Rightarrow>
           ebind (jin (get_or d (str ''fromCredential'') JNull) (get_or assertion (str ''trimSpaceSources'') (JArr []))) (\<lambda>trims.
             if \<not> trims then ret v
             else if trim_go_space v = [] then raise ReauthorizationRequiredError
             else ret (trim_go_space v))
       | _ \<Rightarrow> ret v)"

section \<open>Refresh decisions\<close>

fun access_fields :: "json list \<Rightarrow> exc + pystr list" where
  "access_fields [] = ret []"
| "access_fields (m # ms) =
     ebind (jitem m ''source'') (\<lambda>source.
     ebind (if source = jtext ''access_token'' then ebind (jitem m ''credential'') (\<lambda>c. ret [py_str c]) else ret []) (\<lambda>fs.
     ebind (access_fields ms) (\<lambda>rest. ret (fs @ rest))))"

definition rule_object :: "grant \<Rightarrow> jobj" where
  "rule_object g = (case g_response_url_validation g of JObj d \<Rightarrow> d | _ \<Rightarrow> [])"

definition has_blank_field :: "driver \<Rightarrow> credential \<Rightarrow> grant \<Rightarrow> exc + bool" where
  "has_blank_field dv c g =
     (if truthy (g_refresh_when_blank g) then ebind (credential_value dv c (g_refresh_when_blank g)) (\<lambda>v. ret (v = [])) else ret False)"

definition has_invalid_url :: "driver \<Rightarrow> credential \<Rightarrow> grant \<Rightarrow> exc + bool" where
  "has_invalid_url dv c g =
     (if rule_flag (rule_object g) ''refreshWhenInvalid''
      then ebind (jitem (JObj (rule_object g)) ''credential'') (\<lambda>name.
        ebind (credential_value dv c name) (\<lambda>v.
        ebind (is_valid_response_url v (rule_object g)) (\<lambda>ok. ret (\<not> ok))))
      else ret False)"

definition refreshes_if_present :: "driver \<Rightarrow> credential \<Rightarrow> grant \<Rightarrow> exc + bool" where
  "refreshes_if_present dv c g =
     (if g_stored_missing_expiry g = jtext ''refreshIfRefreshTokenPresent''
      then ebind (credential_value dv c (g_refresh_field g)) (\<lambda>v. ret (v \<noteq> [])) else ret False)"

text \<open>\<open>datetime.fromtimestamp(seconds, UTC)\<close>; the bound on the claim keeps it in range.\<close>

definition unix_epoch :: instant where
  "unix_epoch = 719162 * 86400000000"

definition instant_of_unix :: "int \<Rightarrow> instant" where
  "instant_of_unix n = unix_epoch + seconds n"

definition effective_expiry :: "driver \<Rightarrow> grant list \<Rightarrow> pystr list \<Rightarrow> credential refresh_state \<Rightarrow> exc + datetime option" where
  "effective_expiry dv grants access state =
     (if list_ex (\<lambda>g. truthy (g_jwt_expiry_fallback g)) grants \<and> rs_expires_at state = None \<and> access \<noteq> []
      then ebind (credential_value dv (rs_credentials state) (JStr (hd access))) (\<lambda>token.
        ebind (read_jwt_expiry_seconds token) (\<lambda>claim. ret (map_option (\<lambda>n. utc_datetime (instant_of_unix n)) claim)))
      else ret (rs_expires_at state))"

definition manifest_refresh_required :: "driver \<Rightarrow> credential refresh_state \<Rightarrow> exc + bool" where
  "manifest_refresh_required dv state =
     (let c = rs_credentials state in
      ebind (selected_method dv c) (\<lambda>auth_method.
      ebind (grants_of auth_method) (\<lambda>grants.
        if grants = [] then ret False
        else
          ebind (emap (\<lambda>g. ebind (jiter (g_mappings g)) access_fields) grants) (\<lambda>fs.
          let access = concat fs in
          ebind (if access = [] then ret False else eevery (\<lambda>n. ebind (credential_value dv c (JStr n)) (\<lambda>v. ret (v \<noteq> []))) access) (\<lambda>has_access.
          ebind (eany (has_blank_field dv c) grants) (\<lambda>blank.
          if blank then ret True
          else ebind (eany (has_invalid_url dv c) grants) (\<lambda>invalid.
          if invalid then ret True
          else ebind (eany (refreshes_if_present dv c) grants) (\<lambda>present.
          ebind (effective_expiry dv grants access state) (\<lambda>expiry.
            is_refresh_required has_access expiry (rs_now state)
              (if present \<or> list_ex (\<lambda>g. g_stored_missing_expiry g = jtext ''refresh'') grants
               then REFRESH_WHEN_EXPIRY_MISSING else KEEP_WHEN_EXPIRY_MISSING) None)))))))))"

section \<open>The exchange\<close>

text \<open>What \<open>asyncio.timeout\<close> interrupts its body with, and what an unusable URL makes httpx raise.\<close>

definition deadline_passed :: exc where
  "deadline_passed = ForeignError (str ''asyncio.timeout'')"

definition invalid_url :: exc where
  "invalid_url = ForeignError (str ''httpx.InvalidURL'')"

definition uses_private_network :: "grant \<Rightarrow> bool" where
  "uses_private_network g \<longleftrightarrow> g_network_policy g = jtext ''privateNetworkHTTP''"

definition string_list :: "json \<Rightarrow> exc + pystr list" where
  "string_list j = ebind (jiter j) (emap (\<lambda>x. case x of JStr s \<Rightarrow> ret s | _ \<Rightarrow> raise attribute_error))"

definition string_dict :: "json \<Rightarrow> exc + (pystr, pystr) dict" where
  "string_dict j =
     (case j of
        JObj d \<Rightarrow> emap (\<lambda>(k, v). case v of JStr s \<Rightarrow> ret (k, s) | _ \<Rightarrow> raise attribute_error) d
      | _ \<Rightarrow> raise attribute_error)"

text \<open>The members of a service account key that the declaration reads.\<close>

definition key_fields :: "grant \<Rightarrow> exc + json list" where
  "key_fields g =
     ebind (jitem (g_assertion g) ''privateKey'') (\<lambda>private_key.
     ebind (jitem (g_assertion g) ''issuer'') (\<lambda>issuer.
     ebind (jitem (g_assertion g) ''audience'') (\<lambda>audience.
     ebind (jget (g_assertion g) ''subject'' JNull) (\<lambda>subject.
       ret (concat (map (\<lambda>source. case source of
           JObj d \<Rightarrow> if declares d ''fromKey'' then [get_or d (str ''fromKey'') JNull] else []
         | _ \<Rightarrow> []) [g_endpoint g, private_key, issuer, audience, subject]))))))"

definition bad_key_field :: "jobj \<Rightarrow> json \<Rightarrow> bool" where
  "bad_key_field parsed name =
     (case name of JStr s \<Rightarrow> (case dict_get parsed s of Some v \<Rightarrow> \<not> is_str v | None \<Rightarrow> False) | _ \<Rightarrow> False)"

definition service_account_key :: "driver \<Rightarrow> credential \<Rightarrow> grant \<Rightarrow> exc + jobj" where
  "service_account_key dv c g =
     (if g_kind g = JwtBearerGrant \<and> truthy (g_key_credential g)
      then ebind (credential_value dv c (g_key_credential g)) (\<lambda>t.
        case loads_text t of
          Inl e \<Rightarrow> if is_ValueError e then raise ReauthorizationRequiredError else raise e
        | Inr parsed \<Rightarrow>
          ebind (key_fields g) (\<lambda>names.
            if list_ex (\<lambda>n. case n of JArr _ \<Rightarrow> True | JObj _ \<Rightarrow> True | _ \<Rightarrow> False) names
            then raise (TypeError (str ''unhashable type''))
            else case parsed of
                JObj d \<Rightarrow> if list_ex (bad_key_field d) names then raise ReauthorizationRequiredError else ret d
              | _ \<Rightarrow> raise ReauthorizationRequiredError))
      else ret [])"

fun mapping_sources :: "json \<Rightarrow> json list \<Rightarrow> exc + json list" where
  "mapping_sources name [] = ret []"
| "mapping_sources name (m # ms) =
     ebind (jitem m ''credential'') (\<lambda>c.
     ebind (if json_eq c name then ebind (jitem m ''source'') (\<lambda>s. ret [s]) else ret []) (\<lambda>found.
     ebind (mapping_sources name ms) (\<lambda>rest. ret (found @ rest))))"

definition grant_endpoint :: "'w refresh_env \<Rightarrow> driver \<Rightarrow> grant \<Rightarrow> pystr \<Rightarrow> exc + token_endpoint" where
  "grant_endpoint env dv g url =
     ebind (string_list (g_terminal_codes g)) (\<lambda>codes.
     ebind (jiter (g_mappings g)) (\<lambda>mappings.
     ebind (mapping_sources (get_or (rule_object g) (str ''credential'') JNull) mappings) (\<lambda>sources.
     ebind (string_list (JArr sources)) (\<lambda>retained.
     ebind (string_list (g_accepted_token_types g)) (\<lambda>types.
     ebind (string_dict (g_additional g)) (\<lambda>additional.
       ret \<lparr>te_provider_name = dv_provider_name dv, te_url = url, te_terminal_error_codes = codes,
            te_accepted_token_types = types,
            te_accepts_missing_token_type = truthy (g_accepts_missing_token_type g),
            te_accepts_missing_expires_in = g_accepts_missing_expires_in g,
            te_retained_response_fields = (if g_response_scope_field g = jtext ''scopesArray'' then [str ''scopes''] else []) @ retained,
            te_uses_json_request_body = (g_encoding g = jtext ''json''),
            te_allows_plain_http = uses_private_network g,
            te_additional_request_parameters = additional\<rparr>))))))"

definition client_method :: "pystr \<Rightarrow> exc + authentication_method" where
  "client_method s =
     (if s = str ''client_secret_post'' then ret CLIENT_SECRET_POST
      else if s = str ''client_secret_basic'' then ret CLIENT_SECRET_BASIC
      else if s = str ''none'' then ret PUBLIC_CLIENT
      else raise (ValueError (str ''not a valid ClientAuthenticationMethod'')))"

text \<open>The client of the refresh and client-credentials grants.\<close>

definition grant_client :: "'w refresh_env \<Rightarrow> driver \<Rightarrow> credential \<Rightarrow> grant \<Rightarrow> exc + client_credentials" where
  "grant_client env dv c g =
     ebind (credential_value dv c (g_client_secret g)) (\<lambda>secret.
     ethen (ensure (secret \<noteq> [] \<or> g_kind g \<noteq> RefreshGrant \<or> truthy (g_allows_public_client g)) ReauthorizationRequiredError)
     (ebind (resolve_source env dv c [] (g_authentication g)) (\<lambda>declared.
     ebind (credential_value dv c (g_client_id g)) (\<lambda>client_id.
     ebind (client_method (if secret = [] \<and> g_kind g = RefreshGrant then str ''none'' else declared)) (\<lambda>auth_method.
       ret \<lparr>cl_id = (if truthy (g_trim_client_id g) then trim_go_space client_id else client_id),
            cl_secret = secret, cl_method = auth_method\<rparr>)))))"

text \<open>\<open>except (KeyError, ValueError) as error: raise ReauthorizationRequiredError(error)\<close>\<close>

definition assertion_failure :: "exc + 'a \<Rightarrow> exc + 'a" where
  "assertion_failure r =
     (case r of
        Inl e \<Rightarrow> if e = KeyError \<or> is_ValueError e then raise ReauthorizationRequiredError else raise e
      | Inr x \<Rightarrow> ret x)"

definition assertion_subject :: "'w refresh_env \<Rightarrow> driver \<Rightarrow> credential \<Rightarrow> jobj \<Rightarrow> jobj \<Rightarrow> exc + pystr" where
  "assertion_subject env dv c key assertion =
     ebind (if truthy (get_or assertion (str ''subject'') JNull)
            then resolve_assertion_source env dv c key assertion (get_or assertion (str ''subject'') JNull) else ret []) (\<lambda>subject.
       if get_or assertion (str ''subjectValidation'') JNull = jtext ''goMailAddress''
       then (if is_go_mail_address (trim_go_space subject) then ret (trim_go_space subject) else raise ReauthorizationRequiredError)
       else ret subject)"

definition signed_assertion ::
  "'w refresh_env \<Rightarrow> driver \<Rightarrow> credential \<Rightarrow> jobj \<Rightarrow> jobj \<Rightarrow> timedelta \<Rightarrow> instant \<Rightarrow> exc + pystr" where
  "signed_assertion env dv c key assertion lifetime now =
     assertion_failure
      (ebind (assertion_subject env dv c key assertion) (\<lambda>subject.
       ebind (jitem (JObj assertion) ''privateKey'') (\<lambda>key_source.
       ebind (resolve_source env dv c key key_source) (\<lambda>pem.
       ebind (parse_rsa_private_key_pem (re_load_pem env) pem) (\<lambda>sign.
       ebind (jitem (JObj assertion) ''issuer'') (\<lambda>issuer_source.
       ebind (resolve_assertion_source env dv c key assertion issuer_source) (\<lambda>issuer.
       ebind (jitem (JObj assertion) ''audience'') (\<lambda>audience_source.
       ebind (resolve_source env dv c key audience_source) (\<lambda>audience.
       ebind (scopes_of (dv_settings dv) (get_or assertion (str ''scopes'') (JArr []))) (\<lambda>scopes.
         sign_jwt_bearer_assertion sign
           \<lparr>ja_issuer = issuer, ja_audience = audience, ja_issued_at = utc_datetime now, ja_lifetime = lifetime,
            ja_subject = subject, ja_scope = join_with [32] scopes\<rparr>))))))))))"

definition read_now :: "'w refresh_env \<Rightarrow> (instant, 'w) action" where
  "read_now env w = (case re_now env w of (i, w') \<Rightarrow> (ret i, w'))"

definition bearer_exchange ::
  "'w refresh_env \<Rightarrow> driver \<Rightarrow> grant \<Rightarrow> credential \<Rightarrow> jobj \<Rightarrow> token_endpoint \<Rightarrow> 'w token_client \<Rightarrow> (token_response, 'w) action" where
  "bearer_exchange env dv g c key te http =
     sbind (slift (ebind (jitem (g_assertion g) ''lifetime'') (duration_of (re_decimal env)))) (\<lambda>lifetime.
     sbind (read_now env) (\<lambda>now.
     sbind (slift (signed_assertion env dv c key (case g_assertion g of JObj d \<Rightarrow> d | _ \<Rightarrow> []) lifetime now)) (\<lambda>signed.
       exchange_jwt_bearer_assertion (re_unicode env) http te signed)))"

definition client_exchange ::
  "'w refresh_env \<Rightarrow> driver \<Rightarrow> grant \<Rightarrow> credential \<Rightarrow> token_endpoint \<Rightarrow> (pyfloat option \<Rightarrow> 'w token_client) \<Rightarrow> (token_response, 'w) action" where
  "client_exchange env dv g c te http =
     sbind (slift (grant_client env dv c g)) (\<lambda>client.
     sbind (slift (token_exchange_timeout_seconds (re_decimal env) (dv_settings dv) (g_token_exchange_timeout g))) (\<lambda>timeout.
     scatch
      (if g_kind g = RefreshGrant
       then sbind (slift (credential_value dv c (g_refresh_field g))) (exchange_refresh_token (re_unicode env) (http timeout) te client)
       else sbind (slift (scopes_of (dv_settings dv) (g_request_scopes g)))
         (exchange_client_credentials (re_unicode env) (http timeout) te client))
      (\<lambda>e. if e = TimeoutError \<or> e = deadline_passed then sraise (OSError (str ''token endpoint is unavailable'')) else sraise e)))"

definition exchange_with_client ::
  "'w refresh_env \<Rightarrow> driver \<Rightarrow> grant \<Rightarrow> credential \<Rightarrow> (pyfloat option \<Rightarrow> 'w token_client) \<Rightarrow> (token_response \<times> json list, 'w) action" where
  "exchange_with_client env dv g c http =
     sbind (slift (service_account_key dv c g)) (\<lambda>key.
     sbind (slift (resolve_source env dv c key (g_endpoint g))) (\<lambda>url.
     if uses_private_network g \<and> (\<not> list_all is_printable url \<or> 35 \<in> set url) then sraise ReauthorizationRequiredError
     else sbind (slift (grant_endpoint env dv g url)) (\<lambda>te.
       if g_kind g = JwtBearerGrant
       then sbind (bearer_exchange env dv g c key te (http None)) (\<lambda>token.
         sbind (slift (jiter (g_copies g))) (\<lambda>copies. sret (token, copies)))
       else sbind (client_exchange env dv g c te http) (\<lambda>token. sret (token, [])))))"

definition exchange_grant :: "'w refresh_env \<Rightarrow> driver \<Rightarrow> grant \<Rightarrow> credential \<Rightarrow> (token_response \<times> json list, 'w) action" where
  "exchange_grant env dv g c =
     (if uses_private_network g \<and> \<not> re_is_mock env
      then sbind (slift (token_exchange_timeout_seconds (re_decimal env) (dv_settings dv) (g_token_exchange_timeout g))) (\<lambda>timeout.
        exchange_with_client env dv g c (re_private_http env (case timeout of Some t \<Rightarrow> t | None \<Rightarrow> Fin 30)))
      else exchange_with_client env dv g c (re_shared_http env))"

text \<open>\<open>str(error)\<close>; the wording of a codec or parser error is abbreviated.\<close>

definition error_message :: "exc \<Rightarrow> pystr" where
  "error_message e =
     (case e of UnicodeError \<Rightarrow> str ''invalid Unicode text'' | JSONDecodeError \<Rightarrow> str ''invalid JSON text'' | _ \<Rightarrow> exc_text e)"

definition refresh_failure :: "driver \<Rightarrow> pystr \<Rightarrow> exc" where
  "refresh_failure dv m =
     new_retry_error \<lparr>fkind = PROTOCOL, fprovider = dv_provider_name dv, foperation = str ''refreshCredentials'', fmessage = m\<rparr> (Fin 0)"

definition grant_failure :: "driver \<Rightarrow> grant \<Rightarrow> exc \<Rightarrow> exc" where
  "grant_failure dv g e =
     (if e = invalid_url
      then if uses_private_network g then AddressRefusal (str ''URL is invalid'') else refresh_failure dv (str ''token endpoint is invalid'')
      else case e of
          AddressRefusal _ \<Rightarrow> e
        | _ \<Rightarrow> if is_OSError e \<or> is_ValueError e then refresh_failure dv (error_message e) else e)"

section \<open>Granted scopes\<close>

definition canonical_scope :: "unicode_data \<Rightarrow> grant \<Rightarrow> pystr \<Rightarrow> pystr" where
  "canonical_scope u g scope_name =
     (let scope_prefix = py_str (g_scope_resource_prefix g);
          fold_case = (if truthy (g_prefix_case_insensitive g) then lower u else id);
          stripped = (if scope_prefix \<noteq> [] \<and> prefix (fold_case scope_prefix) (fold_case scope_name)
            then drop (length scope_prefix) scope_name else scope_name)
      in if truthy (g_case_insensitive_scopes g) then lower u stripped else stripped)"

definition is_offline :: "pystr \<Rightarrow> bool" where
  "is_offline s \<longleftrightarrow> s = str ''offline_access''"

definition drop_offline :: "grant \<Rightarrow> pystr list \<Rightarrow> pystr list" where
  "drop_offline g scopes = (if g_kind g = RefreshGrant then filter (\<lambda>s. \<not> is_offline s) scopes else scopes)"

text \<open>
  The names the response reports: whether it reports any, and the names.  With \<open>scopesArray\<close> an
  absent or null member skips the check and a member of another shape ends it.
\<close>

definition reported_scopes :: "grant \<Rightarrow> token_response \<Rightarrow> exc + (bool \<times> bool \<times> pystr list)" where
  "reported_scopes g token =
     (let names = (if g_scope_separators g = jtext ''whitespaceAndComma'' then scope_names else split_space) (tr_scope token) in
      if g_response_scope_field g \<noteq> jtext ''scopesArray'' then ret (True, strip (tr_scope token) \<noteq> [], names)
      else case get_or (tr_retained_fields token) (str ''scopes'') JNull of
          JNull \<Rightarrow> ret (False, False, names)
        | j \<Rightarrow> if all_strings j then ret (True, True, strings_of j) else raise ReauthorizationRequiredError)"

definition accepted_scope_sets :: "grant \<Rightarrow> pystr list \<Rightarrow> pystr list list" where
  "accepted_scope_sets g required =
     map (drop_offline g) (case g_accepted_scope_sets g of
        JArr xs \<Rightarrow> if xs = [] then [required] else map strings_of xs
      | _ \<Rightarrow> [required])"

definition scopes_accepted :: "unicode_data \<Rightarrow> grant \<Rightarrow> pystr list \<Rightarrow> pystr list \<Rightarrow> bool" where
  "scopes_accepted u g required reported =
     (let granted = canonical_scope u g ` set reported - {[]} in
      list_ex (\<lambda>scope_set. let wanted = canonical_scope u g ` set scope_set in
          wanted \<subseteq> granted \<and> (truthy (g_exact_scopes g) \<longrightarrow> granted = wanted)) (accepted_scope_sets g required))"

definition check_scopes :: "unicode_data \<Rightarrow> driver \<Rightarrow> grant \<Rightarrow> token_response \<Rightarrow> exc + unit" where
  "check_scopes u dv g token =
     ebind (scopes_of (dv_settings dv) (g_scopes g)) (\<lambda>declared.
     ebind (reported_scopes g token) (\<lambda>(has_array, has_reported, reported).
       ensure (g_response_scopes g = jtext ''ignore'' \<or> \<not> has_array \<or> \<not> (has_reported \<or> truthy (g_exact_scopes g))
         \<or> scopes_accepted u g (drop_offline g declared) reported) ReauthorizationRequiredError))"

section \<open>Replacement values\<close>

definition tagged_value :: "json \<Rightarrow> pystr \<Rightarrow> pystr \<Rightarrow> exc + attribute" where
  "tagged_value auth_method destination v =
     ebind (is_secret auth_method destination) (\<lambda>secret. ret (if secret then SecretAttr v else PlainAttr (JStr v)))"

type_synonym updates = "(pystr, attribute) dict"

definition set_update :: "driver \<Rightarrow> json \<Rightarrow> pystr \<Rightarrow> pystr \<Rightarrow> updates \<Rightarrow> exc + updates" where
  "set_update dv auth_method destination v ups =
     ebind (tagged_value auth_method destination v) (\<lambda>a.
     ebind (field_attr dv (JStr destination)) (\<lambda>attr. ret (dict_set attr a ups)))"

fun map_updates :: "driver \<Rightarrow> json \<Rightarrow> grant \<Rightarrow> token_response \<Rightarrow> json list \<Rightarrow> updates \<Rightarrow> exc + updates" where
  "map_updates dv auth_method g token [] ups = ret ups"
| "map_updates dv auth_method g token (m # ms) ups =
     ebind (jitem m ''credential'') (\<lambda>c.
     ebind (jitem m ''source'') (\<lambda>source.
     ebind (case mapped_response_string token (py_str source) of
         None \<Rightarrow> ret ups
       | Some v \<Rightarrow> if v = [] \<and> JStr (py_str c) = g_refresh_field g then ret ups
           else set_update dv auth_method (py_str c) v ups) (map_updates dv auth_method g token ms)))"

text \<open>The source mapped to the URL credential: \<open>next\<close> over the mappings.\<close>

fun first_source :: "json \<Rightarrow> json list \<Rightarrow> exc + json" where
  "first_source name [] = raise (RuntimeError (str ''coroutine raised StopIteration''))"
| "first_source name (m # ms) =
     ebind (jitem m ''credential'') (\<lambda>c. if json_eq c name then jitem m ''source'' else first_source name ms)"

definition url_value :: "jobj \<Rightarrow> token_response \<Rightarrow> json \<Rightarrow> pystr \<Rightarrow> json" where
  "url_value rule token source prior =
     (case source of
        JStr s \<Rightarrow>
          (case dict_get (tr_retained_fields token) s of
             Some v \<Rightarrow> if v = JNull then JStr [] else v
           | None \<Rightarrow>
             if rule_flag rule ''requireResponse'' then JNull
             else or_else (JStr prior) (get_or rule (str ''defaultURL'') (JStr [])))
      | _ \<Rightarrow> if rule_flag rule ''requireResponse'' then JNull else or_else (JStr prior) (get_or rule (str ''defaultURL'') (JStr [])))"

definition url_update :: "driver \<Rightarrow> grant \<Rightarrow> credential \<Rightarrow> token_response \<Rightarrow> json list \<Rightarrow> updates \<Rightarrow> exc + updates" where
  "url_update dv g c token mappings ups =
     (let rule = rule_object g in
      if rule = [] then ret ups
      else
        ebind (jitem (JObj rule) ''credential'') (\<lambda>destination.
        ebind (first_source destination mappings) (\<lambda>source.
        ebind (credential_value dv c destination) (\<lambda>prior.
          case url_value rule token source prior of
            JStr v \<Rightarrow>
              ebind (is_valid_response_url v rule) (\<lambda>ok.
                if \<not> ok then raise (refresh_failure dv (str ''token response URL is invalid''))
                else ebind (validate_response_url v rule) (\<lambda>url.
                  ebind (field_attr dv destination) (\<lambda>attr. ret (dict_set attr (PlainAttr (JStr url)) ups))))
          | _ \<Rightarrow> raise (refresh_failure dv (str ''token response URL is invalid''))))))"

fun copy_updates :: "driver \<Rightarrow> json \<Rightarrow> credential \<Rightarrow> json list \<Rightarrow> updates \<Rightarrow> exc + updates" where
  "copy_updates dv auth_method c [] ups = ret ups"
| "copy_updates dv auth_method c (x # xs) ups =
     ebind (jitem x ''credential'') (\<lambda>destination.
     ebind (jitem x ''fromCredential'') (\<lambda>source.
     ebind (credential_value dv c (JStr (py_str source))) (\<lambda>v.
     ebind (set_update dv auth_method (py_str destination) v ups) (copy_updates dv auth_method c xs))))"

text \<open>\<open>dataclasses.replace\<close>: an update of an unknown field is an error.\<close>

definition replace_fields :: "credential \<Rightarrow> updates \<Rightarrow> exc + credential" where
  "replace_fields c ups =
     (if set (dict_keys ups) \<subseteq> set (dict_keys c) then ret (fold (\<lambda>(k, v). dict_set k v) ups c)
      else raise (TypeError (str ''got an unexpected keyword argument'')))"

section \<open>Expiry\<close>

definition claimed_lifetime :: "'w refresh_env \<Rightarrow> grant \<Rightarrow> token_response \<Rightarrow> instant \<Rightarrow> exc + timedelta" where
  "claimed_lifetime env g token now =
     ebind (read_jwt_expiry_seconds (tr_access_token token)) (\<lambda>claim.
       case claim of
         Some n \<Rightarrow> if now < instant_of_unix n then ret (instant_of_unix n - now)
           else duration_of (re_decimal env) (g_jwt_expiry_fallback g)
       | None \<Rightarrow> duration_of (re_decimal env) (g_jwt_expiry_fallback g))"

definition token_lifetime :: "'w refresh_env \<Rightarrow> grant \<Rightarrow> token_response \<Rightarrow> (timedelta, 'w) action" where
  "token_lifetime env g token =
     sbind (slift (if tr_expires_in token \<le> 0 then duration_of (re_decimal env) (g_missing_expiry g) else ret (tr_expires_in token))) (\<lambda>declared.
     sbind (slift (if truthy (g_expiry_cap g) \<and> 0 < declared
        then ebind (duration_of (re_decimal env) (g_expiry_cap g)) (\<lambda>cap. ret (min declared cap)) else ret declared)) (\<lambda>capped.
     if truthy (g_jwt_expiry_fallback g) \<and> tr_expires_in token \<le> 0
     then sbind (read_now env) (\<lambda>now. slift (claimed_lifetime env g token now))
     else sret capped))"

definition grant_expiry :: "'w refresh_env \<Rightarrow> timedelta \<Rightarrow> (instant, 'w) action" where
  "grant_expiry env lifetime =
     (if lifetime = 0 then sret datetime_min
      else sbind (read_now env) (\<lambda>now.
        if 0 \<le> now + lifetime \<and> now + lifetime < datetime_end then sret (now + lifetime) else sraise OverflowError))"

section \<open>Refreshing\<close>

definition grant_updates :: "driver \<Rightarrow> json \<Rightarrow> grant \<Rightarrow> credential \<Rightarrow> token_response \<Rightarrow> json list \<Rightarrow> exc + credential" where
  "grant_updates dv auth_method g c token copies =
     ebind (jiter (g_mappings g)) (\<lambda>mappings.
     ebind (map_updates dv auth_method g token mappings []) (\<lambda>ups.
     ebind (url_update dv g c token mappings ups) (\<lambda>ups.
     ebind (copy_updates dv auth_method c copies ups) (replace_fields c))))"

definition refresh_one :: "'w refresh_env \<Rightarrow> driver \<Rightarrow> json \<Rightarrow> grant \<Rightarrow> credential \<Rightarrow> (credential \<times> instant, 'w) action" where
  "refresh_one env dv auth_method g c =
     sbind (scatch (exchange_grant env dv g c) (\<lambda>e. sraise (grant_failure dv g e))) (\<lambda>(token, copies).
     sbind (slift (check_scopes (re_unicode env) dv g token)) (\<lambda>_.
     sbind (slift (grant_updates dv auth_method g c token copies)) (\<lambda>replaced.
     sbind (token_lifetime env g token) (\<lambda>lifetime.
     sbind (grant_expiry env lifetime) (\<lambda>expiry. sret (replaced, expiry))))))"

text \<open>A refresh grant whose stored refresh token is blank is skipped.\<close>

definition is_skipped :: "driver \<Rightarrow> grant \<Rightarrow> credential \<Rightarrow> exc + bool" where
  "is_skipped dv g c =
     (if truthy (g_refresh_field g) then ebind (credential_value dv c (g_refresh_field g)) (\<lambda>v. ret (v = [])) else ret False)"

fun refresh_grants ::
  "'w refresh_env \<Rightarrow> driver \<Rightarrow> json \<Rightarrow> grant list \<Rightarrow> credential \<Rightarrow> instant list \<Rightarrow> (credential \<times> instant list, 'w) action" where
  "refresh_grants env dv auth_method [] c expiries = sret (c, expiries)"
| "refresh_grants env dv auth_method (g # gs) c expiries =
     sbind (slift (is_skipped dv g c)) (\<lambda>skip.
       if skip then refresh_grants env dv auth_method gs c expiries
       else sbind (refresh_one env dv auth_method g c) (\<lambda>(c', expiry).
         refresh_grants env dv auth_method gs c' (expiries @ [expiry])))"

definition manifest_refresh :: "'w refresh_env \<Rightarrow> driver \<Rightarrow> credential refresh_state \<Rightarrow> (credential refresh_result, 'w) action" where
  "manifest_refresh env dv state =
     sbind (slift (selected_method dv (rs_credentials state))) (\<lambda>auth_method.
     sbind (slift (grants_of auth_method)) (\<lambda>grants.
     if grants = [] then sraise ReauthorizationRequiredError
     else
       sbind (slift (eall (validate_grant (re_decimal env) (dv_fields dv)) grants)) (\<lambda>_.
       sbind (refresh_grants env dv auth_method grants (rs_credentials state) []) (\<lambda>(c, expiries).
         if expiries = [] then sraise ReauthorizationRequiredError
         else sret \<lparr>rr_credentials = c, rr_expires_at = utc_datetime (Min (set expiries))\<rparr>))))"

definition manifest_driver :: "'w refresh_env \<Rightarrow> driver \<Rightarrow> (credential, 'w) refresh_driver" where
  "manifest_driver env dv = \<lparr>refresh_required = manifest_refresh_required dv, driver_refresh = manifest_refresh env dv\<rparr>"

end
