(* ===== verification/RefreshLoop.thy ===== *)
theory RefreshLoop
  imports RefreshProvider
begin

text \<open>
  The loop of \<open>resolve_with_refresh\<close> (\<open>projectconfig/provider.py\<close>) ends.  On a host whose store is in
  memory and which nobody else writes to, a round that asks for another one has either slept while
  the deadline of a lost admission was ahead, or has moved the head to a status with which the next
  round returns or raises.
\<close>

section \<open>Errors that are no conflict\<close>

definition calm :: "exc + 'a \<Rightarrow> bool" where
  "calm r \<longleftrightarrow> (\<forall>e. r = Inl e \<longrightarrow> \<not> is_conflict e)"

lemma calm_simps [simp]: "calm (Inl e) \<longleftrightarrow> \<not> is_conflict e" "calm (Inr x)"
  "calm (ensure b e) \<longleftrightarrow> b \<or> \<not> is_conflict e"
  by (auto simp: calm_def)

lemma calm_ebind: "calm m \<Longrightarrow> (\<And>x. m = Inr x \<Longrightarrow> calm (f x)) \<Longrightarrow> calm (ebind m f)"
  by (auto simp: calm_def ebind_eq_Inl_iff)

lemma calm_ethen: "calm m \<Longrightarrow> calm k \<Longrightarrow> calm (ethen m k)"
  by (auto simp: calm_def ethen_eq_Inl_iff)

lemma data_only_calm: "data_only r \<Longrightarrow> calm r"
proof -
  have "data_error e \<Longrightarrow> \<not> is_conflict e" for e by (cases e) auto
  then show "data_only r \<Longrightarrow> calm r" by (auto simp: data_only_def calm_def)
qed

lemmas calm_rules = calm_ebind calm_ethen

lemma calm_go_time: "calm (go_time_parts s)"
  by (auto simp: go_time_parts_def check_time_parts_def intro!: calm_rules split: option.splits)

lemma calm_nano: "calm (nano_from_wire s)"
  unfolding nano_from_wire_def by (rule calm_ebind [OF calm_go_time]) (simp split: prod.splits)

lemma calm_format: "calm (format_rfc3339_nano v)"
  by (auto simp: format_rfc3339_nano_def nano_from_datetime_def calm_nano split: time_value.splits)

lemma calm_item: "calm (item_of d n)"
  by (simp add: item_of_def split: option.splits)

lemma calm_object: "calm (require_object j l)"
  by (rule data_only_calm) simp

lemma calm_record_wire: "calm (connection_record_wire s k revision fence status t auth r m)"
  unfolding connection_record_wire_def expiry_member_def reference_wire_def mutation_wire_def
  by (auto intro!: calm_rules calm_item calm_format calm_nano data_only_calm [OF data_only_scope(3)] split: option.splits)

lemma calm_parse_time: "calm (parse_time j)"
  by (rule data_only_calm) simp

lemma calm_parse_expiry: "calm (parse_expiry j)"
  unfolding parse_expiry_def by (intro calm_rules calm_parse_time) simp

lemma calm_canonical: "calm (go_canonical_json_bytes j)"
  by (simp add: go_canonical_json_bytes_def split: option.splits)

lemma calm_loads: "calm (loads_bytes b)"
  using loads_bytes_errors [of b] by (auto simp: calm_def)

lemma calm_dt: "calm (dt_less a b)" "calm (dt_plus t x)"
  by (auto simp: dt_less_def dt_plus_def Let_def)

lemma calm_key_path: "calm (key_path k s)"
  by (auto simp: key_path_def Let_def intro!: calm_rules data_only_calm [OF data_only_scope(1)] split: option.splits)

lemmas calm_leaves = calm_format calm_item calm_object calm_record_wire calm_parse_time calm_parse_expiry calm_canonical
  calm_loads calm_dt calm_key_path

section \<open>The host's store\<close>

lemma host_reads:
  "read_object (host_store sha) key v w = (fst (mem_read key v (host_memory w)), w)"
  by (simp add: host_store_def framed_store_def frame_action_def memory_store_def mem_read_def)

lemma host_read_record:
  assumes "cst_objects st = host_store sha"
  shows "snd (read_record st k w) = w"
    and "host_memory v = host_memory w \<Longrightarrow> fst (read_record st k v) = fst (read_record st k w)"
  using assms by (auto simp: read_record_def sbind_def host_reads split: sum.splits prod.splits)

lemma host_swaps:
  assumes "versions (host_memory w) key \<noteq> []" "ob_etag (last (versions (host_memory w) key)) = t" "t \<noteq> []"
  shows "\<exists>r w'. compare_and_swap_object (host_store sha) key t c w = (r, w') \<and> host_clock w' = host_clock w
    \<and> (case r of Inl e \<Rightarrow> \<not> is_conflict e \<and> \<not> is_unknown e \<and> w' = w | Inr x \<Rightarrow> True)"
proof -
  have v: "ethen (validate_object_key key) (validate_contents c) = Inl e \<Longrightarrow> \<not> is_conflict e \<and> \<not> is_unknown e" for e
    by (auto simp: validate_object_key_def validate_contents_def ethen_eq_Inl_iff)
  show ?thesis
    using assms v
    by (auto simp: host_store_def framed_store_def frame_action_def memory_store_def mem_cas_def mem_append_def Let_def
        split: prod.splits sum.splits)
qed

text \<open>Nobody else writes: a write based on the record just read meets no conflict.\<close>

lemma read_record_head:
  assumes "cst_objects (pv_store pv) = host_store sha" "mem_inv (host_memory w)"
    and "read_record (pv_store pv) (pv_key pv) w = (Inr (d, x), w1)"
  obtains path where "key_path (pv_key pv) (cst_scope (pv_store pv)) = Inr path" "w1 = w"
    "versions (host_memory w) (head_key path) \<noteq> []" "x = last (versions (host_memory w) (head_key path))"
    "loads_bytes (ob_contents x) = Inr (JObj d)" "check_record (cst_scope (pv_store pv)) (pv_key pv) path x d = Inr ()"
proof -
  have "w1 = w" using host_read_record(1) [OF assms(1), where k = "pv_key pv" and w = w] assms(3) by simp
  then show thesis using host.read_record_Inr [OF assms(2,1,3)] that by blast
qed

lemma write_head_calm:
  assumes "cst_objects (pv_store pv) = host_store sha" "mem_inv (host_memory w)"
    and "read_record (pv_store pv) (pv_key pv) w = (Inr (d, x), w)" "json_eq (JObj d) (JObj d)"
    and "write_head pv d updated w = (r, w')"
  shows "calm r" "host_clock w' = host_clock w"
proof -
  obtain path where p: "key_path (pv_key pv) (cst_scope (pv_store pv)) = Inr path"
    "versions (host_memory w) (head_key path) \<noteq> []" "x = last (versions (host_memory w) (head_key path))"
    "check_record (cst_scope (pv_store pv)) (pv_key pv) path x d = Inr ()"
    using assms(1-3) by (rule read_record_head)
  have "ob_etag x \<noteq> []"
    using p(4) by (auto simp: check_record_def ethen_eq_Inr_iff check_identity_def ebind_eq_Inr_iff Let_def split: if_splits)
  note swap = host_swaps [OF p(2) p(3) [symmetric, THEN arg_cong [of _ _ ob_etag]] this, of sha]
  have step: "(case go_canonical_json_bytes (JObj updated) of Inl e \<Rightarrow> (Inl e, w)
      | Inr contents \<Rightarrow> (case reconciled_write (host_store sha) (head_key path) (Some x) contents w of
          (Inl e, v) \<Rightarrow> (Inl e, v) | (Inr _, v) \<Rightarrow> (Inr (), v))) = (r, w')"
    using assms(5) p(1) assms(1,3,4)
    by (auto simp: write_head_def sbind_def simp del: json_eq.simps split: sum.splits prod.splits)
  have "calm r \<and> host_clock w' = host_clock w"
  proof (cases "go_canonical_json_bytes (JObj updated)")
    case (Inl e)
    then show ?thesis using step calm_canonical [of "JObj updated"] by auto
  next
    case (Inr contents)
    obtain q v where q: "compare_and_swap_object (host_store sha) (head_key path) (ob_etag x) contents w = (q, v)"
      "host_clock v = host_clock w" "case q of Inl e \<Rightarrow> \<not> is_conflict e \<and> \<not> is_unknown e \<and> v = w | Inr x \<Rightarrow> True"
      using swap by blast
    then have "reconciled_write (host_store sha) (head_key path) (Some x) contents w = (q, v)"
      by (cases q) (auto simp: reconciled_write_def scatch_def)
    with step Inr q(2,3) show ?thesis by (cases q) auto
  qed
  then show "calm r" "host_clock w' = host_clock w" by simp_all
qed

text \<open>
  Actions that end without a conflict when they start with a given memory, and those that also
  leave it as it was.
\<close>

definition peaceful :: "memory \<Rightarrow> ('a, host) action \<Rightarrow> bool" where
  "peaceful st m \<longleftrightarrow> (\<forall>w. host_memory w = st \<longrightarrow> calm (fst (m w)))"

definition leaves :: "memory \<Rightarrow> ('a, host) action \<Rightarrow> bool" where
  "leaves st m \<longleftrightarrow> (\<forall>w. host_memory w = st \<longrightarrow> host_memory (snd (m w)) = st)"

lemma peaceful_slift: "calm r \<Longrightarrow> peaceful st (slift r)" and leaves_slift: "leaves st (slift r)"
  by (simp_all add: peaceful_def leaves_def)

lemma peaceful_sbind:
  assumes "peaceful st m" "leaves st m" "\<And>x w. host_memory w = st \<Longrightarrow> fst (m w) = Inr x \<Longrightarrow> peaceful st (f x)"
  shows "peaceful st (sbind m f)"
  unfolding peaceful_def
proof (intro allI impI)
  fix w :: host
  assume w: "host_memory w = st"
  obtain r v where m: "m w = (r, v)" by fastforce
  show "calm (fst (sbind m f w))"
  proof (cases r)
    case (Inl e)
    then show ?thesis using assms(1) w m by (auto simp: peaceful_def sbind_def)
  next
    case (Inr x)
    have "host_memory v = st" using assms(2) w m by (auto simp: leaves_def)
    with assms(3) [of w x] w m Inr show ?thesis by (simp add: peaceful_def sbind_def)
  qed
qed

lemma peaceful_first: "calm r \<Longrightarrow> (\<And>x. r = Inr x \<Longrightarrow> peaceful st (f x)) \<Longrightarrow> peaceful st (sbind (slift r) f)"
  by (rule peaceful_sbind) (auto intro: peaceful_slift leaves_slift)

lemma peaceful_sret: "peaceful st m \<Longrightarrow> peaceful st (sbind m (\<lambda>x. sret (g x)))"
  by (auto simp: peaceful_def sbind_def split: prod.splits sum.splits)

lemma host_clock_actions:
  "peaceful st (utc_now host_runtime)" "leaves st (utc_now host_runtime)"
  "peaceful st (token_hex host_runtime)" "leaves st (token_hex host_runtime)"
  by (auto simp: peaceful_def leaves_def utc_now_def token_hex_def host_runtime_def)

lemma host_runtime_steps [simp]:
  "utc_now host_runtime w = (Inr (utc_datetime (host_clock w)), w)"
  "async_sleep host_runtime w = (Inr (), w\<lparr>host_clock := host_clock w + 100000\<rparr>)"
  by (simp_all add: utc_now_def async_sleep_def host_runtime_def)

section \<open>Rounds that end\<close>

text \<open>The provider and the record its head holds in a memory.\<close>

definition holds :: "('c, host) project_provider \<Rightarrow> (bytes \<Rightarrow> pystr) \<Rightarrow> memory \<Rightarrow> jobj \<Rightarrow> obj \<Rightarrow> bool" where
  "holds pv sha st d x \<longleftrightarrow> cst_objects (pv_store pv) = host_store sha \<and> mem_inv st \<and> json_plain (JObj d)
     \<and> (\<forall>w. host_memory w = st \<longrightarrow> read_record (pv_store pv) (pv_key pv) w = (Inr (d, x), w))"

lemma plain_ok: "json_plain j \<Longrightarrow> json_ok j"
  by (induction j) (auto simp: list_all_iff)

lemma holds_eq: "holds pv sha st d x \<Longrightarrow> json_eq (JObj d) (JObj d)"
  unfolding holds_def by (intro json_eq_refl plain_ok) simp

lemma holds_write:
  assumes "holds pv sha st d x"
  shows "peaceful st (write_head pv d updated)"
  unfolding peaceful_def
proof (intro allI impI)
  fix w :: host
  assume w: "host_memory w = st"
  obtain r w' where wh: "write_head pv d updated w = (r, w')" by fastforce
  show "calm (fst (write_head pv d updated w))"
    using write_head_calm(1) [of pv sha w d x updated r w'] holds_eq [OF assms] assms w wh by (simp add: holds_def)
qed

lemma holds_read:
  assumes "holds pv sha st d x"
  shows "peaceful st (read_record (pv_store pv) (pv_key pv))" "leaves st (read_record (pv_store pv) (pv_key pv))"
    "host_memory w = st \<Longrightarrow> fst (read_record (pv_store pv) (pv_key pv) w) = Inr p \<Longrightarrow> p = (d, x)"
  using assms by (auto simp: holds_def peaceful_def leaves_def)

lemma admit_peaceful:
  assumes "holds pv sha st d x"
  shows "peaceful st (admit_refresh host_runtime pv d now)"
  unfolding admit_refresh_def Let_def
  by (intro peaceful_sret holds_write [OF assms] peaceful_first peaceful_sbind host_clock_actions calm_rules calm_leaves)

text \<open>A round on a ready head returns or raises.\<close>

lemma ready_round:
  assumes "holds pv sha st d x" "status_is d ''READY''" "host_memory w = st"
  shows "refresh_round sha256 host_runtime pv driver w \<noteq> (Inr None, w')"
proof
  assume "refresh_round sha256 host_runtime pv driver w = (Inr None, w')"
  then have "refresh_ready sha256 host_runtime pv driver d w = (Inr None, w')"
    using assms by (auto simp: refresh_round_def holds_def sbind_eq_Inr_iff status_is_def)
  then obtain m v1 v2 v3 now where steps: "read_material sha256 pv d w = (Inr m, v1)" "utc_now host_runtime v1 = (Inr now, v2)"
    and adm: "scatch (sbind (admit_refresh host_runtime pv d now) (\<lambda>ad. sret (Some ad)))
         (\<lambda>e. if is_conflict e then sret None else sraise e) v2 = (Inr None, v3)"
    by (auto simp: refresh_ready_def sbind_eq_Inr_iff Let_def split: if_splits option.splits)
  have "v1 = w" using steps(1) assms(1)
    by (auto simp: read_material_def read_envelope_def sbind_eq_Inr_iff holds_def host_reads split: if_splits)
  then have "host_memory v2 = st" using steps(2) assms(3) host_clock_actions(2) [of st] by (force simp: leaves_def)
  then have "calm (fst (admit_refresh host_runtime pv d now v2))"
    using admit_peaceful [OF assms(1)] by (simp add: peaceful_def)
  then show False
    using adm by (auto simp: scatch_eq_Inr_iff sbind_eq_Inr_iff sbind_eq_Inl_iff calm_def split: if_splits)
qed

text \<open>A successful write gives the head the new record.\<close>

lemma write_head_holds:
  assumes "holds pv sha st d x" "host_memory w = st" "write_head pv d updated w = (Inr (), w')" "json_plain (JObj updated)"
    and "fst (read_record (pv_store pv) (pv_key pv) v) = Inr (d', x')" "host_memory v = host_memory w'"
    and "get_or updated (str ''revision'') JNull = JInt (int_value (get_or d (str ''revision'') JNull) + 1)"
  shows "holds pv sha (host_memory w') d' x'" "d' = updated" "host_clock w' = host_clock w"
proof -
  have st: "cst_objects (pv_store pv) = host_store sha" and inv: "mem_inv (host_memory w)"
    and rd: "read_record (pv_store pv) (pv_key pv) w = (Inr (d, x), w)"
    using assms(1,2) by (auto simp: holds_def)
  obtain path where p: "key_path (pv_key pv) (cst_scope (pv_store pv)) = Inr path"
    "check_record (cst_scope (pv_store pv)) (pv_key pv) path x d = Inr ()"
    using st inv rd by (rule read_record_head)
  have int: "is_int (get_or d (str ''revision'') JNull)"
    using p(2) by (auto simp: check_record_def ethen_eq_Inr_iff check_identity_def ebind_eq_Inr_iff Let_def
        positive_int_def split: if_splits)
  obtain y where y: "versions (host_memory w') = (versions (host_memory w))(head_key path := versions (host_memory w) (head_key path) @ [y])"
    "loads_bytes (ob_contents y) = Inr (JObj updated)"
    using host.write_head_Inr [OF inv st p(1) assms(3,4) int assms(7)] by blast
  have inv': "mem_inv (host_memory w')"
    using host.quietD [OF host.quiet_write_head [OF st] inv assms(3)] by simp
  have rd': "read_record (pv_store pv) (pv_key pv) v = (Inr (d', x'), v)"
    using host_read_record(1) [OF st, where k = "pv_key pv" and w = v] assms(5) by (simp add: prod_eq_iff)
  show "d' = updated"
    using st inv' [folded assms(6)] rd'
    by (rule read_record_head) (use p(1) y assms(6) in auto)
  moreover have "read_record (pv_store pv) (pv_key pv) u = (Inr (d', x'), u)" if "host_memory u = host_memory w'" for u
  proof (rule prod_eqI)
    show "fst (read_record (pv_store pv) (pv_key pv) u) = fst (Inr (d', x'), u)"
      using host_read_record(2) [OF st, where k = "pv_key pv" and v = u and w = v] assms(5,6) that by simp
    show "snd (read_record (pv_store pv) (pv_key pv) u) = snd (Inr (d', x'), u)"
      using host_read_record(1) [OF st, where k = "pv_key pv" and w = u] by simp
  qed
  ultimately show "holds pv sha (host_memory w') d' x'" using st inv' assms(4) by (simp add: holds_def)
  show "host_clock w' = host_clock w"
    by (rule write_head_calm(2) [OF st inv rd holds_eq [OF assms(1)] assms(3)])
qed

definition settled :: "('c, host) project_provider \<Rightarrow> (bytes \<Rightarrow> pystr) \<Rightarrow> host \<Rightarrow> bool" where
  "settled pv sha w \<longleftrightarrow> (\<forall>d x. fst (read_record (pv_store pv) (pv_key pv) w) = Inr (d, x) \<longrightarrow>
     holds pv sha (host_memory w) d x \<and> (status_is d ''READY'' \<or> status_is d ''REAUTHORIZATION_REQUIRED''))"

lemma write_settles:
  assumes "holds pv sha st d x" "host_memory w = st" "write_head pv d updated w = (Inr (), w')"
    and "connection_record_wire (cst_scope (pv_store pv)) (pv_key pv) (int_value (get_or d (str ''revision'') JNull) + 1) fence
      status t auth ro None = Inr updated"
    and "status \<in> {str ''READY'', str ''REAUTHORIZATION_REQUIRED''}" "json_plain auth"
    and "\<And>r. ro = Some r \<Longrightarrow> json_plain (JObj r)"
  shows "settled pv sha w'"
  using assms(4)
proof (rule record_wire_members)
  fix rw mw
  assume g: "get_or updated (str ''revision'') JNull = JInt (int_value (get_or d (str ''revision'') JNull) + 1)"
    "get_or updated (str ''status'') JNull = JStr status"
    and rw: "ro = None \<or> (\<exists>r. ro = Some r \<and> reference_wire r = Inr rw)"
    and plain: "json_plain auth \<Longrightarrow> (ro \<noteq> None \<Longrightarrow> json_plain (JObj rw)) \<Longrightarrow> (None \<noteq> (None :: jobj option) \<Longrightarrow> json_plain (JObj mw))
      \<Longrightarrow> json_plain (JObj updated)"
  have "json_plain (JObj rw)" if "ro \<noteq> None" using rw that assms(7) reference_plain by blast
  then have up: "json_plain (JObj updated)" using plain assms(6) by blast
  show ?thesis
    unfolding settled_def
  proof (intro allI impI)
    fix d' x'
    assume r: "fst (read_record (pv_store pv) (pv_key pv) w') = Inr (d', x')"
    note h = write_head_holds [OF assms(1-3) up r refl g(1)]
    show "holds pv sha (host_memory w') d' x' \<and> (status_is d' ''READY'' \<or> status_is d' ''REAUTHORIZATION_REQUIRED'')"
      using h(1,2) g(2) assms(5) by (auto simp: status_is_def)
  qed
qed

lemma finish_settles:
  assumes "holds pv sha st d x" "require_admission d ad = Inr ()" "status \<in> {str ''READY'', str ''REAUTHORIZATION_REQUIRED''}"
  shows "peaceful st (finish_exchange pv ad status)"
    and "host_memory w = st \<Longrightarrow> finish_exchange pv ad status w = (Inr (), w') \<Longrightarrow> settled pv sha w'"
proof -
  have ref: "calm (case get_or d (str ''credential'') JNull of JNull \<Rightarrow> ret None
         | j \<Rightarrow> ebind (require_object j ''credential reference'') (\<lambda>r. ret (Some r)))"
    by (auto intro!: calm_rules calm_object split: json.splits)
  show "peaceful st (finish_exchange pv ad status)"
    unfolding finish_exchange_def
  proof (rule peaceful_sbind [OF holds_read(1,2) [OF assms(1)]])
    fix p w
    assume "host_memory w = st" "fst (read_record (pv_store pv) (pv_key pv) w) = Inr p"
    then have p: "p = (d, x)" by (rule holds_read(3) [OF assms(1)])
    show "peaceful st (case p of (d, _) \<Rightarrow> sbind (slift (require_admission d ad)) (\<lambda>_.
     sbind (slift (ebind (parse_expiry (get_or d (str ''expiresAt'') JNull)) (\<lambda>expires_at.
       ebind (item_of d ''authMethod'') (\<lambda>auth.
       ebind (case get_or d (str ''credential'') JNull of JNull \<Rightarrow> ret None
         | j \<Rightarrow> ebind (require_object j ''credential reference'') (\<lambda>r. ret (Some r))) (\<lambda>reference.
         connection_record_wire (cst_scope (pv_store pv)) (pv_key pv)
           (int_value (get_or d (str ''revision'') JNull) + 1) (int_value (get_or d (str ''fence'') JNull) + 1)
           status expires_at (JStr (py_str auth)) reference None))))) (\<lambda>updated.
     write_head pv d updated)))"
      unfolding p prod.case assms(2) sbind_slift
      by (intro peaceful_first holds_write [OF assms(1)] calm_rules calm_leaves ref)
  qed
  assume w: "host_memory w = st" and f: "finish_exchange pv ad status w = (Inr (), w')"
  have rd: "read_record (pv_store pv) (pv_key pv) w = (Inr (d, x), w)" using assms(1) w by (simp add: holds_def)
  obtain t auth reference updated where
    r: "(case get_or d (str ''credential'') JNull of JNull \<Rightarrow> ret None
         | j \<Rightarrow> ebind (require_object j ''credential reference'') (\<lambda>r. ret (Some r))) = Inr reference"
    and up: "connection_record_wire (cst_scope (pv_store pv)) (pv_key pv)
           (int_value (get_or d (str ''revision'') JNull) + 1) (int_value (get_or d (str ''fence'') JNull) + 1)
           status t (JStr (py_str auth)) reference None = Inr updated"
    and wh: "write_head pv d updated w = (Inr (), w')"
    using f rd assms(2) by (auto simp: finish_exchange_def sbind_eq_Inr_iff ebind_eq_Inr_iff)
  have "json_plain (JObj q)" if "reference = Some q" for q
  proof -
    have "get_or d (str ''credential'') JNull = JObj q"
      using r that by (auto simp: ebind_eq_Inr_iff require_object_eq_Inr split: json.splits)
    then have "(str ''credential'', JObj q) \<in> set d" by (auto simp: get_or_def dest: map_of_SomeD split: option.splits)
    then show ?thesis using assms(1) by (force simp: holds_def list_all_iff)
  qed
  from write_settles [OF assms(1) w wh up assms(3) _ this] show "settled pv sha w'" by simp
qed

lemma publish_settles:
  assumes "holds pv sha st d x" "require_admission d ad = Inr ()" "\<not> status_is d ''READY''"
  shows "peaceful st (publish_result hash pv ad y)"
    and "host_memory w = st \<Longrightarrow> publish_result hash pv ad y w = (Inr (), w') \<Longrightarrow> settled pv sha w'"
proof -
  have pub: "publishes d y = Inr False" using assms(3) by (simp add: publishes_def)
  have ck: "calm (check_result pv ad e)" for e
    unfolding check_result_def by (intro calm_rules data_only_calm [OF data_only_scope(3)]) simp
  have wr: "peaceful st (scatch (write_head pv d updated) (\<lambda>e.
         if is_conflict e
         then sbind (read_record (pv_store pv) (pv_key pv)) (\<lambda>(observed, _).
              sbind (slift (publishes observed y)) (\<lambda>same. if same then sret () else sraise e))
         else sraise e))" for updated
    using holds_write [OF assms(1), of updated] by (auto simp: peaceful_def scatch_def calm_def split: prod.splits sum.splits)
  show "peaceful st (publish_result hash pv ad y)"
    unfolding publish_result_def
  proof (rule peaceful_sbind [OF holds_read(1,2) [OF assms(1)]])
    fix p w
    assume "host_memory w = st" "fst (read_record (pv_store pv) (pv_key pv) w) = Inr p"
    then have p: "p = (d, x)" by (rule holds_read(3) [OF assms(1)])
    show "peaceful st (case p of (d, _) \<Rightarrow> sbind (slift (publishes d y)) (\<lambda>done.
     if done then sret ()
     else
       sbind (slift (ethen (require_admission d ad) (ebind (loads_bytes (ob_contents y)) (\<lambda>j.
         ebind (require_object j ''credential result'') (\<lambda>e. ethen (check_result pv ad e)
         (ebind (parse_expiry (get_or e (str ''expiresAt'') JNull)) (\<lambda>expires_at.
          ebind (item_of e ''authMethod'') (\<lambda>auth.
          connection_record_wire (cst_scope (pv_store pv)) (pv_key pv)
            (int_value (get_or d (str ''revision'') JNull) + 1) (int_value (get_or d (str ''fence'') JNull)) (str ''READY'')
            expires_at (JStr (py_str auth))
            (Some [(str ''key'', JStr (ob_key y)), (str ''version'', JStr (ob_version y)),
                   (str ''digest'', JStr (drop 7 (digest_bytes hash (ob_contents y))))]) None)))))))) (\<lambda>updated.
       scatch (write_head pv d updated) (\<lambda>e.
         if is_conflict e
         then sbind (read_record (pv_store pv) (pv_key pv)) (\<lambda>(observed, _).
              sbind (slift (publishes observed y)) (\<lambda>same. if same then sret () else sraise e))
         else sraise e))))"
      unfolding p prod.case pub assms(2) sbind_slift if_False
      by (intro peaceful_first wr calm_rules calm_leaves ck) simp
  qed
  assume w: "host_memory w = st" and f: "publish_result hash pv ad y w = (Inr (), w')"
  have rd: "read_record (pv_store pv) (pv_key pv) w = (Inr (d, x), w)" using assms(1) w by (simp add: holds_def)
  define ref where "ref = [(str ''key'', JStr (ob_key y)), (str ''version'', JStr (ob_version y)),
                   (str ''digest'', JStr (drop 7 (digest_bytes hash (ob_contents y))))]"
  obtain t auth updated where up: "connection_record_wire (cst_scope (pv_store pv)) (pv_key pv)
            (int_value (get_or d (str ''revision'') JNull) + 1) (int_value (get_or d (str ''fence'') JNull)) (str ''READY'')
            t (JStr (py_str auth)) (Some ref) None = Inr updated"
    and wh: "scatch (write_head pv d updated) (\<lambda>e.
         if is_conflict e
         then sbind (read_record (pv_store pv) (pv_key pv)) (\<lambda>(observed, _).
              sbind (slift (publishes observed y)) (\<lambda>same. if same then sret () else sraise e))
         else sraise e) w = (Inr (), w')"
    using f rd assms(2) pub by (auto simp: publish_result_def sbind_eq_Inr_iff ebind_eq_Inr_iff ethen_eq_Inr_iff ref_def)
  have "calm (fst (write_head pv d updated w))" using holds_write [OF assms(1)] w by (simp add: peaceful_def)
  then have "write_head pv d updated w = (Inr (), w')"
    using wh by (auto simp: scatch_eq_Inr_iff calm_def split: if_splits)
  moreover have "json_plain (JObj ref)" by (simp add: ref_def dict_ok_def dict_keys_def)
  ultimately show "settled pv sha w'" using write_settles [OF assms(1) w _ up] by simp
qed

section \<open>Waiting for a lost admission\<close>

definition admission_of :: "jobj \<Rightarrow> exc + admission" where
  "admission_of d = ebind (require_object (get_or d (str ''mutation'') JNull) ''credential mutation'') (\<lambda>m.
       ebind (item_of d ''status'') (\<lambda>status. ebind (item_of m ''id'') (\<lambda>attempt_id.
       ebind (item_of m ''deadline'') (\<lambda>deadline. ebind (parse_time deadline) (\<lambda>t.
       ebind (item_of m ''resultKey'') (\<lambda>result_key.
         ret \<lparr>ad_kind = py_str status, ad_attempt_id = py_str attempt_id,
              ad_fence = int_value (get_or d (str ''fence'') JNull),
              ad_deadline = (case t of Some x \<Rightarrow> x | None \<Rightarrow> utc_datetime datetime_min),
              ad_result_key = py_str result_key\<rparr>))))))"

definition has_deadline :: "jobj \<Rightarrow> datetime \<Rightarrow> bool" where
  "has_deadline d t \<longleftrightarrow> (\<exists>m. get_or d (str ''mutation'') JNull = JObj m \<and> parse_time (get_or m (str ''deadline'') JNull) = Inr (Some t))"

lemma admission_of_calm: "calm (admission_of d)"
  unfolding admission_of_def by (intro calm_rules calm_leaves) simp

lemma item_get: "item_of d n = Inr v \<Longrightarrow> get_or d (str n) JNull = v"
  by (auto simp: item_of_def get_or_def split: option.splits)

lemma json_eq_int_value: "is_int j \<Longrightarrow> json_eq j (JInt (int_value j))"
  by (cases j) auto

lemma admission_of_record:
  assumes "check_record s k path x d = Inr ()" "admission_of d = Inr ad"
    and "status_is d ''REFRESHING'' \<or> status_is d ''AUTHORIZING''"
  shows "require_admission d ad = Inr ()" "has_deadline d (ad_deadline ad)"
proof -
  obtain m where m: "get_or d (str ''mutation'') JNull = JObj m" "is_str (get_or m (str ''id'') JNull)"
    "json_eq (get_or m (str ''kind'') JNull) (get_or d (str ''status'') JNull)"
    "\<exists>t. parse_time (get_or m (str ''deadline'') JNull) = Inr (Some t)" "is_int (get_or d (str ''fence'') JNull)"
    using assms(1,3)
    by (auto simp: check_record_def ethen_eq_Inr_iff check_admission_def Let_def check_identity_def positive_int_def ebind_eq_Inr_iff
        split: json.splits if_splits)
  have "ad_kind ad = py_str (get_or d (str ''status'') JNull)" "ad_attempt_id ad = py_str (get_or m (str ''id'') JNull)"
    "ad_fence ad = int_value (get_or d (str ''fence'') JNull)"
    and dl: "\<exists>t. parse_time (get_or m (str ''deadline'') JNull) = Inr t \<and> ad_deadline ad = (case t of Some x \<Rightarrow> x | None \<Rightarrow> utc_datetime datetime_min)"
    using assms(2) m(1) by (auto simp: admission_of_def ebind_eq_Inr_iff require_object_eq_Inr dest!: item_get)
  then show "require_admission d ad = Inr ()"
    using m(1-3) assms(3) json_eq_int_value [OF m(5)]
    by (cases "get_or m (str ''id'') JNull") (auto simp: require_admission_def status_is_def)
  show "has_deadline d (ad_deadline ad)" using dl m(1,4) by (auto simp: has_deadline_def)
qed

lemma recover_or_wait_eq:
  "recover_or_wait sha256 rt pv d =
     sbind (slift (admission_of d)) (\<lambda>ad.
     sbind (scatch (sbind (read_object (cst_objects (pv_store pv)) (ad_result_key ad) []) (\<lambda>x. sret (Some x)))
       (\<lambda>e. if e = ObjectNotFoundError then sret None else sraise e)) (\<lambda>result.
     case result of
       Some x \<Rightarrow> publish_result sha256 pv ad x
     | None \<Rightarrow>
       sbind (utc_now rt) (\<lambda>now.
       sbind (slift (dt_less now (ad_deadline ad))) (\<lambda>pending.
         if pending then async_sleep rt
         else finish_exchange pv ad
           (if ad_kind ad = str ''AUTHORIZING'' then str ''REAUTHORIZATION_REQUIRED'' else str ''READY'')))))"
  unfolding recover_or_wait_def admission_of_def ..

lemma read_result:
  assumes "cst_objects (pv_store pv) = host_store sha"
  shows "\<exists>r. scatch (sbind (read_object (cst_objects (pv_store pv)) key []) (\<lambda>x. sret (Some x)))
       (\<lambda>e. if e = ObjectNotFoundError then sret None else sraise e) w = (r, w) \<and> calm r"
proof -
  have "calm (fst (mem_read key [] st))" for st
    by (auto simp: mem_read_def validate_object_key_def intro!: calm_rules split: option.splits)
  then have "calm (fst (mem_read key [] (host_memory w)))" .
  then show ?thesis
    unfolding assms by (cases "fst (mem_read key [] (host_memory w))") (auto simp: scatch_def sbind_def host_reads)
qed

text \<open>One waiting round: the host slept before the deadline, or the head is settled.\<close>

lemma recover_round:
  assumes "holds pv sha st d x" "status_is d ''REFRESHING'' \<or> status_is d ''AUTHORIZING''" "host_memory w = st"
    and "again_on_conflict (recover_or_wait sha256 host_runtime pv d) w = (Inr None, w')"
  shows "(host_memory w' = st \<and> host_clock w' = host_clock w + 100000
      \<and> (\<exists>t. has_deadline d t \<and> dt_less (utc_datetime (host_clock w)) t = Inr True)) \<or> settled pv sha w'"
proof -
  have st: "cst_objects (pv_store pv) = host_store sha" and inv: "mem_inv (host_memory w)"
    and rd: "read_record (pv_store pv) (pv_key pv) w = (Inr (d, x), w)"
    using assms(1,3) by (auto simp: holds_def)
  obtain path where ck: "check_record (cst_scope (pv_store pv)) (pv_key pv) path x d = Inr ()"
    using st inv rd by (rule read_record_head)
  have ready: "\<not> status_is d ''READY''" using assms(2) by (auto simp: status_is_def)
  show ?thesis
  proof (cases "admission_of d")
    case (Inl e)
    then show ?thesis
      using assms(4) admission_of_calm [of d]
      by (auto simp: again_on_conflict_def recover_or_wait_eq scatch_def sbind_def)
  next
    case (Inr ad)
    note adm = admission_of_record [OF ck Inr assms(2)]
    define final where "final = (if ad_kind ad = str ''AUTHORIZING'' then str ''REAUTHORIZATION_REQUIRED'' else str ''READY'')"
    have final: "final \<in> {str ''READY'', str ''REAUTHORIZATION_REQUIRED''}" by (simp add: final_def)
    note pub = publish_settles [OF assms(1) adm(1) ready, where hash = sha256]
    note fin = finish_settles [OF assms(1) adm(1) final]
    obtain r where r: "scatch (sbind (read_object (cst_objects (pv_store pv)) (ad_result_key ad) []) (\<lambda>x. sret (Some x)))
       (\<lambda>e. if e = ObjectNotFoundError then sret None else sraise e) w = (r, w)" "calm r"
      using read_result [OF st] by blast
    show ?thesis
    proof (cases r)
      case (Inl e)
      then show ?thesis
        using assms(4) Inr r by (auto simp: again_on_conflict_def recover_or_wait_eq scatch_eq_Inr_iff sbind_def split: if_splits)
    next
      case result: (Inr result)
      define act where "act = (case result of
         Some x \<Rightarrow> publish_result sha256 pv ad x
       | None \<Rightarrow>
         sbind (utc_now host_runtime) (\<lambda>now.
         sbind (slift (dt_less now (ad_deadline ad))) (\<lambda>pending.
           if pending then async_sleep host_runtime else finish_exchange pv ad final)))"
      have whole: "recover_or_wait sha256 host_runtime pv d w = act w"
        unfolding recover_or_wait_eq act_def final_def using Inr r result by (simp add: sbind_def)
      have "peaceful st act"
      proof (cases result)
        case None
        have branch: "peaceful st (if pending then async_sleep host_runtime else finish_exchange pv ad final)" for pending
          using fin(1) by (simp add: peaceful_def)
        show ?thesis
          unfolding act_def None option.case by (intro peaceful_sbind host_clock_actions peaceful_first calm_leaves branch)
      qed (simp add: act_def pub(1))
      then have "calm (fst (act w))" using assms(3) by (simp add: peaceful_def)
      then have a: "act w = (Inr (), w')"
        using assms(4) whole
        by (cases "act w") (auto simp: again_on_conflict_def scatch_eq_Inr_iff state_iffs calm_def split: if_splits)
      show ?thesis
      proof (cases result)
        case (Some y)
        then show ?thesis using pub(2) [OF assms(3)] a by (simp add: act_def)
      next
        case None
        then obtain pending where p: "dt_less (utc_datetime (host_clock w)) (ad_deadline ad) = Inr pending"
          "(if pending then async_sleep host_runtime else finish_exchange pv ad final) w = (Inr (), w')"
          using a by (auto simp: act_def sbind_eq_Inr_iff)
        show ?thesis
        proof (cases pending)
          case True
          then show ?thesis using p adm(2) assms(3) by auto
        next
          case False
          then show ?thesis using p(2) fin(2) [OF assms(3)] by simp
        qed
      qed
    qed
  qed
qed

section \<open>The loop ends\<close>

lemma settled_round:
  assumes "cst_objects (pv_store pv) = host_store sha" "settled pv sha w"
  shows "refresh_round sha256 host_runtime pv driver w \<noteq> (Inr None, w')"
proof (cases "fst (read_record (pv_store pv) (pv_key pv) w)")
  case (Inl e)
  then show ?thesis by (cases "read_record (pv_store pv) (pv_key pv) w") (auto simp: refresh_round_def sbind_def)
next
  case (Inr p)
  obtain d x where p: "p = (d, x)" by fastforce
  have h: "holds pv sha (host_memory w) d x" "status_is d ''READY'' \<or> status_is d ''REAUTHORIZATION_REQUIRED''"
    using assms(2) Inr p by (auto simp: settled_def)
  show ?thesis
  proof (cases "status_is d ''READY''")
    case True
    then show ?thesis by (rule ready_round [OF h(1) _ refl])
  next
    case False
    have "read_record (pv_store pv) (pv_key pv) w = (Inr (d, x), w)" using h(1) by (simp add: holds_def)
    then show ?thesis using h(2) False by (simp add: refresh_round_def sbind_def)
  qed
qed

lemma waiting_round:
  fixes pv :: "('c, host) project_provider"
  assumes "holds pv sha st d x" "host_memory w = st" "refresh_round sha256 host_runtime pv driver w = (Inr None, w')"
  shows "(host_memory w' = st \<and> host_clock w' = host_clock w + 100000
      \<and> (\<exists>t. has_deadline d t \<and> dt_less (utc_datetime (host_clock w)) t = Inr True)) \<or> settled pv sha w'"
proof -
  have rd: "read_record (pv_store pv) (pv_key pv) w = (Inr (d, x), w)" using assms(1,2) by (simp add: holds_def)
  have "\<not> status_is d ''READY''" using ready_round [OF assms(1) _ assms(2)] assms(3) by blast
  then have st: "status_is d ''REFRESHING'' \<or> status_is d ''AUTHORIZING''"
    and again: "again_on_conflict (recover_or_wait sha256 host_runtime pv d) w = (Inr (None :: 'c option), w')"
    using assms(3) rd
    by (auto simp: refresh_round_def sbind_eq_Inr_iff split: if_splits option.splits)
  show ?thesis by (rule recover_round [OF assms(1) st assms(2) again])
qed

lemma two_rounds:
  assumes "cst_objects (pv_store pv) = host_store sha"
    and "\<And>w'. refresh_round sha256 host_runtime pv driver w = (Inr None, w') \<Longrightarrow>
       settled pv sha w' \<or> refresh_rounds sha256 host_runtime pv driver (Suc n) w' \<noteq> None"
  shows "refresh_rounds sha256 host_runtime pv driver (Suc (Suc n)) w \<noteq> None"
proof -
  have "refresh_rounds sha256 host_runtime pv driver (Suc n) w' \<noteq> None" if "settled pv sha w'" for w'
    using settled_round [OF assms(1) that, of sha256 driver]
    by (cases "refresh_round sha256 host_runtime pv driver w'") (auto split: sum.splits option.splits)
  then show ?thesis
    using assms(2) by (cases "refresh_round sha256 host_runtime pv driver w") (auto split: sum.splits option.splits)
qed

text \<open>
  Rounds enough for the time to the deadline, at a tenth of a second each, and two more end the
  loop with a credential or an error.
\<close>

lemma rounds_end:
  assumes "holds pv sha (host_memory w) d x" "0 \<le> host_clock w" "host_clock w + int n * 100000 < datetime_end"
    and "\<And>t. has_deadline d t \<Longrightarrow> dt_instant t \<le> host_clock w + int n * 100000"
  shows "refresh_rounds sha256 host_runtime pv driver (n + 2) w \<noteq> None"
  using assms
proof (induction n arbitrary: w)
  case base: 0
  have "host_clock w < datetime_end" using base(3) by simp
  note now = utc_datetime_instant(1) [OF base(2) this]
  have "settled pv sha w'" if "refresh_round sha256 host_runtime pv driver w = (Inr None, w')" for w'
    using waiting_round [OF base(1) refl that] base(4) now by (force simp: dt_less_def split: if_splits)
  then have "refresh_rounds sha256 host_runtime pv driver (Suc (Suc 0)) w \<noteq> None"
    using base(1) by (intro two_rounds) (auto simp: holds_def)
  then show ?case by (simp add: numeral_2_eq_2)
next
  case (Suc n)
  have "refresh_rounds sha256 host_runtime pv driver (n + 2) w' \<noteq> None"
    if r: "refresh_round sha256 host_runtime pv driver w = (Inr None, w')" "\<not> settled pv sha w'" for w'
  proof -
    have k: "host_memory w' = host_memory w" "host_clock w' = host_clock w + 100000"
      using waiting_round [OF Suc.prems(1) refl r(1)] r(2) by auto
    show ?thesis
      using Suc.prems k by (intro Suc.IH) (auto simp: algebra_simps)
  qed
  then have "refresh_rounds sha256 host_runtime pv driver (Suc (Suc (Suc n))) w \<noteq> None"
    using Suc.prems(1) by (intro two_rounds) (auto simp: holds_def numeral_2_eq_2)
  then show ?case by (simp add: numeral_2_eq_2)
qed

text \<open>From any state of the store: a head that cannot be read ends the loop in the first round.\<close>

lemma resolve_ends:
  assumes "cst_objects (pv_store pv) = host_store sha" "mem_inv (host_memory w)"
    and "0 \<le> host_clock w" "host_clock w + int n * 100000 < datetime_end"
    and "\<And>d x. fst (read_record (pv_store pv) (pv_key pv) w) = Inr (d, x) \<Longrightarrow> json_plain (JObj d)"
    and "\<And>d x t. fst (read_record (pv_store pv) (pv_key pv) w) = Inr (d, x) \<Longrightarrow> has_deadline d t
       \<Longrightarrow> dt_instant t \<le> host_clock w + int n * 100000"
  shows "\<exists>r w'. resolve_with_refresh sha256 host_runtime pv (n + 2) c driver w = Some (r, w')"
proof -
  have "refresh_rounds sha256 host_runtime pv drv (n + 2) w \<noteq> None" for drv
  proof (cases "fst (read_record (pv_store pv) (pv_key pv) w)")
    case (Inl e)
    then have "read_record (pv_store pv) (pv_key pv) w = (Inl e, w)"
      using host_read_record(1) [OF assms(1)] by (metis prod.collapse)
    then have "refresh_round sha256 host_runtime pv drv w = (Inl e, w)"
      by (simp add: refresh_round_def sbind_def)
    then show ?thesis by simp
  next
    case (Inr dx)
    obtain d x where dx: "dx = (d, x)" by fastforce
    have "read_record (pv_store pv) (pv_key pv) v = (Inr (d, x), v)" if "host_memory v = host_memory w" for v
      using host_read_record(2) [OF assms(1), where k = "pv_key pv" and v = v and w = w]
        host_read_record(1) [OF assms(1), where k = "pv_key pv" and w = v] that Inr dx by (simp add: prod_eq_iff)
    then have "holds pv sha (host_memory w) d x"
      using assms(1,2,5) Inr dx by (simp add: holds_def)
    then show ?thesis using assms(3,4,6) Inr dx by (intro rounds_end) auto
  qed
  then show ?thesis
    by (cases "sbind (sh_resolve (the (pv_shared pv)) (call_id c)) (\<lambda>m. slift (decode_shared_material pv m)) w")
      (auto simp: resolve_with_refresh_def split: sum.splits option.splits)
qed

end
