(* ===== verification/RefreshGrants.thy ===== *)
theory RefreshGrants
  imports GrantDriver RefreshLoop
begin

text \<open>
  What a refresh through a manifest's grants does: how many requests it sends, which attributes of
  the credential it changes, how its failures are classified and when the replacement expires.  The
  driver is composed with the project provider on the in-memory host: \<open>host_refresh_env\<close> is a driver
  environment whose clients count their requests in the host.
\<close>

section \<open>Requests a refresh sends\<close>

text \<open>
  A world in which every HTTP client counts the requests it is given and, like the clock, keeps a
  part of the world unchanged.
\<close>

locale exchange_world =
  fixes env :: "'w refresh_env" and calls :: "'w \<Rightarrow> nat" and kept :: "'w \<Rightarrow> 'm"
  assumes shared_counts: "re_shared_http env t request w = (r, w') \<Longrightarrow> calls w' = Suc (calls w) \<and> kept w' = kept w"
    and private_counts: "re_private_http env s t request w = (r, w') \<Longrightarrow> calls w' = Suc (calls w) \<and> kept w' = kept w"
    and clock_counts: "re_now env w = (i, w') \<Longrightarrow> calls w' = calls w \<and> kept w' = kept w"
begin

text \<open>An action that sends at most \<open>n\<close> requests.\<close>

definition sends :: "nat \<Rightarrow> ('a, 'w) action \<Rightarrow> bool" where
  "sends n m \<longleftrightarrow> (\<forall>w r w'. m w = (r, w') \<longrightarrow> calls w \<le> calls w' \<and> calls w' \<le> calls w + n \<and> kept w' = kept w)"

lemma sendsD: "sends n m \<Longrightarrow> m w = (r, w') \<Longrightarrow> calls w \<le> calls w' \<and> calls w' \<le> calls w + n \<and> kept w' = kept w"
  by (simp add: sends_def)

lemma sends_slift: "sends n (slift r)" "sends n (Pair r)"
  by (simp_all add: sends_def)

lemma sends_sbind:
  assumes "sends n m" "\<And>x. sends k (f x)"
  shows "sends (n + k) (sbind m f)"
  unfolding sends_def
proof (intro allI impI)
  fix w r w'
  assume b: "sbind m f w = (r, w')"
  obtain q v where q: "m w = (q, v)" by fastforce
  show "calls w \<le> calls w' \<and> calls w' \<le> calls w + (n + k) \<and> kept w' = kept w"
  proof (cases q)
    case (Inl e)
    with b q sendsD [OF assms(1) q] show ?thesis by (simp add: sbind_def)
  next
    case (Inr x)
    then have "f x v = (r, w')" using b q by (simp add: sbind_def)
    from sendsD [OF assms(2) this] sendsD [OF assms(1) q] show ?thesis by auto
  qed
qed

lemma sends_weaken: "sends n m \<Longrightarrow> n \<le> k \<Longrightarrow> sends k m"
  by (fastforce simp: sends_def)

lemma sends_first: "(\<And>x. sends n (f x)) \<Longrightarrow> sends n (sbind (slift r) f)"
  using sends_sbind [OF sends_slift(1) [of 0 r], of n f] by simp

lemma sends_last: "sends n m \<Longrightarrow> (\<And>x. sends 0 (f x)) \<Longrightarrow> sends n (sbind m f)"
  using sends_sbind [of n m 0 f] by simp

lemma sends_scatch:
  assumes "sends n m" "\<And>e. sends 0 (h e)"
  shows "sends n (scatch m h)"
  unfolding sends_def
proof (intro allI impI)
  fix w r w'
  assume b: "scatch m h w = (r, w')"
  obtain q v where q: "m w = (q, v)" by fastforce
  show "calls w \<le> calls w' \<and> calls w' \<le> calls w + n \<and> kept w' = kept w"
  proof (cases q)
    case (Inl e)
    then have "h e v = (r, w')" using b q by (simp add: scatch_def)
    from sendsD [OF assms(2) this] sendsD [OF assms(1) q] show ?thesis by auto
  next
    case (Inr x)
    with b q sendsD [OF assms(1) q] show ?thesis by (simp add: scatch_def)
  qed
qed

lemma sends_exchange:
  assumes "\<And>request w r w'. client request w = (r, w') \<Longrightarrow> calls w' = Suc (calls w) \<and> kept w' = kept w"
  shows "sends (Suc 0) (exchange u client te ps basic)"
  unfolding exchange_def by (rule sends_first) (use assms in \<open>fastforce simp: sends_def split: prod.splits\<close>)

lemma sends_read_now: "sends 0 (read_now env)"
  using clock_counts by (fastforce simp: sends_def read_now_def split: prod.splits)

lemma sends_client_exchange:
  assumes "\<And>t request w r w'. http t request w = (r, w') \<Longrightarrow> calls w' = Suc (calls w) \<and> kept w' = kept w"
  shows "sends (Suc 0) (client_exchange env dv g c te http)" "sends (Suc 0) (bearer_exchange env dv g c key te (http None))"
proof -
  have e: "sends (Suc 0) (exchange u (http t) te' ps basic)" for u t te' ps basic by (rule sends_exchange) (rule assms)
  have ex: "sends (Suc 0) (exchange_refresh_token u (http t) te client token)"
    "sends (Suc 0) (exchange_client_credentials u (http t) te client scopes)"
    "sends (Suc 0) (exchange_jwt_bearer_assertion u (http t) te assertion)" for u t client token scopes assertion
    unfolding exchange_refresh_token_def exchange_client_credentials_def exchange_jwt_bearer_assertion_def
    by (auto intro!: sends_first sends_slift e split: prod.splits)
  show "sends (Suc 0) (client_exchange env dv g c te http)"
    unfolding client_exchange_def
    by (auto intro!: sends_first sends_scatch sends_slift ex)
  show "sends (Suc 0) (bearer_exchange env dv g c key te (http None))"
    unfolding bearer_exchange_def
    by (intro sends_first sends_sbind [of 0 "read_now env" "Suc 0", simplified] sends_read_now ex)
qed

lemma sends_exchange_with:
  assumes "\<And>t request w r w'. http t request w = (r, w') \<Longrightarrow> calls w' = Suc (calls w) \<and> kept w' = kept w"
  shows "sends (Suc 0) (exchange_with_client env dv g c http)"
  unfolding exchange_with_client_def
  by (auto intro!: sends_first sends_last sends_slift sends_client_exchange assms)

lemma sends_exchange_grant: "sends (Suc 0) (exchange_grant env dv g c)"
  unfolding exchange_grant_def
  by (auto intro!: sends_first sends_exchange_with dest: shared_counts private_counts)

lemma sends_refresh_one: "sends (Suc 0) (refresh_one env dv auth_method g c)"
proof -
  have "sends 0 (token_lifetime env g token)" "sends 0 (grant_expiry env l)" for token l
    unfolding token_lifetime_def grant_expiry_def
    by (auto intro!: sends_first sends_slift sends_last sends_read_now)
  then show ?thesis
    unfolding refresh_one_def
    by (auto intro!: sends_last sends_scatch sends_exchange_grant sends_slift sends_first split: prod.splits)
qed

text \<open>One request at most for each grant.\<close>

lemma sends_refresh_grants: "sends (length gs) (refresh_grants env dv auth_method gs c expiries)"
proof (induction gs arbitrary: c expiries)
  case Nil
  then show ?case by (simp add: sends_slift)
next
  case (Cons g gs)
  have "sends (Suc 0 + length gs) (sbind (refresh_one env dv auth_method g c) (\<lambda>(c', expiry).
      refresh_grants env dv auth_method gs c' (expiries @ [expiry])))"
    by (rule sends_sbind [OF sends_refresh_one]) (auto intro: Cons split: prod.splits)
  then show ?case
    using sends_weaken [OF Cons] by (auto intro!: sends_first)
qed

lemma sends_manifest_refresh:
  assumes "\<And>auth_method gs. selected_method dv (rs_credentials state) = Inr auth_method \<Longrightarrow> grants_of auth_method = Inr gs \<Longrightarrow> length gs \<le> n"
  shows "sends n (manifest_refresh env dv state)"
proof (cases "selected_method dv (rs_credentials state)")
  case (Inl e)
  then show ?thesis by (simp add: manifest_refresh_def sends_slift)
next
  case m: (Inr auth_method)
  show ?thesis
  proof (cases "grants_of auth_method")
    case (Inl e)
    with m show ?thesis by (simp add: manifest_refresh_def sends_slift)
  next
    case (Inr gs)
    have "sends (length gs) (sbind (slift (eall (validate_grant (re_decimal env) (dv_fields dv)) gs)) (\<lambda>_.
       sbind (refresh_grants env dv auth_method gs (rs_credentials state) []) (\<lambda>(c, expiries).
         if expiries = [] then sraise ReauthorizationRequiredError
         else sret \<lparr>rr_credentials = c, rr_expires_at = utc_datetime (Min (set expiries))\<rparr>)))"
      by (intro sends_first sends_last sends_refresh_grants) (auto intro: sends_slift split: prod.splits)
    then show ?thesis
      using sends_weaken [OF _ assms [OF m Inr]] m Inr by (auto simp: manifest_refresh_def intro: sends_slift)
  qed
qed

end

section \<open>What a refresh changes\<close>

text \<open>The attributes that a grant's mappings and copies name.\<close>

definition target_attr :: "driver \<Rightarrow> json \<Rightarrow> pystr set" where
  "target_attr dv m = {a. \<exists>c. jitem m ''credential'' = Inr c \<and> field_attr dv (JStr (py_str c)) = Inr a}"

definition grant_targets :: "driver \<Rightarrow> grant \<Rightarrow> pystr set" where
  "grant_targets dv g = {a. \<exists>ms cs m. jiter (g_mappings g) = Inr ms \<and> jiter (g_copies g) = Inr cs
     \<and> m \<in> set ms \<union> set cs \<and> a \<in> target_attr dv m}"

lemma keys_dom: "set (dict_keys d) = dom (dict_get d)"
  by (simp add: dict_keys_def dom_map_of_conv_image_fst)

lemma keys_set: "set (dict_keys (dict_set k v d)) = insert k (set (dict_keys d))"
  by (simp add: keys_dom dict_get_set)

lemma keys_Nil: "set (dict_keys []) = {}" and keys_Cons: "set (dict_keys ((k, v) # d)) = insert k (set (dict_keys d))"
  by (simp_all add: dict_keys_def)

lemma set_update_keys:
  "set_update dv auth_method destination v ups = Inr ups' \<Longrightarrow>
     \<exists>a. field_attr dv (JStr destination) = Inr a \<and> set (dict_keys ups') = insert a (set (dict_keys ups))"
  by (auto simp: set_update_def ebind_eq_Inr_iff keys_set)

lemma map_updates_keys:
  "map_updates dv auth_method g token ms ups = Inr ups' \<Longrightarrow>
     set (dict_keys ups') \<subseteq> set (dict_keys ups) \<union> (\<Union>m \<in> set ms. target_attr dv m)"
proof (induction ms arbitrary: ups)
  case (Cons m ms)
  obtain c source mid where m: "jitem m ''credential'' = Inr c"
    and mid: "(case mapped_response_string token (py_str source) of None \<Rightarrow> ret ups
       | Some v \<Rightarrow> if v = [] \<and> JStr (py_str c) = g_refresh_field g then ret ups
           else set_update dv auth_method (py_str c) v ups) = Inr mid"
    and rest: "map_updates dv auth_method g token ms mid = Inr ups'"
    using Cons.prems by (auto simp: ebind_eq_Inr_iff)
  have "set (dict_keys mid) \<subseteq> set (dict_keys ups) \<union> target_attr dv m"
    using mid m by (auto simp: target_attr_def split: option.splits if_splits dest!: set_update_keys)
  with Cons.IH [OF rest] show ?case by auto
qed simp

lemma copy_updates_keys:
  "copy_updates dv auth_method c xs ups = Inr ups' \<Longrightarrow>
     set (dict_keys ups') \<subseteq> set (dict_keys ups) \<union> (\<Union>x \<in> set xs. target_attr dv x)"
proof (induction xs arbitrary: ups)
  case (Cons x xs)
  obtain destination v mid where d: "jitem x ''credential'' = Inr destination"
    and mid: "set_update dv auth_method (py_str destination) v ups = Inr mid"
    and rest: "copy_updates dv auth_method c xs mid = Inr ups'"
    using Cons.prems by (auto simp: ebind_eq_Inr_iff)
  have "set (dict_keys mid) \<subseteq> set (dict_keys ups) \<union> target_attr dv x"
    using set_update_keys [OF mid] d by (auto simp: target_attr_def)
  with Cons.IH [OF rest] show ?case by auto
qed simp

lemma json_eq_text: "json_eq c (JStr s) \<Longrightarrow> c = JStr s"
  by (cases c) auto

lemma first_source_member:
  "first_source (JStr s) ms = Inr source \<Longrightarrow> \<exists>m \<in> set ms. jitem m ''credential'' = Inr (JStr s)"
  by (induction ms) (auto simp: ebind_eq_Inr_iff split: if_splits dest: json_eq_text)

lemma url_update_keys:
  assumes "url_update dv g c token ms ups = Inr ups'"
  shows "set (dict_keys ups') \<subseteq> set (dict_keys ups) \<union> (\<Union>m \<in> set ms. target_attr dv m)"
proof (cases "rule_object g = []")
  case True
  with assms show ?thesis by (simp add: url_update_def)
next
  case False
  obtain destination source prior where d: "first_source destination ms = Inr source"
    "credential_value dv c destination = Inr prior"
    and k: "(case url_value (rule_object g) token source prior of
            JStr v \<Rightarrow>
              ebind (is_valid_response_url v (rule_object g)) (\<lambda>ok.
                if \<not> ok then raise (refresh_failure dv (str ''token response URL is invalid''))
                else ebind (validate_response_url v (rule_object g)) (\<lambda>url.
                  ebind (field_attr dv destination) (\<lambda>attr. ret (dict_set attr (PlainAttr (JStr url)) ups))))
          | _ \<Rightarrow> raise (refresh_failure dv (str ''token response URL is invalid''))) = Inr ups'"
    using assms False by (auto simp: url_update_def Let_def ebind_eq_Inr_iff)
  have u: "\<exists>a url. field_attr dv destination = Inr a \<and> ups' = dict_set a (PlainAttr (JStr url)) ups"
    using k by (cases "url_value (rule_object g) token source prior") (auto simp: ebind_eq_Inr_iff split: if_splits)
  obtain s where s: "destination = JStr s"
    using d(2) by (auto simp: credential_value_def field_attr_def ebind_eq_Inr_iff split: json.splits)
  obtain m where "m \<in> set ms" "jitem m ''credential'' = Inr (JStr s)"
    using first_source_member d(1) s by blast
  with u s show ?thesis by (auto simp: keys_set target_attr_def)
qed

lemma replace_fields_get:
  assumes "replace_fields c ups = Inr c'"
  shows "a \<notin> set (dict_keys ups) \<Longrightarrow> dict_get c' a = dict_get c a" "set (dict_keys c') = set (dict_keys c)"
proof -
  have c: "set (dict_keys ups) \<subseteq> set (dict_keys c)" "c' = fold (\<lambda>(k, v). dict_set k v) ups c"
    using assms by (auto simp: replace_fields_def split: if_splits)
  then show "a \<notin> set (dict_keys ups) \<Longrightarrow> dict_get c' a = dict_get c a" by (simp add: fold_additional)
  have "set (dict_keys (fold (\<lambda>(k, v). dict_set k v) us c)) = set (dict_keys us) \<union> set (dict_keys c)" for us :: updates
  proof (induction us arbitrary: c)
    case (Cons x us)
    then show ?case by (cases x) (simp add: keys_set keys_Cons)
  qed (simp add: keys_Nil)
  with c show "set (dict_keys c') = set (dict_keys c)" by auto
qed

lemma grant_updates_frame:
  assumes "grant_updates dv auth_method g c token copies = Inr c'" "jiter (g_copies g) = Inr cs" "set copies \<subseteq> set cs"
  shows "a \<notin> grant_targets dv g \<Longrightarrow> dict_get c' a = dict_get c a" "set (dict_keys c') = set (dict_keys c)"
proof -
  obtain ms u1 u2 u3 where u: "jiter (g_mappings g) = Inr ms" "map_updates dv auth_method g token ms [] = Inr u1"
    "url_update dv g c token ms u1 = Inr u2" "copy_updates dv auth_method c copies u2 = Inr u3" "replace_fields c u3 = Inr c'"
    using assms(1) by (auto simp: grant_updates_def ebind_eq_Inr_iff)
  have "set (dict_keys u3) \<subseteq> grant_targets dv g"
    using map_updates_keys [OF u(2)] url_update_keys [OF u(3)] copy_updates_keys [OF u(4)] u(1) assms(2,3)
    unfolding grant_targets_def keys_Nil by blast
  then show "a \<notin> grant_targets dv g \<Longrightarrow> dict_get c' a = dict_get c a" using replace_fields_get(1) [OF u(5)] by blast
  show "set (dict_keys c') = set (dict_keys c)" by (rule replace_fields_get(2) [OF u(5)])
qed

lemma exchange_copies:
  assumes "exchange_grant env dv g c w = (Inr (token, copies), w')"
  shows "copies = [] \<or> jiter (g_copies g) = Inr copies"
  using assms
  by (auto simp: exchange_grant_def exchange_with_client_def sbind_eq_Inr_iff split: if_splits)

lemma refresh_one_frame:
  assumes "refresh_one env dv auth_method g c w = (Inr (c', e), w')" "jiter (g_copies g) = Inr cs"
  shows "a \<notin> grant_targets dv g \<Longrightarrow> dict_get c' a = dict_get c a" "set (dict_keys c') = set (dict_keys c)"
proof -
  obtain token copies w1 where x: "exchange_grant env dv g c w = (Inr (token, copies), w1)"
    and u: "grant_updates dv auth_method g c token copies = Inr c'"
    using assms(1) by (auto simp: refresh_one_def state_iffs)
  have "set copies \<subseteq> set cs" using exchange_copies [OF x] assms(2) by auto
  from grant_updates_frame [OF u assms(2) this]
  show "a \<notin> grant_targets dv g \<Longrightarrow> dict_get c' a = dict_get c a" "set (dict_keys c') = set (dict_keys c)" by blast+
qed

lemma refresh_grants_frame:
  assumes "refresh_grants env dv auth_method gs c es w = (Inr (c', es'), w')"
    and "\<And>g. g \<in> set gs \<Longrightarrow> is_ok (jiter (g_copies g))"
  shows "(\<forall>a. a \<notin> (\<Union>g \<in> set gs. grant_targets dv g) \<longrightarrow> dict_get c' a = dict_get c a) \<and> set (dict_keys c') = set (dict_keys c)"
  using assms
proof (induction gs arbitrary: c es w)
  case (Cons g gs)
  obtain skip where s: "is_skipped dv g c = Inr skip"
    "(if skip then refresh_grants env dv auth_method gs c es
       else sbind (refresh_one env dv auth_method g c) (\<lambda>(c', expiry).
         refresh_grants env dv auth_method gs c' (es @ [expiry]))) w = (Inr (c', es'), w')"
    using Cons.prems(1) by (auto simp: sbind_eq_Inr_iff)
  show ?case
  proof (cases skip)
    case True
    with s(2) Cons.IH [of c es w] Cons.prems(2) show ?thesis by auto
  next
    case False
    then obtain c1 e w1 where one: "refresh_one env dv auth_method g c w = (Inr (c1, e), w1)"
      and rest: "refresh_grants env dv auth_method gs c1 (es @ [e]) w1 = (Inr (c', es'), w')"
      using s(2) by (auto simp: sbind_eq_Inr_iff)
    obtain cs where cs: "jiter (g_copies g) = Inr cs" using Cons.prems(2) by (auto simp: is_ok_iff)
    show ?thesis using Cons.IH [OF rest] Cons.prems(2) refresh_one_frame [OF one cs] by auto
  qed
qed simp

text \<open>
  A refresh gives values to attributes that the selected grants name, keeps every other one and
  adds none.
\<close>

lemma manifest_refresh_frame:
  assumes "manifest_refresh env dv state w = (Inr r, w')" "selected_method dv (rs_credentials state) = Inr auth_method"
    and "grants_of auth_method = Inr gs"
  shows "(\<forall>a. a \<notin> (\<Union>g \<in> set gs. grant_targets dv g) \<longrightarrow> dict_get (rr_credentials r) a = dict_get (rs_credentials state) a)
    \<and> set (dict_keys (rr_credentials r)) = set (dict_keys (rs_credentials state))"
proof -
  obtain c es w1 where v: "eall (validate_grant (re_decimal env) (dv_fields dv)) gs = Inr ()"
    and g: "refresh_grants env dv auth_method gs (rs_credentials state) [] w = (Inr (c, es), w1)" "rr_credentials r = c"
    using assms by (auto simp: manifest_refresh_def sbind_eq_Inr_iff split: if_splits)
  have "is_ok (jiter (g_copies g))" if "g \<in> set gs" for g
    using v that by (auto simp: eall_eq_Inr_iff validate_grant_def ebind_eq_Inr_iff ethen_eq_Inr_iff is_ok_iff)
  from refresh_grants_frame [OF g(1) this] g(2) show ?thesis by simp
qed

section \<open>Failures\<close>

lemma refresh_failure_retry:
  assumes "dv_provider_name dv \<noteq> []" "m \<noteq> []"
  shows "refresh_failure dv m =
    RetryError \<lparr>fkind = PROTOCOL, fprovider = dv_provider_name dv, foperation = str ''refreshCredentials'', fmessage = m\<rparr> (Fin 0)"
  using assms by (simp add: refresh_failure_def new_retry_error_def failure_validate_def)

text \<open>What the caller of a refresh sees of a failed exchange.\<close>

lemma exchange_failure_seen:
  assumes "exchange_grant env dv g c w = (Inl e, w')"
  shows "refresh_one env dv auth_method g c w = (Inl (grant_failure dv g e), w')"
  using assms by (simp add: refresh_one_def sbind_def scatch_def)

lemma grant_failure_cases:
  assumes "dv_provider_name dv \<noteq> []"
  shows "e = ReauthorizationRequiredError \<Longrightarrow> grant_failure dv g e = ReauthorizationRequiredError"
    and "is_OSError e \<or> is_ValueError e \<Longrightarrow> \<not> is_address_refusal e \<Longrightarrow> error_message e \<noteq> [] \<Longrightarrow>
      grant_failure dv g e =
        RetryError \<lparr>fkind = PROTOCOL, fprovider = dv_provider_name dv, foperation = str ''refreshCredentials'', fmessage = error_message e\<rparr> (Fin 0)"
    and "is_address_refusal e \<Longrightarrow> grant_failure dv g e = e"
  using assms by (auto simp: grant_failure_def invalid_url_def refresh_failure_retry split: exc.splits)

lemma grant_failure_reauthorization:
  "grant_failure dv g e = ReauthorizationRequiredError \<Longrightarrow> e = ReauthorizationRequiredError"
  by (auto simp: grant_failure_def refresh_failure_def new_retry_error_def failure_validate_def split: exc.splits if_splits sum.splits)

section \<open>Expiry\<close>

text \<open>A capped grant without a JWT fallback never outlives its cap.\<close>

lemma capped_expiry:
  assumes "refresh_one env dv auth_method g c w = (Inr (c', expiry), w')"
    and "truthy (g_expiry_cap g)" "\<not> truthy (g_jwt_expiry_fallback g)" "duration_of (re_decimal env) (g_expiry_cap g) = Inr cap"
    and "\<And>v. fst (re_now env v) = now" "0 \<le> now" "0 \<le> cap"
  shows "expiry \<le> now + cap"
proof -
  obtain token lifetime w1 w2 where l: "token_lifetime env g token w1 = (Inr lifetime, w2)"
    and e: "grant_expiry env lifetime w2 = (Inr expiry, w')"
    using assms(1) by (auto simp: refresh_one_def sbind_eq_Inr_iff)
  have cap: "lifetime \<le> cap"
    using l assms(2,3,4,7) by (auto simp: token_lifetime_def sbind_eq_Inr_iff ebind_eq_Inr_iff split: if_splits)
  show ?thesis
  proof (cases "lifetime = 0")
    case True
    then show ?thesis using e assms(6,7) by (simp add: grant_expiry_def datetime_min_def)
  next
    case False
    then have "expiry = fst (re_now env w2) + lifetime"
      using e by (auto simp: grant_expiry_def sbind_eq_Inr_iff read_now_def split: prod.splits if_splits)
    then show ?thesis using assms(5) cap by simp
  qed
qed

section \<open>The driver on the host\<close>

definition host_client :: "(token_request \<Rightarrow> host \<Rightarrow> token_transport) \<Rightarrow> host token_client" where
  "host_client answer request w = (answer request w, w\<lparr>host_calls := Suc (host_calls w)\<rparr>)"

definition host_refresh_env ::
  "unicode_data \<Rightarrow> decimal_table \<Rightarrow> regex \<Rightarrow> (bytes \<Rightarrow> private_key option) \<Rightarrow> (token_request \<Rightarrow> host \<Rightarrow> token_transport)
     \<Rightarrow> host refresh_env" where
  "host_refresh_env u decimal rx load_pem answer =
     \<lparr>re_unicode = u, re_decimal = decimal, re_regex = rx, re_load_pem = load_pem,
      re_shared_http = (\<lambda>_. host_client answer), re_is_mock = False, re_private_http = (\<lambda>_ _. host_client answer),
      re_now = (\<lambda>w. (host_clock w, w))\<rparr>"

interpretation host_exchange: exchange_world "host_refresh_env u decimal rx load_pem answer" host_calls host_memory
  by unfold_locales (auto simp: host_refresh_env_def host_client_def)

text \<open>The driver keeps the store and sends at most one request for each grant of a method.\<close>

lemma manifest_driver_counted:
  assumes "\<And>c auth_method gs. selected_method dv c = Inr auth_method \<Longrightarrow> grants_of auth_method = Inr gs \<Longrightarrow> length gs \<le> most"
  shows "host.counted most (manifest_driver (host_refresh_env u decimal rx load_pem answer) dv)"
  unfolding host.counted_def
proof (intro allI impI)
  fix state w r w'
  assume "mem_inv (host_memory w)" "driver_refresh (manifest_driver (host_refresh_env u decimal rx load_pem answer) dv) state w = (r, w')"
  then show "mem_inv (host_memory w') \<and> versions (host_memory w') = versions (host_memory w) \<and> host_calls w' \<le> host_calls w + most"
    using host_exchange.sendsD [OF host_exchange.sends_manifest_refresh, of dv state most u decimal rx load_pem answer w r w'] assms
    by (simp add: manifest_driver_def)
qed

end
