(* ===== verification/ConfigurationStore.thy ===== *)
theory ConfigurationStore
  imports ObjectStorage
begin

text \<open>
  \<^verbatim>\<open>projectconfig/storage.py\<close>, class \<open>ConfigurationStore\<close>: the configuration document
  under compare-and-swap, frozen snapshots of it, and application secrets, over any
  \<open>object_store\<close>.  The clients' lemmas are proved once for every \<open>versioned_store\<close>; the
  in-memory store is an interpretation of it, and the properties of the development follow.
  The random part of a secret's key (\<open>secrets.token_hex\<close>) is an argument.
\<close>

section \<open>The store\<close>

record 'w configuration_store =
  cs_objects :: "'w object_store"
  cs_scope :: scope
  cs_key :: pystr

definition new_configuration_store :: "'w object_store \<Rightarrow> scope \<Rightarrow> exc + 'w configuration_store" where
  "new_configuration_store objects s =
     ebind (scope_prefix s) (\<lambda>p.
       ret \<lparr>cs_objects = objects, cs_scope = s, cs_key = p @ str ''/configuration/head''\<rparr>)"

text \<open>Only the decoding of the bytes is guarded; what validation raises passes through.\<close>

definition decode_item :: "unicode_data \<Rightarrow> 'w configuration_store \<Rightarrow> obj \<Rightarrow> exc + configuration" where
  "decode_item u cs stored =
     ethen (ensure (ob_key stored = cs_key cs \<and> ob_version stored \<noteq> [] \<and> ob_etag stored \<noteq> [])
       (ValueError (str ''configuration document identity is invalid'')))
     (case loads_bytes (ob_contents stored) of
        Inl _ \<Rightarrow> raise (ValueError (str ''configuration document is invalid JSON''))
      | Inr j \<Rightarrow> ebind (configuration_from_wire u j) (\<lambda>c.
          ethen (ensure (conf_scope c = cs_scope cs) (ValueError (str ''configuration document scope differs'')))
            (ret c)))"

definition read_configuration ::
  "unicode_data \<Rightarrow> 'w configuration_store \<Rightarrow> (configuration \<times> obj, 'w) action" where
  "read_configuration u cs =
     sbind (read_object (cs_objects cs) (cs_key cs) []) (\<lambda>stored.
     sbind (slift (decode_item u cs stored)) (\<lambda>c. sret (c, stored)))"

definition next_configuration :: "'w configuration_store \<Rightarrow> int \<Rightarrow> configuration \<Rightarrow> configuration" where
  "next_configuration cs expected_revision c =
     c\<lparr>conf_scope := cs_scope cs, conf_revision := expected_revision + 1,
       conf_schema_version :=
         (if conf_credential_broker c = None \<and> list_all (\<lambda>e. cc_shared_connection_id e = []) (conf_connections c)
          then PREVIOUS_CONFIGURATION_SCHEMA_VERSION else CONFIGURATION_SCHEMA_VERSION)\<rparr>"

definition configuration_contents :: "unicode_data \<Rightarrow> configuration \<Rightarrow> exc + bytes" where
  "configuration_contents u c = ebind (configuration_to_wire u c) (\<lambda>d. go_canonical_json_bytes (JObj d))"

definition read_previous ::
  "unicode_data \<Rightarrow> 'w configuration_store \<Rightarrow> int \<Rightarrow> ((configuration \<times> obj) option, 'w) action" where
  "read_previous u cs expected_revision =
     scatch (sbind (read_configuration u cs) (\<lambda>p. sret (Some p)))
       (\<lambda>e. if e = ObjectNotFoundError \<and> expected_revision = 0 then sret None else sraise e)"

definition write_configuration ::
  "unicode_data \<Rightarrow> 'w configuration_store \<Rightarrow> int \<Rightarrow> configuration \<Rightarrow> (configuration \<times> obj, 'w) action" where
  "write_configuration u cs expected_revision c =
     sbind (read_previous u cs expected_revision) (\<lambda>previous.
     if (case previous of None \<Rightarrow> 0 | Some (p, _) \<Rightarrow> conf_revision p) \<noteq> expected_revision
     then sraise (ObjectConflictError (str ''configuration revision conflict''))
     else
       let updated = next_configuration cs expected_revision c in
       sbind (slift (configuration_contents u updated)) (\<lambda>contents.
       sbind (reconciled_write (cs_objects cs) (cs_key cs) (map_option snd previous) contents) (\<lambda>stored.
         sret (updated, stored))))"

definition freeze_configuration ::
  "(bytes \<Rightarrow> pystr) \<Rightarrow> unicode_data \<Rightarrow> 'w configuration_store \<Rightarrow> int \<Rightarrow> (snapshot_ref, 'w) action" where
  "freeze_configuration sha256 u cs expected_revision =
     sbind (read_configuration u cs) (\<lambda>(c, stored).
       if conf_revision c \<noteq> expected_revision
       then sraise (ObjectConflictError (str ''configuration revision conflict''))
       else sret \<lparr>sn_key = ob_key stored, sn_version = ob_version stored,
                  sn_digest = digest_bytes sha256 (ob_contents stored), sn_media_type = str ''application/json''\<rparr>)"

definition read_snapshot ::
  "(bytes \<Rightarrow> pystr) \<Rightarrow> unicode_data \<Rightarrow> 'w configuration_store \<Rightarrow> snapshot_ref \<Rightarrow> (configuration, 'w) action" where
  "read_snapshot sha256 u cs reference =
     sbind (slift (snapshot_ref_validate reference (cs_scope cs))) (\<lambda>_.
     sbind (read_object (cs_objects cs) (sn_key reference) (sn_version reference)) (\<lambda>stored.
       if digest_bytes sha256 (ob_contents stored) \<noteq> sn_digest reference
       then sraise (ValueError (str ''configuration snapshot digest differs''))
       else slift (decode_item u cs stored)))"

section \<open>Application secrets\<close>

definition application_secret_wire :: "scope \<Rightarrow> pystr \<Rightarrow> pystr \<Rightarrow> exc + jobj" where
  "application_secret_wire s name value =
     ebind (scope_to_wire s) (\<lambda>w.
       ret [(str ''scope'', JObj w), (str ''name'', JStr name), (str ''value'', JStr value)])"

definition create_secret ::
  "(bytes \<Rightarrow> pystr) \<Rightarrow> 'w configuration_store \<Rightarrow> pystr \<Rightarrow> pystr \<Rightarrow> pystr \<Rightarrow> (secret_ref, 'w) action" where
  "create_secret sha256 cs token name value =
     sbind (slift (scope_prefix (cs_scope cs))) (\<lambda>p.
     let key = p @ str ''/app-secrets/'' @ name @ str ''/'' @ token in
     sbind (slift (ebind (application_secret_wire (cs_scope cs) name value)
       (\<lambda>w. go_canonical_json_bytes (JObj w)))) (\<lambda>contents.
     sbind (create_immutable (cs_objects cs) key contents (str ''application secret content differs'')) (\<lambda>stored.
       sret \<lparr>sr_key = key, sr_version = ob_version stored, sr_digest = digest_bytes sha256 contents\<rparr>)))"

definition create_application_secret ::
  "(bytes \<Rightarrow> pystr) \<Rightarrow> 'w configuration_store \<Rightarrow> pystr \<Rightarrow> pystr \<Rightarrow> pystr \<Rightarrow> (secret_ref, 'w) action" where
  "create_application_secret sha256 cs token name value =
     (if \<not> is_application_environment_name name
      then sraise (ValueError (str ''invalid application secret name''))
      else sbind (slift (validate_environment_value value)) (\<lambda>_. create_secret sha256 cs token name value))"

definition create_credential_broker_token ::
  "(bytes \<Rightarrow> pystr) \<Rightarrow> 'w configuration_store \<Rightarrow> pystr \<Rightarrow> pystr \<Rightarrow> (secret_ref, 'w) action" where
  "create_credential_broker_token sha256 cs random token =
     (if token = [] then sraise (ValueError (str ''credential broker token is required''))
      else sbind (slift (validate_environment_value token)) (\<lambda>_.
        create_secret sha256 cs random BROKER_TOKEN_NAME token))"

text \<open>The checks on the bytes of a secret, after the exact version was read.\<close>

definition stored_secret :: "scope \<Rightarrow> pystr \<Rightarrow> bytes \<Rightarrow> exc + pystr" where
  "stored_secret s name contents =
     ebind (loads_bytes contents) (\<lambda>j.
     ebind (require_object j ''application secret'') (\<lambda>d.
     ebind (scope_to_wire s) (\<lambda>w.
       if \<not> json_eq (get_or d (str ''scope'') JNull) (JObj w)
          \<or> \<not> json_eq (get_or d (str ''name'') JNull) (JStr name) \<or> \<not> is_str (get_or d (str ''value'') JNull)
       then raise (ValueError (str ''application secret scope or identity differs''))
       else ethen (validate_environment_value (str_value (get_or d (str ''value'') JNull)))
         (ret (str_value (get_or d (str ''value'') JNull))))))"

definition read_secret_value ::
  "(bytes \<Rightarrow> pystr) \<Rightarrow> 'w configuration_store \<Rightarrow> secret_ref \<Rightarrow> pystr \<Rightarrow> (pystr, 'w) action" where
  "read_secret_value sha256 cs reference name =
     sbind (slift (validate_secret_reference reference (cs_scope cs) name)) (\<lambda>_.
     sbind (read_object (cs_objects cs) (sr_key reference) (sr_version reference)) (\<lambda>stored.
       if ob_version stored \<noteq> sr_version reference
          \<or> digest_bytes sha256 (ob_contents stored) \<noteq> sr_digest reference
       then sraise (ValueError (str ''application secret integrity differs''))
       else slift (stored_secret (cs_scope cs) name (ob_contents stored))))"

section \<open>Clients of any versioned store\<close>

text \<open>The revision a writer must expect: 0 before the first document.\<close>

definition current_revision :: "unicode_data \<Rightarrow> 'w configuration_store \<Rightarrow> (pystr \<Rightarrow> obj list) \<Rightarrow> exc + int" where
  "current_revision u cs h =
     (if h (cs_key cs) = [] then ret 0
      else ebind (decode_item u cs (last (h (cs_key cs)))) (\<lambda>c. ret (conf_revision c)))"

lemma decode_written:
  assumes "configuration_contents u c = Inr (ob_contents x)" "plain_settings c" "conf_scope c = cs_scope cs"
    and "ob_key x = cs_key cs" "ob_version x \<noteq> []" "ob_etag x \<noteq> []"
  shows "decode_item u cs x = Inr (sorted_environment c)"
proof -
  obtain d where d: "configuration_to_wire u c = Inr d" "go_canonical_json_bytes (JObj d) = Inr (ob_contents x)"
    using assms(1) by (auto simp: configuration_contents_def ebind_eq_Inr_iff)
  have "loads_bytes (ob_contents x) = Inr (JObj d)"
    using plain_document [OF d(1) assms(2)] d(2) by (rule loads_canonical)
  then show ?thesis
    using configuration_roundtrip [OF d(1)] assms(3-6) by (simp add: decode_item_def) (simp add: sorted_environment_def)
qed

lemma next_configuration_fields [simp]:
  "conf_scope (next_configuration cs n c) = cs_scope cs" "conf_revision (next_configuration cs n c) = n + 1"
  "plain_settings (next_configuration cs n c) = plain_settings c"
  by (simp_all add: next_configuration_def plain_settings_def)

lemma decode_item_errors: "decode_item u cs x = Inl e \<Longrightarrow> data_error e"
proof -
  have "data_only (decode_item u cs x)"
    by (auto simp: decode_item_def configuration_from_wire_errors intro!: data_only_rules split: sum.splits)
  then show "decode_item u cs x = Inl e \<Longrightarrow> data_error e" by (simp add: data_only_def)
qed

text \<open>A sequence of writes, and the revisions that were reported as written.\<close>

fun run_writes ::
  "unicode_data \<Rightarrow> 'w configuration_store \<Rightarrow> (int \<times> configuration) list \<Rightarrow> 'w \<Rightarrow> int list \<times> 'w" where
  "run_writes u cs [] w = ([], w)"
| "run_writes u cs ((n, c) # rest) w =
     (case write_configuration u cs n c w of (r, w1) \<Rightarrow>
      case run_writes u cs rest w1 of (revisions, w2) \<Rightarrow>
        ((case r of Inl _ \<Rightarrow> revisions | Inr (c', _) \<Rightarrow> conf_revision c' # revisions), w2))"

context versioned_store
begin

lemma read_configuration_Inr:
  assumes "inv w" "cs_objects cs = store" "read_configuration u cs w = (Inr (c, x), w')"
  shows "inv w'" "hist w' = hist w" "hist w (cs_key cs) \<noteq> []" "x = last (hist w (cs_key cs))"
    "decode_item u cs x = Inr c" "x \<in> set (hist w (cs_key cs))"
proof -
  have r: "read_object store (cs_key cs) [] w = (Inr x, w')" "decode_item u cs x = Inr c"
    using assms(2,3) by (auto simp: read_configuration_def sbind_eq_Inr_iff)
  show "decode_item u cs x = Inr c" by (rule r(2))
  show "inv w'" "hist w' = hist w" using read_keeps [OF assms(1) r(1)] by auto
  show "hist w (cs_key cs) \<noteq> []" "x = last (hist w (cs_key cs))" "x \<in> set (hist w (cs_key cs))"
    using read_head [OF assms(1) r(1)] by auto
qed

lemma read_configuration_error:
  assumes "inv w" "cs_objects cs = store" "read_configuration u cs w = (Inl e, w')"
  shows "inv w'" "hist w' = hist w" "e = ObjectNotFoundError \<Longrightarrow> hist w (cs_key cs) = []"
proof -
  obtain r where r: "read_object store (cs_key cs) [] w = (r, w')"
      "r = Inl e \<or> (\<exists>x. r = Inr x \<and> decode_item u cs x = Inl e)"
    using assms(2,3) by (auto simp: read_configuration_def sbind_eq_Inl_iff)
  show "inv w'" "hist w' = hist w" using read_keeps [OF assms(1) r(1)] by auto
  show "hist w (cs_key cs) = []" if "e = ObjectNotFoundError"
    using r decode_item_errors [of u cs _ e] read_missing [OF assms(1)] that by auto
qed

lemma read_previous_effect:
  assumes "inv w" "cs_objects cs = store" "read_previous u cs n w = (r, w')"
  shows "inv w'" "hist w' = hist w"
    and "r = Inr previous \<Longrightarrow>
      current_revision u cs (hist w) = Inr (case previous of None \<Rightarrow> 0 | Some (p, _) \<Rightarrow> conf_revision p)"
proof -
  have "inv w' \<and> hist w' = hist w \<and> (\<forall>previous. r = Inr previous \<longrightarrow>
      current_revision u cs (hist w) = Inr (case previous of None \<Rightarrow> 0 | Some (p, _) \<Rightarrow> conf_revision p))"
  proof (cases "read_configuration u cs w")
    case (Pair q v)
    show ?thesis
    proof (cases q)
      case (Inl e)
      with assms(3) Pair read_configuration_error [OF assms(1,2), of u e v] show ?thesis
        by (auto simp: read_previous_def scatch_def sbind_def current_revision_def split: if_splits)
    next
      case (Inr p)
      obtain c0 x0 where "p = (c0, x0)" by fastforce
      with Inr assms(3) Pair read_configuration_Inr [OF assms(1,2), of u c0 x0 v] show ?thesis
        by (auto simp: read_previous_def scatch_def sbind_def current_revision_def)
    qed
  qed
  then show "inv w'" "hist w' = hist w" "r = Inr previous \<Longrightarrow>
      current_revision u cs (hist w) = Inr (case previous of None \<Rightarrow> 0 | Some (p, _) \<Rightarrow> conf_revision p)"
    by auto
qed

text \<open>A write is refused before it touches the store, or it is attempted from the expected revision.\<close>

lemma write_configuration_cases:
  assumes "inv w" "cs_objects cs = store" "write_configuration u cs n c w = (r, w')"
  obtains (refused) e where "r = Inl e" "inv w'" "hist w' = hist w"
    | (attempted) w1 head contents r1 where "inv w1" "hist w1 = hist w" "current_revision u cs (hist w) = Inr n"
      "configuration_contents u (next_configuration cs n c) = Inr contents"
      "reconciled_write store (cs_key cs) head contents w1 = (r1, w')"
      "r = ebind r1 (\<lambda>x. ret (next_configuration cs n c, x))"
proof -
  obtain rp w1 where rp: "read_previous u cs n w = (rp, w1)" by fastforce
  note pre = read_previous_effect [OF assms(1,2) rp]
  show thesis
  proof (cases rp)
    case (Inl e)
    with assms(3) rp refused [of e] pre show thesis by (simp add: write_configuration_def sbind_def)
  next
    case (Inr previous)
    have rev: "current_revision u cs (hist w) = Inr (case previous of None \<Rightarrow> 0 | Some (p, _) \<Rightarrow> conf_revision p)"
      by (rule pre(3) [OF Inr])
    have rest: "(if (case previous of None \<Rightarrow> 0 | Some (p, _) \<Rightarrow> conf_revision p) \<noteq> n
        then sraise (ObjectConflictError (str ''configuration revision conflict''))
        else sbind (slift (configuration_contents u (next_configuration cs n c))) (\<lambda>contents.
          sbind (reconciled_write store (cs_key cs) (map_option snd previous) contents) (\<lambda>stored.
            sret (next_configuration cs n c, stored)))) w1 = (r, w')"
      unfolding assms(3) [symmetric] write_configuration_def Let_def assms(2)
      by (rule sbind_Inr [symmetric]) (simp add: rp Inr)
    show thesis
    proof (cases "(case previous of None \<Rightarrow> 0 | Some (p, _) \<Rightarrow> conf_revision p) = n \<and>
        is_ok (configuration_contents u (next_configuration cs n c))")
      case True
      then obtain contents where c: "configuration_contents u (next_configuration cs n c) = Inr contents"
        by (auto simp: is_ok_iff)
      obtain r1 w2 where rw: "reconciled_write store (cs_key cs) (map_option snd previous) contents w1 = (r1, w2)" by fastforce
      have "r = ebind r1 (\<lambda>x. ret (next_configuration cs n c, x))" "w2 = w'"
        using rest True c rw by (cases r1; simp add: sbind_def)+
      with rw rev True c pre(1,2) show thesis by (intro attempted [of w1 contents "map_option snd previous" r1]) auto
    next
      case False
      with rest have "\<exists>e. r = Inl e" "w' = w1"
        by (cases "configuration_contents u (next_configuration cs n c)"; auto split: if_splits)+
      with pre(1,2) refused show thesis by auto
    qed
  qed
qed

text \<open>One write either leaves every history alone, or moves the document from the expected
  revision to the next one; a write that returns has moved it.\<close>

lemma revision_after_append:
  assumes "inv w'" "appends h (cs_key cs) contents x (hist w')"
    and "configuration_contents u (next_configuration cs n c) = Inr contents" "plain_settings c"
  shows "current_revision u cs (hist w') = Inr (n + 1)"
proof -
  have x: "last (hist w' (cs_key cs)) = x" "hist w' (cs_key cs) \<noteq> []" "ob_contents x = contents"
    using assms(2) by (auto simp: appends_def)
  then have "x \<in> set (hist w' (cs_key cs))" using last_in_set by metis
  note i = hist_identity [OF assms(1) this]
  have "decode_item u cs x = Inr (sorted_environment (next_configuration cs n c))"
    using i x(3) assms(3,4) by (intro decode_written) auto
  then show ?thesis using x by (simp add: current_revision_def sorted_environment_def)
qed

lemma write_configuration_step:
  assumes "inv w" "cs_objects cs = store" "plain_settings c" "write_configuration u cs n c w = (r, w')"
  shows "inv w' \<and> grows (hist w) (hist w') \<and> (\<forall>key. key \<noteq> cs_key cs \<longrightarrow> hist w' key = hist w key)
    \<and> (hist w' = hist w
       \<or> current_revision u cs (hist w) = Inr n \<and> current_revision u cs (hist w') = Inr (n + 1))"
  using assms(1,2,4)
proof (cases rule: write_configuration_cases)
  case (attempted w1 head contents r1)
  note eff = reconciled_write_effect [OF attempted(1,5)]
  show ?thesis
    using eff(2) attempted(2,3) eff(1) revision_after_append [OF eff(1) _ attempted(4) assms(3)] appends_grows
    by (auto simp: appends_def)
qed simp

lemma write_configuration_Inr:
  assumes "inv w" "cs_objects cs = store" "plain_settings c" "write_configuration u cs n c w = (Inr (c', x), w')"
  shows "current_revision u cs (hist w) = Inr n" "c' = next_configuration cs n c"
    "hist w' (cs_key cs) \<noteq> []" "x = last (hist w' (cs_key cs))"
    "decode_item u cs x = Inr (sorted_environment c')" "current_revision u cs (hist w') = Inr (n + 1)"
proof -
  have *: "current_revision u cs (hist w) = Inr n \<and> c' = next_configuration cs n c
    \<and> hist w' (cs_key cs) \<noteq> [] \<and> x = last (hist w' (cs_key cs)) \<and> decode_item u cs x = Inr (sorted_environment c')"
    using assms(1,2,4)
  proof (cases rule: write_configuration_cases)
    case (attempted w1 head contents r1)
    then have r1: "r1 = Inr x" "c' = next_configuration cs n c" by (cases r1; simp)+
    note eff = reconciled_write_effect [OF attempted(1,5)]
    note x = eff(3) [OF r1(1)]
    then have "x \<in> set (hist w' (cs_key cs))" by simp
    note i = hist_identity [OF eff(1) this]
    have "decode_item u cs x = Inr (sorted_environment (next_configuration cs n c))"
      using i x attempted(4) assms(3) by (intro decode_written) auto
    with r1 x attempted(3) show ?thesis by simp
  qed simp
  then show "current_revision u cs (hist w) = Inr n" "c' = next_configuration cs n c"
    "hist w' (cs_key cs) \<noteq> []" "x = last (hist w' (cs_key cs))" "decode_item u cs x = Inr (sorted_environment c')"
    by blast+
  show "current_revision u cs (hist w') = Inr (n + 1)"
    using * by (auto simp: current_revision_def sorted_environment_def)
qed

text \<open>Revisions are reported once each, in increasing order, whatever the writers expected.\<close>

lemma run_writes_increasing:
  assumes "inv w" "cs_objects cs = store" "list_all (\<lambda>(n, c). plain_settings c) ws"
    and "run_writes u cs ws w = (revisions, w')" "current_revision u cs (hist w) = Inr r0"
  shows "sorted_wrt (<) (r0 # revisions) \<and> inv w' \<and> grows (hist w) (hist w')
    \<and> (\<exists>r1. current_revision u cs (hist w') = Inr r1 \<and> list_all (\<lambda>r. r \<le> r1) (r0 # revisions))"
  using assms(1,3,4,5)
proof (induction ws arbitrary: w revisions r0)
  case (Cons a ws)
  obtain n c where a: "a = (n, c)" by fastforce
  obtain r w1 where w1: "write_configuration u cs n c w = (r, w1)" by fastforce
  obtain rs w2 where w2: "run_writes u cs ws w1 = (rs, w2)" by fastforce
  have p: "plain_settings c" "list_all (\<lambda>(n, c). plain_settings c) ws" using Cons.prems(2) a by auto
  have res: "revisions = (case r of Inl _ \<Rightarrow> rs | Inr (c', _) \<Rightarrow> conf_revision c' # rs)" "w' = w2"
    using Cons.prems(3) a w1 w2 by simp_all
  note step = write_configuration_step [OF Cons.prems(1) assms(2) p(1) w1]
  obtain r1 where r1: "current_revision u cs (hist w1) = Inr r1" "r0 \<le> r1"
    using step Cons.prems(4) by auto
  have ok: "conf_revision c' = r1 \<and> r0 < r1" if "r = Inr (c', x)" for c' x
    using write_configuration_Inr [OF Cons.prems(1) assms(2) p(1), of u n c' x w1] w1 that r1 Cons.prems(4) by simp
  note ih = Cons.IH [of w1 rs r1] 
  have "sorted_wrt (<) (r1 # rs) \<and> inv w2 \<and> grows (hist w1) (hist w2)
      \<and> (\<exists>r2. current_revision u cs (hist w2) = Inr r2 \<and> list_all (\<lambda>r. r \<le> r2) (r1 # rs))"
    using ih step p(2) w2 res(2) r1(1) by blast
  then show ?case
    using step res ok r1(2) grows_trans [of "hist w" "hist w1" "hist w2"]
    by (cases r) (fastforce split: prod.splits)+
qed (simp add: assms(2))

end

lemma new_configuration_store_Inr:
  assumes "new_configuration_store objects s = Inr cs"
  obtains p where "scope_prefix s = Inr p" "cs_objects cs = objects" "cs_scope cs = s"
    "cs_key cs = p @ str ''/configuration/head''"
  using assms by (auto simp: new_configuration_store_def ebind_eq_Inr_iff)

lemma secret_value_written:
  assumes "application_secret_wire s name value = Inr d" "go_canonical_json_bytes (JObj d) = Inr contents"
    and "validate_environment_value value = Inr ()"
  shows "stored_secret s name contents = Inr value"
proof -
  obtain w where w: "scope_to_wire s = Inr w"
    and d: "d = [(str ''scope'', JObj w), (str ''name'', JStr name), (str ''value'', JStr value)]"
    using assms(1) by (auto simp: application_secret_wire_def ebind_eq_Inr_iff)
  have ok: "json_plain (JObj w)" "json_ok (JObj w)"
    using w by (auto simp: scope_to_wire_def ebind_eq_Inr_iff dict_ok_def dict_keys_def)
  have "json_plain (JObj d)" using ok(1) by (simp add: d dict_ok_def dict_keys_def)
  then have "loads_bytes contents = Inr (JObj d)" using assms(2) by (rule loads_canonical)
  then show ?thesis
    using json_eq_refl [OF ok(2)] assms(3) by (simp add: stored_secret_def w) (simp add: d get_or_def)
qed

text \<open>A frozen snapshot and a written secret are read back unchanged, whatever was stored since.\<close>

context available_store
begin

lemma frozen_snapshot_stable:
  assumes "inv w" "new_configuration_store store s = Inr cs" "is_sha256 sha256"
    and "freeze_configuration sha256 u cs n w = (Inr ref, w1)" "inv w2" "grows (hist w1) (hist w2)"
  shows "\<exists>c w3. read_snapshot sha256 u cs ref w2 = (Inr c, w3) \<and> conf_revision c = n
    \<and> decode_item u cs (last (hist w (cs_key cs))) = Inr c"
proof -
  obtain p where p: "scope_prefix s = Inr p" "cs_objects cs = store" "cs_scope cs = s"
      "cs_key cs = p @ str ''/configuration/head''"
    using assms(2) by (rule new_configuration_store_Inr)
  obtain c x where r: "read_configuration u cs w = (Inr (c, x), w1)" and n: "conf_revision c = n"
    and ref: "ref = \<lparr>sn_key = ob_key x, sn_version = ob_version x, sn_digest = digest_bytes sha256 (ob_contents x),
      sn_media_type = str ''application/json''\<rparr>"
    using assms(4) by (auto simp: freeze_configuration_def sbind_eq_Inr_iff split: if_splits)
  note head = read_configuration_Inr [OF assms(1) p(2) r]
  have x: "x \<in> set (hist w (cs_key cs))" by (rule head(6))
  note i = hist_identity [OF assms(1) x]
  have "x \<in> set (hist w2 (cs_key cs))" using grows_mem [OF assms(6)] x head(2) by simp
  then obtain w3 where w3: "read_object store (cs_key cs) (ob_version x) w2 = (Inr x, w3)"
    using version_available [OF assms(5)] by blast
  have "snapshot_ref_validate ref s = Inr ()"
    using i is_digest_sha256 [OF assms(3)] p by (simp add: snapshot_ref_validate_def ref)
  then have "read_snapshot sha256 u cs ref w2 = (Inr c, w3)"
    using w3 i head(5) p by (simp add: read_snapshot_def sbind_def ref)
  then show ?thesis using n head(4,5) by blast
qed

lemma create_secret_effect:
  assumes "inv w" "cs_objects cs = store" "create_secret sha256 cs token name value w = (Inr ref, w1)"
  obtains p x d where "scope_prefix (cs_scope cs) = Inr p" "inv w1"
    "sr_key ref = p @ str ''/app-secrets/'' @ name @ str ''/'' @ token"
    "x \<in> set (hist w1 (sr_key ref))" "sr_version ref = ob_version x"
    "sr_digest ref = digest_bytes sha256 (ob_contents x)"
    "application_secret_wire (cs_scope cs) name value = Inr d" "go_canonical_json_bytes (JObj d) = Inr (ob_contents x)"
proof -
  obtain p contents d x where p: "scope_prefix (cs_scope cs) = Inr p"
    and d: "application_secret_wire (cs_scope cs) name value = Inr d" "go_canonical_json_bytes (JObj d) = Inr contents"
    and w1: "create_immutable store (p @ str ''/app-secrets/'' @ name @ str ''/'' @ token) contents
       (str ''application secret content differs'') w = (Inr x, w1)"
    and ref: "ref = \<lparr>sr_key = p @ str ''/app-secrets/'' @ name @ str ''/'' @ token, sr_version = ob_version x,
      sr_digest = digest_bytes sha256 contents\<rparr>"
    using assms(2,3) by (auto simp: create_secret_def Let_def sbind_eq_Inr_iff ebind_eq_Inr_iff)
  note eff = create_immutable_effect(1,3) [OF assms(1) w1]
  show thesis using p d ref eff by (intro that [of p x d]) auto
qed

lemma secret_roundtrip:
  assumes "inv w" "cs_objects cs = store" "is_sha256 sha256" "is_hex_text 32 token"
    and "validate_environment_value value = Inr ()"
    and "create_secret sha256 cs token name value w = (Inr ref, w1)" "inv w2" "grows (hist w1) (hist w2)"
  shows "\<exists>w3. read_secret_value sha256 cs ref name w2 = (Inr value, w3)"
  using assms(1,2,6)
proof (rule create_secret_effect)
  fix p x d
  assume p: "scope_prefix (cs_scope cs) = Inr p" and i: "inv w1"
    and k: "sr_key ref = p @ str ''/app-secrets/'' @ name @ str ''/'' @ token"
    and x: "x \<in> set (hist w1 (sr_key ref))" and v: "sr_version ref = ob_version x"
    and dg: "sr_digest ref = digest_bytes sha256 (ob_contents x)"
    and d: "application_secret_wire (cs_scope cs) name value = Inr d" "go_canonical_json_bytes (JObj d) = Inr (ob_contents x)"
  note id = hist_identity [OF i x]
  obtain w3 where "read_object store (sr_key ref) (ob_version x) w2 = (Inr x, w3)"
    using version_available [OF assms(7)] grows_mem [OF assms(8) x] by blast
  moreover have "validate_secret_reference ref (cs_scope cs) name = Inr ()"
    using p k v dg id assms(4) is_digest_sha256 [OF assms(3)] by (simp add: validate_secret_reference_def Let_def)
  moreover have "stored_secret (cs_scope cs) name (ob_contents x) = Inr value"
    by (rule secret_value_written [OF d assms(5)])
  ultimately have "read_secret_value sha256 cs ref name w2 = (Inr value, w3)"
    using assms(2) v dg by (simp add: read_secret_value_def sbind_def)
  then show ?thesis by blast
qed

end

text \<open>Where failed writes are definite, a reported revision is exactly the next one.\<close>

context definite_store
begin

lemma write_configuration_definite:
  assumes "inv w" "cs_objects cs = store" "write_configuration u cs n c w = (Inl e, w')"
  shows "hist w' = hist w"
  using assms
proof (cases rule: write_configuration_cases)
  case (attempted w1 head contents r1)
  then have "\<exists>e. r1 = Inl e" by (cases r1) auto
  with reconciled_write_definite [OF attempted(1)] attempted(2,5) show ?thesis by auto
qed simp

lemma run_writes_consecutive:
  assumes "inv w" "cs_objects cs = store" "list_all (\<lambda>(n, c). plain_settings c) ws"
    and "run_writes u cs ws w = (revisions, w')" "current_revision u cs (hist w) = Inr r0"
  shows "revisions = map (\<lambda>i. r0 + 1 + int i) [0..<length revisions]
    \<and> current_revision u cs (hist w') = Inr (r0 + int (length revisions))"
  using assms(1,3,4,5)
proof (induction ws arbitrary: w revisions r0)
  case (Cons a ws)
  obtain n c where a: "a = (n, c)" by fastforce
  obtain r w1 where w1: "write_configuration u cs n c w = (r, w1)" by fastforce
  obtain rs w2 where w2: "run_writes u cs ws w1 = (rs, w2)" by fastforce
  have p: "plain_settings c" "list_all (\<lambda>(n, c). plain_settings c) ws" using Cons.prems(2) a by auto
  have res: "revisions = (case r of Inl _ \<Rightarrow> rs | Inr (c', _) \<Rightarrow> conf_revision c' # rs)" "w' = w2"
    using Cons.prems(3) a w1 w2 by simp_all
  have i: "inv w1" using write_configuration_step [OF Cons.prems(1) assms(2) p(1) w1] by simp
  show ?case
  proof (cases r)
    case (Inl e)
    with write_configuration_definite [OF Cons.prems(1) assms(2)] w1 have "hist w1 = hist w" by blast
    with Cons.IH [OF i p(2), of rs r0] w2 res Inl Cons.prems(4) show ?thesis by simp
  next
    case (Inr q)
    obtain c' x where q: "q = (c', x)" by fastforce
    have n: "n = r0" "conf_revision c' = r0 + 1" "current_revision u cs (hist w1) = Inr (r0 + 1)"
      using write_configuration_Inr [OF Cons.prems(1) assms(2) p(1), of u n c' x w1] w1 Inr q Cons.prems(4) by auto
    have ih: "rs = map (\<lambda>i. r0 + 1 + 1 + int i) [0..<length rs]"
        "current_revision u cs (hist w2) = Inr (r0 + 1 + int (length rs))"
      using Cons.IH [OF i p(2), of rs "r0 + 1"] w2 res(2) n(3) by auto
    have "map (\<lambda>i. r0 + 1 + int i) [0..<Suc (length rs)] = (r0 + 1) # map (\<lambda>i. r0 + 1 + 1 + int i) [0..<length rs]"
      by (simp add: map_upt_Suc del: upt_Suc)
    with ih n(2) res Inr q show ?thesis by simp
  qed
qed (simp add: assms(2))

end

end
