(* ===== verification/S3Storage.thy ===== *)
theory S3Storage
  imports ObjectStorage
begin

text \<open>
  \<^verbatim>\<open>projectconfig/storage.py\<close>, class \<open>S3ObjectStore\<close>.  The S3 client is outside the
  repository: \<open>get_object\<close> and \<open>put_object\<close> are arguments on a world \<open>'w\<close>, a failure is the HTTP
  status its response carries, if any.  Closing a response body has no effect the model sees.
  The lemmas show that a read returns only an exact, encrypted and bounded version, and that no
  write is unconditional or unencrypted.
\<close>

text \<open>\<open>arn:[a-z0-9-]+:kms:[a-z0-9-]+:[0-9]{12}:key/[a-zA-Z0-9-]+\<close>\<close>

definition is_region_text :: "pystr \<Rightarrow> bool" where
  "is_region_text s \<longleftrightarrow> s \<noteq> [] \<and> list_all (\<lambda>c. is_lower c \<or> is_digit c \<or> c = 45) s"

definition is_kms_key_arn :: "pystr \<Rightarrow> bool" where
  "is_kms_key_arn s =
     (case split_on 58 s of
        [a, part, service, region, account, key] \<Rightarrow>
          a = str ''arn'' \<and> is_region_text part \<and> service = str ''kms'' \<and> is_region_text region
          \<and> length account = 12 \<and> list_all is_digit account
          \<and> take 4 key = str ''key/'' \<and> drop 4 key \<noteq> [] \<and> list_all (\<lambda>c. is_alnum c \<or> c = 45) (drop 4 key)
      | _ \<Rightarrow> False)"

record s3_store =
  s3_bucket :: pystr
  s3_prefix :: pystr
  s3_kms_key_arn :: pystr

definition new_s3_store :: "bool \<Rightarrow> pystr \<Rightarrow> pystr \<Rightarrow> pystr \<Rightarrow> bool \<Rightarrow> exc + s3_store" where
  "new_s3_store has_client bucket prefix_text kms_key_arn allow_unencrypted =
     (let stripped = rstrip_by (\<lambda>c. c = 47) prefix_text in
      if \<not> has_client \<or> bucket = [] \<or> \<not> list_all (\<lambda>c. c \<notin> {47, 92, 0}) bucket
         \<or> \<not> (is_kms_key_arn kms_key_arn \<or> (allow_unencrypted \<and> kms_key_arn = []))
      then raise (ValueError (str ''versioned project storage and encryption configuration are required''))
      else ethen (if prefix_text \<noteq> [] then validate_object_key stripped else ret ())
        (ret \<lparr>s3_bucket = bucket, s3_prefix = (if prefix_text \<noteq> [] then stripped @ [47] else []),
              s3_kms_key_arn = kms_key_arn\<rparr>))"

definition s3_create ::
  "(pystr \<Rightarrow> (pystr option, 'w) action) \<Rightarrow> pystr \<Rightarrow> pystr \<Rightarrow> pystr \<Rightarrow> bool \<Rightarrow> (s3_store, 'w) action" where
  "s3_create get_bucket_versioning bucket prefix_text kms_key_arn allow_unencrypted =
     sbind (slift (new_s3_store True bucket prefix_text kms_key_arn allow_unencrypted)) (\<lambda>store.
     sbind (get_bucket_versioning bucket) (\<lambda>status.
       if status \<noteq> Some (str ''Enabled'')
       then sraise (ValueError (str ''project object bucket versioning must be enabled''))
       else sret store))"

record s3_get =
  get_bucket :: pystr
  get_key :: pystr
  get_version_id :: "pystr option"

record s3_response =
  resp_body :: "(nat \<Rightarrow> exc + bytes) option"
  resp_version_id :: "pystr option"
  resp_etag :: "pystr option"
  resp_encryption :: "pystr option"
  resp_kms_key :: "pystr option"

datatype put_condition = IfMatch pystr | IfNoneMatch pystr

record s3_put =
  put_bucket :: pystr
  put_key :: pystr
  put_body :: bytes
  put_content_type :: pystr
  put_if :: put_condition
  put_encryption :: "(pystr \<times> pystr) option"

text \<open>A client failure is the HTTP status of the error's response, when it has one.\<close>

type_synonym ('q, 'w) s3_method = "'q \<Rightarrow> 'w \<Rightarrow> (int option + s3_response) \<times> 'w"

definition classify_storage_error :: "int option \<Rightarrow> bool \<Rightarrow> exc" where
  "classify_storage_error status is_write =
     (if status = Some 404 \<and> \<not> is_write then ObjectNotFoundError
      else if status = Some 409 \<or> status = Some 412
      then ObjectConflictError (str ''project object conditional write conflict'')
      else if is_write then OutcomeUnknownError (str ''project write outcome is unknown'')
      else OSError (str ''project object read failed''))"

definition text_or_empty :: "pystr option \<Rightarrow> pystr" where
  "text_or_empty t = (case t of None \<Rightarrow> [] | Some s \<Rightarrow> s)"

definition check_read :: "s3_store \<Rightarrow> pystr \<Rightarrow> pystr \<Rightarrow> s3_response \<Rightarrow> exc + obj" where
  "check_read store key version resp =
     (case resp_body resp of
        None \<Rightarrow> raise (ValueError (str ''project object body is unavailable''))
      | Some body \<Rightarrow>
        let observed = text_or_empty (resp_version_id resp); etag = text_or_empty (resp_etag resp) in
        if observed = [] \<or> observed = str ''null'' \<or> etag = [] \<or> (version \<noteq> [] \<and> observed \<noteq> version)
        then raise (ValueError (str ''project object lacks exact version identity''))
        else if s3_kms_key_arn store \<noteq> [] \<and> (resp_encryption resp \<noteq> Some (str ''aws:kms'')
             \<or> resp_kms_key resp \<noteq> Some (s3_kms_key_arn store))
        then raise (ValueError (str ''project object encryption boundary differs''))
        else ebind (body (MAXIMUM_OBJECT_BYTES + 1)) (\<lambda>contents.
          if contents = [] \<or> length contents > MAXIMUM_OBJECT_BYTES
          then raise (ValueError (str ''project object body is unavailable or oversized''))
          else ret \<lparr>ob_key = key, ob_version = observed, ob_etag = etag, ob_contents = contents\<rparr>))"

definition s3_read :: "(s3_get, 'w) s3_method \<Rightarrow> s3_store \<Rightarrow> pystr \<Rightarrow> pystr \<Rightarrow> (obj, 'w) action" where
  "s3_read get_object store key version =
     sbind (slift (validate_object_key key)) (\<lambda>_ w.
       case get_object \<lparr>get_bucket = s3_bucket store, get_key = s3_prefix store @ key,
              get_version_id = (if version \<noteq> [] then Some version else None)\<rparr> w of
         (Inl status, w') \<Rightarrow> (raise (classify_storage_error status False), w')
       | (Inr resp, w') \<Rightarrow> (check_read store key version resp, w'))"

definition put_request :: "s3_store \<Rightarrow> pystr \<Rightarrow> bytes \<Rightarrow> pystr \<Rightarrow> s3_put" where
  "put_request store key contents etag =
     \<lparr>put_bucket = s3_bucket store, put_key = s3_prefix store @ key, put_body = contents,
      put_content_type = str ''application/json'',
      put_if = (if etag \<noteq> [] then IfMatch etag else IfNoneMatch (str ''*'')),
      put_encryption = (if s3_kms_key_arn store \<noteq> [] then Some (str ''aws:kms'', s3_kms_key_arn store) else None)\<rparr>"

definition s3_write ::
  "(s3_put, 'w) s3_method \<Rightarrow> s3_store \<Rightarrow> pystr \<Rightarrow> bytes \<Rightarrow> pystr \<Rightarrow> (obj, 'w) action" where
  "s3_write put_object store key contents etag =
     sbind (slift (ethen (validate_object_key key) (validate_contents contents))) (\<lambda>_ w.
       case put_object (put_request store key contents etag) w of
         (Inl status, w') \<Rightarrow> (raise (classify_storage_error status True), w')
       | (Inr resp, w') \<Rightarrow>
           (let version = text_or_empty (resp_version_id resp); response_etag = text_or_empty (resp_etag resp)
            in if version = [] \<or> version = str ''null'' \<or> response_etag = []
               then raise (OutcomeUnknownError (str ''project write has no exact version identity''))
               else ret \<lparr>ob_key = key, ob_version = version, ob_etag = response_etag, ob_contents = contents\<rparr>, w'))"

definition s3_object_store ::
  "(s3_get, 'w) s3_method \<Rightarrow> (s3_put, 'w) s3_method \<Rightarrow> s3_store \<Rightarrow> 'w object_store" where
  "s3_object_store get_object put_object store =
     \<lparr>read_object = s3_read get_object store,
      create_object = (\<lambda>key contents. s3_write put_object store key contents []),
      compare_and_swap_object = (\<lambda>key etag contents.
        if etag = [] then sraise (ValueError (str ''object compare-and-swap requires an ETag''))
        else s3_write put_object store key contents etag)\<rparr>"

section \<open>Properties\<close>

text \<open>A read returns the requested version only, encrypted with the configured key and bounded.\<close>

lemma s3_read_exact:
  assumes "s3_read get_object store key version w = (Inr x, w')"
  shows "ob_key x = key \<and> ob_version x \<noteq> [] \<and> ob_version x \<noteq> str ''null'' \<and> ob_etag x \<noteq> []
    \<and> (version = [] \<or> ob_version x = version) \<and> ob_contents x \<noteq> []
    \<and> length (ob_contents x) \<le> MAXIMUM_OBJECT_BYTES
    \<and> (\<exists>resp request. get_object request w = (Inr resp, w') \<and> get_key request = s3_prefix store @ key
        \<and> (s3_kms_key_arn store = [] \<or> resp_kms_key resp = Some (s3_kms_key_arn store)))"
proof -
  let ?q = "\<lparr>get_bucket = s3_bucket store, get_key = s3_prefix store @ key,
    get_version_id = (if version \<noteq> [] then Some version else None)\<rparr>"
  obtain resp where g: "get_object ?q w = (Inr resp, w')" and c: "check_read store key version resp = Inr x"
    using assms by (auto simp: s3_read_def sbind_eq_Inr_iff split: prod.splits sum.splits)
  have k: "get_key ?q = s3_prefix store @ key" by simp
  have e: "s3_kms_key_arn store = [] \<or> resp_kms_key resp = Some (s3_kms_key_arn store)"
    using c by (auto simp: check_read_def Let_def split: option.splits if_splits)
  have x: "ob_key x = key \<and> ob_version x \<noteq> [] \<and> ob_version x \<noteq> str ''null'' \<and> ob_etag x \<noteq> []
    \<and> (version = [] \<or> ob_version x = version) \<and> ob_contents x \<noteq> []
    \<and> length (ob_contents x) \<le> MAXIMUM_OBJECT_BYTES"
    using c by (auto simp: check_read_def Let_def ebind_eq_Inr_iff split: option.splits if_splits)
  show ?thesis using x g k e by blast
qed

text \<open>A client that records the requests it is given.\<close>

definition recording_put :: "(s3_put \<Rightarrow> int option + s3_response) \<Rightarrow> (s3_put, s3_put list) s3_method" where
  "recording_put answer request sofar = (answer request, sofar @ [request])"

lemma s3_writes_conditional:
  assumes "store_op \<in> {create_object (s3_object_store get_object (recording_put answer) store) key contents,
      compare_and_swap_object (s3_object_store get_object (recording_put answer) store) key etag contents}"
  shows "\<exists>sent. snd (store_op sofar) = sofar @ sent \<and> length sent \<le> 1
    \<and> (\<forall>q \<in> set sent. put_if q \<in> {IfNoneMatch (str ''*''), IfMatch etag} \<and> put_if q \<noteq> IfMatch []
        \<and> put_body q = contents
        \<and> (s3_kms_key_arn store = [] \<or> put_encryption q = Some (str ''aws:kms'', s3_kms_key_arn store)))"
proof -
  have w: "\<exists>sent. snd (s3_write (recording_put answer) store key contents t sofar) = sofar @ sent
      \<and> length sent \<le> 1 \<and> set sent \<subseteq> {put_request store key contents t}" for t
    by (auto simp: s3_write_def sbind_def recording_put_def split: sum.splits)
  consider t where "snd (store_op sofar) = snd (s3_write (recording_put answer) store key contents t sofar)"
      "t = [] \<or> (t = etag \<and> etag \<noteq> [])"
    | "snd (store_op sofar) = sofar"
    using assms by (auto simp: s3_object_store_def split: if_splits)
  then show ?thesis
  proof cases
    case (1 t)
    obtain sent where s: "snd (store_op sofar) = sofar @ sent" "length sent \<le> 1"
        "set sent \<subseteq> {put_request store key contents t}"
      using w [of t] 1(1) by auto
    have "put_if q \<in> {IfNoneMatch (str ''*''), IfMatch etag} \<and> put_if q \<noteq> IfMatch [] \<and> put_body q = contents
        \<and> (s3_kms_key_arn store = [] \<or> put_encryption q = Some (str ''aws:kms'', s3_kms_key_arn store))"
      if "q \<in> set sent" for q
    proof -
      have "q = put_request store key contents t" using that s(3) by blast
      then show ?thesis using 1(2) by (auto simp: put_request_def)
    qed
    with s(1,2) show ?thesis by blast
  next
    case 2
    then show ?thesis by (intro exI [of _ "[]"]) simp
  qed
qed

text \<open>Every failed write either certainly lost the condition or is reported as unknown.\<close>

lemma s3_write_errors:
  assumes "s3_write put_object store key contents etag w = (Inl e, w')"
  shows "(\<exists>m. e = ValueError m \<and> w' = w) \<or> (\<exists>m. e = ObjectConflictError m) \<or> (\<exists>m. e = OutcomeUnknownError m)"
  using assms
  by (auto simp: s3_write_def sbind_eq_Inl_iff ethen_eq_Inl_iff validate_object_key_def
      validate_contents_def classify_storage_error_def Let_def split: prod.splits sum.splits if_splits)

end
