(* ===== verification/ProjectExamples.thy ===== *)
theory ProjectExamples
  imports Examples ConfigurationStore S3Storage RefreshProvider Broker "HOL-Library.Code_Target_Numeral"
begin

text \<open>
  Concrete inputs for the properties of the project configuration: a scope, a configuration
  document, an empty in-memory store and what was written to it.
\<close>

definition ex_sha256 :: "bytes \<Rightarrow> pystr" where
  "ex_sha256 b = replicate 64 97"

definition ex_scope :: scope where
  "ex_scope = \<lparr>project_id = str ''p1'', scope_kind = str ''live''\<rparr>"

definition ex_entry :: connection_configuration where
  "ex_entry = \<lparr>cc_connector_id = str ''mail'', cc_connection_name = str ''main'', cc_module_path = str ''m'',
     cc_provider = str ''mail'', cc_configuration = [(str ''region'', JStr (str ''eu''))],
     cc_auth_method_id = str ''apiKey'', cc_shared_connection_id = []\<rparr>"

definition ex_configuration :: configuration where
  "ex_configuration = \<lparr>conf_scope = ex_scope, conf_revision = 1, conf_connections = [ex_entry],
     conf_trigger_bindings = [], conf_operation_configurations = [],
     conf_environment = [(str ''NAME'', \<lparr>ev_value = Some (str ''v''), ev_secret_ref = None\<rparr>)],
     conf_credential_broker = None, conf_schema_version = CONFIGURATION_SCHEMA_VERSION\<rparr>"

definition ex_store :: "memory configuration_store" where
  "ex_store = \<lparr>cs_objects = memory_store ex_sha256, cs_scope = ex_scope,
     cs_key = str ''projects/p1/live/configuration/head''\<rparr>"

definition ex_written :: "(exc + configuration \<times> obj) \<times> memory" where
  "ex_written = write_configuration ascii_unicode ex_store 0 ex_configuration []"

lemma ex_store_new: "new_configuration_store (memory_store ex_sha256) ex_scope = Inr ex_store"
proof -
  have "scope_prefix ex_scope = Inr (str ''projects/p1/live'')" by code_simp
  then show ?thesis by (simp add: new_configuration_store_def ex_store_def) (simp add: str_def)
qed

lemma ex_valid: "configuration_validate ascii_unicode ex_configuration = Inr ()"
  by code_simp

lemma ex_contents: "is_ok (configuration_contents ascii_unicode ex_configuration)"
  by code_simp

lemma ex_plain: "plain_settings ex_configuration"
  by code_simp

definition ex_secret_ref :: secret_ref where
  "ex_secret_ref = \<lparr>sr_key = str ''projects/p1/live/app-secrets/TOKEN/'' @ replicate 32 97, sr_version = str ''1'',
     sr_digest = str ''sha256:'' @ replicate 64 97\<rparr>"

lemma ex_written_ok: "is_ok (fst ex_written)"
  by code_simp

lemma ex_sha256_ok: "is_sha256 ex_sha256"
  by (simp add: is_sha256_def ex_sha256_def is_hex_text_def list_all_iff) (simp add: char_class_defs)

definition ex_first :: memory where
  "ex_first = snd ex_written"

definition ex_frozen :: "(exc + snapshot_ref) \<times> memory" where
  "ex_frozen = freeze_configuration ex_sha256 ascii_unicode ex_store 1 ex_first"

definition ex_second :: memory where
  "ex_second = snd (write_configuration ascii_unicode ex_store 1 ex_configuration (snd ex_frozen))"

lemma ex_frozen_ok: "is_ok (fst ex_frozen)"
  by code_simp

lemma ex_writes_kept:
  "mem_inv ex_first" "mem_inv (snd ex_frozen)" "mem_inv ex_second" "grows (versions (snd ex_frozen)) (versions ex_second)"
proof -
  have o: "cs_objects ex_store = memory_store ex_sha256" by (simp add: ex_store_def)
  have i0: "mem_inv []" by (simp add: mem_inv_def)
  show 1: "mem_inv ex_first"
    using memory.write_configuration_step [OF i0 o ex_plain, where u = ascii_unicode and n = 0]
    by (metis ex_first_def ex_written_def prod.collapse)
  have "snd ex_frozen = ex_first" by code_simp
  then show 2: "mem_inv (snd ex_frozen)" using 1 by simp
  show "mem_inv ex_second" "grows (versions (snd ex_frozen)) (versions ex_second)"
    using memory.write_configuration_step [OF 2 o ex_plain, where u = ascii_unicode and n = 1]
    by (metis ex_second_def prod.collapse)+
qed

definition ex_secret :: "(exc + secret_ref) \<times> memory" where
  "ex_secret = create_application_secret ex_sha256 ex_store (replicate 32 97) (str ''TOKEN'') (str ''s3cret'') ex_first"

lemma ex_secret_ok: "is_ok (fst ex_secret)"
  by code_simp

lemma ex_secret_kept: "mem_inv (snd ex_secret)"
proof -
  obtain ref where r: "fst ex_secret = Inr ref" using ex_secret_ok by (auto simp: is_ok_iff)
  have o: "cs_objects ex_store = memory_store ex_sha256" by (simp add: ex_store_def)
  have "create_secret ex_sha256 ex_store (replicate 32 97) (str ''TOKEN'') (str ''s3cret'') ex_first = (Inr ref, snd ex_secret)"
    using r by (auto simp: ex_secret_def create_application_secret_def prod_eq_iff sbind_def split: if_splits sum.splits prod.splits)
  with ex_writes_kept(1) o show ?thesis by (rule memory.create_secret_effect)
qed

section \<open>A bucket\<close>

definition ex_bucket :: s3_store where
  "ex_bucket = \<lparr>s3_bucket = str ''b'', s3_prefix = str ''p/'', s3_kms_key_arn = str ''arn''\<rparr>"

definition ex_get :: "(s3_get, unit) s3_method" where
  "ex_get q w = (Inr \<lparr>resp_body = Some (\<lambda>n. Inr [1]), resp_version_id = Some (str ''v1''), resp_etag = Some (str ''e''),
     resp_encryption = Some (str ''aws:kms''), resp_kms_key = Some (str ''arn'')\<rparr>, w)"

definition ex_object :: obj where
  "ex_object = \<lparr>ob_key = str ''a'', ob_version = str ''v1'', ob_etag = str ''e'', ob_contents = [1]\<rparr>"

lemma ex_object_read: "s3_read ex_get ex_bucket (str ''a'') (str ''v1'') () = (Inr ex_object, ())"
  by code_simp

section \<open>A connection\<close>

definition ex_connection_key :: connection_key where
  "ex_connection_key = \<lparr>ck_connector_id = str ''mail'', ck_connection_name = str ''main''\<rparr>"

definition ex_connections :: "host connection_store" where
  "ex_connections = \<lparr>cst_objects = host_store ex_sha256, cst_scope = ex_scope, cst_shared = []\<rparr>"

definition ex_memory_connections :: "memory connection_store" where
  "ex_memory_connections = \<lparr>cst_objects = memory_store ex_sha256, cst_scope = ex_scope, cst_shared = []\<rparr>"

definition ex_material :: credential_material where
  "ex_material = \<lparr>cm_credentials = [(str ''token'', JStr (str ''t0''))], cm_expires_at = Some (PyTime ex_time),
     cm_auth_method = str ''oauth''\<rparr>"

definition ex_replaced :: "(exc + connection) \<times> memory" where
  "ex_replaced = replace_credential ex_sha256 ex_memory_connections ex_connection_key 0 ex_material []"

lemma ex_replaced_ok: "is_ok (fst ex_replaced)"
  by code_simp

definition ex_host :: host where
  "ex_host = \<lparr>host_memory = snd ex_replaced, host_clock = dt_instant ex_time, host_tokens = 0, host_calls = 0\<rparr>"

definition ex_provider :: "(jobj, host) project_provider" where
  "ex_provider = \<lparr>pv_store = ex_connections, pv_key = ex_connection_key, pv_decode = Inr, pv_decode_shared = None,
     pv_encode = (\<lambda>d. Inr (JObj d)), pv_shared = None\<rparr>"

definition ex_driver :: "(jobj, host) refresh_driver" where
  "ex_driver = \<lparr>refresh_required = (\<lambda>_. Inr True),
     driver_refresh = (\<lambda>state w. (Inr \<lparr>rr_credentials = [(str ''token'', JStr (str ''t1''))],
        rr_expires_at = ex_time\<lparr>dt_year := 2027\<rparr>\<rparr>, w\<lparr>host_calls := Suc (host_calls w)\<rparr>))\<rparr>"

definition ex_round :: "(exc + jobj option) \<times> host" where
  "ex_round = refresh_round ex_sha256 host_runtime ex_provider ex_driver ex_host"

definition ex_head :: pystr where
  "ex_head = head_key (str ''projects/p1/live/connections/mail/bWFpbg'')"

lemma ex_path: "key_path ex_connection_key ex_scope = Inr (str ''projects/p1/live/connections/mail/bWFpbg'')"
  by code_simp

lemma ex_head_plain:
  "(case loads_bytes (ob_contents (last (versions (snd ex_replaced) ex_head))) of Inl e \<Rightarrow> False | Inr j \<Rightarrow> json_plain j)"
  by code_simp

lemma ex_replaced_kept: "mem_inv (snd ex_replaced)"
proof -
  obtain c where c: "fst ex_replaced = Inr c" using ex_replaced_ok by (auto simp: is_ok_iff)
  have i: "mem_inv []" by (simp add: mem_inv_def)
  have o: "cst_objects ex_memory_connections = memory_store ex_sha256" by (simp add: ex_memory_connections_def)
  have "replace_credential ex_sha256 ex_memory_connections ex_connection_key 0 ex_material [] = (Inr c, snd ex_replaced)"
    using c by (metis ex_replaced_def prod.collapse)
  with i o show ?thesis by (rule memory.replace_credential_Inr)
qed

definition ex_nano_parts :: time_parts where
  "ex_nano_parts = \<lparr>tp_year = str ''2026'', tp_month = str ''01'', tp_day = str ''02'', tp_hour = str ''03'',
     tp_minute = str ''04'', tp_second = str ''05'', tp_fraction = Some (str ''123456789''), tp_offset = str ''Z''\<rparr>"

section \<open>A shared connection\<close>

definition ex_issued :: "int \<Rightarrow> string \<Rightarrow> broker_credential" where
  "ex_issued revision token = \<lparr>bk_credential = [(str ''token'', JStr (str token))], bk_revision = revision, bk_issued_at = None,
     bk_expires_at = None, bk_read_at = ex_time\<rparr>"

definition ex_broker :: "instant broker_access" where
  "ex_broker = \<lparr>ba_read = (\<lambda>sid revision w. (Inr (ex_issued 2 ''t2''), w)), ba_now = (\<lambda>w. (w, w))\<rparr>"

definition ex_shared :: "shared_state \<times> instant" where
  "ex_shared = (\<lparr>sc_credential = Some (ex_issued 1 ''t1''), sc_issued = [], sc_next_read_after = 0\<rparr>,
     dt_instant ex_time + minutes 20)"

definition ex_shared_after :: "shared_state \<times> instant" where
  "ex_shared_after = snd (shared_resolve ex_broker (str ''shared'') (str ''c1'') ex_shared)"

definition ex_rejected_after :: "shared_state \<times> instant" where
  "ex_rejected_after = snd (shared_resolve_after_rejection ex_broker (str ''shared'') (str ''c1'') ex_shared)"

lemma ex_shared_resolves:
  "shared_resolve ex_broker (str ''shared'') (str ''c1'') ex_shared = (Inr [(str ''token'', JStr (str ''t2''))], ex_shared_after)"
proof -
  have "fst (shared_resolve ex_broker (str ''shared'') (str ''c1'') ex_shared) = Inr [(str ''token'', JStr (str ''t2''))]"
    by code_simp
  then show ?thesis by (metis ex_shared_after_def prod.collapse)
qed

lemma ex_rejected_resolves:
  "shared_resolve_after_rejection ex_broker (str ''shared'') (str ''c1'') ex_shared
     = (Inr [(str ''token'', JStr (str ''t2''))], ex_rejected_after)"
proof -
  have "fst (shared_resolve_after_rejection ex_broker (str ''shared'') (str ''c1'') ex_shared) = Inr [(str ''token'', JStr (str ''t2''))]"
    by code_simp
  then show ?thesis by (metis ex_rejected_after_def prod.collapse)
qed

definition ex_broker_client :: broker_client where
  "ex_broker_client = \<lparr>bcl_endpoint = str ''https://broker.example'', bcl_token_reference = ex_secret_ref, bcl_token = []\<rparr>"

text \<open>A broker that refuses every token; the world counts its requests.\<close>

definition ex_broker_host :: "nat broker_host" where
  "ex_broker_host = \<lparr>bh_post = (\<lambda>q n. (Streamed 401 [] False, Suc n)), bh_read_token = (\<lambda>r n. (Inr (str ''token''), n)),
     bh_current_reference = (\<lambda>n. (Inr ex_secret_ref, n)), bh_now = (\<lambda>n. (0, n))\<rparr>"

end
