(* ===== verification/OAuthExamples.thy ===== *)
theory OAuthExamples
  imports RefreshGrants ProjectExamples
begin

text \<open>
  Concrete inputs for the properties of token exchanges and manifest grants: an endpoint with its
  answers, a signed assertion, and a manifest with one refresh grant.
\<close>

section \<open>An endpoint\<close>

definition ex_endpoint :: token_endpoint where
  "ex_endpoint = \<lparr>te_provider_name = str ''mail'', te_url = str ''https://idp.example/token'',
     te_terminal_error_codes = [str ''invalid_grant''], te_accepted_token_types = [str ''Bearer''],
     te_accepts_missing_token_type = False, te_accepts_missing_expires_in = False, te_retained_response_fields = [],
     te_uses_json_request_body = False, te_allows_plain_http = False,
     te_additional_request_parameters = [(str ''audience'', str ''api'')]\<rparr>"

definition ex_client :: client_credentials where
  "ex_client = \<lparr>cl_id = str ''app'', cl_secret = str ''s3cret'', cl_method = CLIENT_SECRET_POST\<rparr>"

definition ex_answer_of :: "int \<Rightarrow> jobj \<Rightarrow> token_transport" where
  "ex_answer_of status d = Responded \<lparr>status_code = status, response_headers = [], body_items = [Chunk (dumps (JObj d))], is_closed = False\<rparr>"

definition ex_granted :: "int \<Rightarrow> jobj" where
  "ex_granted lifetime = [(str ''access_token'', JStr (str ''at2'')), (str ''refresh_token'', JStr (str ''rt2'')), (str ''expires_in'', JInt lifetime),
     (str ''token_type'', JStr (str ''bearer'')), (str ''scope'', JStr (str ''mail.send mail.read''))]"

definition ex_exchange :: "(exc + token_response) \<times> token_request list" where
  "ex_exchange = exchange_refresh_token ascii_unicode (recording_client (\<lambda>_. ex_answer_of 200 (ex_granted 3600)))
     ex_endpoint ex_client (str ''rt1'') []"

lemma ex_exchange_ok: "is_ok (fst ex_exchange)"
  by code_simp

definition ex_refused :: token_transport where
  "ex_refused = ex_answer_of 400 [(str ''error'', JStr (str ''invalid_grant''))]"

definition ex_refused_exchange :: "(exc + token_response) \<times> token_request list" where
  "ex_refused_exchange = exchange ascii_unicode (recording_client (\<lambda>_. ex_refused)) ex_endpoint [(str ''grant_type'', str ''refresh_token'')] None []"

lemma ex_refused_result: "fst ex_refused_exchange = Inl ReauthorizationRequiredError"
  by code_simp

lemma ex_refused_read: "read_answer ex_endpoint ex_refused \<noteq> Inl ReauthorizationRequiredError"
  by code_simp

section \<open>A signed assertion\<close>

definition ex_assertion :: jwt_assertion where
  "ex_assertion = \<lparr>ja_issuer = str ''svc@example'', ja_audience = str ''https://idp.example/token'', ja_issued_at = utc_datetime (instant_of_unix 1700000000),
     ja_lifetime = seconds 3600, ja_subject = str ''user@example'', ja_scope = str ''mail.read''\<rparr>"

lemma unix_seconds_instant:
  assumes "\<bar>n\<bar> < 2 ^ 53"
  shows "unix_seconds (instant_of_unix n) = n"
proof -
  have "instant_of_unix n - 719162 * 86400000000 = n * 1000000"
    by (simp add: instant_of_unix_def unix_epoch_def seconds_def)
  moreover have "fl (of_int n) = Fin (of_int n)"
    using assms by (rule fl_int)
  ultimately show ?thesis
    by (simp add: unix_seconds_def total_seconds_def trunc_rat_def)
qed

lemma ex_assertion_issued: "dt_instant (ja_issued_at ex_assertion) = instant_of_unix 1700000000"
  by code_simp

lemma ex_assertion_expires: "dt_instant (ja_issued_at ex_assertion) + ja_lifetime ex_assertion = instant_of_unix 1700003600"
  by code_simp

lemma ex_assertion_exp: "unix_seconds (dt_instant (ja_issued_at ex_assertion) + ja_lifetime ex_assertion) = 1700003600"
  unfolding ex_assertion_expires by (rule unix_seconds_instant) simp

definition ex_claims :: jobj where
  "ex_claims = [(str ''aud'', JStr (str ''https://idp.example/token'')), (str ''exp'', JInt 1700003600), (str ''iat'', JInt 1700000000),
     (str ''iss'', JStr (str ''svc@example'')), (str ''scope'', JStr (str ''mail.read'')), (str ''sub'', JStr (str ''user@example''))]"

lemma ex_assertion_claims: "jwt_claims ex_assertion = Inr ex_claims"
proof -
  have "unix_seconds (dt_instant (ja_issued_at ex_assertion)) = 1700000000"
    unfolding ex_assertion_issued by (rule unix_seconds_instant) simp
  moreover have "0 \<le> instant_of_unix 1700003600" "instant_of_unix 1700003600 < datetime_end"
    by code_simp+
  ultimately show ?thesis
    using ex_assertion_exp
    by (simp add: jwt_claims_def Let_def ex_assertion_expires) (simp add: ex_assertion_def ex_claims_def ethen_def ensure_def)
qed

definition ex_token :: pystr where
  "ex_token = encode_segment [(str ''alg'', JStr (str ''RS256'')), (str ''typ'', JStr (str ''JWT''))] @ [46] @ encode_segment ex_claims @ [46] @ base64_text [1, 2, 3]"

lemma ex_assertion_signed: "sign_jwt_bearer_assertion (\<lambda>b. [1, 2, 3]) ex_assertion = Inr ex_token"
proof -
  have "ja_issuer ex_assertion \<noteq> []" "ja_audience ex_assertion \<noteq> []" "0 < ja_lifetime ex_assertion"
    by code_simp+
  then show ?thesis
    by (simp add: sign_jwt_bearer_assertion_def ex_assertion_claims ex_token_def Let_def)
qed

lemma ex_token_length: "length ex_token \<le> 16384"
  by code_simp

section \<open>A manifest with one refresh grant\<close>

definition ex_mapping :: "string \<Rightarrow> string \<Rightarrow> json" where
  "ex_mapping source credential = JObj [(str ''source'', jtext source), (str ''credential'', jtext credential)]"

definition ex_auth :: jobj where
  "ex_auth = [(str ''fields'', JArr [JObj [(str ''name'', jtext ''accessToken''), (str ''type'', jtext ''secretString'')],
       JObj [(str ''name'', jtext ''refreshToken''), (str ''type'', jtext ''secretString'')]]),
     (str ''oauth2'', JObj [(str ''tokenEndpoint'', jtext ''https://idp.example/token''), (str ''clientIDCredential'', jtext ''clientID''),
       (str ''clientSecretCredential'', jtext ''clientSecret''), (str ''scopes'', JArr [jtext ''mail.read'', jtext ''offline_access'']),
       (str ''credentialMappings'', JArr [ex_mapping ''access_token'' ''accessToken'', ex_mapping ''refresh_token'' ''refreshToken''])])]"

definition ex_fields :: "(pystr, pystr) dict" where
  "ex_fields = [(str ''accessToken'', str ''access_token''), (str ''refreshToken'', str ''refresh_token''),
     (str ''clientID'', str ''client_id''), (str ''clientSecret'', str ''client_secret'')]"

definition ex_manifest :: driver where
  "ex_manifest = \<lparr>dv_provider_name = str ''mail'', dv_auth = ex_auth, dv_fields = ex_fields, dv_settings = []\<rparr>"

definition ex_regex :: regex where
  "ex_regex = \<lparr>rx_compiles = (\<lambda>_. True), rx_fullmatch = (=)\<rparr>"

definition ex_refresh_env :: "int \<Rightarrow> host refresh_env" where
  "ex_refresh_env lifetime = host_refresh_env ascii_unicode ascii_decimal ex_regex (\<lambda>_. None) (\<lambda>_ _. ex_answer_of 200 (ex_granted lifetime))"

lemma ex_manifest_new: "new_driver (ex_refresh_env 3600) (str ''mail'') ex_auth ex_fields True [] = Inr ex_manifest"
  by code_simp

definition ex_credential :: credential where
  "ex_credential = [(str ''access_token'', SecretAttr (str ''at1'')), (str ''refresh_token'', SecretAttr (str ''rt1'')),
     (str ''client_id'', PlainAttr (jtext ''app'')), (str ''client_secret'', SecretAttr (str ''s3cret''))]"

definition ex_state :: "credential refresh_state" where
  "ex_state = \<lparr>rs_credentials = ex_credential, rs_expires_at = None, rs_now = ex_time\<rparr>"

definition ex_idle :: host where
  "ex_idle = \<lparr>host_memory = [], host_clock = dt_instant ex_time, host_tokens = 0, host_calls = 0\<rparr>"

definition ex_refresh :: "int \<Rightarrow> (exc + credential refresh_result) \<times> host" where
  "ex_refresh lifetime = manifest_refresh (ex_refresh_env lifetime) ex_manifest ex_state ex_idle"

lemma ex_refresh_value:
  "fst (ex_refresh 3600) = Inr \<lparr>rr_credentials = [(str ''access_token'', SecretAttr (str ''at2'')), (str ''refresh_token'', SecretAttr (str ''rt2'')),
     (str ''client_id'', PlainAttr (jtext ''app'')), (str ''client_secret'', SecretAttr (str ''s3cret''))],
     rr_expires_at = utc_datetime (dt_instant ex_time + seconds 3600)\<rparr>"
  by code_simp

lemma ex_grants: "(case grants_of (JObj ex_auth) of Inl _ \<Rightarrow> False | Inr gs \<Rightarrow> length gs = 1)"
  by code_simp

section \<open>A connection with an admitted refresh\<close>

definition ex_head_record :: "exc + jobj" where
  "ex_head_record = connection_record_wire ex_scope ex_connection_key 2 2 (str ''REFRESHING'') None (jtext ''oauth'')
     (Some [(str ''key'', JStr (str ''projects/p1/live/connections/mail/bWFpbg/credentials/a1'')), (str ''version'', jtext ''1''),
       (str ''digest'', JStr (replicate 64 97))])
     (Some [(str ''kind'', jtext ''REFRESHING''), (str ''invocationId'', jtext ''i1''), (str ''id'', jtext ''a2''), (str ''fence'', JInt 2),
       (str ''baseRevision'', JInt 1), (str ''deadline'', jtext ''2026-01-02T03:04:45Z''),
       (str ''resultKey'', jtext ''projects/p1/live/connections/mail/bWFpbg/exchange-results/a2'')])"

definition ex_refreshing :: jobj where
  "ex_refreshing = (case ex_head_record of Inl _ \<Rightarrow> [] | Inr d \<Rightarrow> d)"

definition ex_waiting_memory :: memory where
  "ex_waiting_memory = (case go_canonical_json_bytes (JObj ex_refreshing) of
     Inl _ \<Rightarrow> [] | Inr contents \<Rightarrow> snd (mem_append ex_sha256 ex_head contents []))"

definition ex_waiting :: host where
  "ex_waiting = \<lparr>host_memory = ex_waiting_memory, host_clock = dt_instant ex_time, host_tokens = 0, host_calls = 0\<rparr>"

lemma ex_refreshing_head:
  "json_plain (JObj ex_refreshing) \<and> status_is ex_refreshing ''REFRESHING''"
  "is_ok (go_canonical_json_bytes (JObj ex_refreshing))"
  "(case get_or ex_refreshing (str ''mutation'') JNull of
      JObj m \<Rightarrow> (case parse_time (get_or m (str ''deadline'') JNull) of
         Inr (Some t) \<Rightarrow> dt_instant t \<le> dt_instant ex_time + 400 * 100000
       | _ \<Rightarrow> False)
    | _ \<Rightarrow> False)"
  by code_simp+

lemma ex_waiting_clock: "0 \<le> host_clock ex_waiting" "host_clock ex_waiting + 400 * 100000 < datetime_end"
  by code_simp+

lemma ex_waiting_kept: "mem_inv (host_memory ex_waiting)"
proof -
  obtain b where b: "go_canonical_json_bytes (JObj ex_refreshing) = Inr b" using ex_refreshing_head(2) by (auto simp: is_ok_iff)
  have "validate_object_key ex_head = Inr ()" by code_simp
  then show ?thesis
    by (simp add: ex_waiting_def ex_waiting_memory_def b mem_append_def Let_def mem_inv_def numbered_def versions_def split: if_splits)
qed

lemma ex_waiting_read: "\<exists>x. fst (read_record ex_connections ex_connection_key ex_waiting) = Inr (ex_refreshing, x)"
proof -
  obtain b where b: "go_canonical_json_bytes (JObj ex_refreshing) = Inr b" using ex_refreshing_head(2) by (auto simp: is_ok_iff)
  have l: "loads_bytes b = Inr (JObj ex_refreshing)"
    using ex_refreshing_head(1) b by (intro loads_canonical) simp_all
  have k: "validate_object_key ex_head = Inr ()" by code_simp
  have c: "check_record ex_scope ex_connection_key (str ''projects/p1/live/connections/mail/bWFpbg'')
      \<lparr>ob_key = [], ob_version = [1], ob_etag = [1], ob_contents = []\<rparr> ex_refreshing = Inr ()"
    by code_simp
  have "check_record ex_scope ex_connection_key (str ''projects/p1/live/connections/mail/bWFpbg'') x ex_refreshing = Inr ()"
    if "ob_version x \<noteq> []" "ob_etag x \<noteq> []" for x :: obj
    using c that by (simp add: check_record_def check_identity_def Let_def)
  then show ?thesis
    using k l ex_path
    by (simp add: read_record_def ex_connections_def host_reads mem_read_def ex_waiting_def ex_waiting_memory_def b mem_append_def
        Let_def versions_def sbind_def ex_head_def [symmetric] require_object_def)
qed

lemma ex_call_accepted: "validate_provider_call ex_provider ex_call = Inr ()"
  by code_simp

section \<open>A stored credential that the manifest's grant refreshes\<close>

definition ex_mail_envelope :: bytes where
  "ex_mail_envelope = (case ebind (credential_envelope_wire ex_scope ex_connection_key 1
       [(str ''access_token'', jtext ''at1''), (str ''refresh_token'', jtext ''rt1''), (str ''client_id'', jtext ''app''),
        (str ''client_secret'', jtext ''s3cret'')] (Some (PyTime ex_time)) (str ''oauth'') []) (\<lambda>d. go_canonical_json_bytes (JObj d)) of
     Inl _ \<Rightarrow> [] | Inr b \<Rightarrow> b)"

definition ex_mail_key :: pystr where
  "ex_mail_key = str ''projects/p1/live/connections/mail/bWFpbg/credentials/a1''"

definition ex_mail_record :: jobj where
  "ex_mail_record = (case connection_record_wire ex_scope ex_connection_key 1 1 (str ''READY'') (Some (PyTime ex_time)) (jtext ''oauth'')
       (Some [(str ''key'', JStr ex_mail_key), (str ''version'', jtext ''1''), (str ''digest'', JStr (drop 7 (digest_bytes ex_sha256 ex_mail_envelope)))])
       None of
     Inl _ \<Rightarrow> [] | Inr d \<Rightarrow> d)"

definition ex_mail_memory :: memory where
  "ex_mail_memory = (case go_canonical_json_bytes (JObj ex_mail_record) of
     Inl _ \<Rightarrow> [] | Inr b \<Rightarrow> snd (mem_append ex_sha256 ex_head b (snd (mem_append ex_sha256 ex_mail_key ex_mail_envelope []))))"

definition ex_mail_host :: host where
  "ex_mail_host = \<lparr>host_memory = ex_mail_memory, host_clock = dt_instant ex_time, host_tokens = 0, host_calls = 0\<rparr>"

fun ex_attribute :: "json \<Rightarrow> attribute" where
  "ex_attribute (JStr t) = SecretAttr t"
| "ex_attribute j = PlainAttr j"

fun ex_plain :: "attribute \<Rightarrow> json" where
  "ex_plain (SecretAttr t) = JStr t"
| "ex_plain (PlainAttr j) = j"

definition ex_mail_provider :: "(credential, host) project_provider" where
  "ex_mail_provider = \<lparr>pv_store = ex_connections, pv_key = ex_connection_key, pv_decode = (\<lambda>d. Inr (map (map_prod id ex_attribute) d)),
     pv_decode_shared = None, pv_encode = (\<lambda>c. Inr (JObj (map (map_prod id ex_plain) c))), pv_shared = None\<rparr>"

definition ex_mail_round :: "(exc + credential option) \<times> host" where
  "ex_mail_round = refresh_round ex_sha256 host_runtime ex_mail_provider (manifest_driver (ex_refresh_env 3600) ex_manifest) ex_mail_host"

lemma ex_mail_record_plain: "json_plain (JObj ex_mail_record)" "is_ok (go_canonical_json_bytes (JObj ex_mail_record))"
  by code_simp+

lemma ex_mail_kept: "mem_inv ex_mail_memory"
proof -
  obtain b where b: "go_canonical_json_bytes (JObj ex_mail_record) = Inr b" using ex_mail_record_plain(2) by (auto simp: is_ok_iff)
  have i: "mem_inv []" by (simp add: mem_inv_def)
  have k: "validate_object_key ex_mail_key = Inr ()" "validate_object_key ex_head = Inr ()" by code_simp+
  have "mem_inv (snd (mem_append ex_sha256 ex_mail_key ex_mail_envelope []))"
    using mem_append_effect [OF i k(1), of ex_sha256 ex_mail_envelope] by (metis prod.collapse)
  from mem_append_effect [OF this k(2), of ex_sha256 b] show ?thesis
    by (metis (no_types, lifting) b ex_mail_memory_def prod.collapse sum.case(2))
qed

lemma ex_mail_head: "loads_bytes (ob_contents (last (versions ex_mail_memory ex_head))) = Inr (JObj ex_mail_record)"
proof -
  obtain b where b: "go_canonical_json_bytes (JObj ex_mail_record) = Inr b" using ex_mail_record_plain(2) by (auto simp: is_ok_iff)
  have "loads_bytes b = Inr (JObj ex_mail_record)" using ex_mail_record_plain(1) b by (rule loads_canonical)
  then show ?thesis by (simp add: ex_mail_memory_def b mem_append_def Let_def versions_def)
qed

end
