(* ===== verification/Spec2Isabelle.thy ===== *)
theory Spec2Isabelle
  imports ProviderHttp MockExamples OAuthExamples
begin

text \<open>
  \<^bold>\<open>Verification of the Python SDK of the Dex connectors library.\<close>

  The library lets Dex Flows call third-party providers.  A connector declares operations
  (Queries and Mutations), the SDK runs them as Flow Steps with durable identities, the provider
  HTTP layer guards what leaves the process, and the project configuration layer stores
  settings, connections and credentials in a versioned object store.  The theories follow the
  modules of \<open>sdkpython/src/dex_connectors/sdk\<close>; each definition keeps the name of the function
  it translates where Isabelle allows it.

  \<^bold>\<open>Foundations.\<close>  \<open>Prelude\<close> has the error sum \<open>exc + 'a\<close> with its bind, Python's
  exceptions as constructors of \<open>exc\<close>, strings as code points, character classes and ordered
  dictionaries.  \<open>Utf8\<close>, \<open>PyNum\<close>, \<open>PyJson\<close>, \<open>JsonText\<close>, \<open>UrlSplit\<close>, \<open>IpAddress\<close>
  and \<open>IsoDatetime\<close> model what the sources use of the standard library: UTF-8, binary64 and
  timedelta arithmetic, JSON values, \<open>json.dumps\<close> and \<open>json.loads\<close>, \<open>urllib.parse\<close>,
  \<open>ipaddress\<close> and \<open>datetime.fromisoformat\<close>.  \<open>StateExc\<close> is the monad of actions that pass
  a world and may raise.

  \<^bold>\<open>Contracts\<close> (\<open>errors.py\<close>, \<open>timestamps.py\<close>, \<open>retry_policy.py\<close>, \<open>types.py\<close>,
  \<open>configuration_ui.py\<close>).  \<open>Failures\<close>, \<open>Timestamps\<close>, \<open>RetryPolicy\<close>,
  \<open>Identities\<close>, \<open>Definitions\<close>, \<open>Results\<close> and \<open>ConfigurationUI\<close> hold the data types as
  records and datatypes, their validation and their wire forms.  Shown: round trips of the
  wire forms, injectivity of the bytes hashed into a call identity, exact characterisations of
  what validation accepts.

  \<^bold>\<open>Running operations\<close> (\<open>operations.py\<close>, \<open>steps.py\<close>).  \<open>Operations\<close> models
  \<open>run_query\<close> and \<open>run_mutation\<close> over an arbitrary provider operation that may change the
  world; \<open>Steps\<close> the Step factories, options and branch routing, with one locale for what
  both runners promise the Step.  Shown: what a returned result always satisfies, when a
  Mutation may be uncertain, that a Step decides.

  \<^bold>\<open>Single dispatch\<close> (\<open>singledispatch/\<close>).  \<open>SingleDispatch\<close> models the markers, the decision
  and the fence.  Attempts, heartbeats that fail or get lost, and crashes are an inductive
  step relation; an invariant over its reachable states bounds the number of sends.

  \<^bold>\<open>Provider HTTP\<close> (\<open>providerhttp/\<close>).  \<open>AddressPolicy\<close> has the policy table, resolution and
  dialling; \<open>ProviderHttp\<close> query encoding, request traces, client construction, bounded
  bodies, error tokens, Retry-After and base URLs.  DNS, TCP, httpx and the e-mail date parser
  are parameters.

  \<^bold>\<open>Project configuration\<close> (\<open>projectconfig/\<close>).  \<open>ProjectModels\<close> and \<open>ConfigurationWire\<close>
  model \<open>models.py\<close>; \<open>ObjectStorage\<close>, \<open>S3Storage\<close> and \<open>ConfigurationStore\<close> model
  \<open>storage.py\<close>; \<open>Connections\<close>, \<open>RefreshProvider\<close> and \<open>Broker\<close> model
  \<open>connections.py\<close>, \<open>provider.py\<close> and \<open>broker.py\<close>; \<open>Credentials\<close> models
  \<open>credentials.py\<close>.  The contract of a versioned object store is a locale
  (\<open>versioned_store\<close>, extended by \<open>available_store\<close> and \<open>definite_store\<close>); its clients, the
  configuration store, the connection store and the refresh loop (\<open>refresh_world\<close>), are
  verified inside it, and it is interpreted on the in-memory store and on a host that adds a
  clock, random tokens and a count of exchanges.  The S3 client is a parameter: the lemmas on
  it show what the store checks of every answer and that no write is unconditional.

  \<^bold>\<open>Connector mock\<close> (\<open>connectormock/\<close>).  \<open>ConnectorMock\<close> models cases, scripts, scripted
  operations and their answers, the mock Query and Mutation as provider operations, and the
  call report.

  \<^bold>\<open>OAuth tokens\<close> (\<open>oauthtoken/\<close>).  \<open>OAuthToken\<close> models \<open>oauthtoken/__init__.py\<close>: expiry
  skews, scope comparison, client authentication, token endpoints with their three exchanges and
  signed JWT-bearer assertions.  \<open>GrantRules\<close>, \<open>Grants\<close> and \<open>GrantDriver\<close> model
  \<open>manifest_refresh.py\<close>: Go durations and mail addresses, the scan and reading of JWT claims,
  response-URL rules, timeouts and scopes; the grants that a manifest's JSON declares and their
  validation; value sources, the exchange of a grant, scope checks, credential updates and
  expiries of \<open>ManifestCredentialRefreshDriver\<close>.  Dictionaries of the manifest stay JSON values,
  so that a missing member or a member of the wrong type raises what Python raises.
  \<open>RefreshGrants\<close> shows what a refresh changes and how many requests it sends (locale
  \<open>exchange_world\<close>, interpreted on the host of the refresh loop).  \<open>RefreshLoop\<close> shows that
  the loop of \<open>resolve_with_refresh\<close> ends.

  \<^bold>\<open>Parameters.\<close>  SHA-1, SHA-256, Unicode case and decimal tables, the Dex runtime, provider
  operations, S3, HTTP transports, regular expressions, RSA keys, clocks and random tokens are
  arguments of the definitions that use them; hypotheses on them are written in the theorems
  (\<open>is_sha256\<close>, twenty-byte SHA-1 digests, drivers and hosts that count their calls), and
  \<open>Examples\<close>, \<open>ProjectExamples\<close>, \<open>MockExamples\<close> and \<open>OAuthExamples\<close> instantiate them.

  \<^bold>\<open>Fuel.\<close>  The JSON parser takes twice the length of its text, which \<open>parse_value_fuel\<close> shows to be
  enough.  The refresh loop of \<open>resolve_with_refresh\<close> has no bound in the source and takes the
  number of rounds as an argument.  Its termination property shows how many are enough on a store
  that nobody else writes to: each waiting round sleeps a tenth of a second, a lost admission has a
  deadline, and after the deadline two rounds decide.

  \<^bold>\<open>Not modelled.\<close>  Cancellation and the interleaving of coroutines inside one operation: each
  operation is atomic except where the step relation of \<open>SingleDispatch\<close> splits it.  Docstrings,
  type variables, logging and \<open>close\<close> methods.  The lock file and the fixture
  loader of \<open>connectormock\<close>.  Timeouts of a token exchange (\<open>asyncio.timeout\<close>) end it from
  outside; the model has them as a transport that raises.  The modules \<open>textgen\<close>,
  \<open>projectconfig/__init__.py\<close> and \<open>dexweb_store.py\<close>, the connectors themselves, the code
  generator and the other languages.
\<close>

section \<open>Operations and Steps\<close>

text \<open>
  C1. A Query run that returns a result ends in a route the operation declared or in the defect
  route with a local failure, its receipt names the call and its idempotency key, and it never
  selects the uncertain route.
\<close>

theorem query_result_contract:
  assumes "run_query now operation c input w = (Inr r, w')"
  shows "result_sound (op_definition operation) c r \<and> rs_branch r \<noteq> UNCERTAIN_BRANCH_ID"
  using run_query_sound [OF assms] run_query_not_uncertain [OF assms] by blast

theorem query_result_contract_witness:
  "result_sound (op_definition ex_query) ex_call (ex_result ex_call)
     \<and> rs_branch (ex_result ex_call) \<noteq> UNCERTAIN_BRANCH_ID"
  by (rule query_result_contract [OF ex_query_runs [OF ex_call_valid]])







text \<open>
  C5. Over any interleaving of the steps of one call's attempts, with heartbeats that may fail,
  get lost or be stored, the provider request is sent at most once more than the number of
  times the connector proved that a resend is safe.
\<close>

theorem single_dispatch_at_most_once:
  assumes "dispatch_reachable i s"
  shows "ds_sends s \<le> Suc (ds_proofs s)"
  using assms by (rule dispatch_at_most_once)

theorem single_dispatch_at_most_once_witness:
  "ds_sends ex_sent = 1 \<and> ds_proofs ex_sent = 0 \<and> ds_sends ex_sent \<le> Suc (ds_proofs ex_sent)"
  using single_dispatch_at_most_once [OF ex_reachable] by (simp add: ex_sent_def)

text \<open>
  C6. A send is allowed exactly on a first attempt without a checkpoint, or when the checkpoint
  is well formed, belongs to this call and the attempt before it, records no provider identity
  and says the request was not sent or may be sent again.
\<close>

theorem send_allowed_iff:
  assumes "decide_dispatch i attempt previous = Inr d"
  shows "dc_kind d = SEND_ALLOWED \<longleftrightarrow>
    (previous = None \<and> attempt = 1)
    \<or> (\<exists>v m. previous = Some v \<and> read_marker v = Inr m \<and> safe_marker i (attempt - 1) m)"
  using assms by (rule decide_dispatch_send_iff)

theorem send_allowed_iff_witness:
  "(dc_kind ex_allowed = SEND_ALLOWED \<longleftrightarrow>
    (None = (None :: heartbeat_value option) \<and> (1 :: int) = 1)
    \<or> (\<exists>v m. None = Some v \<and> read_marker v = Inr m \<and> safe_marker (call_id ex_call) (1 - 1) m))
   \<and> dc_kind ex_allowed = SEND_ALLOWED"
proof -
  have "decide_dispatch (call_id ex_call) 1 None = Inr ex_allowed"
    using ex_call_id by (simp add: decide_dispatch_def ex_allowed_def ex_call_def)
  from send_allowed_iff [OF this] show ?thesis by (simp add: ex_allowed_def)
qed

section \<open>Provider addresses\<close>




text \<open>
  One refused address among the resolver's answers stops the connection before any dial.
\<close>

theorem refused_answer_stops_dialling:
  assumes "checked_ip host = None" "answers = Inr addresses" "address \<in> set addresses"
    and "refusal_reason address s policy \<noteq> []"
  shows "snd (connect_tcp (\<lambda>h p w. (answers, w)) (recording_dial outcome) policy (Some s) host port []) = []"
  using assms by (rule connect_tcp_refused_no_dial)

theorem refused_answer_stops_dialling_witness:
  "snd (connect_tcp (\<lambda>h p w. (Inr [str ''93.184.216.34'', str ''10.0.0.1''], w))
     (recording_dial (\<lambda>_ _ _. Inr ())) PublicHTTPS (Some (str ''https'')) (str ''example.com'') 443 []) = []"
proof -
  have "checked_ip (str ''example.com'') = None" by code_simp
  moreover have "refusal_reason (str ''10.0.0.1'') (str ''https'') PublicHTTPS \<noteq> []" by code_simp
  ultimately show ?thesis
    by (intro refused_answer_stops_dialling [where address = "str ''10.0.0.1''"
          and addresses = "[str ''93.184.216.34'', str ''10.0.0.1'']"]) auto
qed

section \<open>Identities and wire forms\<close>

text \<open>
  C9. The bytes hashed into a call identity determine the Flow, the Step execution, the connector
  and the operation: two different identities never share a payload.
\<close>

theorem call_identity_payload_injective:
  "inj_on (\<lambda>(flow, step, operation). call_id_payload flow step operation)
     {(flow, step, operation). is_ok (call_id_payload flow step operation)}"
  by (rule inj_onI) (auto simp: is_ok_iff dest: call_id_payload_inj)

text \<open>
  With a SHA-1 that returns twenty bytes, every identity \<open>derive_call_id\<close> returns is a UUID
  that the SDK's own validation accepts.
\<close>

theorem derived_call_id_valid:
  assumes "\<And>m. length (sha1 m) = 20" "\<And>m. list_all (\<lambda>x. x < 256) (sha1 m)"
    and "derive_call_id sha1 flow step operation = Inr i"
  shows "call_id_validate i = Inr ()"
  using assms by (rule derive_call_id_valid)

theorem derived_call_id_valid_witness:
  "\<exists>i. derive_call_id ex_sha1 (str ''flow'') (str ''step-1'') ex_operation_ref = Inr i \<and> call_id_validate i = Inr ()"
proof -
  obtain i where i: "derive_call_id ex_sha1 (str ''flow'') (str ''step-1'') ex_operation_ref = Inr i"
    using ex_derive by blast
  have "call_id_validate i = Inr ()"
    by (rule derived_call_id_valid [OF _ _ i]) (simp_all add: ex_sha1_def list_all_iff)
  with i show ?thesis by blast
qed

text \<open>
  C10. A call that encodes decodes to itself, its connection, operation and idempotency key
  included.
\<close>

theorem call_wire_roundtrip:
  assumes "call_to_wire c = Inr d"
  shows "call_from_wire d = Inr c"
  using assms by (rule call_roundtrip)

theorem call_wire_roundtrip_witness:
  "\<exists>d. call_to_wire ex_keyed_call = Inr d \<and> call_from_wire d = Inr ex_keyed_call"
proof -
  have "\<exists>d. call_to_wire ex_keyed_call = Inr d"
    using ex_call_id ex_ref_valid
    by (simp add: call_to_wire_def ex_keyed_call_def ex_call_def connection_ref_to_wire_def
        connection_ref_validate_def operation_ref_to_wire_def ex_connection_def strip_eq_Nil_iff)
      (simp add: str_def is_space_def)
  then show ?thesis using call_wire_roundtrip by blast
qed



text \<open>
  C12. A result whose receipt carries a canonical timestamp survives its wire form: decoding
  what \<open>to_wire\<close> wrote gives the same Query result back.
\<close>

theorem query_result_wire_roundtrip:
  assumes "receipt_canonical (rs_receipt r)" "rs_value r \<noteq> Some JNull"
    and "optional_failure_validate (rs_failure r) = Inr ()"
    and "query_result (rs_branch r) (rs_value r) (rs_receipt r) (rs_failure r) = Inr r"
  shows "\<exists>w. result_to_wire r = Inr w \<and> result_from_wire query_result w = Inr r"
  using assms by (rule result_roundtrip)

theorem query_result_wire_roundtrip_witness:
  "\<exists>w. result_to_wire ex_wire_result = Inr w \<and> result_from_wire query_result w = Inr ex_wire_result"
proof (rule query_result_wire_roundtrip)
  show "receipt_canonical (rs_receipt ex_wire_result)"
    using ex_call_id ex_stamp by (simp add: ex_wire_result_def receipt_canonical_def ex_call_def defect_receipt_def zero_receipt_def)
qed (simp_all add: ex_wire_result_def optional_failure_validate_def query_result_def UNCERTAIN_BRANCH_ID_def)

text \<open>
  C13. A Mutation attempt passes its own checks exactly when it is what one of the three class
  methods builds from valid parts: a retry with a failure and a finite non-negative delay, a
  branch other than the uncertain one with a receipt, or an uncertain outcome with a failure
  and a receipt.
\<close>

theorem mutation_attempt_shapes:
  "mutation_attempt_check a = Inr () \<longleftrightarrow>
     (\<exists>f d. a = retry_attempt f d \<and> failure_validate f = Inr () \<and> sound_delay d)
     \<or> (\<exists>b v r f. a = branch_attempt b v r f \<and> b \<noteq> [] \<and> b \<noteq> UNCERTAIN_BRANCH_ID
          \<and> optional_failure_validate f = Inr ())
     \<or> (\<exists>v r f. a = uncertain_attempt v f r \<and> failure_validate f = Inr ())"
  by (rule mutation_attempt_check_iff)

text \<open>
  A date-time whose offset is whole minutes survives the RFC 3339 text form.
\<close>

theorem timestamp_roundtrip:
  assumes "datetime_ok t" "dt_offset t = Some z" "minute_offset z"
  shows "\<exists>w. nano_from_datetime t = Inr w \<and> nano_parsed w = Inr t"
  using assms by (rule datetime_roundtrip)

theorem timestamp_roundtrip_witness:
  "\<exists>w. nano_from_datetime ex_time = Inr w \<and> nano_parsed w = Inr ex_time"
  by (rule timestamp_roundtrip [where z = 0])
    (simp_all add: ex_time_def datetime_ok_def date_ok_def days_in_month_def minute_offset_def)

text \<open>
  The sequence numbers a reporter puts on the stream are consecutive from its counter, one for
  each progress value in range, whatever the stream answers.
\<close>

theorem progress_sequence_consecutive:
  "map pu_sequence (snd (report_run (recording outcome) ps (new_reporter i n) [])) =
     [1 .. int (length (filter progress_in_range ps))]"
proof -
  obtain r w where "report_run (recording outcome) ps (new_reporter i n) [] = (r, w)" by fastforce
  from report_run_sequence [OF this] this show ?thesis by (simp add: new_reporter_def)
qed

text \<open>
  C14. The failure reason a Step reports holds the longest prefix of the failure message whose
  UTF-8 encoding has at most 1024 bytes, and is marked exactly when something was cut.
\<close>

theorem failure_reason_bounded:
  assumes "failure_suffix f = Inr s"
  shows "\<exists>k \<le> length (fmessage f). s = str '': '' @ kind_value (fkind f) @ str '': '' @ take k (fmessage f)
           @ (if k < length (fmessage f) then str '' (truncated)'' else [])
         \<and> utf8_len (take k (fmessage f)) \<le> 1024
         \<and> (k < length (fmessage f) \<longrightarrow> 1024 < utf8_len (take (Suc k) (fmessage f)))"
  using assms by (rule failure_suffix_bounded)

theorem failure_reason_bounded_witness:
  "\<exists>k \<le> length (fmessage ex_failure). str '': AVAILABILITY: down'' = str '': '' @ kind_value (fkind ex_failure)
        @ str '': '' @ take k (fmessage ex_failure)
        @ (if k < length (fmessage ex_failure) then str '' (truncated)'' else [])
      \<and> utf8_len (take k (fmessage ex_failure)) \<le> 1024
      \<and> (k < length (fmessage ex_failure) \<longrightarrow> 1024 < utf8_len (take (Suc k) (fmessage ex_failure)))"
proof (rule failure_reason_bounded)
  show "failure_suffix ex_failure = Inr (str '': AVAILABILITY: down'')"
    by (simp add: failure_suffix_def ex_failure_def encode_str_def utf8_encode_def str_def is_scalar_def
        utf8_char_def MAX_REASON_BYTES_def utf8_next_def)
qed

text \<open>
  C15. A configuration-page binding is accepted exactly when its port is an identifier and its
  pointer is the RFC 6901 text of a non-empty path.
\<close>

theorem ui_binding_pointer_syntax:
  "ui_binding_validate b = Inr () \<longleftrightarrow>
     is_identifier (bind_port b) \<and> (\<exists>t ts. bind_json_pointer b = pointer_text (t # ts))"
  by (rule ui_binding_validate_iff)

section \<open>Provider HTTP\<close>



text \<open>
  C17. Decoding an encoded query as form data gives back every key with every of its values, keys
  in byte order and the values of a key in their order.
\<close>

theorem query_encoding_decodes:
  assumes "encode_query_values values = Inr q"
  shows "decode_query q = query_pairs values"
  using assms by (rule encode_query_values_decodes)

theorem query_encoding_decodes_witness:
  "decode_query (str ''a+b=1&a+b=%26&q=%3D'') =
     query_pairs [(str ''q'', Entries [Text (str ''='')]), (str ''a b'', Entries [Text (str ''1''), Text (str ''&'')])]"
  by (rule query_encoding_decodes) code_simp

text \<open>
  Whatever a provider sends as Retry-After, a delay that is returned lies between zero and one
  hour.
\<close>

theorem retry_after_bounded:
  assumes "parse_retry_after parsedate value now = Inr d"
  shows "\<exists>r. d = Fin r \<and> 0 \<le> r \<and> r \<le> of_int MAX_RETRY_AFTER_DELAY_SECONDS"
  using parse_retry_after_bounds [OF assms] by (simp add: MAX_RETRY_AFTER_DELAY_SECONDS_def)

theorem retry_after_bounded_witness:
  "\<exists>r. (Fin 3600 :: pyfloat) = Fin r \<and> 0 \<le> r \<and> r \<le> of_int MAX_RETRY_AFTER_DELAY_SECONDS"
proof (rule retry_after_bounded [of "\<lambda>_. Inl (ValueError [])" "str '' 86400 ''" "Aware 0"])
  have "strip (str '' 86400 '') = str ''86400''" "list_all is_digit (str ''86400'')"
    "int_of_decimal (str ''86400'') = Inr 86400"
    by code_simp+
  then show "parse_retry_after (\<lambda>_. Inl (ValueError [])) (str '' 86400 '') (Aware 0) = Inr (Fin 3600)"
    using fl_delay [of 3600] by (simp add: parse_retry_after_def MAX_RETRY_AFTER_DELAY_SECONDS_def)
qed

text \<open>
  C18. A request is provably unsent exactly when a connection attempt failed and no event of the
  trace started the request headers, in whatever order the events arrive.
\<close>

theorem provably_not_sent_events:
  "provably_not_sent (fold observe es new_trace) \<longleftrightarrow>
     list_ex fails_connect es \<and> \<not> list_ex starts_headers es"
  by (simp add: observe_provably new_trace_def list_ex_iff)

section \<open>Project configuration\<close>



text \<open>
  A secret reference that validates for a scope and a field name validates for no other scope
  and no other name, so a stored secret can never be read under another identity.
\<close>

theorem secret_reference_belongs:
  assumes "validate_secret_reference r s n = Inr ()" "validate_secret_reference r s' n' = Inr ()"
    and "is_environment_name n" "is_environment_name n'"
  shows "s = s' \<and> n = n'"
  using assms by (rule secret_reference_exclusive)

theorem secret_reference_belongs_witness:
  "ex_scope = ex_scope \<and> str ''TOKEN'' = str ''TOKEN''"
  by (rule secret_reference_belongs [of ex_secret_ref]) code_simp+



text \<open>
  C21. A snapshot reference frozen from the in-memory store reads the very document that was current
  when it was frozen, at the frozen revision, whatever is stored afterwards.
\<close>

theorem frozen_snapshot_reads_back:
  assumes "mem_inv w" "new_configuration_store (memory_store sha) s = Inr cs" "is_sha256 sha"
    and "freeze_configuration sha u cs n w = (Inr ref, w1)" "mem_inv w2" "grows (versions w1) (versions w2)"
  shows "\<exists>c w3. read_snapshot sha u cs ref w2 = (Inr c, w3) \<and> conf_revision c = n
    \<and> decode_item u cs (last (versions w (cs_key cs))) = Inr c"
  using assms by (rule memory.frozen_snapshot_stable)

theorem frozen_snapshot_reads_back_witness:
  "\<exists>ref c w3. fst ex_frozen = Inr ref \<and> read_snapshot ex_sha256 ascii_unicode ex_store ref ex_second = (Inr c, w3)
     \<and> conf_revision c = 1 \<and> decode_item ascii_unicode ex_store (last (versions ex_first (cs_key ex_store))) = Inr c"
proof -
  obtain ref where r: "fst ex_frozen = Inr ref" using ex_frozen_ok by (auto simp: is_ok_iff)
  then have "freeze_configuration ex_sha256 ascii_unicode ex_store 1 ex_first = (Inr ref, snd ex_frozen)"
    by (metis ex_frozen_def prod.collapse)
  from frozen_snapshot_reads_back [OF ex_writes_kept(1) ex_store_new ex_sha256_ok this ex_writes_kept(3,4)] r
  show ?thesis by blast
qed

text \<open>
  C22. An application secret written to the in-memory store under a fresh random key is read back
  unchanged through its reference, whatever is stored afterwards.
\<close>

theorem secret_reads_back:
  assumes "mem_inv w" "cs_objects cs = memory_store sha" "is_sha256 sha" "is_hex_text 32 token"
    and "create_application_secret sha cs token name v w = (Inr ref, w1)" "mem_inv w2" "grows (versions w1) (versions w2)"
  shows "\<exists>w3. read_secret_value sha cs ref name w2 = (Inr v, w3)"
proof -
  have "validate_environment_value v = Inr ()" "create_secret sha cs token name v w = (Inr ref, w1)"
    using assms(5) by (auto simp: create_application_secret_def sbind_eq_Inr_iff ethen_eq_Inr_iff split: if_splits)
  then show ?thesis using assms by (intro memory.secret_roundtrip)
qed

theorem secret_reads_back_witness:
  "\<exists>ref w3. fst ex_secret = Inr ref
     \<and> read_secret_value ex_sha256 ex_store ref (str ''TOKEN'') (snd ex_secret) = (Inr (str ''s3cret''), w3)"
proof -
  obtain ref where r: "fst ex_secret = Inr ref" using ex_secret_ok by (auto simp: is_ok_iff)
  then have c: "create_application_secret ex_sha256 ex_store (replicate 32 97) (str ''TOKEN'') (str ''s3cret'') ex_first
      = (Inr ref, snd ex_secret)"
    by (metis ex_secret_def prod.collapse)
  have "\<exists>w3. read_secret_value ex_sha256 ex_store ref (str ''TOKEN'') (snd ex_secret) = (Inr (str ''s3cret''), w3)"
    by (rule secret_reads_back [OF ex_writes_kept(1) _ ex_sha256_ok _ c ex_secret_kept grows_refl])
      (simp add: ex_store_def, code_simp)
  with r show ?thesis by blast
qed



text \<open>
  C24. Every write of the S3 store sends at most one request, and that request is conditional: on
  the absence of the object or on the expected entity tag, never on an empty tag, and encrypted
  with the configured key.
\<close>

theorem s3_writes_are_conditional:
  assumes "store_op \<in> {create_object (s3_object_store get_object (recording_put answer) store) key contents,
      compare_and_swap_object (s3_object_store get_object (recording_put answer) store) key etag contents}"
  shows "\<exists>sent. snd (store_op sofar) = sofar @ sent \<and> length sent \<le> 1
    \<and> (\<forall>q \<in> set sent. put_if q \<in> {IfNoneMatch (str ''*''), IfMatch etag} \<and> put_if q \<noteq> IfMatch []
        \<and> put_body q = contents
        \<and> (s3_kms_key_arn store = [] \<or> put_encryption q = Some (str ''aws:kms'', s3_kms_key_arn store)))"
  using assms by (rule s3_writes_conditional)

theorem s3_writes_are_conditional_witness:
  "\<exists>sent. snd (create_object (s3_object_store (\<lambda>q w. (Inl None, w)) (recording_put (\<lambda>q. Inl None)) ex_bucket) (str ''a'') [1] []) = [] @ sent
    \<and> length sent \<le> 1
    \<and> (\<forall>q \<in> set sent. put_if q \<in> {IfNoneMatch (str ''*''), IfMatch []} \<and> put_if q \<noteq> IfMatch [] \<and> put_body q = [1]
        \<and> (s3_kms_key_arn ex_bucket = [] \<or> put_encryption q = Some (str ''aws:kms'', s3_kms_key_arn ex_bucket)))"
  by (rule s3_writes_are_conditional) (rule insertI1)

section \<open>Connections and their credentials\<close>

text \<open>
  C25. Two connections never share a storage path: the path of a connection determines its connector,
  its name and the project scope.
\<close>

theorem connection_path_injective:
  "inj_on (\<lambda>(k, s). key_path k s) {(k, s). is_ok (key_path k s)}"
  by (rule inj_onI) (auto simp: is_ok_iff dest: key_path_inj)



text \<open>
  One round of the refresh loop sends what one refresh of the driver sends, and only after the
  connection's head was moved from a ready credential to an admitted refresh with the next fence.
\<close>

theorem refresh_needs_admission:
  fixes pv :: "('c, host) project_provider"
  assumes "mem_inv (host_memory w)" "cst_objects (pv_store pv) = host_store sha"
    and "key_path (pv_key pv) (cst_scope (pv_store pv)) = Inr path"
    and "\<And>state v r v'. mem_inv (host_memory v) \<Longrightarrow> driver_refresh driver state v = (r, v') \<Longrightarrow>
       mem_inv (host_memory v') \<and> versions (host_memory v') = versions (host_memory v) \<and> host_calls v' \<le> host_calls v + most"
    and "refresh_round sha host_runtime pv driver w = (r, w')"
    and "\<And>d. loads_bytes (ob_contents (last (versions (host_memory w) (head_key path)))) = Inr (JObj d) \<Longrightarrow> json_plain (JObj d)"
  shows "mem_inv (host_memory w') \<and> (host_calls w' = host_calls w \<or> host_calls w' \<le> host_calls w + most \<and>
    (\<exists>d. loads_bytes (ob_contents (last (versions (host_memory w) (head_key path)))) = Inr (JObj d) \<and> status_is d ''READY''
       \<and> admitted_since path (int_value (get_or d (str ''fence'') JNull) + 1) (versions (host_memory w)) (versions (host_memory w'))))"
proof -
  have "host.counted most driver" using assms(4) unfolding host.counted_def by blast
  from host.refresh_round_dispatch [OF assms(1-3) this assms(5,6)] show ?thesis by blast
qed

theorem refresh_needs_admission_witness:
  "mem_inv (host_memory (snd ex_round)) \<and> (host_calls (snd ex_round) = host_calls ex_host \<or> host_calls (snd ex_round) \<le> host_calls ex_host + 1 \<and>
    (\<exists>d. loads_bytes (ob_contents (last (versions (host_memory ex_host) ex_head))) = Inr (JObj d) \<and> status_is d ''READY''
       \<and> admitted_since (str ''projects/p1/live/connections/mail/bWFpbg'') (int_value (get_or d (str ''fence'') JNull) + 1)
           (versions (host_memory ex_host)) (versions (host_memory (snd ex_round)))))"
  unfolding ex_head_def
proof (rule refresh_needs_admission [where pv = ex_provider and driver = ex_driver and sha = ex_sha256 and r = "fst ex_round" and most = 1])
  show "mem_inv (host_memory ex_host)" using ex_replaced_kept by (simp add: ex_host_def)
  show "cst_objects (pv_store ex_provider) = host_store ex_sha256" by (simp add: ex_provider_def ex_connections_def)
  show "key_path (pv_key ex_provider) (cst_scope (pv_store ex_provider)) = Inr (str ''projects/p1/live/connections/mail/bWFpbg'')"
    using ex_path by (simp add: ex_provider_def ex_connections_def)
  show "refresh_round ex_sha256 host_runtime ex_provider ex_driver ex_host = (fst ex_round, snd ex_round)" by (simp add: ex_round_def)
  show "json_plain (JObj d)"
    if "loads_bytes (ob_contents (last (versions (host_memory ex_host) (head_key (str ''projects/p1/live/connections/mail/bWFpbg''))))) = Inr (JObj d)" for d
    using ex_head_plain that by (simp add: ex_host_def ex_head_def)
qed (auto simp: ex_driver_def)



section \<open>The credential broker\<close>







section \<open>The connector mock\<close>

text \<open>
  C31. The mock replays like a provider: once a call with an idempotency key was answered with
  anything but a retry, every later call with that key, whatever its input and whatever calls came
  in between, gets the same outcome.
\<close>

theorem mock_replays_terminal_outcome:
  assumes "mock_answers h cs s = (rs, s')" "i < j" "j < length cs" "call_key (cs ! i) = call_key (cs ! j)" "call_key (cs ! i) \<noteq> []"
    and "rs ! i = Inr c" "mc_kind c \<noteq> str ''retry''" "rs ! j = Inr c'"
  shows "c' = c"
  using assms by (rule answers_stable)

theorem mock_replays_terminal_outcome_witness:
  "fst (mock_answers ex_mock_host ex_mock_calls (ex_scripted, ())) ! 2 = Inr (case_branch_result (str ''sent'') (Some 1) None)"
proof -
  obtain rs s' where a: "mock_answers ex_mock_host ex_mock_calls (ex_scripted, ()) = (rs, s')"
    by (cases "mock_answers ex_mock_host ex_mock_calls (ex_scripted, ())")
  then have rs: "rs = [Inr (case_branch_result (str ''sent'') (Some 1) None), Inr (case_branch_result (str ''sent'') (Some 2) None),
      Inr (case_branch_result (str ''sent'') (Some 1) None)]"
    using ex_mock_answers by simp
  obtain c' where c': "rs ! 2 = Inr c'" by (simp add: rs)
  have "c' = case_branch_result (str ''sent'') (Some 1) None"
  proof (rule mock_replays_terminal_outcome [OF a, of 0 2])
    show "rs ! 2 = Inr c'" by (rule c')
  qed (simp_all add: ex_mock_calls_def call_key_def rs case_branch_result_def)
  with a c' show ?thesis by simp
qed

text \<open>
  C32. The call report, appended to in place one row at a time, is at any moment one JSON document
  that lists the rows of all recorded calls in their order.
\<close>

theorem call_report_is_document:
  assumes "calls \<noteq> []" "append_rows [] (map to_report_wire calls) = Inr b"
  shows "loads_bytes b = Inr (report_document (map to_report_wire calls))"
  using assms by (rule report_document_loads)

theorem call_report_is_document_witness:
  "\<exists>b. append_rows [] (map to_report_wire [ex_recorded False, ex_recorded True]) = Inr b
     \<and> loads_bytes b = Inr (report_document (map to_report_wire [ex_recorded False, ex_recorded True]))"
proof -
  obtain b where "append_rows [] (map to_report_wire [ex_recorded False, ex_recorded True]) = Inr b"
    using ex_report by (auto simp: is_ok_iff)
  with call_report_is_document [OF _ this] show ?thesis by blast
qed

section \<open>OAuth tokens and manifest grants\<close>

text \<open>
  C33. A refresh exchange that returns a token has sent exactly one request, to the endpoint it was
  configured with, whose URL was found valid; the request is a refresh-token grant with the given
  token, the client secret is in the body or in the Basic header as the client's method says and
  never in both, and the token that is returned has an accepted type and a positive lifetime, or
  no lifetime where the endpoint accepts that.
\<close>

theorem refresh_exchange_contract:
  assumes "exchange_refresh_token u (recording_client answer) te client refresh_token [] = (Inr token, sent)"
  shows "token_sound u te token \<and> (\<exists>request all_parameters. sent = [request] \<and> valid_endpoint_url u te = Inr True
    \<and> tq_url request = te_url te
    \<and> tq_basic request = (if cl_method client = CLIENT_SECRET_BASIC then Some (cl_id client, cl_secret client) else None)
    \<and> (tq_body request = JsonBody all_parameters \<or> (\<exists>t. form_text all_parameters = Inr t \<and> tq_body request = FormBody t))
    \<and> dict_get all_parameters (str ''grant_type'') = Some (str ''refresh_token'')
    \<and> dict_get all_parameters (str ''refresh_token'') = Some refresh_token
    \<and> dict_get all_parameters (str ''client_secret'') =
        (if cl_method client = CLIENT_SECRET_POST then Some (cl_secret client) else None))"
  using assms by (rule refresh_exchange_sound)

theorem refresh_exchange_contract_witness:
  "\<exists>token request. ex_exchange = (Inr token, [request]) \<and> token_sound ascii_unicode ex_endpoint token
     \<and> tq_url request = te_url ex_endpoint \<and> tq_basic request = None"
proof -
  obtain token where t: "ex_exchange = (Inr token, snd ex_exchange)"
    using ex_exchange_ok by (metis is_ok_iff prod.collapse)
  obtain request where r: "snd ex_exchange = [request]" "token_sound ascii_unicode ex_endpoint token"
    "tq_url request = te_url ex_endpoint" "tq_basic request = None"
    using refresh_exchange_contract [OF t [unfolded ex_exchange_def], folded ex_exchange_def] by (auto simp: ex_client_def)
  have "ex_exchange = (Inr token, [request])" using t r(1) by simp
  with r show ?thesis by blast
qed





text \<open>
  C36. The character scan that limits the nesting of a JWT payload accepts a printed JSON value
  exactly when the text has at most 16384 characters and the value is nested at most 128 deep:
  brackets inside strings, escaped quotes and escaped backslashes are never miscounted.
\<close>

theorem jwt_depth_scan_exact:
  "has_bounded_json_depth (print_with escape_ascii j)
     \<longleftrightarrow> length (print_with escape_ascii j) \<le> 16384 \<and> json_depth j \<le> 128"
  by (rule bounded_depth_printed)

text \<open>
  C37. A manifest refresh that succeeds changes only the credential fields that the mappings and
  copies of the selected method's grants name, and neither adds nor removes a field.
\<close>

theorem manifest_refresh_touches_targets:
  assumes "manifest_refresh env dv state w = (Inr r, w')" "selected_method dv (rs_credentials state) = Inr auth_method"
    and "grants_of auth_method = Inr gs" "\<And>g. g \<in> set gs \<Longrightarrow> a \<notin> grant_targets dv g"
  shows "dict_get (rr_credentials r) a = dict_get (rs_credentials state) a
    \<and> set (dict_keys (rr_credentials r)) = set (dict_keys (rs_credentials state))"
  using manifest_refresh_frame [OF assms(1-3)] assms(4) by blast

theorem manifest_refresh_touches_targets_witness:
  "\<exists>r. fst (ex_refresh 3600) = Inr r \<and> dict_get (rr_credentials r) (str ''nickname'') = None
     \<and> set (dict_keys (rr_credentials r)) = set (dict_keys ex_credential)"
proof -
  obtain r where r: "ex_refresh 3600 = (Inr r, snd (ex_refresh 3600))" using ex_refresh_value by (metis prod.collapse)
  obtain gs where gs: "grants_of (JObj ex_auth) = Inr gs" using ex_grants by (auto split: sum.splits)
  have m: "selected_method ex_manifest (rs_credentials ex_state) = Inr (JObj ex_auth)" by code_simp
  have "str ''nickname'' \<notin> grant_targets ex_manifest g" for g
  proof
    assume "str ''nickname'' \<in> grant_targets ex_manifest g"
    then obtain c where "dict_get ex_fields c = Some (str ''nickname'')"
      by (auto simp: grant_targets_def target_attr_def field_attr_def ex_manifest_def split: option.splits if_splits)
    then have "str ''nickname'' \<in> snd ` set ex_fields" by (force dest: map_of_SomeD)
    then show False by (simp add: ex_fields_def str_def)
  qed
  then have "dict_get (rr_credentials r) (str ''nickname'') = dict_get ex_credential (str ''nickname'')"
    "set (dict_keys (rr_credentials r)) = set (dict_keys ex_credential)"
    using manifest_refresh_touches_targets [OF r [unfolded ex_refresh_def] m gs, of "str ''nickname''"] by (simp_all add: ex_state_def)
  moreover have "dict_get ex_credential (str ''nickname'') = None" by code_simp
  moreover have "fst (ex_refresh 3600) = Inr r" using r by (metis fst_conv)
  ultimately show ?thesis by metis
qed

text \<open>
  C38. A refresh loop ends: on a store that nobody else writes to, resolving with a refresh driver
  returns a credential or raises within one round for each tenth of a second to the deadline of
  the admission that the head holds, and two more, whatever the driver and the provider answer.
\<close>

theorem refresh_loop_ends:
  fixes pv :: "('c, host) project_provider"
  assumes "cst_objects (pv_store pv) = host_store sha" "mem_inv (host_memory w)"
    and "0 \<le> host_clock w" "host_clock w + int n * 100000 < datetime_end"
    and "\<And>d x. fst (read_record (pv_store pv) (pv_key pv) w) = Inr (d, x) \<Longrightarrow> json_plain (JObj d)"
    and "\<And>d x t. fst (read_record (pv_store pv) (pv_key pv) w) = Inr (d, x) \<Longrightarrow> has_deadline d t
       \<Longrightarrow> dt_instant t \<le> host_clock w + int n * 100000"
  shows "\<exists>r w'. resolve_with_refresh hash host_runtime pv (n + 2) c driver w = Some (r, w')"
  using assms by (rule resolve_ends)

theorem refresh_loop_ends_witness:
  "validate_provider_call ex_provider ex_call = Inr () \<and> status_is ex_refreshing ''REFRESHING''
   \<and> (\<exists>r w'. resolve_with_refresh ex_sha256 host_runtime ex_provider 402 ex_call (Some ex_driver) ex_waiting = Some (r, w'))"
proof -
  have "\<exists>r w'. resolve_with_refresh ex_sha256 host_runtime ex_provider (400 + 2) ex_call (Some ex_driver) ex_waiting = Some (r, w')"
  proof (rule refresh_loop_ends)
    show "cst_objects (pv_store ex_provider) = host_store ex_sha256" by (simp add: ex_provider_def ex_connections_def)
    show "mem_inv (host_memory ex_waiting)" by (rule ex_waiting_kept)
    show "0 \<le> host_clock ex_waiting" "host_clock ex_waiting + int 400 * 100000 < datetime_end"
      using ex_waiting_clock by simp_all
    fix d x t
    assume "fst (read_record (pv_store ex_provider) (pv_key ex_provider) ex_waiting) = Inr (d, x)"
    then have d: "d = ex_refreshing" using ex_waiting_read by (auto simp: ex_provider_def)
    show "json_plain (JObj d)" using ex_refreshing_head(1) d by simp
    show "dt_instant t \<le> host_clock ex_waiting + int 400 * 100000" if "has_deadline d t"
      using ex_refreshing_head(3) that unfolding d
      by (auto simp: has_deadline_def ex_waiting_def split: json.splits sum.splits option.splits)
  qed
  then show ?thesis using ex_call_accepted ex_refreshing_head(1) by simp
qed

text \<open>
  C39. Manifest grants under the refresh loop: one round of the loop with a manifest driver sends at
  most one token request for each grant of a method, and none before the connection's head was
  moved from a ready credential to an admitted refresh with the next fence.
\<close>

theorem manifest_refresh_admitted:
  fixes pv :: "(credential, host) project_provider"
  assumes "mem_inv (host_memory w)" "cst_objects (pv_store pv) = host_store sha"
    and "key_path (pv_key pv) (cst_scope (pv_store pv)) = Inr path"
    and "\<And>c auth_method gs. selected_method dv c = Inr auth_method \<Longrightarrow> grants_of auth_method = Inr gs \<Longrightarrow> length gs \<le> most"
    and "refresh_round sha host_runtime pv (manifest_driver (host_refresh_env u decimal rx load_pem answer) dv) w = (r, w')"
    and "\<And>d. loads_bytes (ob_contents (last (versions (host_memory w) (head_key path)))) = Inr (JObj d) \<Longrightarrow> json_plain (JObj d)"
  shows "mem_inv (host_memory w') \<and> (host_calls w' = host_calls w \<or> host_calls w' \<le> host_calls w + most \<and>
    (\<exists>d. loads_bytes (ob_contents (last (versions (host_memory w) (head_key path)))) = Inr (JObj d) \<and> status_is d ''READY''
       \<and> admitted_since path (int_value (get_or d (str ''fence'') JNull) + 1) (versions (host_memory w)) (versions (host_memory w'))))"
  using host.refresh_round_dispatch [OF assms(1-3) manifest_driver_counted assms(5,6)] assms(4) by blast

theorem manifest_refresh_admitted_witness:
  "mem_inv (host_memory (snd ex_mail_round)) \<and> (host_calls (snd ex_mail_round) = 0 \<or> host_calls (snd ex_mail_round) \<le> 1 \<and>
    (\<exists>d. loads_bytes (ob_contents (last (versions (host_memory ex_mail_host) ex_head))) = Inr (JObj d) \<and> status_is d ''READY''
       \<and> admitted_since (str ''projects/p1/live/connections/mail/bWFpbg'') (int_value (get_or d (str ''fence'') JNull) + 1)
           (versions (host_memory ex_mail_host)) (versions (host_memory (snd ex_mail_round)))))"
proof -
  let ?path = "str ''projects/p1/live/connections/mail/bWFpbg''"
  have m: "selected_method ex_manifest c = Inr (JObj ex_auth)" for c
    by (simp add: selected_method_def ex_manifest_def ex_auth_def get_or_def str_def)
  have h: "mem_inv (host_memory ex_mail_host)" "cst_objects (pv_store ex_mail_provider) = host_store ex_sha256"
    "key_path (pv_key ex_mail_provider) (cst_scope (pv_store ex_mail_provider)) = Inr ?path"
    using ex_mail_kept ex_path by (simp_all add: ex_mail_host_def ex_mail_provider_def ex_connections_def)
  have one: "length gs \<le> 1" if "selected_method ex_manifest c = Inr auth_method" "grants_of auth_method = Inr gs" for c auth_method gs
    using that ex_grants unfolding m by auto
  have r: "refresh_round ex_sha256 host_runtime ex_mail_provider (manifest_driver (host_refresh_env ascii_unicode ascii_decimal ex_regex
      (\<lambda>_. None) (\<lambda>_ _. ex_answer_of 200 (ex_granted 3600))) ex_manifest) ex_mail_host = (fst ex_mail_round, snd ex_mail_round)"
    by (simp add: ex_mail_round_def ex_refresh_env_def)
  have p: "json_plain (JObj d)"
    if "loads_bytes (ob_contents (last (versions (host_memory ex_mail_host) (head_key ?path)))) = Inr (JObj d)" for d
    using ex_mail_head ex_mail_record_plain(1) that by (simp add: ex_mail_host_def ex_head_def)
  have "host_calls ex_mail_host = 0" by (simp add: ex_mail_host_def)
  with manifest_refresh_admitted [OF h one r p] show ?thesis unfolding ex_head_def by simp
qed



end
